(* ===== verification/Prelude_JF.thy ===== *)
theory Prelude_JF
  imports Main "HOL-Library.Word" "HOL-Library.AList"
begin

text \<open>
  The vocabulary the component theories share: how a C++ call can end, C strings and the
  decimal conversions (\<open>snprintf\<close> with \<open>%d\<close>, \<open>std::atoi\<close>, \<open>std::stoi\<close>), fixed-size
  buffers, and \<open>std::unordered_map\<close> as an association list with distinct keys.
  Two collections carry the component proofs: \<open>run_simps\<close> (sequencing of fallible calls)
  and \<open>text_simps\<close> (printing and parsing of numbers).
\<close>

named_theorems run_simps "sequencing of calls that may block, throw or be undefined"
named_theorems text_simps "printing and parsing of numbers, C strings and buffers"

section \<open>How a call ends\<close>

text \<open>
  A modelled call either returns (\<open>Inr\<close>) or ends in a fault (\<open>Inl\<close>): the thread waits for a
  mutex that it holds itself, a C++ exception leaves the function, or the C++ standard gives
  the execution no meaning (an index out of range, a write past a buffer).
\<close>

datatype fault = BlocksForever | ThrowsException | UndefinedBehaviour

type_synonym 'a run = "fault + 'a"

fun and_then :: "'a run \<Rightarrow> ('a \<Rightarrow> 'b run) \<Rightarrow> 'b run" where
  "and_then (Inl f) k = Inl f"
| "and_then (Inr x) k = k x"

lemma and_then_Inr_iff [run_simps]:
  "and_then m k = Inr y \<longleftrightarrow> (\<exists>x. m = Inr x \<and> k x = Inr y)"
  by (cases m) auto

lemma and_then_Inl_iff [run_simps]:
  "and_then m k = Inl f \<longleftrightarrow> m = Inl f \<or> (\<exists>x. m = Inr x \<and> k x = Inl f)"
  by (cases m) auto

lemma and_then_assoc: "and_then (and_then m k) h = and_then m (\<lambda>x. and_then (k x) h)"
  by (cases m) auto

lemma and_then_cong [fundef_cong]:
  "m = m' \<Longrightarrow> (\<And>x. m' = Inr x \<Longrightarrow> k x = k' x) \<Longrightarrow> and_then m k = and_then m' k'"
  by (cases m') auto

text \<open>\<open>every_result P m\<close>: whatever \<open>m\<close> returns satisfies \<open>P\<close>.\<close>

definition every_result :: "('a \<Rightarrow> bool) \<Rightarrow> 'a run \<Rightarrow> bool" where
  "every_result P m \<longleftrightarrow> (case m of Inl f \<Rightarrow> True | Inr x \<Rightarrow> P x)"

lemma every_result_simps [simp]:
  "every_result P (Inl f)" "every_result P (Inr x) \<longleftrightarrow> P x"
  by (simp_all add: every_result_def)

lemma every_result_and_then:
  "every_result P m \<Longrightarrow> (\<And>x. P x \<Longrightarrow> every_result Q (k x)) \<Longrightarrow> every_result Q (and_then m k)"
  by (cases m) auto

lemma every_resultD: "every_result P m \<Longrightarrow> m = Inr x \<Longrightarrow> P x"
  by simp

section \<open>C strings and buffers\<close>

text \<open>
  A \<open>const char *\<close> is a \<^typ>\<open>string option\<close>: \<^const>\<open>None\<close> is the null pointer. The test
  \<open>!p || p[0] == '\0'\<close> that guards most arguments is \<open>null_or_empty\<close>.
\<close>

type_synonym cstr = "string option"

definition NUL :: char where
  "NUL = CHR 0x00"

text \<open>\<open>std::string::c_str()\<close> as C code reads it: up to the first NUL.\<close>

definition c_str :: "string \<Rightarrow> string" where
  "c_str s = takeWhile (\<lambda>c. c \<noteq> NUL) s"

lemma c_str_id [simp]: "NUL \<notin> set s \<Longrightarrow> c_str s = s"
  unfolding c_str_def takeWhile_eq_all_conv by metis

fun null_or_empty :: "cstr \<Rightarrow> bool" where
  "null_or_empty None = True"
| "null_or_empty (Some s) = (s = [] \<or> hd s = NUL)"

definition or_empty :: "cstr \<Rightarrow> string" where
  "or_empty p = (if null_or_empty p then [] else the p)"

text \<open>
  \<open>snprintf(buf, n, ...)\<close> and the \<open>strncpy\<close>-and-terminate idiom both keep at most \<open>n - 1\<close>
  characters.
\<close>

definition in_buffer :: "nat \<Rightarrow> string \<Rightarrow> string" where
  "in_buffer n s = take (n - 1) s"

lemma length_in_buffer [text_simps]: "0 < n \<Longrightarrow> length (in_buffer n s) < n"
  by (simp add: in_buffer_def)

lemma in_buffer_id [text_simps]: "length s < n \<Longrightarrow> in_buffer n s = s"
  by (simp add: in_buffer_def)

lemma in_buffer_idem [simp]: "in_buffer n (in_buffer n s) = in_buffer n s"
  by (simp add: in_buffer_def)

section \<open>Decimal numbers as text\<close>

definition digit_char :: "nat \<Rightarrow> char" where
  "digit_char d = char_of (48 + d)"

definition is_digit :: "char \<Rightarrow> bool" where
  "is_digit c \<longleftrightarrow> 48 \<le> (of_char c :: nat) \<and> (of_char c :: nat) \<le> 57"

definition digit_value :: "char \<Rightarrow> nat" where
  "digit_value c = of_char c - 48"

fun show_nat :: "nat \<Rightarrow> string" where
  "show_nat n = (if n < 10 then [digit_char n] else show_nat (n div 10) @ [digit_char (n mod 10)])"

declare show_nat.simps [simp del]

definition show_int :: "int \<Rightarrow> string" where
  "show_int i = (if i < 0 then CHR ''-'' # show_nat (nat (- i)) else show_nat (nat i))"

text \<open>
  \<open>std::atoi\<close>: leading white space, one optional sign, then digits up to the first other
  character; no digits give 0.
\<close>

definition is_space :: "char \<Rightarrow> bool" where
  "is_space c \<longleftrightarrow> c = CHR '' '' \<or> (9 \<le> (of_char c :: nat) \<and> (of_char c :: nat) \<le> 13)"

definition read_digits :: "string \<Rightarrow> nat" where
  "read_digits ds = foldl (\<lambda>n c. 10 * n + digit_value c) 0 ds"

definition signed_digits :: "string \<Rightarrow> bool \<times> string" where
  "signed_digits s =
     (case dropWhile is_space s of
        [] \<Rightarrow> (False, [])
      | c # cs \<Rightarrow> if c = CHR ''-'' then (True, takeWhile is_digit cs)
                  else if c = CHR ''+'' then (False, takeWhile is_digit cs)
                  else (False, takeWhile is_digit (c # cs)))"

definition atoi :: "string \<Rightarrow> int" where
  "atoi s = (let (neg, ds) = signed_digits s; n = int (read_digits ds) in if neg then - n else n)"

text \<open>
  \<open>std::stoi\<close> reads the same prefix but throws \<open>invalid_argument\<close> without digits and
  \<open>out_of_range\<close> outside the 32-bit range: \<^const>\<open>None\<close>.
\<close>

definition stoi :: "string \<Rightarrow> int option" where
  "stoi s = (let ds = snd (signed_digits s); i = atoi s
             in if ds = [] \<or> i < - (2 ^ 31) \<or> 2 ^ 31 \<le> i then None else Some i)"

lemma is_digit_digit_char [text_simps]: "d < 10 \<Longrightarrow> is_digit (digit_char d)"
  by (simp add: is_digit_def digit_char_def)

lemma digit_value_digit_char [text_simps]: "d < 10 \<Longrightarrow> digit_value (digit_char d) = d"
  by (simp add: digit_value_def digit_char_def)

lemma show_nat_not_Nil [simp]: "show_nat n \<noteq> []"
  by (subst show_nat.simps) simp

lemma show_nat_digits: "\<forall>c \<in> set (show_nat n). is_digit c"
proof (induction n rule: show_nat.induct)
  case (1 n)
  then show ?case
    by (subst show_nat.simps) (auto simp: text_simps)
qed

lemma read_digits_snoc: "read_digits (ds @ [c]) = 10 * read_digits ds + digit_value c"
  by (simp add: read_digits_def)

lemma read_digits_show_nat [text_simps]: "read_digits (show_nat n) = n"
proof (induction n rule: show_nat.induct)
  case (1 n)
  show ?case
  proof (cases "n < 10")
    case True
    then show ?thesis
      by (subst show_nat.simps) (simp add: read_digits_def text_simps)
  next
    case False
    with "1.IH" have "read_digits (show_nat (n div 10)) = n div 10" by simp
    with False show ?thesis
      by (subst show_nat.simps) (simp add: read_digits_snoc text_simps)
  qed
qed

lemma show_nat_hd_digit: "is_digit (hd (show_nat n))"
  using show_nat_digits [of n] by (cases "show_nat n") auto

lemma takeWhile_show_nat [text_simps]: "takeWhile is_digit (show_nat n) = show_nat n"
  using show_nat_digits [of n] by simp

lemma is_digit_not_sign:
  "is_digit c \<Longrightarrow> c \<noteq> CHR ''-'' \<and> c \<noteq> CHR ''+'' \<and> \<not> is_space c"
  by (auto simp: is_digit_def is_space_def)

lemma signed_digits_show_nat: "signed_digits (show_nat n) = (False, show_nat n)"
proof -
  obtain c cs where eq: "show_nat n = c # cs" by (cases "show_nat n") auto
  have "is_digit c" using show_nat_hd_digit [of n] eq by simp
  then show ?thesis
    using eq takeWhile_show_nat [of n] is_digit_not_sign [of c]
    by (auto simp: signed_digits_def)
qed

lemma signed_digits_show_neg: "signed_digits (CHR ''-'' # show_nat n) = (True, show_nat n)"
  by (simp add: signed_digits_def is_space_def text_simps)

lemma atoi_show_int [text_simps]: "atoi (show_int i) = i"
  by (simp add: atoi_def show_int_def signed_digits_show_nat signed_digits_show_neg text_simps)

lemma stoi_show_int [text_simps]:
  "- (2 ^ 31) \<le> i \<Longrightarrow> i < 2 ^ 31 \<Longrightarrow> stoi (show_int i) = Some i"
  using atoi_show_int [of i]
  by (simp add: stoi_def show_int_def signed_digits_show_nat signed_digits_show_neg Let_def)

lemma show_int_inj [simp]: "show_int i = show_int j \<longleftrightarrow> i = j"
  using atoi_show_int by metis

lemma show_int_not_Nil [simp]: "show_int i \<noteq> []"
  by (simp add: show_int_def)

lemma NUL_show_int [simp]: "NUL \<notin> set (show_int i)"
proof -
  have "\<not> is_digit NUL" by (simp add: is_digit_def NUL_def)
  then have "NUL \<notin> set (show_nat n)" for n using show_nat_digits [of n] by blast
  then show ?thesis by (simp add: show_int_def) (simp add: NUL_def)
qed

section \<open>Searching and splitting strings\<close>

fun starts_with :: "string \<Rightarrow> string \<Rightarrow> bool" where
  "starts_with [] s = True"
| "starts_with (x # xs) [] = False"
| "starts_with (x # xs) (y # ys) = (x = y \<and> starts_with xs ys)"

text \<open>\<open>s.find(needle)\<close>: the least position, or \<open>npos\<close> (\<^const>\<open>None\<close>).\<close>

fun str_find :: "string \<Rightarrow> string \<Rightarrow> nat option" where
  "str_find needle [] = (if needle = [] then Some 0 else None)"
| "str_find needle (c # cs) =
     (if starts_with needle (c # cs) then Some 0 else map_option Suc (str_find needle cs))"

lemma starts_with_iff: "starts_with xs s \<longleftrightarrow> (\<exists>rest. s = xs @ rest)"
  by (induction xs s rule: starts_with.induct) auto

lemma str_find_None: "str_find needle s = None \<longleftrightarrow> (\<forall>us vs. s \<noteq> us @ needle @ vs)"
proof (induction s)
  case Nil
  then show ?case by auto
next
  case (Cons c cs)
  show ?case
    by (auto simp: Cons.IH starts_with_iff Cons_eq_append_conv)
qed

text \<open>Repeated \<open>std::getline(ss, item, d)\<close>: an empty last item is not produced.\<close>

function getline_all :: "char \<Rightarrow> string \<Rightarrow> string list" where
  "getline_all d s =
     (if s = [] then []
      else takeWhile (\<lambda>c. c \<noteq> d) s # getline_all d (drop 1 (dropWhile (\<lambda>c. c \<noteq> d) s)))"
  by pat_completeness auto
termination
proof (relation "measure (\<lambda>(d, s). length s)")
  fix d :: char and s :: string
  assume "s \<noteq> []"
  have "length (dropWhile (\<lambda>c. c \<noteq> d) s) \<le> length s" by (rule length_dropWhile_le)
  with \<open>s \<noteq> []\<close> show "((d, drop 1 (dropWhile (\<lambda>c. c \<noteq> d) s)), d, s) \<in> measure (\<lambda>(d, s). length s)"
    by (cases s) auto
qed simp

declare getline_all.simps [simp del]

section \<open>Hash maps\<close>

text \<open>
  \<open>std::unordered_map\<close> is an association list whose keys are distinct: \<^const>\<open>AList.update\<close> is
  \<open>m[k] = v\<close>, \<^const>\<open>AList.delete\<close> is \<open>m.erase(k)\<close>, \<^const>\<open>map_of\<close> is \<open>m.find(k)\<close>, and the length is
  \<open>m.size()\<close>. The order of the list stands for the unspecified iteration order.
\<close>

definition wf_map :: "('k \<times> 'v) list \<Rightarrow> bool" where
  "wf_map m \<longleftrightarrow> distinct (map fst m)"

lemma wf_map_Nil [simp]: "wf_map []"
  by (simp add: wf_map_def)

lemma wf_map_update [simp]: "wf_map m \<Longrightarrow> wf_map (AList.update k v m)"
  by (simp add: wf_map_def distinct_update)

lemma wf_map_delete [simp]: "wf_map m \<Longrightarrow> wf_map (AList.delete k m)"
  by (simp add: wf_map_def distinct_delete)

lemma map_of_assign [simp]: "map_of (AList.update k v m) = (map_of m)(k \<mapsto> v)"
  by (simp add: update_conv')

lemma map_of_erase [simp]: "map_of (AList.delete k m) = (map_of m)(k := None)"
  by (simp add: delete_conv')

lemma size_dom: "wf_map m \<Longrightarrow> length m = card (dom (map_of m))"
  using distinct_card [of "map fst m"] by (simp add: wf_map_def dom_map_of_conv_image_fst)

section \<open>Counting in a list\<close>

lemma length_filter_update:
  "i < length xs \<Longrightarrow>
   length (filter P (xs[i := y])) + (if P (xs ! i) then 1 else 0)
     = length (filter P xs) + (if P y then 1 else 0)"
proof (induction xs arbitrary: i)
  case (Cons x xs)
  then show ?case by (cases i) auto
qed simp

lemma sum_list_update_nat:
  "i < length xs \<Longrightarrow> sum_list (map f (xs[i := y])) + f (xs ! i) = sum_list (map f xs) + (f y :: nat)"
proof (induction xs arbitrary: i)
  case (Cons x xs)
  then show ?case by (cases i) (auto simp: algebra_simps)
qed simp

section \<open>Transition systems\<close>

text \<open>
  The stateful components are transition systems; what their correctness theorems need is that
  an invariant of the start states that every step keeps holds in every reachable state.
\<close>

locale invariant_system =
  fixes start :: "'s \<Rightarrow> bool"
    and step :: "'s \<Rightarrow> 's \<Rightarrow> bool"
    and inv :: "'s \<Rightarrow> bool"
  assumes inv_start: "start s \<Longrightarrow> inv s"
    and inv_step: "inv s \<Longrightarrow> step s t \<Longrightarrow> inv t"
begin

lemma steps_inv: "step\<^sup>*\<^sup>* s t \<Longrightarrow> inv s \<Longrightarrow> inv t"
  by (induction rule: rtranclp_induct) (auto intro: inv_step)

lemma reachable_inv: "start s \<Longrightarrow> step\<^sup>*\<^sup>* s t \<Longrightarrow> inv t"
  using steps_inv inv_start by blast

end

text \<open>
  A component refines an abstract machine when each of its steps is a step of the machine, or none,
  seen through the abstraction \<open>abs_of\<close>; then its runs are runs of the machine.
\<close>

locale simulation =
  fixes good :: "'s \<Rightarrow> bool"
    and step :: "'s \<Rightarrow> 's \<Rightarrow> bool"
    and abs_of :: "'s \<Rightarrow> 'a"
    and abs_step :: "'a \<Rightarrow> 'a \<Rightarrow> bool"
  assumes good_step: "good s \<Longrightarrow> step s t \<Longrightarrow> good t"
    and sim_step: "good s \<Longrightarrow> step s t \<Longrightarrow> abs_step\<^sup>=\<^sup>= (abs_of s) (abs_of t)"
begin

lemma runs: "step\<^sup>*\<^sup>* s t \<Longrightarrow> good s \<Longrightarrow> good t \<and> abs_step\<^sup>*\<^sup>* (abs_of s) (abs_of t)"
proof (induction rule: rtranclp_induct)
  case (step t u)
  note ih = step.IH [OF step.prems]
  then have "abs_step\<^sup>=\<^sup>= (abs_of t) (abs_of u)" and g: "good u"
    using sim_step [OF _ step.hyps(2)] good_step [OF _ step.hyps(2)] by blast+
  then have "abs_of t = abs_of u \<or> abs_step (abs_of t) (abs_of u)" by auto
  with ih have "abs_step\<^sup>*\<^sup>* (abs_of s) (abs_of u)"
    by (elim disjE conjE) (simp, rule rtranclp.rtrancl_into_rtrancl)
  with g show ?case by simp
qed simp

end

end
