(* ===== verification/Types_JF.thy ===== *)
theory Types_JF
  imports Prelude_JF
begin

text \<open>
  The enumerations and structures every layer shares, from \<open>src/common/constants.h\<close> and
  \<open>src/common/common.h\<close>. Enumerators keep the source's names; an enumerator that two C++ enums
  use takes a prefix. \<open>rc_value\<close> and \<open>rank_value\<close> are \<open>static_cast<int>\<close> of the enums, and the
  ranks are ordered by it (class \<open>linorder\<close>).
\<close>

section \<open>Result codes\<close>

datatype result_code =
    OK
  | AUTH_FAILED | RANK_INSUFFICIENT | SESSION_EXPIRED | JURISDICTION_DENIED
  | NOT_FOUND | ALREADY_EXISTS | INVALID_INPUT | INVALID_ARGUMENT
  | DB_ERROR | FOREIGN_KEY_VIOLATION | FILE_SYSTEM_ERROR
  | INVALID_STATE | DUTY_INACTIVE | RECORD_LOCKED
  | ANALYSIS_FAILED | THRESHOLD_NOT_MET

primrec rc_value :: "result_code \<Rightarrow> int" where
  "rc_value OK = 0"
| "rc_value AUTH_FAILED = 1"
| "rc_value RANK_INSUFFICIENT = 2"
| "rc_value SESSION_EXPIRED = 3"
| "rc_value JURISDICTION_DENIED = 4"
| "rc_value NOT_FOUND = 10"
| "rc_value ALREADY_EXISTS = 11"
| "rc_value INVALID_INPUT = 12"
| "rc_value INVALID_ARGUMENT = 13"
| "rc_value DB_ERROR = 20"
| "rc_value FOREIGN_KEY_VIOLATION = 21"
| "rc_value FILE_SYSTEM_ERROR = 22"
| "rc_value INVALID_STATE = 30"
| "rc_value DUTY_INACTIVE = 31"
| "rc_value RECORD_LOCKED = 32"
| "rc_value ANALYSIS_FAILED = 40"
| "rc_value THRESHOLD_NOT_MET = 41"

section \<open>Officer ranks\<close>

datatype officer_rank =
    CONSTABLE | HEAD_CONSTABLE | ASI | SI | INSPECTOR
  | DSP | SP | SSP | DIG | ADDL_IG | IGP

primrec rank_value :: "officer_rank \<Rightarrow> int" where
  "rank_value CONSTABLE = 0"
| "rank_value HEAD_CONSTABLE = 1"
| "rank_value ASI = 2"
| "rank_value SI = 3"
| "rank_value INSPECTOR = 4"
| "rank_value DSP = 5"
| "rank_value SP = 6"
| "rank_value SSP = 7"
| "rank_value DIG = 8"
| "rank_value ADDL_IG = 9"
| "rank_value IGP = 10"

lemma rank_value_inj: "rank_value a = rank_value b \<Longrightarrow> a = b"
  by (cases a; cases b) simp_all

instantiation officer_rank :: linorder
begin

definition less_eq_officer_rank :: "officer_rank \<Rightarrow> officer_rank \<Rightarrow> bool" where
  "less_eq_officer_rank a b \<longleftrightarrow> rank_value a \<le> rank_value b"

definition less_officer_rank :: "officer_rank \<Rightarrow> officer_rank \<Rightarrow> bool" where
  "less_officer_rank a b \<longleftrightarrow> rank_value a < rank_value b"

instance
  by standard (auto simp: less_eq_officer_rank_def less_officer_rank_def intro: rank_value_inj)

end

section \<open>Status enumerations of the enforcement, forensic and case layers\<close>

datatype custody_status = IN_CUSTODY | BAIL_GRANTED | REMANDED | RELEASED | ESCAPED

datatype warrant_type = ARREST | SEARCH | SEIZURE

datatype bail_type = REGULAR | ANTICIPATORY | INTERIM | SURETY

datatype charge_sheet_status =
  DRAFT | FILED | SUBMITTED_TO_COURT | ACCEPTED_BY_COURT | REJECTED_BY_COURT

datatype sheet_type = ORIGINAL | SUPPLEMENTARY

datatype evidence_type = PHYSICAL | DIGITAL | TESTIMONIAL | FORENSIC | DOCUMENTARY

datatype evidence_status =
  RECEIVED | SEALED | SENT_TO_LAB | RETURNED_FROM_LAB | PRODUCED_IN_COURT | DISPOSED

section \<open>The session context\<close>

record session_context =
  sc_officerId :: int
  sc_cnic :: string
  sc_rank :: officer_rank
  sc_stationId :: int
  sc_belt_number :: string
  sc_createdAt :: int
  sc_expiresAt :: int
  sc_isValid :: bool
  sc_sessionToken :: string

text \<open>\<open>SessionContext session = {};\<close> value-initialises every field.\<close>

definition empty_session :: session_context where
  "empty_session = \<lparr>sc_officerId = 0, sc_cnic = [], sc_rank = CONSTABLE, sc_stationId = 0,
     sc_belt_number = [], sc_createdAt = 0, sc_expiresAt = 0, sc_isValid = False,
     sc_sessionToken = []\<rparr>"

end
