(* ===== verification/Db_Socket.thy ===== *)
theory Db_Socket
  imports Types_JF
begin

text \<open>
  The PostgreSQL access of the process: \<open>ipc::UnixSocket\<close>
  (\<open>src/os_layer/ipc/src/unix_socket.cpp\<close>) and the members of \<open>ipc::IpcManager\<close> that delegate to
  it (\<open>ipc_manager.cpp\<close>). libpq is not part of the repository: it is the parameter \<open>lib\<close>, a record
  of the functions the code calls, over an abstract connection type.

  The socket's mutex is created with default attributes, so it is neither recursive nor error
  checking: a thread that locks it twice waits for itself. The model follows one thread, and
  \<open>us_held\<close> says that this thread holds the mutex. The interface the other components rely on is
  the locale \<open>query_service\<close>: a query issued while the mutex is free returns and leaves it free.
\<close>

section \<open>libpq\<close>

datatype pg_result =
    CommandOk nat                 \<comment> \<open>\<open>PGRES_COMMAND_OK\<close>, with \<open>PQcmdTuples\<close>\<close>
  | TuplesOk "string list list"   \<comment> \<open>\<open>PGRES_TUPLES_OK\<close>; \<open>PQgetvalue\<close> of an SQL NULL is empty\<close>
  | ResultError                   \<comment> \<open>every other status\<close>

record 'c libpq =
  PQconnectdb :: "string \<Rightarrow> 'c option"
  PQstatus_ok :: "'c \<Rightarrow> bool"
  PQexec :: "'c \<Rightarrow> string \<Rightarrow> pg_result \<times> 'c"
  PQexecParams :: "'c \<Rightarrow> string \<Rightarrow> cstr list \<Rightarrow> pg_result \<times> 'c"

section \<open>UnixSocket\<close>

record 'c unix_socket =
  us_held :: bool
  us_conn :: "'c option"
  us_conn_string :: string

definition acquireLock :: "'c unix_socket \<Rightarrow> 'c unix_socket run" where
  "acquireLock us = (if us_held us then Inl BlocksForever else Inr (us\<lparr>us_held := True\<rparr>))"

definition releaseLock :: "'c unix_socket \<Rightarrow> 'c unix_socket run" where
  "releaseLock us = (if us_held us then Inr (us\<lparr>us_held := False\<rparr>) else Inl UndefinedBehaviour)"

definition connect :: "'c libpq \<Rightarrow> 'c unix_socket \<Rightarrow> result_code \<times> 'c unix_socket" where
  "connect lib us =
     (case PQconnectdb lib (c_str (us_conn_string us)) of
        None \<Rightarrow> (DB_ERROR, us\<lparr>us_conn := None\<rparr>)
      | Some c \<Rightarrow>
          if PQstatus_ok lib c then (OK, us\<lparr>us_conn := Some c\<rparr>)
          else (DB_ERROR, us\<lparr>us_conn := None\<rparr>))"

definition disconnect :: "'c unix_socket \<Rightarrow> 'c unix_socket run" where
  "disconnect us = and_then (acquireLock us) (\<lambda>us. releaseLock (us\<lparr>us_conn := None\<rparr>))"

definition isHealthy :: "'c libpq \<Rightarrow> 'c unix_socket \<Rightarrow> (bool \<times> 'c unix_socket) run" where
  "isHealthy lib us =
     and_then (acquireLock us) (\<lambda>us.
       let healthy = (case us_conn us of None \<Rightarrow> False | Some c \<Rightarrow> PQstatus_ok lib c)
       in and_then (releaseLock us) (\<lambda>us. Inr (healthy, us)))"

definition execute ::
  "'c libpq \<Rightarrow> string \<Rightarrow> 'c unix_socket
     \<Rightarrow> (result_code \<times> string list list \<times> 'c unix_socket) run" where
  "execute lib query us =
     and_then (acquireLock us) (\<lambda>us.
       case us_conn us of
         None \<Rightarrow> and_then (releaseLock us) (\<lambda>us. Inr (DB_ERROR, [], us))
       | Some c \<Rightarrow>
           if \<not> PQstatus_ok lib c
           then and_then (releaseLock us) (\<lambda>us. Inr (DB_ERROR, [], us))
           else
             let (res, c') = PQexec lib c (c_str query); us' = us\<lparr>us_conn := Some c'\<rparr>
             in case res of
                  ResultError \<Rightarrow> and_then (releaseLock us') (\<lambda>us. Inr (DB_ERROR, [], us))
                | CommandOk n \<Rightarrow> and_then (releaseLock us') (\<lambda>us. Inr (OK, [], us))
                | TuplesOk rows \<Rightarrow> and_then (releaseLock us') (\<lambda>us. Inr (OK, rows, us)))"

definition us_lock :: "'c unix_socket \<Rightarrow> (result_code \<times> 'c unix_socket) run" where
  "us_lock us = and_then (acquireLock us) (\<lambda>us. Inr (OK, us))"

definition us_unlock :: "'c unix_socket \<Rightarrow> (result_code \<times> 'c unix_socket) run" where
  "us_unlock us = and_then (releaseLock us) (\<lambda>us. Inr (OK, us))"

lemmas lock_defs = acquireLock_def releaseLock_def us_lock_def us_unlock_def

section \<open>IpcManager: the database members\<close>

definition executeQuery ::
  "'c libpq \<Rightarrow> string \<Rightarrow> 'c unix_socket
     \<Rightarrow> (result_code \<times> string list list \<times> 'c unix_socket) run" where
  "executeQuery lib query us = execute lib query us"

definition getConnection :: "'c unix_socket \<Rightarrow> 'c option" where
  "getConnection us = us_conn us"

definition lockDb :: "'c unix_socket \<Rightarrow> (result_code \<times> 'c unix_socket) run" where
  "lockDb us = us_lock us"

definition unlockDb :: "'c unix_socket \<Rightarrow> (result_code \<times> 'c unix_socket) run" where
  "unlockDb us = us_unlock us"

lemmas ipc_db_defs = executeQuery_def getConnection_def lockDb_def unlockDb_def

section \<open>What the mutex does to a query\<close>

lemma execute_held [run_simps]: "us_held us \<Longrightarrow> execute lib q us = Inl BlocksForever"
  by (simp add: execute_def lock_defs)

lemma execute_free:
  assumes "\<not> us_held us"
  obtains rc rows us' where "execute lib q us = Inr (rc, rows, us')" "\<not> us_held us'"
    "rc = OK \<or> rc = DB_ERROR" "rc \<noteq> OK \<Longrightarrow> rows = []"
proof (cases "us_conn us")
  case None
  with assms that show ?thesis by (simp add: execute_def lock_defs)
next
  case (Some c)
  then show ?thesis
    using assms that
    by (cases "PQstatus_ok lib c"; cases "PQexec lib c (c_str q)"; cases "fst (PQexec lib c (c_str q))")
      (auto simp: execute_def lock_defs)
qed

lemma connect_held [simp]: "us_held (snd (connect lib us)) = us_held us"
  by (simp add: connect_def split: option.splits)

text \<open>A healthy socket answers with the rows libpq delivers.\<close>

lemma execute_rows:
  "\<not> us_held us \<Longrightarrow> us_conn us = Some c \<Longrightarrow> PQstatus_ok lib c \<Longrightarrow>
   PQexec lib c (c_str q) = (TuplesOk rows, c') \<Longrightarrow>
   execute lib q us = Inr (OK, rows, us\<lparr>us_conn := Some c', us_held := False\<rparr>)"
  by (simp add: execute_def lock_defs)

section \<open>The interface of the query service\<close>

text \<open>
  What the session store, the duty cache, the worker and the managers of the case layer rely on:
  a query issued in a \<open>ready\<close> state returns, with a result code, and leaves the state ready.
\<close>

locale query_service =
  fixes exec :: "string \<Rightarrow> 's \<Rightarrow> (result_code \<times> string list list \<times> 's) run"
    and ready :: "'s \<Rightarrow> bool"
  assumes exec_returns:
    "ready s \<Longrightarrow> \<exists>rc rows s'. exec q s = Inr (rc, rows, s') \<and> ready s'"
begin

lemma exec_obtain:
  assumes "ready s"
  obtains rc rows s' where "exec q s = Inr (rc, rows, s')" "ready s'"
  using exec_returns [OF assms, of q] by blast

lemma exec_then:
  assumes "ready s"
    and "\<And>rc rows s'. exec q s = Inr (rc, rows, s') \<Longrightarrow> ready s' \<Longrightarrow> \<exists>y. k (rc, rows, s') = Inr y \<and> P y"
  shows "\<exists>y. and_then (exec q s) k = Inr y \<and> P y"
proof -
  obtain rc rows s' where e: "exec q s = Inr (rc, rows, s')" "ready s'"
    using assms(1) by (rule exec_obtain)
  then show ?thesis using assms(2) [OF e] by simp
qed

end

interpretation ipc: query_service "executeQuery lib" "\<lambda>us. \<not> us_held us" for lib :: "'c libpq"
proof unfold_locales
  fix us :: "'c unix_socket" and q
  assume "\<not> us_held us"
  then show "\<exists>rc rows us'. executeQuery lib q us = Inr (rc, rows, us') \<and> \<not> us_held us'"
    by (metis execute_free executeQuery_def)
qed

end
