(* ===== verification/Auth.thy ===== *)
theory Auth
  imports Db_Socket
begin

text \<open>
  Authentication (\<open>src/system/shr_infra/auth\<close>): the session map with its write-behind SQL
  (\<open>session_store.cpp\<close>), the duty-status cache (\<open>duty_cache.cpp\<close>), the UUID tokens
  (\<open>token_generator.cpp\<close>) and the manager that ties them together (\<open>auth_manager.cpp\<close>).

  The clock \<open>time(nullptr)\<close>, the bytes of \<open>/dev/urandom\<close> and the environment are arguments; the
  query function \<open>exec\<close> of the shared \<open>IpcManager\<close> is the one of \<open>Db_Socket\<close> or any other that
  meets the locale \<open>query_service\<close>. Locks that are taken and released inside one operation are
  not state; every operation is one step.
\<close>

section \<open>SessionStore\<close>

type_synonym session_map = "(string \<times> session_context) list"

type_synonym 's query_fun = "string \<Rightarrow> 's \<Rightarrow> (result_code \<times> string list list \<times> 's) run"

definition HARD_EXPIRY_SECONDS :: int where
  "HARD_EXPIRY_SECONDS = 8 * 3600"

definition store_isExpired :: "int \<Rightarrow> session_context \<Rightarrow> bool" where
  "store_isExpired now session \<longleftrightarrow> sc_expiresAt session \<le> now"

text \<open>The three statements the store writes behind the map, as \<open>snprintf\<close> builds them.\<close>

definition insert_query :: "session_context \<Rightarrow> string" where
  "insert_query session = in_buffer 512
     (''INSERT INTO sessions (token, officer_id, login_timestamp, expires_at, ''
      @ ''last_active_at, is_active) VALUES ('' @ [CHR 0x27] @ sc_sessionToken session
      @ [CHR 0x27] @ '', '' @ show_int (sc_officerId session)
      @ '', '' @ show_int (sc_createdAt session) @ '', '' @ show_int (sc_expiresAt session)
      @ '', '' @ show_int (sc_createdAt session) @ '', true)'')"

definition refresh_query :: "int \<Rightarrow> string \<Rightarrow> string" where
  "refresh_query now token = in_buffer 512
     (''UPDATE sessions SET last_active_at = '' @ show_int now
      @ '' WHERE token = '' @ [CHR 0x27] @ token @ [CHR 0x27])"

definition remove_query :: "int \<Rightarrow> string \<Rightarrow> string" where
  "remove_query now token = in_buffer 512
     (''UPDATE sessions SET is_active = false, logout_timestamp = '' @ show_int now
      @ '' WHERE token = '' @ [CHR 0x27] @ token @ [CHR 0x27])"

text \<open>A failed write-behind is logged and otherwise ignored.\<close>

definition store_insert ::
  "'s query_fun \<Rightarrow> session_context \<Rightarrow> session_map \<Rightarrow> 's \<Rightarrow> (result_code \<times> session_map \<times> 's) run" where
  "store_insert exec session m ipc =
     (let m' = AList.update (sc_sessionToken session) session m
      in and_then (exec (insert_query session) ipc) (\<lambda>(db_result, results, ipc').
           Inr (OK, m', ipc')))"

definition store_validate ::
  "int \<Rightarrow> string \<Rightarrow> session_map \<Rightarrow> session_context \<Rightarrow> result_code \<times> session_context" where
  "store_validate now token m out_session =
     (case map_of m token of
        None \<Rightarrow> (NOT_FOUND, out_session)
      | Some s \<Rightarrow> if store_isExpired now s then (SESSION_EXPIRED, out_session) else (OK, s))"

definition store_refresh ::
  "'s query_fun \<Rightarrow> int \<Rightarrow> string \<Rightarrow> session_map \<Rightarrow> 's \<Rightarrow> (result_code \<times> session_map \<times> 's) run" where
  "store_refresh exec now token m ipc =
     (case map_of m token of
        None \<Rightarrow> Inr (NOT_FOUND, m, ipc)
      | Some s \<Rightarrow>
          if sc_expiresAt s \<le> now then Inr (SESSION_EXPIRED, m, ipc)
          else
            and_then (exec (refresh_query now token) ipc) (\<lambda>(db_result, results, ipc').
              Inr (OK, m, ipc')))"

definition store_remove ::
  "'s query_fun \<Rightarrow> int \<Rightarrow> string \<Rightarrow> session_map \<Rightarrow> 's \<Rightarrow> (result_code \<times> session_map \<times> 's) run" where
  "store_remove exec now token m ipc =
     (case map_of m token of
        None \<Rightarrow> Inr (NOT_FOUND, m, ipc)
      | Some s \<Rightarrow>
          let m' = AList.delete token m
          in and_then (exec (remove_query now token) ipc) (\<lambda>(db_result, results, ipc').
               Inr (OK, m', ipc')))"

definition store_getActiveCount :: "session_map \<Rightarrow> int" where
  "store_getActiveCount m = int (length m)"

lemmas store_defs = store_insert_def store_validate_def store_refresh_def store_remove_def
  store_isExpired_def

section \<open>DutyCache\<close>

record duty_entry =
  de_is_active :: bool
  de_cached_at :: int
  de_status :: string

type_synonym duty_cache = "(int \<times> duty_entry) list"

definition TTL_SECONDS :: int where
  "TTL_SECONDS = 5 * 60"

definition duty_query :: "int \<Rightarrow> string" where
  "duty_query officer_id = in_buffer 256
     (''SELECT status FROM officers WHERE officer_id = '' @ show_int officer_id)"

definition queryDutyStatus ::
  "'s query_fun \<Rightarrow> int \<Rightarrow> bool \<Rightarrow> 's \<Rightarrow> (result_code \<times> bool \<times> 's) run" where
  "queryDutyStatus exec officer_id out_active ipc =
     and_then (exec (duty_query officer_id) ipc) (\<lambda>(db_result, results, ipc').
       if db_result \<noteq> OK then Inr (DB_ERROR, out_active, ipc')
       else case results of
              [] \<Rightarrow> Inr (NOT_FOUND, out_active, ipc')
            | [] # _ \<Rightarrow> Inr (NOT_FOUND, out_active, ipc')
            | (duty_str # _) # _ \<Rightarrow>
                Inr (OK, duty_str = ''true'' \<or> duty_str = ''t'' \<or> duty_str = ''1'', ipc'))"

text \<open>The miss path of \<open>DutyCache::check\<close>: query, and store the answer when there is one.\<close>

definition duty_refresh ::
  "'s query_fun \<Rightarrow> int \<Rightarrow> int \<Rightarrow> bool \<Rightarrow> duty_cache \<Rightarrow> 's
     \<Rightarrow> (result_code \<times> bool \<times> duty_cache \<times> 's) run" where
  "duty_refresh exec now officer_id out_active cache ipc =
     and_then (queryDutyStatus exec officer_id out_active ipc) (\<lambda>(result, out_active, ipc').
       if result = OK then
         let entry = \<lparr>de_is_active = out_active, de_cached_at = now,
                      de_status = (if out_active then ''ON_DUTY'' else ''OFF_DUTY'')\<rparr>
         in Inr (result, out_active, AList.update officer_id entry cache, ipc')
       else Inr (result, out_active, cache, ipc'))"

definition duty_check ::
  "'s query_fun \<Rightarrow> int \<Rightarrow> int \<Rightarrow> bool \<Rightarrow> duty_cache \<Rightarrow> 's
     \<Rightarrow> (result_code \<times> bool \<times> duty_cache \<times> 's) run" where
  "duty_check exec now officer_id out_active cache ipc =
     (case map_of cache officer_id of
        None \<Rightarrow> duty_refresh exec now officer_id out_active cache ipc
      | Some e \<Rightarrow>
          if now - de_cached_at e < TTL_SECONDS then Inr (OK, de_is_active e, cache, ipc)
          else duty_refresh exec now officer_id out_active cache ipc)"

definition duty_invalidate :: "int \<Rightarrow> duty_cache \<Rightarrow> duty_cache" where
  "duty_invalidate officer_id cache = AList.delete officer_id cache"

definition duty_getCacheSize :: "duty_cache \<Rightarrow> int" where
  "duty_getCacheSize cache = int (length cache)"

lemmas duty_defs = duty_check_def duty_refresh_def queryDutyStatus_def

section \<open>Token generation\<close>

definition hex_char :: "8 word \<Rightarrow> char" where
  "hex_char w = (if unat w < 10 then char_of (48 + unat w) else char_of (87 + unat w))"

definition hex2 :: "8 word \<Rightarrow> string" where
  "hex2 b = [hex_char (drop_bit 4 b), hex_char (and b 0x0f)]"

definition uuid_bits :: "8 word list \<Rightarrow> 8 word list" where
  "uuid_bits bs = bs[6 := or (and (bs ! 6) 0x0f) 0x40, 8 := or (and (bs ! 8) 0x3f) 0x80]"

definition uuid_format :: "8 word list \<Rightarrow> string" where
  "uuid_format bs =
     concat (map hex2 (take 4 bs)) @ ''-'' @ concat (map hex2 (take 2 (drop 4 bs))) @ ''-''
     @ concat (map hex2 (take 2 (drop 6 bs))) @ ''-'' @ concat (map hex2 (take 2 (drop 8 bs)))
     @ ''-'' @ concat (map hex2 (take 6 (drop 10 bs)))"

text \<open>
  \<open>generate()\<close>: the argument is what reading 16 bytes of \<open>/dev/urandom\<close> delivers, \<^const>\<open>None\<close> when
  the device does not open.
\<close>

definition generate :: "8 word list option \<Rightarrow> string" where
  "generate urandom =
     (case urandom of
        None \<Rightarrow> []
      | Some bs \<Rightarrow> if length bs \<noteq> 16 then [] else uuid_format (uuid_bits bs))"

section \<open>AuthManager\<close>

record ('s, 'c) auth_manager =
  am_session_store :: session_map
  am_duty_cache :: duty_cache
  am_ipc :: 's
  am_db_connection :: "'c unix_socket"

definition parseOfficerRank :: "string \<Rightarrow> officer_rank option" where
  "parseOfficerRank r =
     (if r = ''CONSTABLE'' then Some CONSTABLE
      else if r = ''INSPECTOR'' then Some INSPECTOR
      else if r = ''SI'' then Some SI
      else if r = ''DSP'' then Some DSP
      else None)"

definition is_cntrl :: "char \<Rightarrow> bool" where
  "is_cntrl c \<longleftrightarrow> (of_char c :: nat) < 32 \<or> (of_char c :: nat) = 127"

text \<open>\<open>strchr(danger, c)\<close> also finds the terminating NUL of \<open>danger\<close>.\<close>

definition isRejectedCredentialInput :: "string \<Rightarrow> string \<Rightarrow> bool" where
  "isRejectedCredentialInput cnic password \<longleftrightarrow>
     (\<exists>c \<in> set cnic. c \<in> {CHR 0x27, CHR 0x22, CHR '';'', CHR 0x5C, NUL})
     \<or> str_find ''--'' cnic \<noteq> None \<or> str_find ''/*'' cnic \<noteq> None
     \<or> (\<exists>c \<in> set password. is_cntrl c)"

definition fallback_pair_matches :: "string \<Rightarrow> string \<Rightarrow> string \<Rightarrow> bool" where
  "fallback_pair_matches cnic password pair =
     (case str_find ''='' pair of
        None \<Rightarrow> False
      | Some pos \<Rightarrow> take pos pair = cnic \<and> drop (pos + 1) pair = password)"

definition authenticateFallbackUser ::
  "cstr \<Rightarrow> 8 word list option \<Rightarrow> int \<Rightarrow> string \<Rightarrow> string \<Rightarrow> session_context
     \<Rightarrow> session_context option" where
  "authenticateFallbackUser env urandom now cnic password out_session =
     (if null_or_empty env then None
      else if \<not> list_ex (fallback_pair_matches cnic password) (getline_all CHR '';'' (the env)) then None
      else let token = generate urandom in
        if token = [] then None
        else Some (out_session\<lparr>sc_officerId := 1, sc_cnic := cnic, sc_rank := SI, sc_stationId := 1,
               sc_createdAt := now, sc_expiresAt := now + 8 * 3600, sc_isValid := True,
               sc_sessionToken := token\<rparr>))"

definition LOGIN_SQL :: string where
  "LOGIN_SQL = ''SELECT officer_id, current_rank, station_id FROM officers ''
     @ ''WHERE cnic = $1 AND crypt($2, password_hash) = password_hash''"

text \<open>The login query itself, under the private connection's mutex.\<close>

definition login_on ::
  "'c libpq \<Rightarrow> 'c \<Rightarrow> string \<Rightarrow> string \<Rightarrow> 'c unix_socket
     \<Rightarrow> (result_code \<times> string list list \<times> 'c unix_socket) run" where
  "login_on lib c cnic password us =
     and_then (us_lock us) (\<lambda>(lock_result, us).
       let (res, c') = PQexecParams lib c LOGIN_SQL [Some cnic, Some password]
       in and_then (us_unlock (us\<lparr>us_conn := Some c'\<rparr>)) (\<lambda>(unlock_result, us).
            Inr (case res of TuplesOk rows \<Rightarrow> (OK, rows, us) | _ \<Rightarrow> (DB_ERROR, [], us))))"

text \<open>Reconnect when unhealthy, then query if there is a connection.\<close>

definition login_query ::
  "'c libpq \<Rightarrow> string \<Rightarrow> string \<Rightarrow> 'c unix_socket
     \<Rightarrow> (result_code \<times> string list list \<times> 'c unix_socket) run" where
  "login_query lib cnic password us =
     and_then (isHealthy lib us) (\<lambda>(healthy, us).
       let us = (if healthy then us else snd (connect lib us))
       in case us_conn us of
            None \<Rightarrow> Inr (DB_ERROR, [], us)
          | Some c \<Rightarrow> login_on lib c cnic password us)"

definition session_of_row ::
  "8 word list option \<Rightarrow> int \<Rightarrow> string \<Rightarrow> string list \<Rightarrow> session_context
     \<Rightarrow> (result_code \<times> session_context) run" where
  "session_of_row urandom now cnic row out_session =
     (case stoi (row ! 0) of
        None \<Rightarrow> Inl ThrowsException
      | Some officer_id \<Rightarrow>
          if length row < 2 then Inl UndefinedBehaviour
          else case parseOfficerRank (row ! 1) of
            None \<Rightarrow> Inr (INVALID_STATE, out_session)
          | Some officer_rank \<Rightarrow>
              let token = generate urandom in
              if token = [] then Inr (INVALID_STATE, out_session)
              else case (if 2 < length row then stoi (row ! 2) else Some 0) of
                None \<Rightarrow> Inl ThrowsException
              | Some station_id \<Rightarrow>
                  Inr (OK, out_session\<lparr>sc_sessionToken := token, sc_officerId := officer_id,
                    sc_rank := officer_rank, sc_cnic := cnic, sc_stationId := station_id,
                    sc_createdAt := now, sc_expiresAt := now + 8 * 3600, sc_isValid := True\<rparr>))"

text \<open>\<open>insert\<close> of a granted session, the common end of both ways to log in.\<close>

definition grant_session ::
  "'s query_fun \<Rightarrow> session_context \<Rightarrow> ('s, 'c) auth_manager
     \<Rightarrow> (result_code \<times> session_context \<times> ('s, 'c) auth_manager) run" where
  "grant_session exec s am =
     and_then (store_insert exec s (am_session_store am) (am_ipc am))
       (\<lambda>(rc, m, ipc). Inr (rc, s, am\<lparr>am_session_store := m, am_ipc := ipc\<rparr>))"

text \<open>What \<open>login\<close> does with the answer of the login query.\<close>

definition login_decide ::
  "'s query_fun \<Rightarrow> cstr \<Rightarrow> 8 word list option \<Rightarrow> int \<Rightarrow> string \<Rightarrow> string \<Rightarrow> session_context
     \<Rightarrow> result_code \<Rightarrow> string list list \<Rightarrow> ('s, 'c) auth_manager
     \<Rightarrow> (result_code \<times> session_context \<times> ('s, 'c) auth_manager) run" where
  "login_decide exec env urandom now cnic password out_session db_result results am =
     (if db_result \<noteq> OK then
        case authenticateFallbackUser env urandom now cnic password out_session of
          Some s \<Rightarrow> grant_session exec s am
        | None \<Rightarrow> Inr (AUTH_FAILED, out_session, am)
      else if results = [] \<or> hd results = [] then Inr (AUTH_FAILED, out_session, am)
      else and_then (session_of_row urandom now cnic (hd results) out_session) (\<lambda>(rc, s).
        if rc \<noteq> OK then Inr (rc, s, am) else grant_session exec s am))"

text \<open>
  \<open>login\<close>. The third component of the result is the caller's password buffer: the destructor of
  \<open>mlock_guard\<close> overwrites it on every path behind the input check.
\<close>

definition login ::
  "'c libpq \<Rightarrow> 's query_fun \<Rightarrow> cstr \<Rightarrow> 8 word list option \<Rightarrow> int \<Rightarrow> string \<Rightarrow> string
     \<Rightarrow> session_context \<Rightarrow> ('s, 'c) auth_manager
     \<Rightarrow> (result_code \<times> session_context \<times> string \<times> ('s, 'c) auth_manager) run" where
  "login lib exec env urandom now cnic password out_session am =
     (if cnic = [] \<or> password = [] \<or> isRejectedCredentialInput cnic password
      then Inr (AUTH_FAILED, out_session, password, am)
      else and_then (login_query lib cnic password (am_db_connection am))
        (\<lambda>(db_result, results, us).
          and_then (login_decide exec env urandom now cnic password out_session db_result results
                      (am\<lparr>am_db_connection := us\<rparr>))
            (\<lambda>(rc, s, am'). Inr (rc, s, replicate (length password) NUL, am'))))"

definition validateToken ::
  "int \<Rightarrow> string \<Rightarrow> session_context \<Rightarrow> ('s, 'c) auth_manager \<Rightarrow> result_code \<times> session_context" where
  "validateToken now token out_session am =
     (if token = [] then (INVALID_INPUT, out_session)
      else store_validate now token (am_session_store am) out_session)"

definition validateRank :: "session_context \<Rightarrow> int \<Rightarrow> result_code" where
  "validateRank session minimum_rank =
     (case (if sc_rank session = CONSTABLE then Some 0
            else if sc_rank session = INSPECTOR then Some 1
            else if sc_rank session = SI then Some 2
            else if sc_rank session = DSP then Some 3
            else None) of
        None \<Rightarrow> INVALID_STATE
      | Some v \<Rightarrow> if minimum_rank \<le> v then OK else RANK_INSUFFICIENT)"

definition isDutyActive ::
  "'s query_fun \<Rightarrow> int \<Rightarrow> int \<Rightarrow> bool \<Rightarrow> ('s, 'c) auth_manager
     \<Rightarrow> (result_code \<times> bool \<times> ('s, 'c) auth_manager) run" where
  "isDutyActive exec now officer_id out_active am =
     and_then (duty_check exec now officer_id out_active (am_duty_cache am) (am_ipc am))
       (\<lambda>(rc, active, cache, ipc). Inr (rc, active, am\<lparr>am_duty_cache := cache, am_ipc := ipc\<rparr>))"

definition refreshSession ::
  "'s query_fun \<Rightarrow> int \<Rightarrow> session_context \<Rightarrow> ('s, 'c) auth_manager
     \<Rightarrow> (result_code \<times> ('s, 'c) auth_manager) run" where
  "refreshSession exec now session am =
     and_then (store_refresh exec now (sc_sessionToken session) (am_session_store am) (am_ipc am))
       (\<lambda>(rc, m, ipc). Inr (rc, am\<lparr>am_session_store := m, am_ipc := ipc\<rparr>))"

definition logout ::
  "'s query_fun \<Rightarrow> int \<Rightarrow> session_context \<Rightarrow> ('s, 'c) auth_manager
     \<Rightarrow> (result_code \<times> ('s, 'c) auth_manager) run" where
  "logout exec now session am =
     and_then (store_remove exec now (sc_sessionToken session) (am_session_store am) (am_ipc am))
       (\<lambda>(rc, m, ipc). Inr (rc, am\<lparr>am_session_store := m, am_ipc := ipc\<rparr>))"

definition getActiveSessionCount :: "('s, 'c) auth_manager \<Rightarrow> int" where
  "getActiveSessionCount am = store_getActiveCount (am_session_store am)"

section \<open>Tokens are version 4 UUIDs\<close>

definition hex_value :: "char \<Rightarrow> 8 word" where
  "hex_value c = (if is_digit c then of_nat (digit_value c) else of_nat (of_char c - 87))"

lemma low_nibble: "and (b :: 8 word) 0x0f = take_bit 4 b"
  by (simp add: take_bit_eq_mask mask_eq_exp_minus_1)

lemma low_six: "and (b :: 8 word) 0x3f = take_bit 6 b"
  by (simp add: take_bit_eq_mask mask_eq_exp_minus_1)

lemma unat_nibble: "unat (take_bit 4 (b :: 8 word)) < 16" "unat (drop_bit 4 (b :: 8 word)) < 16"
proof -
  show "unat (take_bit 4 b) < 16"
    using take_bit_nat_less_exp [of 4 "unat b"] by (simp add: unsigned_take_bit_eq)
  have "unat b < 2 ^ 8" using unsigned_less [of b] by simp
  moreover have "unat (drop_bit 4 b) = unat b div 2 ^ 4"
    by (subst unat_drop_bit_eq) (rule drop_bit_eq_div)
  ultimately show "unat (drop_bit 4 b) < 16"
    by simp
qed

lemma hex_value_hex_char: "unat w < 16 \<Longrightarrow> hex_value (hex_char w) = w"
  by (auto simp: hex_value_def hex_char_def is_digit_def digit_value_def)

lemma hex2_decode: "hex_value (hex2 b ! 0) * 16 + hex_value (hex2 b ! 1) = b"
proof -
  have "push_bit 4 (drop_bit 4 b) + take_bit 4 b = b" by (rule bits_ident)
  then show ?thesis
    by (simp add: hex2_def low_nibble hex_value_hex_char unat_nibble push_bit_eq_mult)
qed

lemma version_nibble: "drop_bit 4 (or (and b 0x0f) 0x40) = (4 :: 8 word)"
  by (simp add: low_nibble drop_bit_take_bit)

lemma word_less_4_cases: "unat (w :: 8 word) < 4 \<Longrightarrow> w \<in> {0, 1, 2, 3}"
proof -
  assume "unat w < 4"
  then consider "unat w = 0" | "unat w = 1" | "unat w = 2" | "unat w = 3" by linarith
  then show ?thesis
    by cases (auto simp: word_unat_eq_iff)
qed

lemma variant_nibble: "drop_bit 4 (or (and b 0x3f) 0x80) \<in> {8, 9, 10, 11 :: 8 word}"
proof -
  let ?w = "take_bit 2 (drop_bit 4 b)"
  have "unat ?w < 4"
    using take_bit_nat_less_exp [of 2 "unat (drop_bit 4 b)"] by (simp add: unsigned_take_bit_eq)
  then have "?w \<in> {0, 1, 2, 3}" by (rule word_less_4_cases)
  then show ?thesis
    by (auto simp: low_six drop_bit_take_bit)
qed

lemma list16:
  assumes "length bs = 16"
  obtains b0 b1 b2 b3 b4 b5 b6 b7 b8 b9 b10 b11 b12 b13 b14 b15
  where "bs = [b0, b1, b2, b3, b4, b5, b6, b7, b8, b9, b10, b11, b12, b13, b14, b15]"
  using assms by (auto simp: length_Suc_conv numeral_eq_Suc)

definition uuid_nibbles :: "string \<Rightarrow> string" where
  "uuid_nibbles t = filter (\<lambda>c. c \<noteq> CHR ''-'') t"

fun hex_decode :: "string \<Rightarrow> 8 word list" where
  "hex_decode (h # l # cs) = (hex_value h * 16 + hex_value l) # hex_decode cs"
| "hex_decode cs = []"

lemma hex2_pair: "hex_value (hex_char (drop_bit 4 b)) * 16 + hex_value (hex_char (and b 0x0f)) = b"
  using hex2_decode [of b] by (simp add: hex2_def)

lemma hex_char_not_dash: "unat w < 16 \<Longrightarrow> hex_char w \<noteq> CHR ''-''"
  by (auto simp: hex_char_def char_of_eq_iff take_bit_nat_eq_self)

lemma hex2_not_dash [simp]:
  "hex_char (drop_bit 4 b) \<noteq> CHR ''-''" "hex_char (and b 0x0f) \<noteq> CHR ''-''"
  using hex_char_not_dash [OF unat_nibble(2)] hex_char_not_dash [OF unat_nibble(1)]
  by (simp_all only: low_nibble) simp_all

lemma uuid_decode: "length bs = 16 \<Longrightarrow> hex_decode (uuid_nibbles (uuid_format bs)) = bs"
  by (erule list16)
    (simp add: uuid_format_def uuid_nibbles_def hex2_def hex2_pair del: drop_bit_numeral_bit0)

lemma uuid_shape:
  assumes "length bs = 16"
  shows "length (uuid_format bs) = 36"
    and "\<forall>i \<in> {8, 13, 18, 23}. uuid_format bs ! i = CHR ''-''"
    and "uuid_format bs ! 14 = hex_char (drop_bit 4 (bs ! 6))"
    and "uuid_format bs ! 19 = hex_char (drop_bit 4 (bs ! 8))"
  using assms by - (erule list16, simp add: uuid_format_def hex2_def)+

section \<open>Calls return when the query service is ready\<close>

context query_service
begin

lemma store_insert_returns:
  "ready ipc \<Longrightarrow> \<exists>ipc'. store_insert exec s m ipc = Inr (OK, AList.update (sc_sessionToken s) s m, ipc') \<and> ready ipc'"
  using exec_returns [of ipc "insert_query s"] by (auto simp: store_insert_def)

lemma duty_refresh_returns:
  "ready ipc \<Longrightarrow> \<exists>rc a c ipc'. duty_refresh exec now oid out cache ipc = Inr (rc, a, c, ipc') \<and> ready ipc'"
  using exec_returns [of ipc "duty_query oid"]
  by (auto simp: duty_refresh_def queryDutyStatus_def split: list.splits)

lemma duty_check_returns:
  "ready ipc \<Longrightarrow> \<exists>rc a c ipc'. duty_check exec now oid out cache ipc = Inr (rc, a, c, ipc') \<and> ready ipc'"
  using duty_refresh_returns by (auto simp: duty_check_def split: option.splits)

end

section \<open>The state of the manager\<close>

definition session_ok :: "string \<times> session_context \<Rightarrow> bool" where
  "session_ok ts \<longleftrightarrow>
     (case ts of (t, s) \<Rightarrow> sc_sessionToken s = t \<and> length t = 36 \<and> sc_isValid s
        \<and> sc_expiresAt s = sc_createdAt s + HARD_EXPIRY_SECONDS)"

definition store_ok :: "session_map \<Rightarrow> bool" where
  "store_ok m \<longleftrightarrow> wf_map m \<and> (\<forall>ts \<in> set m. session_ok ts)"

definition auth_ok :: "('s, 'c) auth_manager \<Rightarrow> bool" where
  "auth_ok am \<longleftrightarrow> store_ok (am_session_store am) \<and> wf_map (am_duty_cache am)"

lemma length_generate: "generate u \<noteq> [] \<Longrightarrow> length (generate u) = 36"
  by (auto simp: generate_def uuid_shape uuid_bits_def split: option.splits)

lemma set_update_subset: "set (AList.update k v m) \<subseteq> insert (k, v) (set m)"
  by (induction m) auto

lemma store_ok_update: "store_ok m \<Longrightarrow> session_ok (t, s) \<Longrightarrow> store_ok (AList.update t s m)"
  using set_update_subset [of t s m] by (auto simp: store_ok_def)

lemma store_ok_delete: "store_ok m \<Longrightarrow> store_ok (AList.delete t m)"
  using wf_map_delete [of m t] by (auto simp: store_ok_def AList.delete_eq)

lemma store_ok_lookup: "store_ok m \<Longrightarrow> map_of m t = Some s \<Longrightarrow> session_ok (t, s)"
  by (auto simp: store_ok_def dest: map_of_SomeD)

text \<open>What a successful login hands out.\<close>

lemma session_of_row_OK:
  "session_of_row u now cnic row out = Inr (OK, s) \<Longrightarrow>
   session_ok (sc_sessionToken s, s) \<and> sc_sessionToken s = generate u \<and> sc_createdAt s = now \<and> sc_cnic s = cnic"
  by (auto simp: session_of_row_def Let_def session_ok_def HARD_EXPIRY_SECONDS_def length_generate
      split: option.splits if_splits)

lemma fallback_Some:
  "authenticateFallbackUser env u now cnic pw out = Some s \<Longrightarrow>
   session_ok (sc_sessionToken s, s) \<and> sc_sessionToken s = generate u \<and> sc_createdAt s = now \<and> sc_cnic s = cnic"
  by (auto simp: authenticateFallbackUser_def Let_def session_ok_def HARD_EXPIRY_SECONDS_def length_generate
      split: if_splits)

text \<open>
  A returning login either leaves the sessions alone or adds the session it returns, and it adds
  one only when it answers \<^const>\<open>OK\<close>.
\<close>

lemma grant_session_returns:
  "grant_session exec s am = Inr (rc, s', am') \<Longrightarrow>
   rc = OK \<and> s' = s \<and> am_duty_cache am' = am_duty_cache am \<and>
   am_session_store am' = AList.update (sc_sessionToken s) s (am_session_store am)"
  by (auto simp: grant_session_def store_insert_def run_simps)

lemma login_decide_cases:
  "login_decide exec env u now cnic pw out db_result results am = Inr (rc, s, am') \<Longrightarrow>
   am_duty_cache am' = am_duty_cache am \<and>
   (if rc = OK
    then session_ok (sc_sessionToken s, s) \<and> sc_sessionToken s = generate u
      \<and> sc_createdAt s = now \<and> sc_cnic s = cnic
      \<and> am_session_store am' = AList.update (sc_sessionToken s) s (am_session_store am)
    else am_session_store am' = am_session_store am)"
  unfolding login_decide_def
  by (auto simp: run_simps dest!: session_of_row_OK fallback_Some grant_session_returns
      split: if_splits option.splits)

lemma login_cases:
  assumes "login lib exec env u now cnic pw out am = Inr (rc, s, wiped, am')"
  shows "am_duty_cache am' = am_duty_cache am \<and>
    (if rc = OK
     then session_ok (sc_sessionToken s, s) \<and> sc_sessionToken s = generate u
       \<and> sc_createdAt s = now \<and> sc_cnic s = cnic
       \<and> am_session_store am' = AList.update (sc_sessionToken s) s (am_session_store am)
     else am_session_store am' = am_session_store am)"
  using assms unfolding login_def
  by (auto simp: run_simps dest!: login_decide_cases split: if_splits)

section \<open>Runs of the manager\<close>

text \<open>
  One step is a returning call of any operation that changes the manager, with any arguments, or a
  use of the shared connection by another component.
\<close>

inductive auth_step ::
  "'c libpq \<Rightarrow> 's query_fun \<Rightarrow> ('s, 'c) auth_manager \<Rightarrow> ('s, 'c) auth_manager \<Rightarrow> bool"
  for lib exec where
  step_login:
    "login lib exec env u now cnic pw out am = Inr (rc, s, wiped, am') \<Longrightarrow> auth_step lib exec am am'"
| step_duty: "isDutyActive exec now oid out am = Inr (rc, a, am') \<Longrightarrow> auth_step lib exec am am'"
| step_refresh: "refreshSession exec now s am = Inr (rc, am') \<Longrightarrow> auth_step lib exec am am'"
| step_logout: "logout exec now s am = Inr (rc, am') \<Longrightarrow> auth_step lib exec am am'"
| step_ipc: "auth_step lib exec am (am\<lparr>am_ipc := ipc\<rparr>)"

definition auth_start :: "('s, 'c) auth_manager \<Rightarrow> bool" where
  "auth_start am \<longleftrightarrow> am_session_store am = [] \<and> am_duty_cache am = []"

lemma auth_ok_step: "auth_step lib exec am am' \<Longrightarrow> auth_ok am \<Longrightarrow> auth_ok am'"
proof (induction rule: auth_step.induct)
  case (step_login env u now cnic pw out am rc s wiped am')
  from login_cases [OF step_login.hyps] step_login.prems show ?case
    by (auto simp: auth_ok_def store_ok_update split: if_splits)
next
  case (step_duty now oid out am rc a am')
  then show ?case
    by (auto simp: auth_ok_def isDutyActive_def duty_check_def duty_refresh_def Let_def run_simps
        split: option.splits if_splits)
next
  case (step_refresh now s am rc am')
  then show ?case
    by (auto simp: auth_ok_def refreshSession_def store_refresh_def run_simps
        split: option.splits if_splits)
next
  case (step_logout now s am rc am')
  then show ?case
    by (auto simp: auth_ok_def logout_def store_remove_def run_simps store_ok_delete Let_def
        split: option.splits if_splits)
qed (simp add: auth_ok_def)

interpretation auth: invariant_system auth_start "auth_step lib exec" auth_ok
  for lib :: "'c libpq" and exec :: "'s query_fun"
  by unfold_locales (simp add: auth_start_def auth_ok_def store_ok_def, erule (1) auth_ok_step)

lemma validateToken_OK:
  "auth_ok am \<Longrightarrow> validateToken now token out am = (OK, s) \<Longrightarrow>
   map_of (am_session_store am) token = Some s \<and> session_ok (token, s) \<and> now < sc_expiresAt s"
  by (auto simp: validateToken_def store_validate_def store_isExpired_def auth_ok_def
      dest: store_ok_lookup split: if_splits option.splits)

section \<open>Properties\<close>

text \<open>C1 Hard expiry: whatever logins, refreshes, logouts and duty checks have happened since the
  manager started empty, a token that validates belongs to the session it names and is less than
  eight hours old. No sequence of refreshes extends it.\<close>

theorem session_hard_expiry:
  assumes "auth_start am0" and "(auth_step lib exec)\<^sup>*\<^sup>* am0 am"
    and "validateToken now token out am = (OK, s)"
  shows "sc_sessionToken s = token \<and> sc_isValid s \<and> now < sc_createdAt s + 8 * 3600"
proof -
  have "auth_ok am" using assms(1,2) by (rule auth.reachable_inv)
  from validateToken_OK [OF this assms(3)] show ?thesis
    by (simp add: session_ok_def HARD_EXPIRY_SECONDS_def)
qed

definition demo_lib :: "unit libpq" where
  "demo_lib = \<lparr>PQconnectdb = (\<lambda>s. Some ()), PQstatus_ok = (\<lambda>c. True),
     PQexec = (\<lambda>c q. (CommandOk 0, c)),
     PQexecParams = (\<lambda>c q ps. (TuplesOk [[''7'', ''SI'', ''3'']], c))\<rparr>"

definition demo_exec :: "unit query_fun" where
  "demo_exec q s = Inr (OK, [], s)"

definition demo_am :: "(unit, unit) auth_manager" where
  "demo_am = \<lparr>am_session_store = [], am_duty_cache = [], am_ipc = (),
     am_db_connection = \<lparr>us_held = False, us_conn = Some (), us_conn_string = []\<rparr>\<rparr>"

definition demo_bytes :: "8 word list" where
  "demo_bytes = [0, 1, 2, 3, 4, 5, 6, 7, 8, 9, 10, 11, 12, 13, 14, 15]"

definition demo_session :: session_context where
  "demo_session = \<lparr>sc_officerId = 7, sc_cnic = ''35202'', sc_rank = SI, sc_stationId = 3,
     sc_belt_number = [], sc_createdAt = 1000, sc_expiresAt = 29800, sc_isValid = True,
     sc_sessionToken = generate (Some demo_bytes)\<rparr>"

lemma demo_token: "generate (Some demo_bytes) \<noteq> []"
  using uuid_shape(1) [of "uuid_bits demo_bytes"]
  by (auto simp: generate_def demo_bytes_def uuid_bits_def)

lemma demo_not_rejected: "\<not> isRejectedCredentialInput ''35202'' ''pw''"
  by (simp add: isRejectedCredentialInput_def is_cntrl_def NUL_def)

lemma demo_stoi: "stoi ''7'' = Some 7" "stoi ''3'' = Some 3"
  by (simp_all add: stoi_def atoi_def signed_digits_def is_space_def is_digit_def read_digits_def
      digit_value_def)

lemma demo_login:
  "login demo_lib demo_exec None (Some demo_bytes) 1000 ''35202'' ''pw'' empty_session demo_am =
   Inr (OK, demo_session, [NUL, NUL],
        demo_am\<lparr>am_session_store := [(sc_sessionToken demo_session, demo_session)]\<rparr>)"
  by (simp add: login_def demo_not_rejected login_query_def login_on_def isHealthy_def lock_defs demo_lib_def
      demo_am_def login_decide_def session_of_row_def demo_stoi parseOfficerRank_def
      grant_session_def store_insert_def demo_exec_def demo_session_def empty_session_def
      demo_token Let_def)

theorem session_hard_expiry_witness:
  "\<exists>am. auth_start demo_am \<and> (auth_step demo_lib demo_exec)\<^sup>*\<^sup>* demo_am am
     \<and> validateToken 2000 (sc_sessionToken demo_session) empty_session am = (OK, demo_session)
     \<and> (2000::int) < sc_createdAt demo_session + 8 * 3600"
proof -
  let ?am = "demo_am\<lparr>am_session_store := [(sc_sessionToken demo_session, demo_session)]\<rparr>"
  have start: "auth_start demo_am" by (simp add: auth_start_def demo_am_def)
  have run: "(auth_step demo_lib demo_exec)\<^sup>*\<^sup>* demo_am ?am"
    by (rule r_into_rtranclp, rule auth_step.step_login, rule demo_login)
  have val: "validateToken 2000 (sc_sessionToken demo_session) empty_session ?am = (OK, demo_session)"
    by (simp add: validateToken_def store_validate_def store_isExpired_def demo_session_def demo_token)
  from session_hard_expiry [OF start run val] start run val show ?thesis by blast
qed

text \<open>The connection the login query goes over: the one there is while it is healthy, a new one otherwise.\<close>

definition login_connection :: "'c libpq \<Rightarrow> 'c unix_socket \<Rightarrow> 'c option" where
  "login_connection lib us =
     (case us_conn us of
        Some c \<Rightarrow> if PQstatus_ok lib c then Some c else us_conn (snd (connect lib us))
      | None \<Rightarrow> us_conn (snd (connect lib us)))"

lemma login_query_rows:
  assumes "login_query lib cnic pw us = Inr (rc, rows, us')"
  shows "if rc = OK
    then \<exists>c c'. login_connection lib us = Some c \<and> PQexecParams lib c LOGIN_SQL [Some cnic, Some pw] = (TuplesOk rows, c')
    else \<forall>c rows c'. login_connection lib us = Some c \<longrightarrow> PQexecParams lib c LOGIN_SQL [Some cnic, Some pw] \<noteq> (TuplesOk rows, c')"
proof -
  from assms obtain healthy where free: "\<not> us_held us"
    and healthy: "isHealthy lib us = Inr (healthy, us)" "healthy \<longleftrightarrow> (\<exists>c. us_conn us = Some c \<and> PQstatus_ok lib c)"
    by (cases us) (auto simp: login_query_def isHealthy_def lock_defs Let_def split: if_splits option.splits)
  define us2 where "us2 = (if healthy then us else snd (connect lib us))"
  have conn: "us_conn us2 = login_connection lib us" using healthy(2)
    by (auto simp: us2_def login_connection_def split: option.splits)
  have q: "(case us_conn us2 of None \<Rightarrow> Inr (DB_ERROR, [], us2) | Some c \<Rightarrow> login_on lib c cnic pw us2) = Inr (rc, rows, us')"
    using assms by (simp only: login_query_def healthy(1) and_then.simps prod.case Let_def us2_def)
  show ?thesis
  proof (cases "us_conn us2")
    case None
    with q conn show ?thesis by simp
  next
    case (Some c)
    obtain res c' where r: "PQexecParams lib c LOGIN_SQL [Some cnic, Some pw] = (res, c')" by force
    from q Some r show ?thesis unfolding conn [symmetric]
      by (cases res) (auto simp: login_on_def run_simps)
  qed
qed

lemma fallback_matches:
  "authenticateFallbackUser env u now cnic pw out = Some s \<Longrightarrow>
   \<not> null_or_empty env \<and> (\<exists>pair \<in> set (getline_all CHR '';'' (the env)). fallback_pair_matches cnic pw pair)"
  by (auto simp: authenticateFallbackUser_def list_ex_iff split: if_splits)

text \<open>C5 A login that answers \<open>OK\<close> was authenticated: the input passed the character filter, and either the
  database answered the query for the CNIC and the password, on the connection the manager uses, with a row of
  the officer and the rank of the session, or that query failed and a pair of the fallback environment variable
  matched. The caller gets a session with a token that is not empty, is stored under it and validates for the next
  eight hours and no longer, and the password buffer is zeroed.\<close>

theorem login_grants_only_authenticated:
  assumes "login lib exec env u now cnic pw out am = Inr (OK, s, wiped, am')"
  shows "\<not> isRejectedCredentialInput cnic pw
    \<and> ((\<exists>c c' row rows. login_connection lib (am_db_connection am) = Some c
            \<and> PQexecParams lib c LOGIN_SQL [Some cnic, Some pw] = (TuplesOk (row # rows), c')
            \<and> stoi (row ! 0) = Some (sc_officerId s) \<and> parseOfficerRank (row ! 1) = Some (sc_rank s))
         \<or> (\<forall>c rows c'. login_connection lib (am_db_connection am) = Some c \<longrightarrow>
               PQexecParams lib c LOGIN_SQL [Some cnic, Some pw] \<noteq> (TuplesOk rows, c'))
           \<and> \<not> null_or_empty env
           \<and> (\<exists>pair \<in> set (getline_all CHR '';'' (the env)). fallback_pair_matches cnic pw pair))
    \<and> map_of (am_session_store am') (generate u) = Some s
    \<and> sc_sessionToken s = generate u \<and> sc_sessionToken s \<noteq> [] \<and> sc_cnic s = cnic \<and> sc_expiresAt s = now + 8 * 3600
    \<and> (\<forall>t out'. validateToken t (sc_sessionToken s) out' am'
         = (if t < now + 8 * 3600 then (OK, s) else (SESSION_EXPIRED, out')))
    \<and> wiped = replicate (length pw) NUL"
proof -
  from assms obtain db_result rows us am1 where
    ok: "\<not> isRejectedCredentialInput cnic pw" "wiped = replicate (length pw) NUL" and
    q: "login_query lib cnic pw (am_db_connection am) = Inr (db_result, rows, us)" and
    d: "login_decide exec env u now cnic pw out db_result rows (am\<lparr>am_db_connection := us\<rparr>)
        = Inr (OK, s, am')"
    by (auto simp: login_def run_simps split: if_splits)
  from login_decide_cases [OF d]
  have stored: "map_of (am_session_store am') (generate u) = Some s"
    "sc_sessionToken s = generate u" "sc_sessionToken s \<noteq> []" "sc_cnic s = cnic" "sc_expiresAt s = now + 8 * 3600"
    by (auto simp: session_ok_def HARD_EXPIRY_SECONDS_def)
  then have valid: "validateToken t (sc_sessionToken s) out' am'
      = (if t < now + 8 * 3600 then (OK, s) else (SESSION_EXPIRED, out'))" for t out'
    by (simp add: validateToken_def store_validate_def store_isExpired_def)
  have "(\<exists>c c' row rows. login_connection lib (am_db_connection am) = Some c
            \<and> PQexecParams lib c LOGIN_SQL [Some cnic, Some pw] = (TuplesOk (row # rows), c')
            \<and> stoi (row ! 0) = Some (sc_officerId s) \<and> parseOfficerRank (row ! 1) = Some (sc_rank s))
         \<or> (\<forall>c rows c'. login_connection lib (am_db_connection am) = Some c \<longrightarrow>
               PQexecParams lib c LOGIN_SQL [Some cnic, Some pw] \<noteq> (TuplesOk rows, c'))
           \<and> \<not> null_or_empty env
           \<and> (\<exists>pair \<in> set (getline_all CHR '';'' (the env)). fallback_pair_matches cnic pw pair)"
  proof (cases "db_result = OK")
    case True
    with d obtain row rest where r: "rows = row # rest"
      "session_of_row u now cnic row out = Inr (OK, s)"
      by (cases rows) (auto simp: login_decide_def run_simps dest: grant_session_returns split: if_splits)
    then have "stoi (row ! 0) = Some (sc_officerId s) \<and> parseOfficerRank (row ! 1) = Some (sc_rank s)"
      by (auto simp: session_of_row_def Let_def split: option.splits if_splits)
    with login_query_rows [OF q] True r(1) show ?thesis by auto
  next
    case False
    with d have "authenticateFallbackUser env u now cnic pw out = Some s"
      by (auto simp: login_decide_def dest: grant_session_returns split: option.splits)
    from fallback_matches [OF this] login_query_rows [OF q] False show ?thesis by auto
  qed
  with ok stored valid show ?thesis by blast
qed

theorem login_grants_only_authenticated_witness:
  "login demo_lib demo_exec None (Some demo_bytes) 1000 ''35202'' ''pw'' empty_session demo_am =
     Inr (OK, demo_session, [NUL, NUL],
        demo_am\<lparr>am_session_store := [(sc_sessionToken demo_session, demo_session)]\<rparr>)
   \<and> sc_expiresAt demo_session = 1000 + 8 * 3600"
  using login_grants_only_authenticated [OF demo_login] demo_login by blast

text \<open>Logout revokes: after a successful logout the token validates at no time, and every other
  token validates exactly as before.\<close>

theorem logout_revokes:
  assumes "logout exec now s am = Inr (OK, am')" and "sc_sessionToken s \<noteq> []"
  shows "validateToken t (sc_sessionToken s) out am' = (NOT_FOUND, out)
    \<and> (tok \<noteq> sc_sessionToken s \<longrightarrow> validateToken t tok out am' = validateToken t tok out am)"
proof -
  have "am_session_store am' = AList.delete (sc_sessionToken s) (am_session_store am)"
    using assms(1) by (auto simp: logout_def store_remove_def Let_def run_simps split: option.splits)
  then have "map_of (am_session_store am') = (map_of (am_session_store am))(sc_sessionToken s := None)"
    by simp
  then show ?thesis using assms(2) by (simp add: validateToken_def store_validate_def)
qed

lemma demo_logout:
  "logout demo_exec 5 demo_session (demo_am\<lparr>am_session_store := [(sc_sessionToken demo_session, demo_session)]\<rparr>)
   = Inr (OK, demo_am)"
  by (simp add: logout_def store_remove_def demo_exec_def demo_am_def)

theorem logout_revokes_witness:
  "sc_sessionToken demo_session \<noteq> [] \<and>
   validateToken 6 (sc_sessionToken demo_session) empty_session demo_am = (NOT_FOUND, empty_session) \<and>
   validateToken 6 ''x'' empty_session demo_am = (NOT_FOUND, empty_session)"
proof -
  have ne: "sc_sessionToken demo_session \<noteq> []" by (simp add: demo_session_def demo_token)
  have "validateToken 6 ''x'' empty_session demo_am = (NOT_FOUND, empty_session)"
    by (simp add: validateToken_def store_validate_def demo_am_def)
  with logout_revokes [OF demo_logout ne] ne show ?thesis by simp
qed

lemma queryDutyStatus_OK:
  "queryDutyStatus exec oid out ipc = Inr (OK, a, ipc') \<longleftrightarrow>
   (\<exists>st cells rows. exec (duty_query oid) ipc = Inr (OK, (st # cells) # rows, ipc')
      \<and> a = (st = ''true'' \<or> st = ''t'' \<or> st = ''1''))"
proof (cases "exec (duty_query oid) ipc")
  case (Inl f)
  then show ?thesis by (simp add: queryDutyStatus_def)
next
  case (Inr r)
  obtain rc rows i where r: "r = (rc, rows, i)" by (cases r) auto
  show ?thesis
  proof (cases rows)
    case (Cons row rest)
    with Inr r show ?thesis by (cases row) (auto simp: queryDutyStatus_def)
  qed (use Inr r in \<open>auto simp: queryDutyStatus_def\<close>)
qed

lemma duty_refresh_iff:
  "duty_refresh exec now oid out cache ipc = Inr (rc, a, cache', ipc') \<longleftrightarrow>
   queryDutyStatus exec oid out ipc = Inr (rc, a, ipc')
   \<and> cache' = (if rc = OK then AList.update oid
        \<lparr>de_is_active = a, de_cached_at = now, de_status = (if a then ''ON_DUTY'' else ''OFF_DUTY'')\<rparr> cache
      else cache)"
  unfolding duty_refresh_def Let_def and_then_Inr_iff
  by (auto split: if_split_asm)

lemma duty_check_hit:
  "map_of cache oid = Some e \<Longrightarrow> now - de_cached_at e < TTL_SECONDS \<Longrightarrow>
   duty_check exec now oid out cache ipc = Inr (OK, de_is_active e, cache, ipc)"
  by (simp add: duty_check_def)

lemma duty_check_stale:
  "map_of cache oid = Some e \<Longrightarrow> TTL_SECONDS \<le> now - de_cached_at e \<Longrightarrow>
   duty_check exec now oid out cache ipc = duty_refresh exec now oid out cache ipc"
  by (simp add: duty_check_def)

lemma duty_check_cases:
  "duty_check exec now oid out cache ipc = Inr (rc, a, cache', ipc') \<Longrightarrow>
   (\<exists>e. map_of cache oid = Some e \<and> rc = OK \<and> a = de_is_active e \<and> cache' = cache)
   \<or> duty_refresh exec now oid out cache ipc = Inr (rc, a, cache', ipc')"
  by (auto simp: duty_check_def split: option.splits if_splits)

text \<open>The duty cache: an answer obtained from the database at \<open>t0\<close> is repeated without a query
  for five minutes, and from then on every check queries again.\<close>

theorem duty_cache_ttl:
  assumes "duty_refresh exec t0 oid out cache ipc = Inr (OK, b, cache', ipc')"
  shows "duty_check exec t oid out' cache' ipc'' =
      (if t < t0 + 300 then Inr (OK, b, cache', ipc'')
       else duty_refresh exec t oid out' cache' ipc'')
    \<and> (oid' \<noteq> oid \<longrightarrow> map_of cache' oid' = map_of cache oid')"
proof -
  have c: "cache' = AList.update oid \<lparr>de_is_active = b, de_cached_at = t0,
      de_status = (if b then ''ON_DUTY'' else ''OFF_DUTY'')\<rparr> cache"
    using assms by (simp add: duty_refresh_iff)
  show ?thesis
    unfolding c using duty_check_hit [of "AList.update oid _ cache" oid]
    by (cases "t < t0 + 300") (simp_all add: duty_check_hit duty_check_stale TTL_SECONDS_def)
qed

definition duty_exec :: "unit query_fun" where
  "duty_exec q s = Inr (OK, [[''t'']], s)"

theorem duty_cache_ttl_witness:
  "\<exists>cache. duty_refresh duty_exec 1000 7 False [] () = Inr (OK, True, cache, ())
     \<and> duty_check duty_exec 1299 7 False cache () = Inr (OK, True, cache, ())
     \<and> duty_check duty_exec 1300 7 False cache () = duty_refresh duty_exec 1300 7 False cache ()"
proof -
  have "\<exists>cache. duty_refresh duty_exec 1000 7 False [] () = Inr (OK, True, cache, ())"
    by (simp add: duty_refresh_iff queryDutyStatus_OK duty_exec_def)
  then obtain cache where r: "duty_refresh duty_exec 1000 7 False [] () = Inr (OK, True, cache, ())"
    by blast
  have "duty_check duty_exec 1299 7 False cache () = Inr (OK, True, cache, ())"
    "duty_check duty_exec 1300 7 False cache () = duty_refresh duty_exec 1300 7 False cache ()"
    using duty_cache_ttl [OF r, of 1299 False "()"] duty_cache_ttl [OF r, of 1300 False "()"]
    by simp_all
  with r show ?thesis by blast
qed

section \<open>The duty column\<close>

text \<open>The values of \<open>officer_status_enum\<close> in \<open>db/schema/01_types.sql\<close>, the type of the column the
  cache reads.\<close>

definition officer_status_names :: "string list" where
  "officer_status_names = [''ACTIVE'', ''SUSPENDED'', ''ON_LEAVE'', ''RETIRED'', ''TERMINATED'']"

definition answers_status :: "'s query_fun \<Rightarrow> bool" where
  "answers_status exec \<longleftrightarrow>
     (\<forall>oid s rows s'. exec (duty_query oid) s = Inr (OK, rows, s')
        \<longrightarrow> (\<forall>row \<in> set rows. set row \<subseteq> set officer_status_names))"

definition cache_inactive :: "duty_cache \<Rightarrow> bool" where
  "cache_inactive cache \<longleftrightarrow> (\<forall>oid e. map_of cache oid = Some e \<longrightarrow> \<not> de_is_active e)"

lemma queryDutyStatus_inactive:
  "answers_status exec \<Longrightarrow> queryDutyStatus exec oid out ipc = Inr (OK, a, ipc') \<Longrightarrow> \<not> a"
  unfolding queryDutyStatus_OK answers_status_def officer_status_names_def by fastforce

lemma duty_check_inactive:
  assumes "answers_status exec" "cache_inactive cache"
    and "duty_check exec now oid out cache ipc = Inr (rc, a, cache', ipc')"
  shows "cache_inactive cache' \<and> (rc = OK \<longrightarrow> \<not> a)"
  using duty_check_cases [OF assms(3)]
proof
  assume "\<exists>e. map_of cache oid = Some e \<and> rc = OK \<and> a = de_is_active e \<and> cache' = cache"
  with assms(2) show ?thesis by (auto simp: cache_inactive_def)
next
  assume "duty_refresh exec now oid out cache ipc = Inr (rc, a, cache', ipc')"
  then have q: "queryDutyStatus exec oid out ipc = Inr (rc, a, ipc')"
    and c: "cache' = (if rc = OK then AList.update oid \<lparr>de_is_active = a, de_cached_at = now,
        de_status = (if a then ''ON_DUTY'' else ''OFF_DUTY'')\<rparr> cache else cache)"
    by (simp_all add: duty_refresh_iff)
  have "rc = OK \<Longrightarrow> \<not> a"
    using q queryDutyStatus_inactive [OF assms(1), of oid out ipc a ipc'] by auto
  with assms(2) c show ?thesis by (auto simp: cache_inactive_def)
qed

lemma auth_step_inactive:
  "auth_step lib exec am am' \<Longrightarrow> answers_status exec \<Longrightarrow> cache_inactive (am_duty_cache am)
   \<Longrightarrow> cache_inactive (am_duty_cache am')"
proof (induction rule: auth_step.induct)
  case (step_login env u now cnic pw out am rc s wiped am')
  with login_cases [OF step_login.hyps] show ?case by simp
next
  case (step_duty now oid out am rc a am')
  then show ?case by (auto simp: isDutyActive_def run_simps dest: duty_check_inactive)
qed (auto simp: refreshSession_def store_refresh_def logout_def store_remove_def Let_def run_simps
      split: option.splits if_splits)

text \<open>No officer is ever on duty: with the column's type as the schema declares it, no check in
  any reachable state answers that the officer is on duty, since the code looks for a boolean.\<close>

theorem duty_never_active:
  assumes "answers_status exec" and "auth_start am0" and "(auth_step lib exec)\<^sup>*\<^sup>* am0 am"
    and "isDutyActive exec now oid out am = Inr (OK, a, am')"
  shows "\<not> a"
proof -
  have "cache_inactive (am_duty_cache am)"
    using assms(3,2)
    by (induction rule: rtranclp_induct)
      (auto simp: auth_start_def cache_inactive_def [of "[]"] intro: auth_step_inactive [OF _ assms(1)])
  with assms(1,4) show ?thesis
    by (auto simp: isDutyActive_def run_simps dest: duty_check_inactive)
qed

definition status_exec :: "unit query_fun" where
  "status_exec q s = Inr (OK, [[''ACTIVE'']], s)"

theorem duty_never_active_witness:
  "answers_status status_exec \<and> auth_start demo_am
   \<and> (\<exists>am'. isDutyActive status_exec 0 7 True demo_am = Inr (OK, False, am'))"
proof -
  have a: "answers_status status_exec"
    by (simp add: answers_status_def status_exec_def officer_status_names_def)
  have s: "auth_start demo_am" by (simp add: auth_start_def demo_am_def)
  have "\<exists>b am'. isDutyActive status_exec 0 7 True demo_am = Inr (OK, b, am')"
    by (auto simp: isDutyActive_def duty_check_def duty_refresh_def queryDutyStatus_def status_exec_def
        demo_am_def)
  then obtain b am' where r: "isDutyActive status_exec 0 7 True demo_am = Inr (OK, b, am')" by blast
  with duty_never_active [OF a s rtranclp.rtrancl_refl r] a s show ?thesis by simp
qed

section \<open>Ranks\<close>

lemma validateRank_OK:
  "validateRank session n = OK \<longleftrightarrow>
     (sc_rank session = CONSTABLE \<and> n \<le> 0) \<or> (sc_rank session = INSPECTOR \<and> n \<le> 1)
     \<or> (sc_rank session = SI \<and> n \<le> 2) \<or> (sc_rank session = DSP \<and> n \<le> 3)"
  by (auto simp: validateRank_def)

text \<open>The rank check cannot be passed with the enum's own number for an inspector: the managers
  call it with \<open>static_cast<int>(OfficerRank::INSPECTOR)\<close>, which is 4, while the check numbers the
  ranks it knows from 0 to 3. Every session is refused.\<close>

theorem inspector_check_refuses_everyone:
  "validateRank session (rank_value INSPECTOR) \<in> {RANK_INSUFFICIENT, INVALID_STATE}"
  by (auto simp: validateRank_def)

lemma hex_char_values:
  "hex_char 8 = CHR ''8''" "hex_char 9 = CHR ''9''" "hex_char 10 = CHR ''a''" "hex_char 11 = CHR ''b''"
  by code_simp+

text \<open>A generated token has the layout of a version 4 UUID, and the 16 bytes it was formatted from
  can be read back from it: two tokens are equal only when all 122 random bits are.\<close>

theorem token_is_uuid4:
  assumes "length bs = 16"
  shows "length (generate (Some bs)) = 36
    \<and> (\<forall>i \<in> {8, 13, 18, 23}. generate (Some bs) ! i = CHR ''-'')
    \<and> generate (Some bs) ! 14 = CHR ''4''
    \<and> generate (Some bs) ! 19 \<in> {CHR ''8'', CHR ''9'', CHR ''a'', CHR ''b''}
    \<and> hex_decode (uuid_nibbles (generate (Some bs))) = uuid_bits bs"
proof (intro conjI)
  have len: "length (uuid_bits bs) = 16" using assms by (simp add: uuid_bits_def)
  have gen: "generate (Some bs) = uuid_format (uuid_bits bs)" using assms by (simp add: generate_def)
  have b6: "uuid_bits bs ! 6 = or (and (bs ! 6) 0x0f) 0x40"
    and b8: "uuid_bits bs ! 8 = or (and (bs ! 8) 0x3f) 0x80"
    using assms by (simp_all add: uuid_bits_def)
  show "length (generate (Some bs)) = 36" "\<forall>i \<in> {8, 13, 18, 23}. generate (Some bs) ! i = CHR ''-''"
    unfolding gen by (rule uuid_shape [OF len])+
  show "generate (Some bs) ! 14 = CHR ''4''"
    unfolding gen uuid_shape(3) [OF len] b6 version_nibble by (simp add: hex_char_def char_of_def bit_0)
  show "generate (Some bs) ! 19 \<in> {CHR ''8'', CHR ''9'', CHR ''a'', CHR ''b''}"
    unfolding gen uuid_shape(4) [OF len] b8 using variant_nibble [of "bs ! 8"]
    by (elim insertE emptyE) (simp_all only: hex_char_values insert_iff simp_thms)
  show "hex_decode (uuid_nibbles (generate (Some bs))) = uuid_bits bs"
    unfolding gen by (rule uuid_decode [OF len])
qed

theorem token_is_uuid4_witness:
  "length demo_bytes = 16 \<and> generate (Some demo_bytes) ! 14 = CHR ''4''"
proof -
  have "length demo_bytes = 16" by (simp add: demo_bytes_def)
  from this token_is_uuid4 [OF this] show ?thesis by simp
qed

end
