(* ===== verification/Thread_Pool.thy ===== *)
theory Thread_Pool
  imports Types_JF "HOL-Library.Sublist"
begin

text \<open>
  The worker threads of the server: \<open>ThreadPool\<close>, \<open>SessionManager\<close>, \<open>ConnectionGate\<close> and the guards
  of \<open>sync.h\<close> (\<open>src/os_layer/threading\<close>). Every access to the queue happens under
  \<open>queue_mutex\<close>, so \<open>submit\<close>, one turn of a worker and the two halves of \<open>shutdown\<close> are atomic
  steps; the relation \<open>pool_step\<close> interleaves them freely. A worker is a slot of the array
  \<open>workers\<close>: \<^const>\<open>None\<close> where no thread was created, else the place its thread has reached in
  \<open>worker_routine\<close>. POSIX lets \<open>pthread_cond_signal\<close> pick the waiter it wakes, and lets waiters wake
  without a signal; both are choices of the relation. The queue's contract is the locale
  \<open>bounded_queue\<close>, which the ring buffer of the pool implements.
\<close>

section \<open>Guards\<close>

definition EINTR :: int where "EINTR = 4"
definition EOWNERDEAD :: int where "EOWNERDEAD = 130"

text \<open>
  The value of \<open>lock_acquired\<close> after the constructor of \<open>MutexGuard\<close>, from the results of
  \<open>pthread_mutex_lock\<close> and \<open>pthread_mutex_consistent\<close>; the destructor unlocks exactly then.
\<close>

definition mutex_guard_acquired :: "int \<Rightarrow> int \<Rightarrow> bool" where
  "mutex_guard_acquired ret consistent_ret =
     (if ret = EOWNERDEAD then consistent_ret = 0 else ret = 0)"

text \<open>
  \<open>SemGuard\<close> over a semaphore value: \<^const>\<open>None\<close> when \<open>sem_wait\<close> has to wait; otherwise
  \<open>sem_acquired\<close> and the new value. A signal handler that ran interrupts the call.
\<close>

definition sem_guard_enter :: "bool \<Rightarrow> nat \<Rightarrow> (bool \<times> nat) option" where
  "sem_guard_enter interrupted val =
     (if interrupted then Some (False, val)
      else if val = 0 then None
      else Some (True, val - 1))"

definition sem_guard_leave :: "bool \<Rightarrow> nat \<Rightarrow> nat" where
  "sem_guard_leave sem_acquired val = (if sem_acquired then val + 1 else val)"

definition DEFAULT_MAX_CONNECTIONS :: nat where
  "DEFAULT_MAX_CONNECTIONS = 50"

section \<open>SessionManager\<close>

record worker_session =
  ws_officer_id :: int
  ws_socket_fd :: int
  ws_login_timestamp :: int

type_synonym session_registry = "(int \<times> worker_session) list"

definition register_session :: "int \<Rightarrow> worker_session \<Rightarrow> session_registry \<Rightarrow> session_registry" where
  "register_session thread_id context registry = AList.update thread_id context registry"

definition unregister_session :: "int \<Rightarrow> session_registry \<Rightarrow> session_registry" where
  "unregister_session thread_id registry = AList.delete thread_id registry"

definition getSession :: "int \<Rightarrow> worker_session \<Rightarrow> session_registry \<Rightarrow> bool \<times> worker_session" where
  "getSession thread_id out_context registry =
     (case map_of registry thread_id of
        Some context \<Rightarrow> (True, context)
      | None \<Rightarrow> (False, out_context))"

definition getActiveCount :: "session_registry \<Rightarrow> int" where
  "getActiveCount registry = int (length registry)"

section \<open>The pool\<close>

definition QUEUE_CAPACITY :: nat where "QUEUE_CAPACITY = 100"
definition MAX_WORKERS :: nat where "MAX_WORKERS = 50"

record worker_task =
  wt_client_socket_fd :: int
  wt_thread_id :: int

datatype worker_phase =
    Deciding                \<comment> \<open>before or inside the test of the queue\<close>
  | Sleeping                \<comment> \<open>in \<open>task_available_cond.wait\<close>\<close>
  | Executing worker_task   \<comment> \<open>in \<open>Worker::process_task\<close>\<close>
  | Finished                \<comment> \<open>returned from \<open>worker_routine\<close>\<close>

record thread_pool =
  tp_workers :: "worker_phase option list"
  tp_active_worker_count :: nat
  tp_initialized :: bool
  tp_task_queue :: "worker_task list"
  tp_queue_head :: nat
  tp_queue_tail :: nat
  tp_task_count :: nat
  tp_shutdown_flag :: bool

text \<open>The queue operations inside \<open>submit\<close> and \<open>worker_routine\<close>.\<close>

definition ring_put :: "worker_task \<Rightarrow> thread_pool \<Rightarrow> thread_pool" where
  "ring_put task tp =
     tp\<lparr>tp_task_queue := (tp_task_queue tp)[tp_queue_tail tp := task],
        tp_queue_tail := (tp_queue_tail tp + 1) mod QUEUE_CAPACITY,
        tp_task_count := tp_task_count tp + 1\<rparr>"

definition ring_front :: "thread_pool \<Rightarrow> worker_task" where
  "ring_front tp = tp_task_queue tp ! tp_queue_head tp"

definition ring_drop :: "thread_pool \<Rightarrow> thread_pool" where
  "ring_drop tp =
     tp\<lparr>tp_queue_head := (tp_queue_head tp + 1) mod QUEUE_CAPACITY,
        tp_task_count := tp_task_count tp - 1\<rparr>"

text \<open>\<open>pthread_cond_signal\<close> wakes the waiter POSIX picks, \<open>broadcast\<close> wakes all.\<close>

definition sleeping :: "worker_phase option list \<Rightarrow> nat \<Rightarrow> bool" where
  "sleeping ws i \<longleftrightarrow> i < length ws \<and> ws ! i = Some Sleeping"

definition cond_signal :: "nat \<Rightarrow> worker_phase option list \<Rightarrow> worker_phase option list" where
  "cond_signal i ws = (if sleeping ws i then ws[i := Some Deciding] else ws)"

definition cond_broadcast :: "worker_phase option list \<Rightarrow> worker_phase option list" where
  "cond_broadcast ws = map (\<lambda>w. if w = Some Sleeping then Some Deciding else w) ws"

definition submit :: "nat \<Rightarrow> worker_task \<Rightarrow> thread_pool \<Rightarrow> bool \<times> thread_pool" where
  "submit picked task tp =
     (if tp_task_count tp = QUEUE_CAPACITY then (False, tp)
      else (True, ring_put task (tp\<lparr>tp_workers := cond_signal picked (tp_workers tp)\<rparr>)))"

text \<open>
  One turn of the thread in slot \<open>i\<close> of \<open>worker_routine\<close>, with the tasks it starts; \<^const>\<open>None\<close> when
  the slot has no thread that can run. The turn of a worker that executes a task is the return of
  \<open>process_task\<close>; it need not come, and the steps below do not say that it does.
\<close>

definition worker_routine :: "nat \<Rightarrow> thread_pool \<Rightarrow> (worker_task list \<times> thread_pool) option" where
  "worker_routine i tp =
     (if i < length (tp_workers tp) then
        (case tp_workers tp ! i of
           Some Deciding \<Rightarrow>
             if tp_task_count tp = 0 \<and> \<not> tp_shutdown_flag tp
             then Some ([], tp\<lparr>tp_workers := (tp_workers tp)[i := Some Sleeping]\<rparr>)
             else if tp_shutdown_flag tp \<and> tp_task_count tp = 0
             then Some ([], tp\<lparr>tp_workers := (tp_workers tp)[i := Some Finished]\<rparr>)
             else let task = ring_front tp
                  in Some ([task], (ring_drop tp)\<lparr>tp_workers := (tp_workers tp)[i := Some (Executing task)]\<rparr>)
         | Some (Executing task) \<Rightarrow>
             Some ([], tp\<lparr>tp_workers := (tp_workers tp)[i := Some Deciding]\<rparr>)
         | _ \<Rightarrow> None)
      else None)"

text \<open>\<open>creates i\<close> says whether the \<open>pthread_create\<close> call for slot \<open>i\<close> succeeds.\<close>

function init_loop ::
  "(nat \<Rightarrow> bool) \<Rightarrow> nat \<Rightarrow> nat \<Rightarrow> worker_phase option list \<Rightarrow> nat \<times> worker_phase option list" where
  "init_loop creates i active ws =
     (if i < active then
        if creates i then init_loop creates (i + 1) active (ws[i := Some Deciding])
        else init_loop creates (i + 1) (active - 1) ws
      else (active, ws))"
  by pat_completeness auto
termination by (relation "measure (\<lambda>(creates, i, active, ws). active - i)") auto

declare init_loop.simps [simp del]

definition init :: "(nat \<Rightarrow> bool) \<Rightarrow> int \<Rightarrow> thread_pool \<Rightarrow> thread_pool" where
  "init creates num_workers tp =
     (if tp_initialized tp then tp
      else if num_workers \<le> 0 then tp
      else
        let n = (if int MAX_WORKERS < num_workers then MAX_WORKERS else nat num_workers);
            (active, ws) = init_loop creates 0 n (tp_workers tp)
        in tp\<lparr>tp_active_worker_count := active, tp_workers := ws, tp_initialized := True\<rparr>)"

text \<open>
  \<open>shutdown\<close>: set the flag under the mutex, broadcast, and join the slots below
  \<open>active_worker_count\<close> in order.
\<close>

datatype join_result =
    AllJoined
  | WaitingFor nat       \<comment> \<open>the thread in the slot has not returned yet\<close>
  | JoinsNoThread nat    \<comment> \<open>\<open>pthread_join\<close> on a slot that was never created: undefined\<close>

definition shutdown_request :: "thread_pool \<Rightarrow> thread_pool" where
  "shutdown_request tp = tp\<lparr>tp_shutdown_flag := True\<rparr>"

definition shutdown_broadcast :: "thread_pool \<Rightarrow> thread_pool" where
  "shutdown_broadcast tp = tp\<lparr>tp_workers := cond_broadcast (tp_workers tp)\<rparr>"

function shutdown_join :: "nat \<Rightarrow> thread_pool \<Rightarrow> join_result" where
  "shutdown_join i tp =
     (if i < tp_active_worker_count tp then
        (case tp_workers tp ! i of
           None \<Rightarrow> JoinsNoThread i
         | Some w \<Rightarrow> if w = Finished then shutdown_join (i + 1) tp else WaitingFor i)
      else AllJoined)"
  by pat_completeness auto
termination by (relation "measure (\<lambda>(i, tp). tp_active_worker_count tp - i)") auto

declare shutdown_join.simps [simp del]

text \<open>The static instance before \<open>init\<close>; the contents of the task array do not matter.\<close>

definition new_pool :: thread_pool where
  "new_pool = \<lparr>tp_workers = replicate MAX_WORKERS None, tp_active_worker_count = 0,
     tp_initialized = False,
     tp_task_queue = replicate QUEUE_CAPACITY \<lparr>wt_client_socket_fd = 0, wt_thread_id = 0\<rparr>,
     tp_queue_head = 0, tp_queue_tail = 0, tp_task_count = 0, tp_shutdown_flag = False\<rparr>"

section \<open>The queue interface\<close>

text \<open>
  What the pool relies on: within the capacity, \<open>put\<close> appends, \<open>front\<close> and \<open>drop\<close> take from the
  other end. Then the tasks accepted are at any time the tasks started followed by those queued.
\<close>

locale bounded_queue =
  fixes put :: "'a \<Rightarrow> 'q \<Rightarrow> 'q"
    and front :: "'q \<Rightarrow> 'a"
    and drop_front :: "'q \<Rightarrow> 'q"
    and items :: "'q \<Rightarrow> 'a list"
    and wf :: "'q \<Rightarrow> bool"
    and cap :: nat
  assumes items_bound: "wf q \<Longrightarrow> length (items q) \<le> cap"
    and put_wf: "wf q \<Longrightarrow> length (items q) < cap \<Longrightarrow> wf (put x q)"
    and put_items: "wf q \<Longrightarrow> length (items q) < cap \<Longrightarrow> items (put x q) = items q @ [x]"
    and drop_wf: "wf q \<Longrightarrow> items q \<noteq> [] \<Longrightarrow> wf (drop_front q)"
    and drop_items: "wf q \<Longrightarrow> items q \<noteq> [] \<Longrightarrow> items q = front q # items (drop_front q)"
begin

definition history :: "'q \<Rightarrow> 'a list \<Rightarrow> 'a list \<Rightarrow> bool" where
  "history q accepted started \<longleftrightarrow> wf q \<and> accepted = started @ items q"

lemma history_put:
  "history q acc st \<Longrightarrow> length (items q) < cap \<Longrightarrow> history (put x q) (acc @ [x]) st"
  by (simp add: history_def put_wf put_items)

lemma history_drop:
  "history q acc st \<Longrightarrow> items q \<noteq> [] \<Longrightarrow> history (drop_front q) acc (st @ [front q])"
  using drop_items [of q] by (simp add: history_def drop_wf)

lemma history_bound: "history q acc st \<Longrightarrow> length acc \<le> length st + cap"
  using items_bound by (auto simp: history_def)

end

section \<open>The ring buffer is a bounded queue\<close>

definition ring_items :: "thread_pool \<Rightarrow> worker_task list" where
  "ring_items tp =
     map (\<lambda>k. tp_task_queue tp ! ((tp_queue_head tp + k) mod QUEUE_CAPACITY)) [0..<tp_task_count tp]"

definition ring_ok :: "thread_pool \<Rightarrow> bool" where
  "ring_ok tp \<longleftrightarrow> length (tp_task_queue tp) = QUEUE_CAPACITY
     \<and> tp_queue_head tp < QUEUE_CAPACITY
     \<and> tp_task_count tp \<le> QUEUE_CAPACITY
     \<and> tp_queue_tail tp = (tp_queue_head tp + tp_task_count tp) mod QUEUE_CAPACITY"

lemma ring_slots_differ:
  assumes "k < c" "c < (n :: nat)"
  shows "(h + k) mod n \<noteq> (h + c) mod n"
proof
  assume "(h + k) mod n = (h + c) mod n"
  then have "n dvd (h + c) - (h + k)"
    using assms by (metis add_le_cancel_left less_imp_le_nat mod_eq_dvd_iff_nat)
  with assms show False by (auto dest: dvd_imp_le)
qed

lemma length_ring_items [simp]: "length (ring_items tp) = tp_task_count tp"
  by (simp add: ring_items_def)

lemma ring_items_Nil [simp]: "ring_items tp = [] \<longleftrightarrow> tp_task_count tp = 0"
  by (simp add: ring_items_def)

lemma ring_put_items:
  assumes "ring_ok tp" "tp_task_count tp < QUEUE_CAPACITY"
  shows "ring_items (ring_put t tp) = ring_items tp @ [t]"
proof (rule nth_equalityI)
  show "length (ring_items (ring_put t tp)) = length (ring_items tp @ [t])"
    by (simp add: ring_put_def)
next
  fix i
  assume "i < length (ring_items (ring_put t tp))"
  then consider "i < tp_task_count tp" | "i = tp_task_count tp"
    by (fastforce simp: ring_put_def)
  then show "ring_items (ring_put t tp) ! i = (ring_items tp @ [t]) ! i"
  proof cases
    case 1
    then show ?thesis
      using assms ring_slots_differ [OF 1 assms(2), of "tp_queue_head tp"]
      by (simp add: ring_items_def ring_put_def ring_ok_def nth_append nth_list_update del: upt_Suc)
  next
    case 2
    then show ?thesis
      using assms by (simp add: ring_items_def ring_put_def ring_ok_def nth_append del: upt_Suc)
  qed
qed

lemma ring_put_ok: "ring_ok tp \<Longrightarrow> tp_task_count tp < QUEUE_CAPACITY \<Longrightarrow> ring_ok (ring_put t tp)"
  by (simp add: ring_ok_def ring_put_def mod_Suc_eq)

lemma ring_drop_items:
  assumes "ring_ok tp" "0 < tp_task_count tp"
  shows "ring_items tp = ring_front tp # ring_items (ring_drop tp)"
proof (rule nth_equalityI)
  show "length (ring_items tp) = length (ring_front tp # ring_items (ring_drop tp))"
    using assms by (simp add: ring_drop_def)
next
  fix i
  assume i: "i < length (ring_items tp)"
  show "ring_items tp ! i = (ring_front tp # ring_items (ring_drop tp)) ! i"
  proof (cases i)
    case 0
    then show ?thesis
      using i assms by (simp add: ring_items_def ring_front_def ring_ok_def)
  next
    case (Suc j)
    have "(tp_queue_head tp + Suc j) mod QUEUE_CAPACITY
        = ((tp_queue_head tp + 1) mod QUEUE_CAPACITY + j) mod QUEUE_CAPACITY"
      by (simp add: mod_simps)
    then show ?thesis
      using Suc i assms by (simp add: ring_items_def ring_drop_def)
  qed
qed

lemma ring_drop_ok:
  assumes "ring_ok tp" "0 < tp_task_count tp"
  shows "ring_ok (ring_drop tp)"
proof -
  have "((tp_queue_head tp + 1) mod QUEUE_CAPACITY + (tp_task_count tp - 1)) mod QUEUE_CAPACITY
      = (tp_queue_head tp + tp_task_count tp) mod QUEUE_CAPACITY"
    using assms(2) by (cases "tp_task_count tp") (simp_all add: mod_simps)
  with assms show ?thesis
    by (auto simp: ring_ok_def ring_drop_def QUEUE_CAPACITY_def)
qed

interpretation ring: bounded_queue ring_put ring_front ring_drop ring_items ring_ok QUEUE_CAPACITY
proof unfold_locales
  show "ring_ok q \<Longrightarrow> length (ring_items q) \<le> QUEUE_CAPACITY" for q
    by (simp add: ring_ok_def)
qed (simp_all add: ring_put_ok ring_put_items ring_drop_ok ring_drop_items flip: length_greater_0_conv)

section \<open>The pool as a transition system\<close>

record pool_system =
  ps_pool :: thread_pool
  ps_accepted :: "worker_task list"   \<comment> \<open>tasks for which \<open>submit\<close> answered true, in order\<close>
  ps_started :: "worker_task list"    \<comment> \<open>tasks handed to \<open>process_task\<close>, in order\<close>

definition signal_choice :: "nat \<Rightarrow> worker_phase option list \<Rightarrow> bool" where
  "signal_choice i ws \<longleftrightarrow> sleeping ws i \<or> (\<forall>j. \<not> sleeping ws j)"

inductive pool_step :: "pool_system \<Rightarrow> pool_system \<Rightarrow> bool" where
  step_init:
    "pool_step s (s\<lparr>ps_pool := init creates n (ps_pool s)\<rparr>)"
| step_submit:
    "signal_choice i (tp_workers (ps_pool s)) \<Longrightarrow> submit i task (ps_pool s) = (ok, tp) \<Longrightarrow>
     pool_step s (s\<lparr>ps_pool := tp, ps_accepted := ps_accepted s @ (if ok then [task] else [])\<rparr>)"
| step_worker:
    "worker_routine i (ps_pool s) = Some (tasks, tp) \<Longrightarrow>
     pool_step s (s\<lparr>ps_pool := tp, ps_started := ps_started s @ tasks\<rparr>)"
| step_spurious_wakeup:
    "pool_step s (s\<lparr>ps_pool := (ps_pool s)\<lparr>tp_workers := cond_signal i (tp_workers (ps_pool s))\<rparr>\<rparr>)"
| step_shutdown_request:
    "pool_step s (s\<lparr>ps_pool := shutdown_request (ps_pool s)\<rparr>)"
| step_shutdown_broadcast:
    "pool_step s (s\<lparr>ps_pool := shutdown_broadcast (ps_pool s)\<rparr>)"

definition pool_start :: "pool_system \<Rightarrow> bool" where
  "pool_start s \<longleftrightarrow> ps_pool s = new_pool \<and> ps_accepted s = [] \<and> ps_started s = []"

text \<open>
  Nobody sleeps through work: while some worker sleeps, at least as many workers are about to
  look at the queue as there are tasks in it.
\<close>

abbreviation deciders :: "worker_phase option list \<Rightarrow> nat" where
  "deciders ws \<equiv> length (filter (\<lambda>w. w = Some Deciding) ws)"

definition awake_enough :: "thread_pool \<Rightarrow> bool" where
  "awake_enough tp \<longleftrightarrow>
     (\<forall>i. \<not> sleeping (tp_workers tp) i) \<or> tp_task_count tp \<le> deciders (tp_workers tp)"

lemma ring_frame [simp]:
  "ring_ok (tp\<lparr>tp_workers := ws\<rparr>) = ring_ok tp"
  "ring_items (tp\<lparr>tp_workers := ws\<rparr>) = ring_items tp"
  "ring_ok (tp\<lparr>tp_shutdown_flag := b\<rparr>) = ring_ok tp"
  "ring_items (tp\<lparr>tp_shutdown_flag := b\<rparr>) = ring_items tp"
  by (simp_all add: ring_ok_def ring_items_def)

lemma init_frame [simp]:
  "ring_ok (init creates n tp) = ring_ok tp"
  "ring_items (init creates n tp) = ring_items tp"
  "tp_task_count (init creates n tp) = tp_task_count tp"
  by (auto simp: init_def ring_ok_def ring_items_def Let_def split: prod.splits)

definition pool_ok :: "pool_system \<Rightarrow> bool" where
  "pool_ok s \<longleftrightarrow> ring.history (ps_pool s) (ps_accepted s) (ps_started s)"

lemma worker_routine_cases:
  assumes "worker_routine i tp = Some (tasks, tp')"
  obtains (to_sleep) "i < length (tp_workers tp)" "tp_workers tp ! i = Some Deciding"
      "tp_task_count tp = 0" "\<not> tp_shutdown_flag tp" "tasks = []"
      "tp' = tp\<lparr>tp_workers := (tp_workers tp)[i := Some Sleeping]\<rparr>"
  | (finish) "i < length (tp_workers tp)" "tp_workers tp ! i = Some Deciding"
      "tp_task_count tp = 0" "tp_shutdown_flag tp" "tasks = []"
      "tp' = tp\<lparr>tp_workers := (tp_workers tp)[i := Some Finished]\<rparr>"
  | (take) "i < length (tp_workers tp)" "tp_workers tp ! i = Some Deciding"
      "0 < tp_task_count tp" "tasks = [ring_front tp]"
      "tp' = (ring_drop tp)\<lparr>tp_workers := (tp_workers tp)[i := Some (Executing (ring_front tp))]\<rparr>"
  | (return) task where "i < length (tp_workers tp)" "tp_workers tp ! i = Some (Executing task)"
      "tasks = []" "tp' = tp\<lparr>tp_workers := (tp_workers tp)[i := Some Deciding]\<rparr>"
  using assms
  by (auto simp: worker_routine_def Let_def split: if_splits option.splits worker_phase.splits)

lemma pool_ok_step: "pool_step s t \<Longrightarrow> pool_ok s \<Longrightarrow> pool_ok t"
proof (induction rule: pool_step.induct)
  case (step_submit i s task ok tp)
  then show ?case
    using ring.history_put [of "(ps_pool s)\<lparr>tp_workers := cond_signal i (tp_workers (ps_pool s))\<rparr>"
        "ps_accepted s" "ps_started s" task]
    by (auto simp: pool_ok_def submit_def ring.history_def ring_ok_def split: if_splits)
next
  case (step_worker i s tasks tp)
  from step_worker(1) show ?case
  proof (cases rule: worker_routine_cases)
    case take
    then show ?thesis
      using ring.history_drop [of "ps_pool s"] step_worker(2)
      by (auto simp: pool_ok_def ring.history_def)
  qed (use step_worker in \<open>auto simp: pool_ok_def ring.history_def\<close>)
qed (auto simp: pool_ok_def ring.history_def shutdown_request_def shutdown_broadcast_def)

lemma pool_ok_start: "pool_start s \<Longrightarrow> pool_ok s"
  by (simp add: pool_start_def pool_ok_def ring.history_def new_pool_def ring_ok_def ring_items_def
      QUEUE_CAPACITY_def)

interpretation pool: invariant_system pool_start pool_step pool_ok
  by unfold_locales (auto intro: pool_ok_start pool_ok_step)

text \<open>C10 No task is lost, duplicated or reordered: in every reachable state of the pool, whatever
  interleaving of submissions, worker turns, wake-ups and shutdown led to it, the tasks accepted by
  \<open>submit\<close> are the tasks started so far followed by those in the buffer, of which there are never
  more than the capacity.\<close>

theorem pool_fifo:
  assumes "pool_start s" "pool_step\<^sup>*\<^sup>* s t"
  shows "ps_accepted t = ps_started t @ ring_items (ps_pool t)
    \<and> length (ring_items (ps_pool t)) \<le> QUEUE_CAPACITY"
  using pool.reachable_inv [OF assms]
  by (auto simp: pool_ok_def ring.history_def ring_ok_def)

definition demo_task :: "int \<Rightarrow> worker_task" where
  "demo_task i = \<lparr>wt_client_socket_fd = i, wt_thread_id = i\<rparr>"

definition pool_state :: "thread_pool \<Rightarrow> pool_system" where
  "pool_state tp = \<lparr>ps_pool = tp, ps_accepted = [], ps_started = []\<rparr>"

lemma demo_pool_start: "pool_start (pool_state new_pool)"
  by (simp add: pool_start_def pool_state_def)

lemma demo_submit:
  "pool_step (pool_state new_pool)
     (pool_state new_pool\<lparr>ps_pool := ring_put (demo_task 7) new_pool, ps_accepted := [demo_task 7]\<rparr>)"
proof -
  have "submit 0 (demo_task 7) new_pool = (True, ring_put (demo_task 7) new_pool)"
    by (simp add: submit_def new_pool_def QUEUE_CAPACITY_def cond_signal_def sleeping_def MAX_WORKERS_def)
  moreover have "signal_choice 0 (tp_workers new_pool)"
    by (simp add: signal_choice_def sleeping_def new_pool_def)
  ultimately show ?thesis
    using step_submit [of 0 "pool_state new_pool" "demo_task 7" True "ring_put (demo_task 7) new_pool"]
    by (simp add: pool_state_def)
qed

theorem pool_fifo_witness:
  "ring_items (ring_put (demo_task 7) new_pool) = [demo_task 7]"
  using pool_fifo [OF demo_pool_start r_into_rtranclp, OF demo_submit]
  by (simp add: pool_state_def)

section \<open>No lost wake-up\<close>

definition no_threads :: "worker_phase option list \<Rightarrow> bool" where
  "no_threads ws \<longleftrightarrow> (\<forall>i < length ws. ws ! i = None)"

definition pool_awake :: "pool_system \<Rightarrow> bool" where
  "pool_awake s \<longleftrightarrow> awake_enough (ps_pool s)
     \<and> (\<not> tp_initialized (ps_pool s) \<longrightarrow> no_threads (tp_workers (ps_pool s)))"

lemma init_loop_workers:
  "init_loop creates i active ws = (n, ws') \<Longrightarrow>
   length ws' = length ws \<and> (\<forall>j. ws' ! j = ws ! j \<or> ws' ! j = Some Deciding)"
proof (induction creates i active ws arbitrary: n ws' rule: init_loop.induct)
  case (1 creates i active ws)
  note unfolded = "1.prems" [unfolded init_loop.simps [of creates i active ws]]
  consider "i < active" "creates i" | "i < active" "\<not> creates i" | "\<not> i < active" by blast
  then show ?case
  proof cases
    case 1
    with unfolded have "init_loop creates (i + 1) active (ws[i := Some Deciding]) = (n, ws')"
      by simp
    note ih = "1.IH"(1) [OF 1 this]
    have "ws[i := Some Deciding] ! j = ws ! j \<or> ws[i := Some Deciding] ! j = Some Deciding" for j
      by (cases "i < length ws"; cases "i = j") (auto simp: not_less list_update_beyond)
    with ih show ?thesis by (metis length_list_update)
  next
    case 2
    with unfolded have "init_loop creates (i + 1) (active - 1) ws = (n, ws')" by simp
    then show ?thesis by (rule "1.IH"(2) [OF 2])
  next
    case 3
    with unfolded show ?thesis by simp
  qed
qed

lemma sleeping_update [simp]:
  "sleeping (ws[i := w]) j \<longleftrightarrow> (if i = j then j < length ws \<and> w = Some Sleeping else sleeping ws j)"
  by (auto simp: sleeping_def nth_list_update)

lemma not_sleeping_broadcast [simp]: "\<not> sleeping (cond_broadcast ws) i"
  by (auto simp: sleeping_def cond_broadcast_def)

lemma deciders_update:
  "i < length ws \<Longrightarrow>
   deciders (ws[i := w]) + (if ws ! i = Some Deciding then 1 else 0)
     = deciders ws + (if w = Some Deciding then 1 else 0)"
  by (rule length_filter_update)

lemma awake_submit:
  assumes "awake_enough tp" "signal_choice i (tp_workers tp)" "submit i task tp = (ok, tp')"
  shows "awake_enough tp'"
proof (cases "sleeping (tp_workers tp) i")
  case True
  then have i: "i < length (tp_workers tp)" "tp_workers tp ! i = Some Sleeping"
    by (auto simp: sleeping_def)
  then show ?thesis
    using assms True deciders_update [OF i(1), of "Some Deciding"]
    by (auto simp: submit_def awake_enough_def ring_put_def cond_signal_def split: if_splits)
next
  case False
  then show ?thesis
    using assms
    by (auto simp: submit_def awake_enough_def ring_put_def cond_signal_def signal_choice_def
        split: if_splits)
qed

lemma awake_worker:
  assumes "awake_enough tp" "worker_routine i tp = Some (tasks, tp')"
  shows "awake_enough tp'"
  using assms(2)
proof (cases rule: worker_routine_cases)
  case take
  then show ?thesis
    using assms(1) deciders_update [OF take(1), of "Some (Executing (ring_front tp))"]
    by (auto simp: awake_enough_def ring_drop_def split: if_splits)
next
  case (return task)
  then show ?thesis
    using assms(1) deciders_update [OF return(1), of "Some Deciding"]
    by (auto simp: awake_enough_def split: if_splits)
qed (use assms(1) in \<open>auto simp: awake_enough_def\<close>)

lemma awake_signal:
  assumes "awake_enough tp"
  shows "awake_enough (tp\<lparr>tp_workers := cond_signal i (tp_workers tp)\<rparr>)"
proof (cases "sleeping (tp_workers tp) i")
  case True
  then have "i < length (tp_workers tp)" by (simp add: sleeping_def)
  then show ?thesis
    using assms True deciders_update [of i "tp_workers tp" "Some Deciding"]
    by (auto simp: awake_enough_def cond_signal_def sleeping_def split: if_splits)
qed (use assms in \<open>simp add: cond_signal_def\<close>)

lemma awake_init:
  assumes "awake_enough tp" "\<not> tp_initialized tp \<longrightarrow> no_threads (tp_workers tp)"
  shows "awake_enough (init creates n tp)"
proof -
  have "\<not> sleeping ws' j"
    if "init_loop creates 0 m (tp_workers tp) = (a, ws')" "no_threads (tp_workers tp)" for m a ws' j
    using init_loop_workers [OF that(1)] that(2) unfolding sleeping_def no_threads_def
    by (metis option.distinct(1) option.inject worker_phase.distinct(1))
  with assms show ?thesis
    by (auto simp: init_def awake_enough_def Let_def split: prod.splits)
qed

lemma no_threads_signal [simp]: "no_threads ws \<Longrightarrow> cond_signal i ws = ws"
  by (auto simp: cond_signal_def sleeping_def no_threads_def)

lemma no_threads_broadcast [simp]: "no_threads ws \<Longrightarrow> no_threads (cond_broadcast ws)"
  by (simp add: cond_broadcast_def no_threads_def)

lemma submit_frame:
  "submit i task tp = (ok, tp') \<Longrightarrow>
   tp_initialized tp' = tp_initialized tp \<and> (no_threads (tp_workers tp) \<longrightarrow> no_threads (tp_workers tp'))"
  by (auto simp: submit_def ring_put_def split: if_splits)

lemma no_threads_worker:
  "no_threads (tp_workers tp) \<Longrightarrow> worker_routine i tp = None"
  by (simp add: worker_routine_def no_threads_def)

lemma worker_frame:
  "worker_routine i tp = Some (tasks, tp') \<Longrightarrow>
   tp_initialized tp' = tp_initialized tp \<and> \<not> no_threads (tp_workers tp)"
  by (auto simp: ring_drop_def no_threads_def elim!: worker_routine_cases)

lemma init_no_threads:
  "\<not> tp_initialized (init creates n tp) \<Longrightarrow> init creates n tp = tp"
  by (auto simp: init_def Let_def split: prod.splits if_splits)

lemma pool_awake_step: "pool_step s t \<Longrightarrow> pool_awake s \<Longrightarrow> pool_awake t"
proof (induction rule: pool_step.induct)
  case (step_init s creates n)
  then show ?case
    using init_no_threads [of creates n "ps_pool s"] by (auto simp: pool_awake_def awake_init)
next
  case (step_submit i s task ok tp)
  then show ?case
    using awake_submit [of "ps_pool s" i task ok tp] submit_frame [of i task "ps_pool s" ok tp]
    by (simp add: pool_awake_def)
next
  case (step_worker i s tasks tp)
  then show ?case
    using awake_worker [of "ps_pool s" i tasks tp] worker_frame [of i "ps_pool s" tasks tp]
    by (auto simp: pool_awake_def)
next
  case (step_spurious_wakeup s i)
  then show ?case by (auto simp: pool_awake_def awake_signal)
qed (auto simp: pool_awake_def awake_enough_def shutdown_request_def shutdown_broadcast_def)

interpretation awake: invariant_system pool_start pool_step pool_awake
proof unfold_locales
  show "pool_start s \<Longrightarrow> pool_awake s" for s
    by (auto simp: pool_start_def pool_awake_def awake_enough_def new_pool_def no_threads_def
        sleeping_def)
qed (rule pool_awake_step)

text \<open>C21 No lost wake-up: in every reachable state in which some worker sleeps on the condition
  variable, at least as many workers are awake and about to inspect the queue as there are tasks
  in it, so no queued task waits for a signal.\<close>

theorem pool_no_lost_wakeup:
  assumes "pool_start s" "pool_step\<^sup>*\<^sup>* s t" "sleeping (tp_workers (ps_pool t)) i"
  shows "length (ring_items (ps_pool t)) \<le> deciders (tp_workers (ps_pool t))"
  using awake.reachable_inv [OF assms(1,2)] assms(3)
  by (auto simp: pool_awake_def awake_enough_def)

definition busy_pool :: thread_pool where
  "busy_pool = init (\<lambda>i. True) 2 new_pool"

definition slept_pool :: thread_pool where
  "slept_pool = busy_pool\<lparr>tp_workers := (tp_workers busy_pool)[0 := Some Sleeping]\<rparr>"

lemma busy_pool_workers:
  "tp_workers busy_pool = Some Deciding # Some Deciding # replicate 48 None"
  "tp_task_count busy_pool = 0" "tp_shutdown_flag busy_pool = False"
  "tp_active_worker_count busy_pool = 2" "tp_initialized busy_pool"
  by (code_simp)+

lemma demo_slept: "pool_step\<^sup>*\<^sup>* (pool_state new_pool) (pool_state slept_pool)"
proof -
  have "pool_step (pool_state new_pool) (pool_state busy_pool)"
    using step_init [of "pool_state new_pool" "\<lambda>i. True" 2]
    by (simp add: pool_state_def busy_pool_def)
  moreover have "worker_routine 0 busy_pool = Some ([], slept_pool)"
    by (simp add: worker_routine_def busy_pool_workers slept_pool_def)
  then have "pool_step (pool_state busy_pool) (pool_state slept_pool)"
    using step_worker [of 0 "pool_state busy_pool" "[]" slept_pool]
    by (simp add: pool_state_def)
  ultimately show ?thesis by (meson converse_rtranclp_into_rtranclp r_into_rtranclp)
qed

theorem pool_no_lost_wakeup_witness:
  "tp_task_count slept_pool \<le> deciders (tp_workers slept_pool)"
  using pool_no_lost_wakeup [OF demo_pool_start demo_slept, of 0]
  by (simp add: pool_state_def sleeping_def slept_pool_def busy_pool_workers)

section \<open>Shutdown\<close>

text \<open>
  One turn of some worker. The turn of a worker that executes a task is the return of
  \<open>Worker::process_task\<close>, which waits for its client as long as the client says nothing: \<open>ends\<close> tells the
  tasks that return. The work the threads have left is \<open>drain_measure\<close>.
\<close>

definition worker_turn :: "(worker_task \<Rightarrow> bool) \<Rightarrow> thread_pool \<Rightarrow> thread_pool \<Rightarrow> bool" where
  "worker_turn ends tp tp' \<longleftrightarrow>
     (\<exists>i tasks. worker_routine i tp = Some (tasks, tp') \<and> (\<forall>t. tp_workers tp ! i = Some (Executing t) \<longrightarrow> ends t))"

text \<open>\<open>n\<close> turns of the workers, and \<open>m\<close> accepted submissions in between, in any order.\<close>

inductive drain_run :: "(worker_task \<Rightarrow> bool) \<Rightarrow> thread_pool \<Rightarrow> nat \<Rightarrow> nat \<Rightarrow> thread_pool \<Rightarrow> bool" for ends tp where
  run_start: "drain_run ends tp 0 0 tp"
| run_turn: "drain_run ends tp n m tp1 \<Longrightarrow> worker_turn ends tp1 tp2 \<Longrightarrow> drain_run ends tp (Suc n) m tp2"
| run_submit: "drain_run ends tp n m tp1 \<Longrightarrow> submit i task tp1 = (True, tp2) \<Longrightarrow> drain_run ends tp n (Suc m) tp2"

fun phase_weight :: "worker_phase option \<Rightarrow> nat" where
  "phase_weight (Some Deciding) = 1"
| "phase_weight (Some (Executing task)) = 2"
| "phase_weight (Some Sleeping) = 0"
| "phase_weight (Some Finished) = 0"
| "phase_weight None = 0"

definition drain_measure :: "thread_pool \<Rightarrow> nat" where
  "drain_measure tp = 3 * tp_task_count tp + sum_list (map phase_weight (tp_workers tp))"

definition at_work :: "thread_pool \<Rightarrow> bool" where
  "at_work tp \<longleftrightarrow> (\<exists>i < length (tp_workers tp). 0 < phase_weight (tp_workers tp ! i))"

definition draining :: "thread_pool \<Rightarrow> bool" where
  "draining tp \<longleftrightarrow> tp_shutdown_flag tp \<and> (\<forall>i. \<not> sleeping (tp_workers tp) i)"

definition thread_in :: "thread_pool \<Rightarrow> nat \<Rightarrow> bool" where
  "thread_in tp i \<longleftrightarrow> i < length (tp_workers tp) \<and> tp_workers tp ! i \<noteq> None"

lemma draining_turn:
  assumes "draining tp" "worker_turn ends tp tp'"
  shows "draining tp' \<and> drain_measure tp' < drain_measure tp
    \<and> (at_work tp \<or> tp_task_count tp = 0 \<longrightarrow> at_work tp' \<or> tp_task_count tp' = 0)"
proof -
  from assms(2) obtain i tasks where "worker_routine i tp = Some (tasks, tp')"
    by (auto simp: worker_turn_def)
  then show ?thesis
  proof (cases rule: worker_routine_cases)
    case to_sleep
    with assms(1) show ?thesis by (simp add: draining_def)
  next
    case finish
    then show ?thesis
      using assms(1) sum_list_update_nat [of i "tp_workers tp" phase_weight "Some Finished"]
      by (simp add: draining_def drain_measure_def)
  next
    case take
    then have "at_work tp'"
      by (auto simp: at_work_def intro!: exI [of _ i])
    then show ?thesis
      using take assms(1)
        sum_list_update_nat [of i "tp_workers tp" phase_weight "Some (Executing (ring_front tp))"]
      by (simp add: draining_def drain_measure_def ring_drop_def)
  next
    case (return task)
    then have "at_work tp'"
      by (auto simp: at_work_def intro!: exI [of _ i])
    then show ?thesis
      using return assms(1) sum_list_update_nat [of i "tp_workers tp" phase_weight "Some Deciding"]
      by (simp add: draining_def drain_measure_def)
  qed
qed

lemma draining_submit:
  assumes "draining tp" "submit i task tp = (True, tp')"
  shows "draining tp' \<and> drain_measure tp' = drain_measure tp + 3 \<and> tp_workers tp' = tp_workers tp
    \<and> tp_active_worker_count tp' = tp_active_worker_count tp"
  using assms by (auto simp: submit_def ring_put_def cond_signal_def draining_def drain_measure_def split: if_splits)

lemma turn_threads:
  "worker_turn ends tp tp' \<Longrightarrow> thread_in tp' = thread_in tp
     \<and> tp_active_worker_count tp' = tp_active_worker_count tp
     \<and> length (tp_workers tp') = length (tp_workers tp)"
  by (auto simp: worker_turn_def thread_in_def fun_eq_iff nth_list_update ring_drop_def
      split: if_splits elim!: worker_routine_cases)

lemma draining_run:
  assumes "drain_run ends tp n m tp'" "draining tp"
  shows "draining tp' \<and> n + drain_measure tp' \<le> drain_measure tp + 3 * m
    \<and> (m = 0 \<longrightarrow> at_work tp \<or> tp_task_count tp = 0 \<longrightarrow> at_work tp' \<or> tp_task_count tp' = 0)"
  using assms
proof induction
  case (run_turn n m tp1 tp2)
  with draining_turn [of tp1 ends tp2] show ?case by fastforce
next
  case (run_submit n m tp1 i task tp2)
  with draining_submit [of tp1 i task tp2] show ?case by fastforce
qed simp

lemma run_threads:
  assumes "drain_run ends tp n m tp'" "draining tp"
  shows "thread_in tp' = thread_in tp \<and> tp_active_worker_count tp' = tp_active_worker_count tp
     \<and> length (tp_workers tp') = length (tp_workers tp)"
  using assms
proof induction
  case (run_turn n m tp1 tp2)
  with turn_threads [of ends tp1 tp2] show ?case by metis
next
  case (run_submit n m tp1 i task tp2)
  with draining_submit [of tp1 i task tp2] draining_run [of ends tp n m tp1]
  have "tp_workers tp2 = tp_workers tp1" "tp_active_worker_count tp2 = tp_active_worker_count tp1" by simp_all
  moreover from this(1) have "thread_in tp2 = thread_in tp1" by (simp add: thread_in_def fun_eq_iff)
  ultimately show ?case using run_submit by simp
qed simp

text \<open>A worker that cannot move has returned, sleeps, or waits for a client.\<close>

lemma stuck_worker:
  assumes "\<nexists>tp'. worker_turn ends tp tp'" "thread_in tp i" "draining tp"
  shows "tp_workers tp ! i = Some Finished \<or> (\<exists>t. tp_workers tp ! i = Some (Executing t) \<and> \<not> ends t)"
proof (cases "tp_workers tp ! i" rule: phase_weight.cases)
  case 1
  with assms(2) have "\<exists>r. worker_routine i tp = Some r" by (simp add: thread_in_def worker_routine_def Let_def)
  with 1 have "\<exists>tp'. worker_turn ends tp tp'" by (fastforce simp: worker_turn_def)
  with assms(1) show ?thesis by simp
next
  case (2 t)
  with assms(2) have "worker_routine i tp = Some ([], tp\<lparr>tp_workers := (tp_workers tp)[i := Some Deciding]\<rparr>)"
    by (simp add: thread_in_def worker_routine_def)
  with 2 have "ends t \<Longrightarrow> \<exists>tp'. worker_turn ends tp tp'" by (fastforce simp: worker_turn_def)
  with assms(1) 2 show ?thesis by auto
qed (use assms(2,3) in \<open>auto simp: thread_in_def draining_def sleeping_def\<close>)

lemma all_joined:
  "shutdown_join i tp = AllJoined \<longleftrightarrow> (\<forall>j. i \<le> j \<and> j < tp_active_worker_count tp \<longrightarrow> tp_workers tp ! j = Some Finished)"
proof (induction i tp rule: shutdown_join.induct)
  case (1 i tp)
  show ?case
  proof (cases "i < tp_active_worker_count tp \<and> tp_workers tp ! i = Some Finished")
    case True
    with 1 have "shutdown_join i tp = shutdown_join (i + 1) tp" by (subst shutdown_join.simps) simp
    with 1 True have "shutdown_join i tp = AllJoined
        \<longleftrightarrow> (\<forall>j. i + 1 \<le> j \<and> j < tp_active_worker_count tp \<longrightarrow> tp_workers tp ! j = Some Finished)" by simp
    moreover have "i \<le> j \<longleftrightarrow> j = i \<or> i + 1 \<le> j" for j by auto
    ultimately show ?thesis using True by metis
  next
    case False
    then show ?thesis
      by (subst shutdown_join.simps) (auto split: option.splits)
  qed
qed

text \<open>C27 Shutdown: once the flag is set and the broadcast is made, the workers take only boundedly many turns,
  three more for each task that is still submitted meanwhile, whatever the interleaving. When none of them can
  move any more, the joins of \<open>shutdown\<close> return exactly if every slot below the count has a thread and none of
  these threads is in a task that does not return, as one whose client stays connected and silent; and if
  nothing was submitted meanwhile, some worker was awake and all tasks return, the queue is empty.\<close>

theorem shutdown_drains:
  assumes "tp_shutdown_flag tp" "tp_active_worker_count tp \<le> length (tp_workers tp)"
    and "drain_run ends (shutdown_broadcast tp) n m tp'"
  shows "n \<le> drain_measure (shutdown_broadcast tp) + 3 * m
    \<and> ((\<nexists>tp''. worker_turn ends tp' tp'') \<longrightarrow>
         (shutdown_join 0 tp' = AllJoined \<longleftrightarrow>
            (\<forall>i < tp_active_worker_count tp. thread_in tp i
               \<and> (\<forall>t. tp_workers tp' ! i = Some (Executing t) \<longrightarrow> ends t)))
         \<and> (m = 0 \<and> at_work (shutdown_broadcast tp) \<and> (\<forall>t. ends t) \<longrightarrow> ring_items tp' = []))"
proof -
  let ?b = "shutdown_broadcast tp"
  have d: "draining ?b" using assms(1) by (simp add: draining_def shutdown_broadcast_def)
  note run = draining_run [OF assms(3) d] and threads = run_threads [OF assms(3) d]
  have in_b: "thread_in ?b = thread_in tp" "tp_active_worker_count ?b = tp_active_worker_count tp"
    by (auto simp: thread_in_def shutdown_broadcast_def cond_broadcast_def fun_eq_iff split: if_splits)
  have stuck: "tp_workers tp' ! i = Some Finished \<or> (\<exists>t. tp_workers tp' ! i = Some (Executing t) \<and> \<not> ends t)"
    if "\<nexists>tp''. worker_turn ends tp' tp''" "thread_in tp i" for i
    using stuck_worker [OF that(1), of i] that(2) run threads in_b by simp
  have "shutdown_join 0 tp' = AllJoined \<longleftrightarrow>
      (\<forall>i < tp_active_worker_count tp. thread_in tp i \<and> (\<forall>t. tp_workers tp' ! i = Some (Executing t) \<longrightarrow> ends t))"
    if s: "\<nexists>tp''. worker_turn ends tp' tp''"
  proof
    assume "shutdown_join 0 tp' = AllJoined"
    then have f: "tp_workers tp' ! i = Some Finished" if "i < tp_active_worker_count tp" for i
      using that threads in_b by (simp add: all_joined)
    have "thread_in tp i" if "i < tp_active_worker_count tp" for i
      using f [OF that] threads in_b assms(2) that by (auto simp: thread_in_def fun_eq_iff shutdown_broadcast_def cond_broadcast_def)
    with f show "\<forall>i < tp_active_worker_count tp. thread_in tp i \<and> (\<forall>t. tp_workers tp' ! i = Some (Executing t) \<longrightarrow> ends t)"
      by simp
  next
    assume "\<forall>i < tp_active_worker_count tp. thread_in tp i \<and> (\<forall>t. tp_workers tp' ! i = Some (Executing t) \<longrightarrow> ends t)"
    with stuck [OF s] have "tp_workers tp' ! i = Some Finished" if "i < tp_active_worker_count tp" for i
      using that by blast
    then show "shutdown_join 0 tp' = AllJoined" using threads in_b by (simp add: all_joined)
  qed
  moreover have "ring_items tp' = []"
    if s: "\<nexists>tp''. worker_turn ends tp' tp''" and m: "m = 0" "at_work ?b" "\<forall>t. ends t"
  proof -
    have "\<not> at_work tp'"
    proof
      assume "at_work tp'"
      then obtain i where i: "i < length (tp_workers tp')" "0 < phase_weight (tp_workers tp' ! i)"
        by (auto simp: at_work_def)
      then have "thread_in tp' i" by (cases "tp_workers tp' ! i") (auto simp: thread_in_def)
      with stuck_worker [OF s this] run i(2) m(3) show False by auto
    qed
    with run m have "tp_task_count tp' = 0" by blast
    then show ?thesis by (simp add: ring_items_def)
  qed
  ultimately show ?thesis using run by auto
qed

theorem shutdown_drains_witness:
  "\<exists>tp'. worker_turn (\<lambda>t. False) (shutdown_broadcast (shutdown_request slept_pool)) tp'
    \<and> 1 \<le> drain_measure (shutdown_broadcast (shutdown_request slept_pool))"
proof -
  let ?tp = "shutdown_request slept_pool"
  have ws: "tp_workers ?tp = Some Sleeping # Some Deciding # replicate 48 None"
    "tp_active_worker_count ?tp = 2" "tp_shutdown_flag ?tp"
    by (simp_all add: shutdown_request_def slept_pool_def busy_pool_workers)
  have "\<exists>r. worker_routine 0 (shutdown_broadcast ?tp) = Some r"
    by (simp add: worker_routine_def shutdown_broadcast_def cond_broadcast_def ws Let_def)
  then obtain tp' where turn: "worker_turn (\<lambda>t. False) (shutdown_broadcast ?tp) tp'"
    by (fastforce simp: worker_turn_def shutdown_broadcast_def cond_broadcast_def ws)
  from shutdown_drains [OF ws(3) _ run_turn [OF run_start turn]] turn show ?thesis
    by (auto simp: ws)
qed

text \<open>A worker in a task that does not return stays there, and the join of its slot waits for it.\<close>

lemma silent_client_blocks_shutdown:
  assumes "drain_run ends tp n m tp'" "draining tp" "i < length (tp_workers tp)"
    and "tp_workers tp ! i = Some (Executing t)" "\<not> ends t" "i < tp_active_worker_count tp"
  shows "tp_workers tp' ! i = Some (Executing t) \<and> shutdown_join 0 tp' \<noteq> AllJoined"
proof -
  have "tp_workers tp' ! i = Some (Executing t) \<and> tp_active_worker_count tp' = tp_active_worker_count tp
    \<and> i < length (tp_workers tp')"
    using assms(1)
  proof induction
    case (run_turn n m tp1 tp2)
    from run_turn(2) obtain j tasks where w: "worker_routine j tp1 = Some (tasks, tp2)"
      and e: "\<forall>u. tp_workers tp1 ! j = Some (Executing u) \<longrightarrow> ends u" by (auto simp: worker_turn_def)
    from w run_turn(3) assms(5) e show ?case
      by (cases rule: worker_routine_cases) (auto simp: nth_list_update ring_drop_def)
  next
    case (run_submit n m tp1 j task tp2)
    with draining_submit [of tp1 j task tp2] draining_run [of ends tp n m tp1] assms(2) show ?case by simp
  qed (use assms in simp)
  with assms(6) show ?thesis by (auto simp: all_joined)
qed

text \<open>
  \<open>submit\<close> does not look at the shutdown flag. Once the workers have returned, a task it accepts
  stays in the buffer.
\<close>

definition retired :: "thread_pool \<Rightarrow> bool" where
  "retired tp \<longleftrightarrow> tp_initialized tp
     \<and> (\<forall>i < length (tp_workers tp). tp_workers tp ! i \<in> {None, Some Finished})"

lemma retired_signal: "retired tp \<Longrightarrow> cond_signal i (tp_workers tp) = tp_workers tp"
  by (auto simp: retired_def cond_signal_def sleeping_def)

lemma retired_broadcast: "retired tp \<Longrightarrow> cond_broadcast (tp_workers tp) = tp_workers tp"
  by (auto simp: retired_def cond_broadcast_def intro!: nth_equalityI)

lemma retired_worker: "retired tp \<Longrightarrow> worker_routine i tp = None"
  by (auto simp: retired_def worker_routine_def)

lemma retired_step:
  "pool_step s t \<Longrightarrow> retired (ps_pool s) \<Longrightarrow> retired (ps_pool t) \<and> ps_started t = ps_started s
     \<and> prefix (ps_accepted s) (ps_accepted t)"
proof (induction rule: pool_step.induct)
  case (step_submit i s task ok tp)
  then show ?case
    by (auto simp: submit_def ring_put_def retired_signal retired_def split: if_splits)
next
  case (step_worker i s tasks tp)
  then show ?case by (simp add: retired_worker)
qed (auto simp: retired_signal retired_broadcast shutdown_request_def shutdown_broadcast_def retired_def
      init_def)

lemma retired_steps:
  "pool_step\<^sup>*\<^sup>* s t \<Longrightarrow> retired (ps_pool s) \<Longrightarrow> retired (ps_pool t) \<and> ps_started t = ps_started s
     \<and> prefix (ps_accepted s) (ps_accepted t)"
proof (induction rule: rtranclp_induct)
  case (step t u)
  then have t: "retired (ps_pool t)" "ps_started t = ps_started s" "prefix (ps_accepted s) (ps_accepted t)"
    by auto
  with retired_step [OF step(2)] show ?case by (auto intro: prefix_order.trans)
qed simp

text \<open>A task submitted after shutdown is accepted and never run: when the workers have returned
  and the buffer has room, \<open>submit\<close> answers true, and in every later state nothing more has been
  started and the task is still in the buffer, so its client is never answered.\<close>

theorem submit_after_shutdown_is_lost:
  assumes "pool_start s" "pool_step\<^sup>*\<^sup>* s t" "retired (ps_pool t)"
    and "tp_task_count (ps_pool t) < QUEUE_CAPACITY"
    and "pool_step\<^sup>*\<^sup>* (t\<lparr>ps_pool := snd (submit i task (ps_pool t)),
            ps_accepted := ps_accepted t @ [task]\<rparr>) u"
  shows "fst (submit i task (ps_pool t)) \<and> ps_started u = ps_started t
    \<and> task \<in> set (ring_items (ps_pool u))"
proof -
  let ?tp = "snd (submit i task (ps_pool t))"
  let ?t = "t\<lparr>ps_pool := ?tp, ps_accepted := ps_accepted t @ [task]\<rparr>"
  have ok: "submit i task (ps_pool t) = (True, ?tp)"
    using assms(4) by (simp add: submit_def)
  have "signal_choice i (tp_workers (ps_pool t))"
    using assms(3) by (auto simp: signal_choice_def sleeping_def retired_def)
  from step_submit [OF this ok] have "pool_step t ?t" by simp
  then have "pool_step\<^sup>*\<^sup>* s u"
    using assms(2,5) by (meson rtranclp.rtrancl_into_rtrancl rtranclp_trans)
  then have u: "ps_accepted u = ps_started u @ ring_items (ps_pool u)"
    using pool.reachable_inv [OF assms(1)] by (simp add: pool_ok_def ring.history_def)
  have t: "ps_accepted t = ps_started t @ ring_items (ps_pool t)"
    using pool.reachable_inv [OF assms(1,2)] by (simp add: pool_ok_def ring.history_def)
  have "retired ?tp"
    using assms(3) by (auto simp: submit_def ring_put_def retired_signal retired_def)
  with retired_steps [OF assms(5)] have r: "ps_started u = ps_started t"
    "prefix (ps_accepted t @ [task]) (ps_accepted u)" by auto
  then have "prefix (ring_items (ps_pool t) @ [task]) (ring_items (ps_pool u))"
    using t u by simp
  then have "task \<in> set (ring_items (ps_pool u))"
    by (auto dest: set_mono_prefix)
  with ok r(1) show ?thesis by (metis fst_conv)
qed

definition retired_pool :: thread_pool where
  "retired_pool = (shutdown_request (init (\<lambda>i. True) 1 new_pool))
     \<lparr>tp_workers := Some Finished # replicate 49 None\<rparr>"

lemma one_worker:
  "tp_workers (init (\<lambda>i. True) 1 new_pool) = Some Deciding # replicate 49 None"
  "tp_task_count (init (\<lambda>i. True) 1 new_pool) = 0"
  "tp_initialized (init (\<lambda>i. True) 1 new_pool)"
  "tp_task_count new_pool = 0"
  by code_simp+

lemma demo_retired: "pool_step\<^sup>*\<^sup>* (pool_state new_pool) (pool_state retired_pool)"
proof -
  let ?one = "init (\<lambda>i. True) 1 new_pool"
  have 1: "pool_step (pool_state new_pool) (pool_state ?one)"
    using step_init [of "pool_state new_pool" "\<lambda>i. True" 1] by (simp add: pool_state_def)
  have 2: "pool_step (pool_state ?one) (pool_state (shutdown_request ?one))"
    using step_shutdown_request [of "pool_state ?one"] by (simp add: pool_state_def)
  have "worker_routine 0 (shutdown_request ?one) = Some ([], retired_pool)"
    by (simp add: worker_routine_def one_worker shutdown_request_def retired_pool_def del: One_nat_def)
  then have 3: "pool_step (pool_state (shutdown_request ?one)) (pool_state retired_pool)"
    using step_worker [of 0 "pool_state (shutdown_request ?one)" "[]" retired_pool]
    by (simp add: pool_state_def)
  from 1 2 3 show ?thesis
    by (meson converse_rtranclp_into_rtranclp r_into_rtranclp)
qed

theorem submit_after_shutdown_is_lost_witness:
  "fst (submit 0 (demo_task 3) retired_pool)"
proof -
  have "retired retired_pool"
    by (auto simp: retired_def retired_pool_def shutdown_request_def one_worker nth_Cons' )
  then show ?thesis
    using submit_after_shutdown_is_lost [OF demo_pool_start demo_retired, of "demo_task 3" 0]
    by (auto simp: pool_state_def retired_pool_def shutdown_request_def one_worker QUEUE_CAPACITY_def)
qed

section \<open>A failed thread creation\<close>

lemma init_loop_success:
  "i \<le> k \<Longrightarrow> k \<le> active \<Longrightarrow> (\<And>j. i \<le> j \<Longrightarrow> j < k \<Longrightarrow> creates j) \<Longrightarrow>
   init_loop creates i active ws
     = init_loop creates k active (fold (\<lambda>j ws. ws[j := Some Deciding]) [i..<k] ws)"
proof (induction "k - i" arbitrary: i ws)
  case (Suc m)
  then have "i < k" by simp
  have "init_loop creates i active ws = init_loop creates (i + 1) active (ws[i := Some Deciding])"
    using Suc.prems \<open>i < k\<close> by (subst init_loop.simps) simp
  also have "\<dots> = init_loop creates k active
      (fold (\<lambda>j ws. ws[j := Some Deciding]) [i + 1..<k] (ws[i := Some Deciding]))"
    using Suc \<open>i < k\<close> by (intro Suc.hyps(1)) auto
  finally show ?case using \<open>i < k\<close> by (simp add: upt_conv_Cons)
qed simp

lemma fold_assign_nth:
  "length (fold (\<lambda>j ws. ws[j := w]) [i..<n] ws) = length ws
   \<and> (j < length ws \<longrightarrow> fold (\<lambda>j ws. ws[j := w]) [i..<n] ws ! j = (if i \<le> j \<and> j < n then w else ws ! j))"
  by (induction n) (auto simp: nth_list_update less_Suc_eq)

lemma join_hole:
  "\<lbrakk>i \<le> k; k < tp_active_worker_count tp; tp_workers tp ! k = None;
    \<And>j. i \<le> j \<Longrightarrow> j < k \<Longrightarrow> tp_workers tp ! j = Some Finished\<rbrakk>
   \<Longrightarrow> shutdown_join i tp = JoinsNoThread k"
proof (induction i tp rule: shutdown_join.induct)
  case (1 i tp)
  show ?case
  proof (cases "i = k")
    case True
    with "1.prems" show ?thesis by (subst shutdown_join.simps) simp
  next
    case False
    then have i: "i < tp_active_worker_count tp" "tp_workers tp ! i = Some Finished"
      using "1.prems" by auto
    then have "shutdown_join i tp = shutdown_join (i + 1) tp"
      by (subst shutdown_join.simps) simp
    with "1.IH" [OF i refl] "1.prems" False show ?thesis by auto
  qed
qed

text \<open>A failed \<open>pthread_create\<close> breaks the pool: when the creation for slot \<open>k\<close>, not the last of
  the \<open>n\<close> requested, fails and all others would succeed, \<open>init\<close> leaves slot \<open>k\<close> empty, never tries
  the last slot because the loop bound was decremented, and \<open>shutdown\<close> joins the slot without a
  thread even after all threads have returned.\<close>

theorem init_failed_creation:
  assumes "n \<le> MAX_WORKERS" "k + 1 < n" "tp = init (\<lambda>i. i \<noteq> k) (int n) new_pool"
  shows "tp_active_worker_count tp = n - 1 \<and> tp_workers tp ! k = None \<and> tp_workers tp ! (n - 1) = None
    \<and> shutdown_join 0 (tp\<lparr>tp_workers := map (map_option (\<lambda>w. Finished)) (tp_workers tp)\<rparr>)
        = JoinsNoThread k"
proof -
  let ?c = "\<lambda>i. i \<noteq> k" and ?d = "Some Deciding" and ?new = "replicate MAX_WORKERS None"
  let ?ws = "fold (\<lambda>j ws. ws[j := ?d]) [0..<k] ?new"
  let ?ws' = "fold (\<lambda>j ws. ws[j := ?d]) [k + 1..<n - 1] ?ws"
  have "init_loop ?c 0 n ?new = init_loop ?c k n ?ws"
    using init_loop_success [of 0 k n ?c ?new] assms by simp
  also have "\<dots> = init_loop ?c (k + 1) (n - 1) ?ws"
    using assms by (subst init_loop.simps) simp
  also have "\<dots> = init_loop ?c (n - 1) (n - 1) ?ws'"
    using init_loop_success [of "k + 1" "n - 1" "n - 1" ?c ?ws] assms by simp
  also have "\<dots> = (n - 1, ?ws')"
    by (subst init_loop.simps) simp
  finally have tp: "tp_active_worker_count tp = n - 1" "tp_workers tp = ?ws'"
    using assms by (simp_all add: init_def new_pool_def)
  have len: "length ?ws = MAX_WORKERS" "length ?ws' = MAX_WORKERS"
    using fold_assign_nth [of ?d] by simp_all
  have nth: "?ws' ! j = (if j < n - 1 \<and> j \<noteq> k then ?d else None)" if "j < MAX_WORKERS" for j
    using that len fold_assign_nth [of ?d "k + 1" "n - 1" ?ws j] fold_assign_nth [of ?d 0 k ?new j]
      assms(2)
    by auto
  have "shutdown_join 0 (tp\<lparr>tp_workers := map (map_option (\<lambda>w. Finished)) (tp_workers tp)\<rparr>)
      = JoinsNoThread k"
    using assms tp len nth by (intro join_hole) auto
  then show ?thesis using tp nth assms by simp
qed

theorem init_failed_creation_witness:
  "tp_active_worker_count (init (\<lambda>i. i \<noteq> 1) 3 new_pool) = 2"
  using init_failed_creation [of 3 1] by (simp add: MAX_WORKERS_def)

section \<open>The connection gate\<close>

text \<open>
  The threads inside a \<open>SemGuard\<close> of the gate, with their \<open>sem_acquired\<close>. Entering is a step when
  \<open>sem_wait\<close> does not wait.
\<close>

record gate_state =
  gs_value :: nat
  gs_inside :: "bool list"

inductive gate_step :: "bool \<Rightarrow> gate_state \<Rightarrow> gate_state \<Rightarrow> bool" for signals :: bool where
  gate_enter:
    "(interrupted \<longrightarrow> signals) \<Longrightarrow> sem_guard_enter interrupted (gs_value g) = Some (acquired, v) \<Longrightarrow>
     gate_step signals g \<lparr>gs_value = v, gs_inside = acquired # gs_inside g\<rparr>"
| gate_leave:
    "gs_inside g = us @ acquired # vs \<Longrightarrow>
     gate_step signals g \<lparr>gs_value = sem_guard_leave acquired (gs_value g), gs_inside = us @ vs\<rparr>"

definition gate_start :: "gate_state \<Rightarrow> bool" where
  "gate_start g \<longleftrightarrow> g = \<lparr>gs_value = DEFAULT_MAX_CONNECTIONS, gs_inside = []\<rparr>"

definition gate_ok :: "bool \<Rightarrow> gate_state \<Rightarrow> bool" where
  "gate_ok signals g \<longleftrightarrow>
     gs_value g + length (filter id (gs_inside g)) = DEFAULT_MAX_CONNECTIONS
     \<and> (\<not> signals \<longrightarrow> False \<notin> set (gs_inside g))"

lemma gate_ok_step: "gate_step signals g h \<Longrightarrow> gate_ok signals g \<Longrightarrow> gate_ok signals h"
proof (induction rule: gate_step.induct)
  case (gate_enter interrupted g acquired v)
  from gate_enter(2) consider "interrupted" "acquired = False" "v = gs_value g"
    | "\<not> interrupted" "acquired = True" "gs_value g = Suc v"
    by (auto simp: sem_guard_enter_def split: if_splits)
  then show ?case
    using gate_enter(1,3) by cases (auto simp: gate_ok_def)
next
  case (gate_leave g us acquired vs)
  then show ?case
    by (cases acquired) (auto simp: gate_ok_def sem_guard_leave_def)
qed

lemma gate_ok_start: "gate_start g \<Longrightarrow> gate_ok signals g"
  by (simp add: gate_start_def gate_ok_def)

interpretation gate: invariant_system gate_start "gate_step signals" "gate_ok signals" for signals
  by unfold_locales (erule gate_ok_start, erule (1) gate_ok_step [rotated])

text \<open>The connection gate: while no signal interrupts \<open>sem_wait\<close>, at most fifty threads are inside
  the guard at once, and in every case the semaphore's value and the threads that acquired it sum
  to fifty, so an interrupted thread, which enters without having acquired, never posts.\<close>

theorem gate_bounds_connections:
  assumes "gate_start g" "(gate_step signals)\<^sup>*\<^sup>* g h"
  shows "gs_value h + length (filter id (gs_inside h)) = DEFAULT_MAX_CONNECTIONS
    \<and> (signals \<or> length (gs_inside h) \<le> DEFAULT_MAX_CONNECTIONS)"
proof -
  have ok: "gate_ok signals h" by (rule gate.reachable_inv [OF assms])
  have "filter id (gs_inside h) = gs_inside h" if "\<not> signals"
    unfolding filter_id_conv using ok that by (metis (full_types) gate_ok_def id_apply)
  with ok show ?thesis
    unfolding gate_ok_def by (metis le_add2)
qed

definition full_gate :: gate_state where
  "full_gate = \<lparr>gs_value = 49, gs_inside = [True]\<rparr>"

theorem gate_bounds_connections_witness:
  "gs_value full_gate + length (filter id (gs_inside full_gate)) = DEFAULT_MAX_CONNECTIONS"
proof -
  have "sem_guard_enter False (gs_value \<lparr>gs_value = DEFAULT_MAX_CONNECTIONS, gs_inside = []\<rparr>) = Some (True, 49)"
    by (simp add: sem_guard_enter_def DEFAULT_MAX_CONNECTIONS_def)
  from gate_enter [OF _ this, of False]
  have "gate_step False \<lparr>gs_value = DEFAULT_MAX_CONNECTIONS, gs_inside = []\<rparr> full_gate"
    by (simp add: full_gate_def)
  then show ?thesis
    using gate_bounds_connections [OF _ r_into_rtranclp, of _ False full_gate]
    by (auto simp: gate_start_def)
qed

end
