(* ===== verification/Worker.thy ===== *)
theory Worker
  imports Auth Thread_Pool
begin

text \<open>
  What a worker thread does with one connection: \<open>src/os_layer/threading/src/worker.cpp\<close>, every
  function of it. A byte is a \<^typ>\<open>char\<close>. The socket delivers its input in arrivals, the pieces one
  \<open>read\<close> at most returns, cut in any way; what follows them is the end of the stream, an error, or
  \<open>Silence\<close> of a peer that stays connected, in which \<open>read\<close> waits for ever: it has no timeout. The peer
  accepts a number of bytes, after which writing fails. The clock, the random bytes and the interruptions of \<open>sem_wait\<close> are functions of the number
  of the request. \<open>wk_log\<close> is the sequence of the log lines that say who was authenticated and
  which query is executed.

  Codecs share the locale \<open>stream_codec\<close>: what is encoded is decoded in front of any rest.
\<close>

section \<open>Codecs\<close>

type_synonym 'a reader = "string \<Rightarrow> ('a \<times> string) option"

fun read_many :: "'a reader \<Rightarrow> nat \<Rightarrow> 'a list reader" where
  "read_many rd 0 s = Some ([], s)"
| "read_many rd (Suc n) s =
     (case rd s of
        None \<Rightarrow> None
      | Some (x, s') \<Rightarrow>
          (case read_many rd n s' of None \<Rightarrow> None | Some (xs, s'') \<Rightarrow> Some (x # xs, s'')))"

locale stream_codec =
  fixes enc :: "'a \<Rightarrow> string"
    and dec :: "'a reader"
    and good :: "'a \<Rightarrow> bool"
  assumes dec_enc: "good x \<Longrightarrow> dec (enc x @ rest) = Some (x, rest)"
begin

lemma read_many_enc:
  "\<forall>x \<in> set xs. good x \<Longrightarrow> read_many dec (length xs) (concat (map enc xs) @ rest) = Some (xs, rest)"
  by (induction xs) (auto simp: dec_enc)

lemma enc_inj: "good x \<Longrightarrow> good y \<Longrightarrow> enc x @ r = enc y @ r' \<Longrightarrow> x = y \<and> r = r'"
  using dec_enc by (metis option.inject prod.inject)

end

text \<open>\<open>memcpy\<close> of a \<open>uint32_t\<close> on the little-endian target.\<close>

definition put32 :: "32 word \<Rightarrow> string" where
  "put32 w = map (\<lambda>i. char_of (unat (drop_bit (8 * i) w))) [0, 1, 2, 3]"

definition get32 :: "string \<Rightarrow> 32 word" where
  "get32 bs = word_of_nat (of_char (bs ! 0) + 256 * of_char (bs ! 1)
     + 65536 * of_char (bs ! 2) + 16777216 * of_char (bs ! 3))"

definition read32 :: "32 word reader" where
  "read32 s = (if length s < 4 then None else Some (get32 (take 4 s), drop 4 s))"

section \<open>Protocol constants\<close>

definition FRAME_HEADER_SIZE :: nat where "FRAME_HEADER_SIZE = 8"
definition MAX_FRAME_SIZE :: nat where "MAX_FRAME_SIZE = 65536"

definition MSG_TYPE_AUTH_REQUEST :: "32 word" where "MSG_TYPE_AUTH_REQUEST = 1"
definition MSG_TYPE_QUERY_REQUEST :: "32 word" where "MSG_TYPE_QUERY_REQUEST = 2"
definition MSG_TYPE_QUERY_RESULT :: "32 word" where "MSG_TYPE_QUERY_RESULT = 3"
definition MSG_TYPE_ERROR_RESPONSE :: "32 word" where "MSG_TYPE_ERROR_RESPONSE = 4"
definition MSG_TYPE_AUTH_RESPONSE :: "32 word" where "MSG_TYPE_AUTH_RESPONSE = 5"
definition MSG_TYPE_LOGOUT :: "32 word" where "MSG_TYPE_LOGOUT = 6"

definition ERR_AUTH_FAILED :: "32 word" where "ERR_AUTH_FAILED = 1"
definition ERR_SESSION_EXPIRED :: "32 word" where "ERR_SESSION_EXPIRED = 2"
definition ERR_QUERY_FAILED :: "32 word" where "ERR_QUERY_FAILED = 4"
definition ERR_PROTOCOL_ERROR :: "32 word" where "ERR_PROTOCOL_ERROR = 5"

lemmas message_types = MSG_TYPE_AUTH_REQUEST_def MSG_TYPE_QUERY_REQUEST_def MSG_TYPE_QUERY_RESULT_def
  MSG_TYPE_ERROR_RESPONSE_def MSG_TYPE_AUTH_RESPONSE_def MSG_TYPE_LOGOUT_def

section \<open>The socket\<close>

datatype arrival = Bytes string | ReadFails | Silence

record conn =
  cn_input :: "arrival list"
  cn_output :: string
  cn_write_limit :: nat
  cn_closed :: bool

text \<open>\<open>read(fd, buf, n)\<close>: \<^const>\<open>None\<close> is -1, the empty text is end of file.\<close>

fun sock_read :: "nat \<Rightarrow> conn \<Rightarrow> (string option \<times> conn) run" where
  "sock_read n c =
     (case cn_input c of
        [] \<Rightarrow> Inr (Some [], c)
      | ReadFails # rest \<Rightarrow> Inr (None, c\<lparr>cn_input := rest\<rparr>)
      | Silence # rest \<Rightarrow> Inl BlocksForever
      | Bytes s # rest \<Rightarrow>
          Inr (Some (take n s),
           c\<lparr>cn_input := (if length s \<le> n then rest else Bytes (drop n s) # rest)\<rparr>))"

definition sock_write :: "string \<Rightarrow> conn \<Rightarrow> nat \<times> conn" where
  "sock_write s c =
     (let k = min (length s) (cn_write_limit c)
      in (k, c\<lparr>cn_output := cn_output c @ take k s, cn_write_limit := cn_write_limit c - k\<rparr>))"

definition readFrame :: "conn \<Rightarrow> ((32 word \<times> string) option \<times> conn) run" where
  "readFrame c =
     (case sock_read FRAME_HEADER_SIZE c of
        Inl f \<Rightarrow> Inl f
      | Inr (None, c) \<Rightarrow> Inr (None, c)
      | Inr (Some header, c) \<Rightarrow>
          if length header \<noteq> FRAME_HEADER_SIZE then Inr (None, c)
          else
            let payload_len = get32 (take 4 header); msg_type = get32 (take 4 (drop 4 header))
            in if MAX_FRAME_SIZE - FRAME_HEADER_SIZE < unat payload_len then Inr (None, c)
               else if payload_len = 0 then Inr (Some (msg_type, []), c)
               else (case sock_read (unat payload_len) c of
                       Inl f \<Rightarrow> Inl f
                     | Inr (None, c) \<Rightarrow> Inr (None, c)
                     | Inr (Some payload, c) \<Rightarrow>
                         if length payload \<noteq> unat payload_len then Inr (None, c)
                         else Inr (Some (msg_type, payload), c)))"

definition sendFrame :: "32 word \<Rightarrow> string \<Rightarrow> conn \<Rightarrow> bool \<times> conn" where
  "sendFrame msg_type payload c =
     (let (written, c) = sock_write (put32 (word_of_nat (length payload)) @ put32 msg_type) c
      in if written \<noteq> FRAME_HEADER_SIZE then (False, c)
         else if payload = [] then (True, c)
         else let (written, c) = sock_write payload c in (written = length payload, c))"

text \<open>The error payload is built in an array of 512 bytes.\<close>

definition sendErrorResponse :: "32 word \<Rightarrow> string \<Rightarrow> conn \<Rightarrow> conn run" where
  "sendErrorResponse error_code error_msg c =
     (if 512 < 4 + length error_msg then Inl UndefinedBehaviour
      else Inr (snd (sendFrame MSG_TYPE_ERROR_RESPONSE (put32 error_code @ error_msg) c)))"

section \<open>Query results\<close>

text \<open>
  The loop over the cells stops at the first cell that does not fit; the column count in front of
  a row is copied without a check. \<open>acc\<close> is the part of \<open>payload\<close> written so far.
\<close>

fun serialize_cells :: "string list \<Rightarrow> string \<Rightarrow> string" where
  "serialize_cells [] acc = acc"
| "serialize_cells (cell # cells) acc =
     (if MAX_FRAME_SIZE < length acc + (length cell + 1) then acc
      else serialize_cells cells (acc @ cell @ [NUL]))"

fun serialize_rows :: "string list list \<Rightarrow> string \<Rightarrow> string run" where
  "serialize_rows [] acc = Inr acc"
| "serialize_rows (row # rows) acc =
     (if MAX_FRAME_SIZE < length acc + 4 then Inl UndefinedBehaviour
      else serialize_rows rows (serialize_cells row (acc @ put32 (word_of_nat (length row)))))"

definition serialize_results :: "string list list \<Rightarrow> string run" where
  "serialize_results results = serialize_rows results (put32 (word_of_nat (length results)))"

section \<open>The worker\<close>

datatype log_event =
    LogAuthenticated session_context
  | LogExecuting int session_context string   \<comment> \<open>time of the request, validated session, query\<close>

record 'c worker_state =
  wk_auth :: "('c unix_socket, 'c) auth_manager"
  wk_registry :: session_registry
  wk_gate :: nat
  wk_conn :: conn
  wk_session :: session_context
  wk_authenticated :: bool
  wk_log :: "log_event list"

record 'c worker_env =
  we_lib :: "'c libpq"
  we_fallback_users :: cstr
  we_time :: "nat \<Rightarrow> int"         \<comment> \<open>when a request is handled\<close>
  we_time_after :: "nat \<Rightarrow> int"   \<comment> \<open>when its query has been answered\<close>
  we_urandom :: "nat \<Rightarrow> 8 word list option"
  we_interrupted :: "nat \<Rightarrow> bool"

text \<open>How the handling of a request ends.\<close>

datatype 'w outcome =
    Continues 'w   \<comment> \<open>the loop goes on\<close>
  | Leaves 'w      \<comment> \<open>\<open>break\<close>\<close>
  | Throws 'w      \<comment> \<open>a C++ exception, with the state at that point\<close>
  | Faults fault   \<comment> \<open>the thread never returns, or has no defined behaviour\<close>

fun proceed :: "'w outcome \<Rightarrow> ('w \<Rightarrow> 'w outcome) \<Rightarrow> 'w outcome" where
  "proceed (Continues w) f = f w"
| "proceed (Leaves w) f = Leaves w"
| "proceed (Throws w) f = Throws w"
| "proceed (Faults x) f = Faults x"

definition answer_error ::
  "('c worker_state \<Rightarrow> 'c worker_state outcome) \<Rightarrow> 32 word \<Rightarrow> string \<Rightarrow> 'c worker_state
     \<Rightarrow> 'c worker_state outcome" where
  "answer_error next code msg w =
     (case sendErrorResponse code msg (wk_conn w) of
        Inl f \<Rightarrow> Faults f
      | Inr c \<Rightarrow> next (w\<lparr>wk_conn := c\<rparr>))"

text \<open>\<open>belt_number.empty() ? officerId : std::stoi(belt_number)\<close>; \<^const>\<open>None\<close> throws.\<close>

definition officer_number :: "session_context \<Rightarrow> int option" where
  "officer_number s = (if sc_belt_number s = [] then Some (sc_officerId s) else stoi (sc_belt_number s))"

definition executeAndSendQuery ::
  "'c worker_env \<Rightarrow> string \<Rightarrow> 'c worker_state \<Rightarrow> 'c worker_state outcome" where
  "executeAndSendQuery env query w =
     (case executeQuery (we_lib env) query (am_ipc (wk_auth w)) of
        Inl f \<Rightarrow> Faults f
      | Inr (query_result, results, ipc) \<Rightarrow>
          let w = w\<lparr>wk_auth := (wk_auth w)\<lparr>am_ipc := ipc\<rparr>\<rparr>
          in if query_result \<noteq> OK
             then answer_error Continues ERR_QUERY_FAILED ''Query execution failed'' w
             else (case serialize_results results of
                     Inl f \<Rightarrow> Faults f
                   | Inr payload \<Rightarrow>
                       Continues (w\<lparr>wk_conn := snd (sendFrame MSG_TYPE_QUERY_RESULT payload (wk_conn w))\<rparr>)))"

text \<open>\<open>memchr\<close> for the two terminators of the payload of a login.\<close>

definition split_at_nul :: "string \<Rightarrow> (string \<times> string) option" where
  "split_at_nul s =
     (if NUL \<in> set s then Some (takeWhile (\<lambda>c. c \<noteq> NUL) s, drop 1 (dropWhile (\<lambda>c. c \<noteq> NUL) s))
      else None)"

definition parse_credentials :: "string \<Rightarrow> (string \<times> string) option" where
  "parse_credentials payload =
     (case split_at_nul payload of
        None \<Rightarrow> None
      | Some (cnic, rest) \<Rightarrow>
          (case split_at_nul rest of None \<Rightarrow> None | Some (password, rest') \<Rightarrow> Some (cnic, password)))"

text \<open>
  \<open>handleLoginRequest\<close>; the session it returns is left in \<open>wk_session\<close>. When \<open>login\<close> throws, the
  manager has at most used its private connection.
\<close>

definition login_call ::
  "'c worker_env \<Rightarrow> nat \<Rightarrow> string \<Rightarrow> string \<Rightarrow> ('c unix_socket, 'c) auth_manager
     \<Rightarrow> (result_code \<times> session_context \<times> string \<times> ('c unix_socket, 'c) auth_manager) run" where
  "login_call env k cnic password am =
     login (we_lib env) (executeQuery (we_lib env)) (we_fallback_users env) (we_urandom env k)
       (we_time env k) cnic password empty_session am"

definition after_login_query ::
  "'c worker_env \<Rightarrow> string \<Rightarrow> string \<Rightarrow> ('c unix_socket, 'c) auth_manager
     \<Rightarrow> ('c unix_socket, 'c) auth_manager" where
  "after_login_query env cnic password am =
     (case login_query (we_lib env) cnic password (am_db_connection am) of
        Inl f \<Rightarrow> am
      | Inr (rc, rows, us) \<Rightarrow> am\<lparr>am_db_connection := us\<rparr>)"

definition handleLoginRequest ::
  "'c worker_env \<Rightarrow> nat \<Rightarrow> string \<Rightarrow> 'c worker_state \<Rightarrow> 'c worker_state outcome" where
  "handleLoginRequest env k payload w =
     (let w = w\<lparr>wk_session := empty_session\<rparr>
      in case parse_credentials payload of
           None \<Rightarrow> answer_error Continues ERR_PROTOCOL_ERROR ''Malformed auth request'' w
         | Some (cnic, password) \<Rightarrow>
             (case login_call env k cnic password (wk_auth w) of
                Inl ThrowsException \<Rightarrow>
                  Throws (w\<lparr>wk_auth := after_login_query env cnic password (wk_auth w)\<rparr>)
              | Inl f \<Rightarrow> Faults f
              | Inr (auth_result, session, wiped, am) \<Rightarrow>
                  let w = w\<lparr>wk_auth := am\<rparr>
                  in if auth_result \<noteq> OK
                     then answer_error Continues ERR_AUTH_FAILED ''Authentication failed'' w
                     else
                       let w = w\<lparr>wk_conn := snd (sendFrame MSG_TYPE_AUTH_RESPONSE
                                                (sc_sessionToken session) (wk_conn w))\<rparr>
                       in case officer_number session of
                            None \<Rightarrow> Throws w
                          | Some n \<Rightarrow> Continues (w\<lparr>wk_session := session,
                              wk_log := wk_log w @ [LogAuthenticated session]\<rparr>)))"

section \<open>The request loop\<close>

text \<open>
  The slot of the connection gate is held around the query. With no slot free the thread waits until
  another thread gives one back and takes that one.
\<close>

definition gated_query ::
  "'c worker_env \<Rightarrow> nat \<Rightarrow> string \<Rightarrow> 'c worker_state \<Rightarrow> 'c worker_state outcome" where
  "gated_query env k query w =
     (let (acquired, val) = (case sem_guard_enter (we_interrupted env k) (wk_gate w) of
                               None \<Rightarrow> (True, 0)
                             | Some r \<Rightarrow> r)
      in case executeAndSendQuery env query (w\<lparr>wk_gate := val\<rparr>) of
           Continues w \<Rightarrow> Continues (w\<lparr>wk_gate := sem_guard_leave acquired (wk_gate w)\<rparr>)
         | Leaves w \<Rightarrow> Leaves (w\<lparr>wk_gate := sem_guard_leave acquired (wk_gate w)\<rparr>)
         | Throws w \<Rightarrow> Throws (w\<lparr>wk_gate := sem_guard_leave acquired (wk_gate w)\<rparr>)
         | Faults f \<Rightarrow> Faults f)"

definition without_trailing_nul :: "string \<Rightarrow> string" where
  "without_trailing_nul q = (if q \<noteq> [] \<and> last q = NUL then butlast q else q)"

definition refresh_after_query ::
  "'c worker_env \<Rightarrow> nat \<Rightarrow> 'c worker_state \<Rightarrow> 'c worker_state outcome" where
  "refresh_after_query env k w =
     (case refreshSession (executeQuery (we_lib env)) (we_time_after env k) (wk_session w) (wk_auth w) of
        Inl f \<Rightarrow> Faults f
      | Inr (refresh_result, am) \<Rightarrow> Continues (w\<lparr>wk_auth := am\<rparr>))"

definition handle_query ::
  "'c worker_env \<Rightarrow> nat \<Rightarrow> string \<Rightarrow> 'c worker_state \<Rightarrow> 'c worker_state outcome" where
  "handle_query env k payload w =
     (let (validate_result, validated) =
            validateToken (we_time env k) (sc_sessionToken (wk_session w)) empty_session (wk_auth w)
      in if validate_result \<noteq> OK then
           (if officer_number (wk_session w) = None then Throws w
            else if validate_result = SESSION_EXPIRED
            then answer_error Leaves ERR_SESSION_EXPIRED ''Session expired'' w
            else answer_error Leaves ERR_AUTH_FAILED ''Session validation failed'' w)
         else
           let w = w\<lparr>wk_session := validated\<rparr>; query = without_trailing_nul payload
           in if query = [] then answer_error Continues ERR_PROTOCOL_ERROR ''Empty query'' w
              else if officer_number validated = None then Throws w
              else proceed
                (gated_query env k query
                  (w\<lparr>wk_log := wk_log w @ [LogExecuting (we_time env k) validated query]\<rparr>))
                (refresh_after_query env k))"

text \<open>The end of the login branch: the connection counts as authenticated from here on.\<close>

definition mark_authenticated :: "worker_task \<Rightarrow> 'c worker_state \<Rightarrow> 'c worker_state outcome" where
  "mark_authenticated task w =
     (case officer_number (wk_session w) of
        None \<Rightarrow> Throws w
      | Some n \<Rightarrow>
          if 0 < n then
            Continues (w\<lparr>wk_authenticated := True,
              wk_registry := register_session (wt_thread_id task)
                \<lparr>ws_officer_id = n, ws_socket_fd = wt_client_socket_fd task,
                 ws_login_timestamp = sc_createdAt (wk_session w)\<rparr> (wk_registry w)\<rparr>)
          else Continues w)"

definition handle_auth ::
  "'c worker_env \<Rightarrow> worker_task \<Rightarrow> nat \<Rightarrow> string \<Rightarrow> 'c worker_state \<Rightarrow> 'c worker_state outcome" where
  "handle_auth env task k payload w =
     (if wk_authenticated w
      then answer_error Continues ERR_PROTOCOL_ERROR ''Already authenticated'' w
      else proceed (handleLoginRequest env k payload w) (mark_authenticated task))"

definition handle_logout ::
  "'c worker_env \<Rightarrow> nat \<Rightarrow> 'c worker_state \<Rightarrow> 'c worker_state outcome" where
  "handle_logout env k w =
     (case logout (executeQuery (we_lib env)) (we_time env k) (wk_session w) (wk_auth w) of
        Inl f \<Rightarrow> Faults f
      | Inr (logout_result, am) \<Rightarrow>
          let w = w\<lparr>wk_auth := am\<rparr>
          in if logout_result = OK \<and> officer_number (wk_session w) = None then Throws w else Leaves w)"

definition handle_request ::
  "'c worker_env \<Rightarrow> worker_task \<Rightarrow> nat \<Rightarrow> 32 word \<Rightarrow> string \<Rightarrow> 'c worker_state
     \<Rightarrow> 'c worker_state outcome" where
  "handle_request env task k msg_type payload w =
     (if msg_type = MSG_TYPE_AUTH_REQUEST then handle_auth env task k payload w
      else if \<not> wk_authenticated w then answer_error Continues ERR_AUTH_FAILED ''Not authenticated'' w
      else if msg_type = MSG_TYPE_QUERY_REQUEST then handle_query env k payload w
      else if msg_type = MSG_TYPE_LOGOUT then handle_logout env k w
      else answer_error Continues ERR_PROTOCOL_ERROR ''Unknown message type'' w)"

text \<open>Every turn of the loop consumes input: the frame header at least.\<close>

fun arrival_size :: "arrival \<Rightarrow> nat" where
  "arrival_size (Bytes s) = length s"
| "arrival_size ReadFails = 0"
| "arrival_size Silence = 0"

definition input_size :: "conn \<Rightarrow> nat" where
  "input_size c = sum_list (map arrival_size (cn_input c))"

lemma sock_read_size:
  "sock_read n c = Inr (Some s, c') \<Longrightarrow> length s \<le> n \<and> input_size c' + length s = input_size c"
  by (auto simp: input_size_def split: list.splits arrival.splits if_splits)

lemma readFrame_size:
  "readFrame c = Inr (Some (t, p), c') \<Longrightarrow> input_size c' + FRAME_HEADER_SIZE + length p = input_size c"
  by (auto simp: readFrame_def Let_def simp del: sock_read.simps dest!: sock_read_size
      split: sum.splits prod.splits option.splits if_splits)

lemma sendFrame_input [simp]:
  "cn_input (snd (sendFrame t p c)) = cn_input c" "cn_closed (snd (sendFrame t p c)) = cn_closed c"
  by (simp_all add: sendFrame_def sock_write_def Let_def)

fun outcome_state :: "'w outcome \<Rightarrow> 'w option" where
  "outcome_state (Continues w) = Some w"
| "outcome_state (Leaves w) = Some w"
| "outcome_state (Throws w) = Some w"
| "outcome_state (Faults f) = None"

definition keeps_input :: "'c worker_state \<Rightarrow> 'c worker_state outcome \<Rightarrow> bool" where
  "keeps_input w r \<longleftrightarrow>
     (\<forall>w'. outcome_state r = Some w' \<longrightarrow> cn_input (wk_conn w') = cn_input (wk_conn w))"

lemma keeps_input_simps [simp]:
  "keeps_input w (Continues w') \<longleftrightarrow> cn_input (wk_conn w') = cn_input (wk_conn w)"
  "keeps_input w (Leaves w') \<longleftrightarrow> cn_input (wk_conn w') = cn_input (wk_conn w)"
  "keeps_input w (Throws w') \<longleftrightarrow> cn_input (wk_conn w') = cn_input (wk_conn w)"
  "keeps_input w (Faults f)"
  by (auto simp: keeps_input_def)

lemma keeps_input_error:
  assumes "cn_input (wk_conn w') = cn_input (wk_conn w)" "next \<in> {Continues, Leaves}"
  shows "keeps_input w (answer_error next code msg w')"
  using assms by (auto simp: answer_error_def sendErrorResponse_def split: sum.splits if_splits)

lemma keeps_input_query: "keeps_input w (executeAndSendQuery env q w)"
  by (auto simp: executeAndSendQuery_def Let_def keeps_input_error split: sum.splits)

lemma keeps_input_proceed:
  "keeps_input w m \<Longrightarrow> (\<And>w'. cn_input (wk_conn w') = cn_input (wk_conn w) \<Longrightarrow> keeps_input w (f w')) \<Longrightarrow>
   keeps_input w (proceed m f)"
  by (cases m) auto

lemma keeps_input_from:
  "cn_input (wk_conn w') = cn_input (wk_conn w) \<Longrightarrow> keeps_input w r = keeps_input w' r"
  by (simp add: keeps_input_def)

lemma keeps_input_gated: "keeps_input w (gated_query env k q w)"
proof -
  obtain a v where g: "(case sem_guard_enter (we_interrupted env k) (wk_gate w) of
      None \<Rightarrow> (True, 0) | Some r \<Rightarrow> r) = (a, v)" by (metis surj_pair)
  show ?thesis
    using keeps_input_query [of "w\<lparr>wk_gate := v\<rparr>" env q]
    unfolding gated_query_def g by (auto split: outcome.splits)
qed

lemma keeps_input_login: "keeps_input w (handleLoginRequest env k p w)"
  by (auto simp: handleLoginRequest_def Let_def keeps_input_error
      split: sum.splits option.splits fault.splits)

lemma keeps_input_auth: "keeps_input w (handle_auth env task k p w)"
  by (auto simp: handle_auth_def mark_authenticated_def keeps_input_error
      intro!: keeps_input_proceed keeps_input_login split: option.splits)

lemma keeps_input_refresh: "keeps_input w (refresh_after_query env k w)"
  by (auto simp: refresh_after_query_def split: sum.splits)

lemma keeps_input_handle_query:
  fixes w :: "'c worker_state"
  shows "keeps_input w (handle_query env k p w)"
proof -
  have run: "keeps_input w (proceed (gated_query env k q w') (refresh_after_query env k))"
    if "cn_input (wk_conn w') = cn_input (wk_conn w)" for q and w' :: "'c worker_state"
  proof (rule keeps_input_proceed)
    show "keeps_input w (gated_query env k q w')"
      using keeps_input_gated [of w'] that by (simp add: keeps_input_def)
  next
    fix w'' :: "'c worker_state"
    assume "cn_input (wk_conn w'') = cn_input (wk_conn w)"
    then show "keeps_input w (refresh_after_query env k w'')"
      using keeps_input_refresh [of w''] by (simp add: keeps_input_def)
  qed
  show ?thesis
    unfolding handle_query_def Let_def by (auto simp: keeps_input_error run split: prod.splits)
qed

lemma keeps_input_request: "keeps_input w (handle_request env task k t p w)"
  by (auto simp: handle_request_def handle_logout_def keeps_input_error keeps_input_auth
      keeps_input_handle_query Let_def split: sum.splits)

function processClientRequests ::
  "'c worker_env \<Rightarrow> worker_task \<Rightarrow> nat \<Rightarrow> 'c worker_state \<Rightarrow> 'c worker_state outcome" where
  "processClientRequests env task k w =
     (case readFrame (wk_conn w) of
        Inl f \<Rightarrow> Faults f
      | Inr (None, c) \<Rightarrow> Leaves (w\<lparr>wk_conn := c\<rparr>)
      | Inr (Some (msg_type, payload), c) \<Rightarrow>
          (case handle_request env task k msg_type payload (w\<lparr>wk_conn := c\<rparr>) of
             Continues w' \<Rightarrow> processClientRequests env task (k + 1) w'
           | Leaves w' \<Rightarrow> Leaves w'
           | Throws w' \<Rightarrow> Throws w'
           | Faults f \<Rightarrow> Faults f))"
  by pat_completeness auto
termination
proof (relation "measure (\<lambda>(env, task, k, w). input_size (wk_conn w))", goal_cases)
  case (2 env task k w q r c m t p w')
  then have "readFrame (wk_conn w) = Inr (Some (t, p), c)" by simp
  from readFrame_size [OF this] have "input_size c < input_size (wk_conn w)"
    by (simp add: FRAME_HEADER_SIZE_def)
  moreover have "cn_input (wk_conn w') = cn_input c"
    using keeps_input_request [of "w\<lparr>wk_conn := c\<rparr>" env task k t p] 2 by simp
  ultimately show ?case by (simp add: input_size_def)
qed simp

declare processClientRequests.simps [simp del]

text \<open>What follows the loop, and the entry point with its handler for exceptions.\<close>

definition cleanup :: "worker_task \<Rightarrow> 'c worker_state \<Rightarrow> 'c worker_state outcome" where
  "cleanup task w =
     (if wk_authenticated w then
        let w = w\<lparr>wk_registry := unregister_session (wt_thread_id task) (wk_registry w)\<rparr>
        in if officer_number (wk_session w) = None then Throws w else Leaves w
      else Leaves w)"

definition close_connection :: "'c worker_state \<Rightarrow> 'c worker_state" where
  "close_connection w = w\<lparr>wk_conn := (wk_conn w)\<lparr>cn_closed := True\<rparr>\<rparr>"

definition process_task :: "'c worker_env \<Rightarrow> worker_task \<Rightarrow> 'c worker_state \<Rightarrow> 'c worker_state run" where
  "process_task env task w =
     (let w = w\<lparr>wk_session := empty_session, wk_authenticated := False\<rparr>;
          r = (case processClientRequests env task 0 w of Leaves w' \<Rightarrow> cleanup task w' | r \<Rightarrow> r)
      in case r of
           Leaves w \<Rightarrow> Inr (close_connection w)
         | Continues w \<Rightarrow> Inr (close_connection w)
         | Throws w \<Rightarrow>
             Inr (close_connection (w\<lparr>wk_registry := unregister_session (wt_thread_id task) (wk_registry w)\<rparr>))
         | Faults f \<Rightarrow> Inl f)"

section \<open>Codecs of the protocol\<close>

lemma bytes_of_nat:
  assumes "n < (4294967296 :: nat)"
  shows "n mod 256 + 256 * (n div 256 mod 256) + 65536 * (n div 65536 mod 256)
    + 16777216 * (n div 16777216 mod 256) = n"
proof -
  define q where "q = n div 256"
  define r where "r = q div 256"
  define t where "t = r div 256"
  have d: "n div 65536 = r" "n div 16777216 = t"
    by (simp_all add: q_def r_def t_def div_mult2_eq [symmetric])
  have "n = 256 * q + n mod 256" "q = 256 * r + q mod 256" "r = 256 * t + r mod 256"
    by (simp_all add: q_def r_def t_def)
  moreover have "t mod 256 = t"
    using assms by (simp add: q_def r_def t_def div_mult2_eq [symmetric] less_mult_imp_div_less)
  ultimately show ?thesis unfolding d q_def [symmetric] by linarith
qed
lemma unat_of_small: "n < 4294967296 \<Longrightarrow> unat (word_of_nat n :: 32 word) = n"
  by (simp add: unat_of_nat take_bit_nat_eq_self)
lemma unat_bound: "unat (w :: 32 word) < 4294967296"
  using unsigned_less [of w] by simp

lemma length_put32 [simp]: "length (put32 w) = 4"
  by (simp add: put32_def)

lemma get32_put32 [simp]: "get32 (put32 w) = w"
proof -
  have "get32 (put32 w) = word_of_nat (unat w mod 256 + 256 * (unat w div 256 mod 256)
      + 65536 * (unat w div 65536 mod 256) + 16777216 * (unat w div 16777216 mod 256))"
    by (simp add: put32_def get32_def unat_drop_bit_eq drop_bit_eq_div [where 'a = nat])
  also have "\<dots> = word_of_nat (unat w)"
    by (simp only: bytes_of_nat [OF unat_bound])
  finally show ?thesis by simp
qed

lemma read32_put32: "read32 (put32 w @ rest) = Some (w, rest)"
  by (simp add: read32_def)

interpretation u32: stream_codec put32 read32 "\<lambda>w. True"
  by unfold_locales (simp add: read32_put32)

text \<open>A cell on the wire ends with its terminator.\<close>

definition put_cell :: "string \<Rightarrow> string" where
  "put_cell cell = cell @ [NUL]"

lemma split_put_cell: "NUL \<notin> set cell \<Longrightarrow> split_at_nul (put_cell cell @ rest) = Some (cell, rest)"
proof -
  assume "NUL \<notin> set cell"
  then have "\<forall>c \<in> set cell. c \<noteq> NUL" by metis
  then show ?thesis
    by (simp add: split_at_nul_def put_cell_def takeWhile_append2 dropWhile_append2)
qed

interpretation cell: stream_codec put_cell split_at_nul "\<lambda>c. NUL \<notin> set c"
  by unfold_locales (rule split_put_cell)

text \<open>A row on the wire, and how a client reads it.\<close>

definition put_row :: "string list \<Rightarrow> string" where
  "put_row row = put32 (word_of_nat (length row)) @ concat (map put_cell row)"

definition read_row :: "string list reader" where
  "read_row s =
     (case read32 s of
        None \<Rightarrow> None
      | Some (n, s') \<Rightarrow> read_many split_at_nul (unat n) s')"

definition row_good :: "string list \<Rightarrow> bool" where
  "row_good row \<longleftrightarrow> length row < 2 ^ 32 \<and> (\<forall>c \<in> set row. NUL \<notin> set c)"

lemma read_put_row: "row_good row \<Longrightarrow> read_row (put_row row @ rest) = Some (row, rest)"
  using cell.read_many_enc [of row rest]
  by (simp add: put_row_def read_row_def read32_put32 row_good_def unat_of_small)

interpretation row: stream_codec put_row read_row row_good
  by unfold_locales (rule read_put_row)

definition put_results :: "string list list \<Rightarrow> string" where
  "put_results results = put32 (word_of_nat (length results)) @ concat (map put_row results)"

definition read_results :: "string list list reader" where
  "read_results s =
     (case read32 s of None \<Rightarrow> None | Some (n, s') \<Rightarrow> read_many read_row (unat n) s')"

lemma serialize_cells_fits:
  "length acc + length (concat (map put_cell row)) \<le> MAX_FRAME_SIZE \<Longrightarrow>
   serialize_cells row acc = acc @ concat (map put_cell row)"
  by (induction row arbitrary: acc) (auto simp: put_cell_def)

lemma serialize_rows_fits:
  "length acc + length (concat (map put_row rows)) \<le> MAX_FRAME_SIZE \<Longrightarrow>
   serialize_rows rows acc = Inr (acc @ concat (map put_row rows))"
proof (induction rows arbitrary: acc)
  case (Cons row rows)
  then have "serialize_cells row (acc @ put32 (word_of_nat (length row))) = acc @ put_row row"
    by (subst serialize_cells_fits) (auto simp: put_row_def)
  with Cons show ?case by (simp add: put_row_def)
qed simp

lemma length_put_row: "length row + 4 \<le> length (put_row row)"
  by (induction row) (auto simp: put_row_def put_cell_def)

lemma rows_small: "4 * length rows \<le> length (concat (map put_row rows))"
  using length_put_row by (induction rows) (auto intro: add_mono dest: add_leD2)

text \<open>Query results survive the trip: when the encoding fits the frame buffer and no cell
  contains a NUL, the payload the worker builds is read back by the client's reader as exactly the
  rows of the result.\<close>

theorem query_result_roundtrip:
  assumes "length (put_results results) \<le> MAX_FRAME_SIZE" "\<forall>row \<in> set results. row_good row"
  shows "\<exists>payload. serialize_results results = Inr payload
    \<and> length payload \<le> MAX_FRAME_SIZE \<and> read_results payload = Some (results, [])"
proof -
  have "length results < 2 ^ 32"
    using rows_small [of results] assms(1) by (simp add: put_results_def MAX_FRAME_SIZE_def)
  then have "read_results (put_results results) = Some (results, [])"
    using row.read_many_enc [OF assms(2), of "[]"]
    by (simp add: read_results_def put_results_def read32_put32 unat_of_small)
  moreover have "serialize_results results = Inr (put_results results)"
    using assms(1) serialize_rows_fits by (simp add: serialize_results_def put_results_def)
  ultimately show ?thesis using assms(1) by auto
qed

theorem query_result_roundtrip_witness:
  "\<exists>payload. serialize_results [[''FIR-7'', ''OPEN''], []] = Inr payload
    \<and> read_results payload = Some ([[''FIR-7'', ''OPEN''], []], [])"
  using query_result_roundtrip [of "[[''FIR-7'', ''OPEN''], []]"]
  by (auto simp: put_results_def put_row_def put_cell_def MAX_FRAME_SIZE_def row_good_def NUL_def)

lemma serialize_cells_grows: "length acc \<le> length (serialize_cells row acc)"
proof (induction row arbitrary: acc)
  case (Cons cell row)
  have "length (acc @ cell @ [NUL]) \<le> length (serialize_cells row (acc @ cell @ [NUL]))"
    by (rule Cons)
  then show ?case by simp
qed simp

lemma serialize_rows_overflow:
  "MAX_FRAME_SIZE < length acc + 4 * length rows \<Longrightarrow> rows \<noteq> [] \<Longrightarrow>
   serialize_rows rows acc = Inl UndefinedBehaviour"
proof (induction rows arbitrary: acc)
  case (Cons row rows)
  let ?acc = "serialize_cells row (acc @ put32 (word_of_nat (length row)))"
  have "length acc + 4 \<le> length ?acc"
    using serialize_cells_grows [of "acc @ put32 (word_of_nat (length row))" row] by simp
  then show ?case using Cons by (cases "rows = []") auto
qed simp

text \<open>A large result overruns the worker's buffer: the column count in front of each row is copied
  without a bounds check, so every result of 16384 rows or more, whatever the rows contain, makes
  the worker write behind its array.\<close>

theorem large_result_overruns_buffer:
  assumes "16384 \<le> length results"
  shows "serialize_results results = Inl UndefinedBehaviour"
  using assms by (auto simp: serialize_results_def MAX_FRAME_SIZE_def intro!: serialize_rows_overflow)

theorem large_result_overruns_buffer_witness:
  "serialize_results (replicate 16384 []) = Inl UndefinedBehaviour"
  by (rule large_result_overruns_buffer) simp

section \<open>Frames\<close>

definition frame_bytes :: "32 word \<Rightarrow> string \<Rightarrow> string" where
  "frame_bytes t payload = put32 (word_of_nat (length payload)) @ put32 t @ payload"

lemma length_frame_bytes: "length (frame_bytes t p) = FRAME_HEADER_SIZE + length p"
  by (simp add: frame_bytes_def FRAME_HEADER_SIZE_def)

lemma sendFrame_writes:
  "length (frame_bytes t p) \<le> cn_write_limit c \<Longrightarrow>
   sendFrame t p c = (True, c\<lparr>cn_output := cn_output c @ frame_bytes t p,
     cn_write_limit := cn_write_limit c - length (frame_bytes t p)\<rparr>)"
  by (auto simp: sendFrame_def sock_write_def frame_bytes_def Let_def FRAME_HEADER_SIZE_def)

lemma frame_bytes_split:
  "take 8 (frame_bytes t p) = put32 (word_of_nat (length p)) @ put32 t" "drop 8 (frame_bytes t p) = p"
  by (simp_all add: frame_bytes_def)

lemma word_length_0: "length p < 4294967296 \<Longrightarrow> (word_of_nat (length p) :: 32 word) = 0 \<longleftrightarrow> p = []"
proof
  assume "length p < 4294967296" "(word_of_nat (length p) :: 32 word) = 0"
  then have "length p = unat (0 :: 32 word)" using unat_of_small [of "length p"] by simp
  then show "p = []" by simp
qed simp

lemma readFrame_header:
  assumes "length p \<le> MAX_FRAME_SIZE - FRAME_HEADER_SIZE"
    and "sock_read 8 d = Inr (Some (put32 (word_of_nat (length p)) @ put32 t), d')"
  shows "readFrame d =
    (if p = [] then Inr (Some (t, []), d')
     else case sock_read (length p) d' of
            Inl f \<Rightarrow> Inl f
          | Inr (None, c) \<Rightarrow> Inr (None, c)
          | Inr (Some q, c) \<Rightarrow> if length q \<noteq> length p then Inr (None, c) else Inr (Some (t, q), c))"
  using assms
  by (simp add: readFrame_def FRAME_HEADER_SIZE_def MAX_FRAME_SIZE_def Let_def unat_of_small word_length_0
      del: sock_read.simps split: sum.split prod.split option.split)

lemma readFrame_bytes:
  assumes "length p \<le> MAX_FRAME_SIZE - FRAME_HEADER_SIZE" "cn_input d = Bytes (frame_bytes t p) # rest"
  shows "readFrame d = Inr (Some (t, p), d\<lparr>cn_input := rest\<rparr>)"
proof -
  let ?d = "d\<lparr>cn_input := (if p = [] then rest else Bytes p # rest)\<rparr>"
  have "sock_read 8 d = Inr (Some (put32 (word_of_nat (length p)) @ put32 t), ?d)"
    using assms(2) length_frame_bytes [of t p]
    by (auto simp: frame_bytes_split FRAME_HEADER_SIZE_def)
  from readFrame_header [OF assms(1) this] show ?thesis by simp
qed

text \<open>C34 Frames survive the trip: a payload that \<open>readFrame\<close> admits and the peer accepts is sent
  whole, and what was appended to the stream, when it arrives in one piece or cut between header and
  payload, is read back as the same type and payload, leaving the rest of the input.\<close>

theorem frame_roundtrip:
  assumes "length p \<le> MAX_FRAME_SIZE - FRAME_HEADER_SIZE" "FRAME_HEADER_SIZE + length p \<le> cn_write_limit c"
    and "cn_input d = Bytes (frame_bytes t p) # rest
       \<or> p \<noteq> [] \<and> cn_input d = Bytes (take 8 (frame_bytes t p)) # Bytes (drop 8 (frame_bytes t p)) # rest"
  shows "(\<exists>c'. sendFrame t p c = (True, c') \<and> cn_output c' = cn_output c @ frame_bytes t p)
    \<and> readFrame d = Inr (Some (t, p), d\<lparr>cn_input := rest\<rparr>)"
proof -
  let ?d = "d\<lparr>cn_input := (if p = [] then rest else Bytes p # rest)\<rparr>"
  have "sock_read 8 d = Inr (Some (put32 (word_of_nat (length p)) @ put32 t), ?d)"
    using assms(3) length_frame_bytes [of t p]
    by (auto simp: frame_bytes_split FRAME_HEADER_SIZE_def)
  from readFrame_header [OF assms(1) this] have "readFrame d = Inr (Some (t, p), d\<lparr>cn_input := rest\<rparr>)"
    by simp
  then show ?thesis
    using sendFrame_writes [of t p c] assms(2) by (simp add: length_frame_bytes)
qed

definition demo_conn :: "arrival list \<Rightarrow> conn" where
  "demo_conn arrivals = \<lparr>cn_input = arrivals, cn_output = [], cn_write_limit = 1000, cn_closed = False\<rparr>"

theorem frame_roundtrip_witness:
  "readFrame (demo_conn [Bytes (frame_bytes 6 ''bye'')]) = Inr (Some (6, ''bye''), demo_conn [])"
  using frame_roundtrip [of "''bye''" "demo_conn []" "demo_conn [Bytes (frame_bytes 6 ''bye'')]" 6 "[]"]
  by (simp add: demo_conn_def FRAME_HEADER_SIZE_def MAX_FRAME_SIZE_def)

text \<open>A frame cut by the network is lost: when the bytes of a frame arrive in two pieces, cut anywhere
  but between header and payload, \<open>readFrame\<close> reports failure, which ends the connection: neither
  \<open>read\<close> is repeated for the missing bytes.\<close>

theorem cut_frame_is_lost:
  assumes "length p \<le> MAX_FRAME_SIZE - FRAME_HEADER_SIZE"
    and "0 < j" "j < length (frame_bytes t p)" "j \<noteq> FRAME_HEADER_SIZE"
    and "cn_input d = Bytes (take j (frame_bytes t p)) # Bytes (drop j (frame_bytes t p)) # rest"
  shows "\<exists>c. readFrame d = Inr (None, c)"
proof (cases "j < FRAME_HEADER_SIZE")
  case True
  then show ?thesis
    using assms(3,5) by (simp add: readFrame_def FRAME_HEADER_SIZE_def)
next
  case False
  then have j: "8 < j" using assms(4) by (simp add: FRAME_HEADER_SIZE_def)
  let ?rest = "Bytes (take (j - 8) p) # Bytes (drop j (frame_bytes t p)) # rest"
  have take: "take j (frame_bytes t p) = (put32 (word_of_nat (length p)) @ put32 t) @ take (j - 8) p"
    using j by (simp add: frame_bytes_def)
  have p: "p \<noteq> []" "j - 8 < length p"
    using assms(3) j by (auto simp: length_frame_bytes FRAME_HEADER_SIZE_def)
  have "sock_read 8 d = Inr (Some (put32 (word_of_nat (length p)) @ put32 t), d\<lparr>cn_input := ?rest\<rparr>)"
    using assms(5) j p unfolding take by simp
  from readFrame_header [OF assms(1) this] p show ?thesis by simp
qed

theorem cut_frame_is_lost_witness:
  "\<exists>c. readFrame (demo_conn [Bytes (take 5 (frame_bytes 6 ''bye'')), Bytes (drop 5 (frame_bytes 6 ''bye''))]) = Inr (None, c)"
  by (rule cut_frame_is_lost [of "''bye''" 5 6 _ "[]"])
    (simp_all add: demo_conn_def frame_bytes_def FRAME_HEADER_SIZE_def MAX_FRAME_SIZE_def)

section \<open>An invariant of the request loop\<close>

text \<open>
  \<open>ends_in P r\<close>: the handler ends in a state with \<open>P\<close>, or has no defined behaviour; it never waits
  for ever.
\<close>

definition ends_in :: "('w \<Rightarrow> bool) \<Rightarrow> 'w outcome \<Rightarrow> bool" where
  "ends_in P r \<longleftrightarrow> (\<forall>f. r = Faults f \<longrightarrow> f = UndefinedBehaviour) \<and> (\<forall>w. outcome_state r = Some w \<longrightarrow> P w)"

lemma ends_in_simps [simp]:
  "ends_in P (Continues w) = P w" "ends_in P (Leaves w) = P w" "ends_in P (Throws w) = P w"
  "ends_in P (Faults f) \<longleftrightarrow> f = UndefinedBehaviour"
  by (simp_all add: ends_in_def)

lemma ends_in_proceed:
  "ends_in P m \<Longrightarrow> (\<And>w. P w \<Longrightarrow> Q w) \<Longrightarrow> (\<And>w. P w \<Longrightarrow> ends_in Q (f w)) \<Longrightarrow> ends_in Q (proceed m f)"
  by (cases m) auto

lemma ends_in_error:
  "(\<And>c. P (w\<lparr>wk_conn := c\<rparr>)) \<Longrightarrow> next \<in> {Continues, Leaves} \<Longrightarrow> ends_in P (answer_error next code msg w)"
  by (auto simp: answer_error_def sendErrorResponse_def split: sum.splits if_splits)

definition free_auth :: "('c unix_socket, 'c) auth_manager \<Rightarrow> bool" where
  "free_auth am \<longleftrightarrow> auth_ok am \<and> \<not> us_held (am_ipc am) \<and> \<not> us_held (am_db_connection am)"

lemma isHealthy_free: "\<not> us_held us \<Longrightarrow> \<exists>b. isHealthy lib us = Inr (b, us)"
  by (cases us) (simp add: isHealthy_def lock_defs Let_def)

lemma login_on_free:
  "\<not> us_held us \<Longrightarrow> \<exists>rc rows us'. login_on lib c cnic pw us = Inr (rc, rows, us') \<and> \<not> us_held us'"
  by (cases "PQexecParams lib c LOGIN_SQL [Some cnic, Some pw]"; cases "fst (PQexecParams lib c LOGIN_SQL [Some cnic, Some pw])")
    (simp_all add: login_on_def lock_defs Let_def)

lemma login_query_free:
  assumes "\<not> us_held us"
  shows "\<exists>rc rows us'. login_query lib cnic pw us = Inr (rc, rows, us') \<and> \<not> us_held us'"
proof -
  obtain b where b: "isHealthy lib us = Inr (b, us)" using isHealthy_free [OF assms] by blast
  define us2 where "us2 = (if b then us else snd (connect lib us))"
  have "\<not> us_held us2" using assms by (simp add: us2_def)
  with login_on_free [OF this] show ?thesis
    by (auto simp: login_query_def b us2_def [symmetric] split: option.splits)
qed

lemma session_of_row_fault: "session_of_row u now cnic row out \<noteq> Inl BlocksForever"
  by (auto simp: session_of_row_def Let_def split: option.splits if_splits)

lemma grant_session_free:
  assumes "\<not> us_held (am_ipc am)"
  shows "\<exists>am'. grant_session (executeQuery lib) s am = Inr (OK, s, am') \<and> \<not> us_held (am_ipc am')
     \<and> am_db_connection am' = am_db_connection am"
  using ipc.store_insert_returns [of "am_ipc am" lib s "am_session_store am"] assms
  by (auto simp: grant_session_def)

lemma login_decide_free:
  assumes "\<not> us_held (am_ipc am)"
  shows "login_decide (executeQuery lib) env u now cnic pw out rc rows am \<noteq> Inl BlocksForever
    \<and> (\<forall>r s am'. login_decide (executeQuery lib) env u now cnic pw out rc rows am = Inr (r, s, am') \<longrightarrow>
         \<not> us_held (am_ipc am') \<and> am_db_connection am' = am_db_connection am)"
proof -
  have g: "grant_session (executeQuery lib) s am = Inr (r, s', am') \<Longrightarrow>
      \<not> us_held (am_ipc am') \<and> am_db_connection am' = am_db_connection am"
    "grant_session (executeQuery lib) s am \<noteq> Inl f" for s r s' am' f
    using grant_session_free [OF assms, of lib s] by auto
  show ?thesis
    using assms session_of_row_fault [of u now cnic "hd rows" out]
    by (auto simp: login_decide_def g run_simps split: option.splits if_splits dest: g(1))
qed

lemma login_free:
  assumes "free_auth am"
  shows "login_call env k cnic pw am \<noteq> Inl BlocksForever
    \<and> (\<forall>rc s wiped am'. login_call env k cnic pw am = Inr (rc, s, wiped, am') \<longrightarrow> free_auth am')"
proof -
  obtain rc rows us where q:
    "login_query (we_lib env) cnic pw (am_db_connection am) = Inr (rc, rows, us)" "\<not> us_held us"
    using login_query_free assms unfolding free_auth_def by blast
  have "auth_ok am'" if "login_call env k cnic pw am = Inr (r, s, wiped, am')" for r s wiped am'
    using auth_ok_step [OF step_login] that assms unfolding login_call_def free_auth_def by blast
  moreover have "login_call env k cnic pw am \<noteq> Inl BlocksForever
    \<and> (\<forall>r s wiped am'. login_call env k cnic pw am = Inr (r, s, wiped, am') \<longrightarrow>
          \<not> us_held (am_ipc am') \<and> \<not> us_held (am_db_connection am'))"
    using login_decide_free [of "am\<lparr>am_db_connection := us\<rparr>" "we_lib env" "we_fallback_users env"
        "we_urandom env k" "we_time env k" cnic pw empty_session rc rows] q assms
    by (auto simp: login_call_def login_def free_auth_def run_simps)
  ultimately show ?thesis by (auto simp: free_auth_def)
qed

lemma after_login_query_free: "free_auth am \<Longrightarrow> free_auth (after_login_query env cnic pw am)"
  using login_query_free [of "am_db_connection am" "we_lib env" cnic pw]
  by (auto simp: free_auth_def after_login_query_def auth_ok_def)

lemma refresh_free:
  assumes "free_auth am"
  shows "\<exists>rc am'. refreshSession (executeQuery lib) now s am = Inr (rc, am') \<and> free_auth am'"
proof -
  have "\<exists>rc am'. refreshSession (executeQuery lib) now s am = Inr (rc, am') \<and> \<not> us_held (am_ipc am')
      \<and> am_db_connection am' = am_db_connection am"
    using assms ipc.exec_returns [of "am_ipc am" lib "refresh_query now (sc_sessionToken s)"]
    by (auto simp: refreshSession_def store_refresh_def free_auth_def split: option.splits)
  then show ?thesis
    using assms auth_ok_step [OF step_refresh] unfolding free_auth_def by metis
qed

lemma logout_free:
  assumes "free_auth am"
  shows "\<exists>rc am'. logout (executeQuery lib) now s am = Inr (rc, am') \<and> free_auth am'"
proof -
  have "\<exists>rc am'. logout (executeQuery lib) now s am = Inr (rc, am') \<and> \<not> us_held (am_ipc am')
      \<and> am_db_connection am' = am_db_connection am"
    using assms ipc.exec_returns [of "am_ipc am" lib "remove_query now (sc_sessionToken s)"]
    by (auto simp: logout_def store_remove_def free_auth_def Let_def split: option.splits)
  then show ?thesis
    using assms auth_ok_step [OF step_logout] unfolding free_auth_def by metis
qed

text \<open>
  Every execution in the log is of a non-empty query, for a session less than eight hours old, that
  was authenticated earlier on the same connection.
\<close>

definition execution_ok :: "log_event list \<Rightarrow> log_event \<Rightarrow> bool" where
  "execution_ok before e \<longleftrightarrow>
     (case e of
        LogAuthenticated s \<Rightarrow> True
      | LogExecuting now s q \<Rightarrow>
          q \<noteq> [] \<and> now < sc_createdAt s + HARD_EXPIRY_SECONDS
          \<and> (\<exists>s'. LogAuthenticated s' \<in> set before \<and> sc_sessionToken s' = sc_sessionToken s))"

definition log_ok :: "log_event list \<Rightarrow> bool" where
  "log_ok l \<longleftrightarrow> (\<forall>us e vs. l = us @ e # vs \<longrightarrow> execution_ok us e)"

lemma log_ok_Nil [simp]: "log_ok []"
  by (simp add: log_ok_def)

lemma log_ok_snoc: "log_ok (l @ [e]) \<longleftrightarrow> log_ok l \<and> execution_ok l e"
proof
  assume "log_ok (l @ [e])"
  then show "log_ok l \<and> execution_ok l e"
    unfolding log_ok_def by (metis append.assoc append_Cons append_Nil)
next
  assume ok: "log_ok l \<and> execution_ok l e"
  show "log_ok (l @ [e])"
    unfolding log_ok_def
  proof (intro allI impI)
    fix us e' vs
    assume "l @ [e] = us @ e' # vs"
    then show "execution_ok us e'"
      using ok by (cases vs rule: rev_cases) (auto simp: log_ok_def)
  qed
qed

definition granted :: "'c worker_state \<Rightarrow> bool" where
  "granted w \<longleftrightarrow> (\<exists>s. LogAuthenticated s \<in> set (wk_log w) \<and> sc_sessionToken s = sc_sessionToken (wk_session w))"

definition wk_inv :: "worker_task \<Rightarrow> session_registry \<Rightarrow> 'c worker_state \<Rightarrow> bool" where
  "wk_inv task reg w \<longleftrightarrow> free_auth (wk_auth w) \<and> log_ok (wk_log w)
     \<and> (\<forall>t. t \<noteq> wt_thread_id task \<longrightarrow> map_of (wk_registry w) t = map_of reg t)
     \<and> (if wk_authenticated w then granted w else wk_registry w = reg)"

lemma wk_inv_conn [simp]:
  "wk_inv task reg (w\<lparr>wk_conn := c\<rparr>) = wk_inv task reg w"
  "wk_inv task reg (w\<lparr>wk_gate := v\<rparr>) = wk_inv task reg w"
  by (simp_all add: wk_inv_def granted_def)

lemma inv_execute:
  assumes "wk_inv task reg w"
  shows "ends_in (wk_inv task reg) (executeAndSendQuery env q w)"
proof -
  obtain rc rows us where e: "executeQuery (we_lib env) q (am_ipc (wk_auth w)) = Inr (rc, rows, us)"
    "\<not> us_held us"
    using ipc.exec_returns [of "am_ipc (wk_auth w)" "we_lib env" q] assms
    by (auto simp: wk_inv_def free_auth_def)
  have "wk_inv task reg (w\<lparr>wk_auth := (wk_auth w)\<lparr>am_ipc := us\<rparr>\<rparr>)"
    using assms e(2) by (auto simp: wk_inv_def free_auth_def auth_ok_def granted_def)
  moreover have "serialize_rows rows acc = Inl f \<Longrightarrow> f = UndefinedBehaviour" for acc f
    by (induction rows arbitrary: acc) (auto split: if_splits)
  ultimately show ?thesis
    by (auto simp: executeAndSendQuery_def e(1) Let_def serialize_results_def
        intro!: ends_in_error split: sum.splits)
qed

lemma inv_gated:
  assumes "wk_inv task reg w"
  shows "ends_in (wk_inv task reg) (gated_query env k q w)"
proof -
  obtain a v where g: "(case sem_guard_enter (we_interrupted env k) (wk_gate w) of
      None \<Rightarrow> (True, 0) | Some r \<Rightarrow> r) = (a, v)" by (metis surj_pair)
  have "wk_inv task reg (w\<lparr>wk_gate := v\<rparr>)" using assms by simp
  from inv_execute [OF this, of env q] show ?thesis
    unfolding gated_query_def g by (auto split: outcome.splits)
qed

lemma inv_refresh:
  assumes "wk_inv task reg w"
  shows "ends_in (wk_inv task reg) (refresh_after_query env k w)"
  using assms refresh_free [of "wk_auth w" "we_lib env" "we_time_after env k" "wk_session w"]
  by (auto simp: refresh_after_query_def wk_inv_def granted_def)

lemma inv_logout:
  assumes "wk_inv task reg w"
  shows "ends_in (wk_inv task reg) (handle_logout env k w)"
  using assms logout_free [of "wk_auth w" "we_lib env" "we_time env k" "wk_session w"]
  by (auto simp: handle_logout_def wk_inv_def granted_def Let_def)

lemma inv_handle_query:
  fixes w :: "'c worker_state"
  assumes inv: "wk_inv task reg w" and auth: "wk_authenticated w"
  shows "ends_in (wk_inv task reg) (handle_query env k p w)"
proof -
  obtain rc s where v: "validateToken (we_time env k) (sc_sessionToken (wk_session w)) empty_session
      (wk_auth w) = (rc, s)" by (metis surj_pair)
  show ?thesis
  proof (cases "rc = OK")
    case False
    with inv v show ?thesis
      by (auto simp: handle_query_def Let_def intro!: ends_in_error)
  next
    case True
    let ?q = "without_trailing_nul p"
    let ?e = "LogExecuting (we_time env k) s ?q"
    have s: "sc_sessionToken s = sc_sessionToken (wk_session w)"
      "we_time env k < sc_createdAt s + HARD_EXPIRY_SECONDS"
      using validateToken_OK [OF _ v [unfolded True]] inv
      by (auto simp: wk_inv_def free_auth_def session_ok_def)
    have g: "granted w" using inv auth by (simp add: wk_inv_def)
    have inv1: "wk_inv task reg (w\<lparr>wk_session := s\<rparr>)"
      using inv s(1) by (auto simp: wk_inv_def granted_def)
    have inv2: "wk_inv task reg (w\<lparr>wk_session := s, wk_log := wk_log w @ [?e]\<rparr>)" if "?q \<noteq> []"
      using inv1 g s that auth by (auto simp: wk_inv_def granted_def log_ok_snoc execution_ok_def)
    show ?thesis
      unfolding handle_query_def v Let_def prod.case
      using inv1 inv2 True
      by (auto intro!: ends_in_error ends_in_proceed [OF inv_gated] inv_refresh)
  qed
qed

lemma inv_login:
  assumes inv: "wk_inv task reg w" and "\<not> wk_authenticated w"
  shows "ends_in (\<lambda>w. wk_inv task reg w \<and> \<not> wk_authenticated w
      \<and> (wk_session w = empty_session \<or> granted w)) (handleLoginRequest env k p w)"
proof -
  have b: "free_auth am \<Longrightarrow> wk_inv task reg (w\<lparr>wk_session := s, wk_auth := am\<rparr>)" for s am
    using assms by (simp add: wk_inv_def)
  have a: "free_auth am \<Longrightarrow> wk_inv task reg (w\<lparr>wk_session := s, wk_auth := am, wk_log := wk_log w @ [LogAuthenticated s']\<rparr>)"
    for s s' am
    using assms by (simp add: wk_inv_def log_ok_snoc execution_ok_def)
  have f: "free_auth (wk_auth w)" using inv by (simp add: wk_inv_def)
  show ?thesis
  proof (cases "parse_credentials p")
    case None
    then show ?thesis
      using assms by (auto simp: handleLoginRequest_def Let_def wk_inv_def intro!: ends_in_error)
  next
    case (Some cp)
    obtain cnic pw where cp: "cp = (cnic, pw)" by (cases cp)
    show ?thesis
    proof (cases "login_call env k cnic pw (wk_auth w)")
      case (Inl x)
      then show ?thesis
        using login_free [OF f, of env k cnic pw] after_login_query_free [OF f] assms b
        by (cases x) (auto simp: handleLoginRequest_def Let_def Some cp)
    next
      case (Inr r)
      then obtain rc s wiped am where l: "login_call env k cnic pw (wk_auth w) = Inr (rc, s, wiped, am)"
        by (cases r) auto
      then have am: "free_auth am" using login_free [OF f] by blast
      have "wk_inv task reg (w\<lparr>wk_session := empty_session, wk_auth := am, wk_conn := c\<rparr>)" for c
        using b [OF am] wk_inv_conn(1) by metis
      moreover have "wk_inv task reg (w\<lparr>wk_auth := am, wk_conn := c, wk_session := s,
          wk_log := wk_log w @ [LogAuthenticated s]\<rparr>)" for c
        using am assms by (simp add: wk_inv_def log_ok_snoc execution_ok_def)
      ultimately show ?thesis
        using assms l b [OF am, of empty_session]
        by (auto simp: handleLoginRequest_def Let_def Some cp granted_def intro!: ends_in_error
            split: option.splits)
    qed
  qed
qed

lemma inv_auth:
  fixes w :: "'c worker_state"
  assumes inv: "wk_inv task reg w"
  shows "ends_in (wk_inv task reg) (handle_auth env task k p w)"
proof (cases "wk_authenticated w")
  case True
  then show ?thesis using inv by (auto simp: handle_auth_def intro!: ends_in_error)
next
  case False
  have mark: "ends_in (wk_inv task reg) (mark_authenticated task w')"
    if "wk_inv task reg w' \<and> \<not> wk_authenticated w' \<and> (wk_session w' = empty_session \<or> granted w')"
    for w' :: "'c worker_state"
    using that
    by (auto simp: mark_authenticated_def wk_inv_def granted_def register_session_def officer_number_def
        empty_session_def split: option.splits)
  show ?thesis
    unfolding handle_auth_def using False
    by (auto intro!: ends_in_proceed [OF inv_login [OF inv False]] mark)
qed

lemma inv_request:
  "wk_inv task reg w \<Longrightarrow> ends_in (wk_inv task reg) (handle_request env task k t p w)"
  by (auto simp: handle_request_def inv_auth inv_handle_query inv_logout intro!: ends_in_error)

text \<open>The loop waits for ever only in a \<open>read\<close> of a silent peer.\<close>

definition never_silent :: "conn \<Rightarrow> bool" where
  "never_silent c \<longleftrightarrow> Silence \<notin> set (cn_input c)"

lemma readFrame_silent:
  assumes "never_silent c"
  shows "\<exists>r c'. readFrame c = Inr (r, c') \<and> never_silent c'"
proof -
  have step: "\<exists>r c'. sock_read n c = Inr (r, c') \<and> never_silent c'" if "never_silent c" for n c
    using that by (auto simp: never_silent_def split: list.splits arrival.splits)
  obtain h c1 where h: "sock_read FRAME_HEADER_SIZE c = Inr (h, c1)" "never_silent c1" using step [OF assms] by blast
  obtain b c2 where "sock_read (unat (get32 (take 4 (the h)))) c1 = Inr (b, c2)" "never_silent c2"
    using step [OF h(2)] by blast
  with h show ?thesis
    by (cases h; cases b) (simp_all add: readFrame_def Let_def del: sock_read.simps)
qed

lemma readFrame_blocks: "readFrame c = Inl f \<Longrightarrow> f = BlocksForever"
proof -
  have "sock_read n c = Inl f \<Longrightarrow> f = BlocksForever" for n c f by (auto split: list.splits arrival.splits)
  then show "readFrame c = Inl f \<Longrightarrow> f = BlocksForever"
    by (auto simp: readFrame_def Let_def simp del: sock_read.simps split: sum.splits prod.splits option.splits if_splits)
qed

definition loop_in :: "('c worker_state \<Rightarrow> bool) \<Rightarrow> conn \<Rightarrow> 'c worker_state outcome \<Rightarrow> bool" where
  "loop_in P c r \<longleftrightarrow> ends_in P r \<or> r = Faults BlocksForever \<and> \<not> never_silent c"

lemma inv_loop:
  "wk_inv task reg w \<Longrightarrow> loop_in (wk_inv task reg) (wk_conn w) (processClientRequests env task k w)"
proof (induction env task k w rule: processClientRequests.induct)
  case (1 env task k w)
  show ?case
  proof (cases "readFrame (wk_conn w)")
    case (Inl f)
    with readFrame_silent [of "wk_conn w"] readFrame_blocks [OF Inl] show ?thesis
      by (subst processClientRequests.simps) (auto simp: loop_in_def)
  next
    case (Inr rc)
    obtain r c where rc: "rc = (r, c)" by (cases rc)
    note rf = Inr [unfolded rc]
    have w: "wk_inv task reg (w\<lparr>wk_conn := c\<rparr>)" using "1.prems" by simp
    show ?thesis
    proof (cases r)
      case None
      with w show ?thesis by (subst processClientRequests.simps) (simp add: rf loop_in_def)
    next
      case (Some tp)
      obtain t p where tp: "tp = (t, p)" by (cases tp)
      note h = inv_request [OF w, of env k t p]
      show ?thesis
      proof (cases "handle_request env task k t p (w\<lparr>wk_conn := c\<rparr>)")
        case (Continues w')
        have "loop_in (wk_inv task reg) (wk_conn w') (processClientRequests env task (k + 1) w')"
          using "1.IH" [OF Inr rc [symmetric] Some tp [symmetric] Continues] h Continues by simp
        then show ?thesis
          using keeps_input_request [of "w\<lparr>wk_conn := c\<rparr>" env task k t p] Continues readFrame_silent [of "wk_conn w"] rf
          by (subst processClientRequests.simps) (auto simp: rf Some tp loop_in_def never_silent_def)
      qed (use h in \<open>subst processClientRequests.simps, simp add: rf Some tp loop_in_def\<close>)+
    qed
  qed
qed

lemma loop_ends: "processClientRequests env task k w \<noteq> Continues w'"
proof (induction env task k w rule: processClientRequests.induct)
  case (1 env task k w)
  then show ?case
    by (subst processClientRequests.simps) (auto split: sum.splits prod.splits option.splits outcome.splits)
qed

text \<open>\<open>process_task\<close> seen from outside: the registry is as before, up to the thread's own entry.\<close>

lemma process_task_ends:
  assumes "free_auth (wk_auth w)" "wk_log w = []"
  shows "(\<forall>f. process_task env task w = Inl f \<longrightarrow>
        f = UndefinedBehaviour \<or> f = BlocksForever \<and> \<not> never_silent (wk_conn w))
    \<and> (\<forall>w'. process_task env task w = Inr w' \<longrightarrow>
         cn_closed (wk_conn w') \<and> free_auth (wk_auth w') \<and> log_ok (wk_log w')
         \<and> (\<forall>t. t \<noteq> wt_thread_id task \<longrightarrow> map_of (wk_registry w') t = map_of (wk_registry w) t)
         \<and> map_of (wk_registry w') (wt_thread_id task) \<in> {None, map_of (wk_registry w) (wt_thread_id task)})"
proof -
  let ?w = "w\<lparr>wk_session := empty_session, wk_authenticated := False\<rparr>"
  have "wk_inv task (wk_registry w) ?w"
    using assms by (simp add: wk_inv_def)
  from inv_loop [OF this, of env 0] loop_ends [of env task 0 ?w] show ?thesis
    by (cases "processClientRequests env task 0 ?w")
      (auto simp: process_task_def cleanup_def close_connection_def unregister_session_def wk_inv_def
        loop_in_def Let_def split: if_splits)
qed

section \<open>A connection, computed\<close>

definition demo_socket :: "unit unix_socket" where
  "demo_socket = \<lparr>us_held = False, us_conn = Some (), us_conn_string = []\<rparr>"

definition demo_auth :: "session_map \<Rightarrow> (unit unix_socket, unit) auth_manager" where
  "demo_auth m = \<lparr>am_session_store = m, am_duty_cache = [], am_ipc = demo_socket, am_db_connection = demo_socket\<rparr>"

definition demo_worker :: "arrival list \<Rightarrow> unit worker_state" where
  "demo_worker arrivals = \<lparr>
     wk_auth = demo_auth [],
     wk_registry = [], wk_gate = 50, wk_conn = demo_conn arrivals, wk_session = empty_session,
     wk_authenticated = False, wk_log = []\<rparr>"

definition demo_env :: "unit worker_env" where
  "demo_env = \<lparr>we_lib = demo_lib, we_fallback_users = None, we_time = (\<lambda>k. 1000), we_time_after = (\<lambda>k. 1001),
     we_urandom = (\<lambda>k. Some demo_bytes), we_interrupted = (\<lambda>k. False)\<rparr>"

definition demo_credentials :: string where
  "demo_credentials = put_cell ''35202'' @ put_cell ''pw''"

definition demo_arrivals :: "arrival list" where
  "demo_arrivals = [Bytes (frame_bytes 1 demo_credentials), Bytes (frame_bytes 2 ''SELECT 1'')]"

lemma demo_parse: "parse_credentials demo_credentials = Some (''35202'', ''pw'')"
  using split_put_cell [of "''35202''" "put_cell ''pw''"] split_put_cell [of "''pw''" "[]"]
  by (simp add: parse_credentials_def demo_credentials_def NUL_def)

lemma demo_execute: "executeQuery demo_lib q demo_socket = Inr (OK, [], demo_socket)"
  by (simp add: executeQuery_def execute_def lock_defs demo_lib_def demo_socket_def)

lemma demo_login_query:
  "login_query demo_lib cnic pw demo_socket = Inr (OK, [[''7'', ''SI'', ''3'']], demo_socket)"
  by (simp add: login_query_def login_on_def isHealthy_def lock_defs demo_lib_def demo_socket_def Let_def)

lemma demo_login_call:
  "login_call demo_env k ''35202'' ''pw'' (demo_auth []) =
   Inr (OK, demo_session, [NUL, NUL], demo_auth [(sc_sessionToken demo_session, demo_session)])"
  by (simp add: login_call_def login_def demo_not_rejected demo_login_query
      demo_auth_def demo_env_def demo_execute login_decide_def session_of_row_def demo_stoi parseOfficerRank_def
      grant_session_def store_insert_def demo_session_def empty_session_def
      demo_token Let_def)

definition demo_conn_task :: worker_task where
  "demo_conn_task = \<lparr>wt_client_socket_fd = 5, wt_thread_id = 5\<rparr>"

lemma demo_auth_request:
  "\<exists>w. handle_request demo_env demo_conn_task k 1 demo_credentials (demo_worker []\<lparr>wk_conn := c\<rparr>) = Continues w
     \<and> wk_log w = [LogAuthenticated demo_session] \<and> wk_session w = demo_session \<and> wk_authenticated w
     \<and> wk_auth w = demo_auth [(sc_sessionToken demo_session, demo_session)]
     \<and> cn_input (wk_conn w) = cn_input c \<and> wk_gate w = 50"
  by (simp add: handle_request_def message_types handle_auth_def handleLoginRequest_def demo_worker_def
      demo_parse demo_login_call Let_def officer_number_def mark_authenticated_def demo_session_def [THEN arg_cong [of _ _ sc_belt_number]] demo_session_def [THEN arg_cong [of _ _ sc_officerId]])

lemma demo_query_request:
  assumes "wk_session w = demo_session" "wk_authenticated w"
    "wk_auth w = demo_auth [(sc_sessionToken demo_session, demo_session)]"
  shows "\<exists>w'. handle_request demo_env demo_conn_task k 2 ''SELECT 1'' w = Continues w'
     \<and> wk_log w' = wk_log w @ [LogExecuting 1000 demo_session ''SELECT 1'']
     \<and> cn_input (wk_conn w') = cn_input (wk_conn w)"
proof -
  have v: "validateToken 1000 (sc_sessionToken demo_session) empty_session (wk_auth w) = (OK, demo_session)"
    by (simp add: assms(3) validateToken_def store_validate_def store_isExpired_def demo_session_def demo_auth_def demo_token)
  have q: "without_trailing_nul ''SELECT 1'' = ''SELECT 1''"
    by (simp add: without_trailing_nul_def NUL_def)
  have "\<exists>w'. gated_query demo_env k ''SELECT 1'' w = Continues w' \<and> wk_log w' = wk_log w
     \<and> cn_input (wk_conn w') = cn_input (wk_conn w) \<and> wk_session w' = wk_session w \<and> wk_auth w' = wk_auth w" 
     if "wk_auth w = demo_auth [(sc_sessionToken demo_session, demo_session)]" for w
    using that
    by (auto simp: gated_query_def sem_guard_enter_def demo_env_def executeAndSendQuery_def demo_auth_def demo_execute serialize_results_def Let_def)
  from this [of "w\<lparr>wk_session := demo_session, wk_log := wk_log w @ [LogExecuting 1000 demo_session ''SELECT 1'']\<rparr>"] 
  obtain w' where g: "gated_query demo_env k ''SELECT 1'' (w\<lparr>wk_session := demo_session, wk_log := wk_log w @ [LogExecuting 1000 demo_session ''SELECT 1'']\<rparr>) = Continues w'"
     "wk_log w' = wk_log w @ [LogExecuting 1000 demo_session ''SELECT 1'']" "cn_input (wk_conn w') = cn_input (wk_conn w)" "wk_session w' = demo_session" 
     "wk_auth w' = demo_auth [(sc_sessionToken demo_session, demo_session)]"
    using assms by auto
  have r: "\<exists>w''. refresh_after_query demo_env k w' = Continues w'' \<and> wk_log w'' = wk_log w' \<and> wk_conn w'' = wk_conn w'"
    by (simp add: refresh_after_query_def refreshSession_def store_refresh_def g demo_auth_def demo_env_def demo_execute)
  show ?thesis
    using v q g r assms(1,2) by (auto simp: handle_request_def message_types handle_query_def Let_def officer_number_def demo_env_def demo_session_def [THEN arg_cong [of _ _ sc_belt_number]])
qed


lemma readFrame_end: "cn_input c = [] \<Longrightarrow> readFrame c = Inr (None, c)"
  by (simp add: readFrame_def FRAME_HEADER_SIZE_def)

lemma demo_run:
  "\<exists>w'. process_task demo_env demo_conn_task (demo_worker demo_arrivals) = Inr w'
     \<and> wk_log w' = [LogAuthenticated demo_session, LogExecuting 1000 demo_session ''SELECT 1'']"
proof -
  let ?w = "demo_worker demo_arrivals\<lparr>wk_session := empty_session, wk_authenticated := False\<rparr>"
  let ?rest = "[Bytes (frame_bytes 2 ''SELECT 1'')]"
  let ?c = "demo_conn ?rest"
  have "length demo_credentials \<le> MAX_FRAME_SIZE - FRAME_HEADER_SIZE"
    by (simp add: demo_credentials_def put_cell_def MAX_FRAME_SIZE_def FRAME_HEADER_SIZE_def)
  from readFrame_bytes [OF this, of "wk_conn ?w" 1 ?rest]
  have f1: "readFrame (wk_conn ?w) = Inr (Some (1, demo_credentials), ?c)"
    by (simp add: demo_worker_def demo_arrivals_def demo_conn_def)
  have "?w\<lparr>wk_conn := ?c\<rparr> = demo_worker []\<lparr>wk_conn := ?c\<rparr>" by (simp add: demo_worker_def)
  with demo_auth_request [of 0 ?c] obtain w1 where
    w1: "handle_request demo_env demo_conn_task 0 1 demo_credentials (?w\<lparr>wk_conn := ?c\<rparr>) = Continues w1"
    "wk_log w1 = [LogAuthenticated demo_session]" "wk_session w1 = demo_session" "wk_authenticated w1"
    "wk_auth w1 = demo_auth [(sc_sessionToken demo_session, demo_session)]" "cn_input (wk_conn w1) = ?rest"
    by (auto simp: demo_conn_def)
  have f2: "readFrame (wk_conn w1) = Inr (Some (2, ''SELECT 1''), wk_conn w1\<lparr>cn_input := []\<rparr>)"
    by (rule readFrame_bytes) (simp_all add: w1 MAX_FRAME_SIZE_def FRAME_HEADER_SIZE_def)
  from demo_query_request [of "w1\<lparr>wk_conn := wk_conn w1\<lparr>cn_input := []\<rparr>\<rparr>" "Suc 0"] w1 obtain w2 where
    w2: "handle_request demo_env demo_conn_task (Suc 0) 2 ''SELECT 1'' (w1\<lparr>wk_conn := wk_conn w1\<lparr>cn_input := []\<rparr>\<rparr>) = Continues w2"
    "wk_log w2 = [LogAuthenticated demo_session, LogExecuting 1000 demo_session ''SELECT 1'']" "cn_input (wk_conn w2) = []"
    by auto
  have "processClientRequests demo_env demo_conn_task 0 ?w = processClientRequests demo_env demo_conn_task (Suc 0) w1"
    unfolding processClientRequests.simps [of _ _ 0 ?w] f1 using w1(1) by simp
  also have "\<dots> = processClientRequests demo_env demo_conn_task (Suc (Suc 0)) w2"
    unfolding processClientRequests.simps [of _ _ _ w1] f2 using w2(1) by simp
  also have "\<dots> = Leaves w2"
    unfolding processClientRequests.simps [of _ _ _ w2] readFrame_end [OF w2(3)] by simp
  finally have "processClientRequests demo_env demo_conn_task 0 ?w = Leaves w2" .
  then show ?thesis
    using w2(2) by (auto simp: process_task_def cleanup_def close_connection_def Let_def)
qed

lemma demo_free: "free_auth (wk_auth (demo_worker a))"
  by (simp add: demo_worker_def demo_auth_def demo_socket_def free_auth_def auth_ok_def store_ok_def)

text \<open>C6 No query without a fresh login: whatever bytes a client sends, in whatever pieces, and however
  its connection ends, every query the worker executes for it is non-empty and belongs to a session
  that was authenticated earlier on this connection and is less than eight hours old.\<close>

theorem queries_only_after_login:
  assumes "free_auth (wk_auth w)" "wk_log w = []" "process_task env task w = Inr w'"
    and "wk_log w' = us @ LogExecuting now s q # vs"
  shows "q \<noteq> [] \<and> now < sc_createdAt s + HARD_EXPIRY_SECONDS
    \<and> (\<exists>s'. LogAuthenticated s' \<in> set us \<and> sc_sessionToken s' = sc_sessionToken s)"
proof -
  have "execution_ok us (LogExecuting now s q)"
    using process_task_ends [OF assms(1,2), of env task] assms(3,4) by (auto simp: log_ok_def)
  then show ?thesis by (simp add: execution_ok_def)
qed

theorem queries_only_after_login_witness:
  "\<exists>w'. process_task demo_env demo_conn_task (demo_worker demo_arrivals) = Inr w'
     \<and> wk_log w' = [LogAuthenticated demo_session] @ [LogExecuting 1000 demo_session ''SELECT 1'']
     \<and> (1000 :: int) < sc_createdAt demo_session + HARD_EXPIRY_SECONDS"
proof -
  obtain w' where w': "process_task demo_env demo_conn_task (demo_worker demo_arrivals) = Inr w'"
    "wk_log w' = [LogAuthenticated demo_session] @ LogExecuting 1000 demo_session ''SELECT 1'' # []"
    using demo_run by auto
  from queries_only_after_login [OF demo_free _ this] w' show ?thesis
    by (auto simp: demo_worker_def)
qed



end
