(* ===== verification/Process_Mgmt.thy ===== *)
theory Process_Mgmt
  imports Types_JF
begin

text \<open>
  Child processes: \<open>ProcessRegistry\<close> and \<open>ProcessManager\<close> (\<open>src/os_layer/process/src\<close>). The kernel is
  modelled by its table of the children of this process: a child is alive or a zombie with its wait
  status until \<open>waitpid\<close> removes it. Between two polls of \<open>reapAll\<close> the children change by the
  function \<open>evolve\<close> of the poll's number, of which the theorems assume what the kernel documents
  (\<open>child_evolution\<close>): zombies stay, and children neither appear nor vanish by themselves.
\<close>

section \<open>The kernel's table of children\<close>

datatype child = Alive | Exited int | Signaled int

type_synonym kernel = "(int \<times> child) list"

datatype wait_result =
    WaitZero              \<comment> \<open>0: the child has not changed state\<close>
  | WaitReaped int child  \<comment> \<open>the pid, and the state that becomes the status\<close>
  | WaitFails int         \<comment> \<open>-1, with \<open>errno\<close>\<close>

definition ECHILD :: int where "ECHILD = 10"
definition ESRCH :: int where "ESRCH = 3"
definition SIGKILL :: int where "SIGKILL = 9"
definition SIGTERM :: int where "SIGTERM = 15"

text \<open>\<open>waitpid(pid, &status, WNOHANG)\<close>, and \<open>waitpid(-1, &status, WNOHANG)\<close>.\<close>

definition waitpid_nohang :: "int \<Rightarrow> kernel \<Rightarrow> wait_result \<times> kernel" where
  "waitpid_nohang pid kn =
     (case map_of kn pid of
        None \<Rightarrow> (WaitFails ECHILD, kn)
      | Some Alive \<Rightarrow> (WaitZero, kn)
      | Some c \<Rightarrow> (WaitReaped pid c, AList.delete pid kn))"

definition waitpid_any :: "kernel \<Rightarrow> wait_result \<times> kernel" where
  "waitpid_any kn =
     (case filter (\<lambda>(p, c). c \<noteq> Alive) kn of
        [] \<Rightarrow> (if kn = [] then WaitFails ECHILD else WaitZero, kn)
      | (p, c) # _ \<Rightarrow> (WaitReaped p c, AList.delete p kn))"

text \<open>\<open>waitpid(pid, &status, 0)\<close>: \<^const>\<open>None\<close> while the child lives.\<close>

definition waitpid_blocking :: "int \<Rightarrow> kernel \<Rightarrow> (wait_result \<times> kernel) option" where
  "waitpid_blocking pid kn =
     (case waitpid_nohang pid kn of (WaitZero, kn') \<Rightarrow> None | r \<Rightarrow> Some r)"

text \<open>\<open>kill\<close>: 0, or -1 with \<open>errno\<close>. A child reacts to \<open>SIGTERM\<close> when it likes.\<close>

definition kernel_kill :: "int \<Rightarrow> int \<Rightarrow> kernel \<Rightarrow> int \<times> int \<times> kernel" where
  "kernel_kill pid sig kn =
     (case map_of kn pid of
        None \<Rightarrow> (-1, ESRCH, kn)
      | Some Alive \<Rightarrow> (0, 0, if sig = SIGKILL then AList.update pid (Signaled SIGKILL) kn else kn)
      | Some c \<Rightarrow> (0, 0, kn))"

definition child_evolution :: "kernel \<Rightarrow> kernel \<Rightarrow> bool" where
  "child_evolution kn kn' \<longleftrightarrow> dom (map_of kn') = dom (map_of kn)
     \<and> (\<forall>p c. map_of kn p = Some c \<longrightarrow> c \<noteq> Alive \<longrightarrow> map_of kn' p = Some c)"

section \<open>ProcessRegistry\<close>

datatype process_state = RUNNING | COMPLETED | FAILED | REAPED

record process_record =
  pr_pid :: int
  pr_agent_name :: string
  pr_fifo_path :: string
  pr_shm_name :: string
  pr_state :: process_state
  pr_restart_count :: int

definition new_process_record :: process_record where
  "new_process_record = \<lparr>pr_pid = -1, pr_agent_name = [], pr_fifo_path = [], pr_shm_name = [],
     pr_state = FAILED, pr_restart_count = 0\<rparr>"

type_synonym process_registry = "(int \<times> process_record) list"

definition registerProcess ::
  "int \<Rightarrow> process_record \<Rightarrow> process_registry \<Rightarrow> result_code \<times> process_registry" where
  "registerProcess pid record registry =
     (if map_of registry pid \<noteq> None then (ALREADY_EXISTS, registry)
      else (OK, AList.update pid record registry))"

definition updateState ::
  "int \<Rightarrow> process_state \<Rightarrow> process_registry \<Rightarrow> result_code \<times> process_registry" where
  "updateState pid new_state registry =
     (case map_of registry pid of
        None \<Rightarrow> (NOT_FOUND, registry)
      | Some r \<Rightarrow> (OK, AList.update pid (r\<lparr>pr_state := new_state\<rparr>) registry))"

definition incrementRestartCount ::
  "int \<Rightarrow> int \<Rightarrow> process_registry \<Rightarrow> result_code \<times> int \<times> process_registry" where
  "incrementRestartCount pid out_new_count registry =
     (case map_of registry pid of
        None \<Rightarrow> (NOT_FOUND, out_new_count, registry)
      | Some r \<Rightarrow>
          let r' = r\<lparr>pr_restart_count := pr_restart_count r + 1\<rparr>
          in (OK, pr_restart_count r', AList.update pid r' registry))"

definition getRecord ::
  "int \<Rightarrow> process_record \<Rightarrow> process_registry \<Rightarrow> result_code \<times> process_record" where
  "getRecord pid out_record registry =
     (case map_of registry pid of None \<Rightarrow> (NOT_FOUND, out_record) | Some r \<Rightarrow> (OK, r))"

definition removeRecord :: "int \<Rightarrow> process_registry \<Rightarrow> result_code \<times> process_registry" where
  "removeRecord pid registry =
     (case map_of registry pid of
        None \<Rightarrow> (NOT_FOUND, registry)
      | Some r \<Rightarrow> (OK, AList.delete pid registry))"

definition getAllPids :: "process_registry \<Rightarrow> result_code \<times> int list" where
  "getAllPids registry = (OK, map fst registry)"

section \<open>ProcessManager\<close>

datatype process_action = NONE | RESTART | ESCALATE_ERROR

definition MAX_RESTARTS :: int where "MAX_RESTARTS = 3"
definition SHUTDOWN_TIMEOUT_SEC :: int where "SHUTDOWN_TIMEOUT_SEC = 10"

text \<open>What \<open>reapOne\<close> does when its \<open>waitpid\<close> returned the pid.\<close>

definition after_reap :: "int \<Rightarrow> child \<Rightarrow> process_registry \<Rightarrow> process_action \<times> process_registry" where
  "after_reap pid status registry =
     (let registry = snd (updateState pid REAPED registry)
      in if status = Exited 0 then (NONE, registry)
         else (case getRecord pid new_process_record registry of
                 (rc, record) \<Rightarrow>
                   if rc \<noteq> OK then (NONE, registry)
                   else (case incrementRestartCount pid 0 registry of
                           (rc, new_restart_count, registry) \<Rightarrow>
                             if rc \<noteq> OK then (NONE, registry)
                             else if new_restart_count \<le> MAX_RESTARTS then (RESTART, registry)
                             else (ESCALATE_ERROR, registry))))"

definition reapOne ::
  "int \<Rightarrow> process_registry \<Rightarrow> kernel \<Rightarrow> result_code \<times> process_action \<times> process_registry \<times> kernel" where
  "reapOne pid registry kn =
     (case waitpid_nohang pid kn of
        (WaitZero, kn) \<Rightarrow> (NOT_FOUND, NONE, registry, kn)
      | (WaitFails errno, kn) \<Rightarrow>
          if errno = ECHILD then (OK, NONE, registry, kn) else (DB_ERROR, NONE, registry, kn)
      | (WaitReaped p status, kn) \<Rightarrow>
          (case after_reap pid status registry of (act, registry) \<Rightarrow> (OK, act, registry, kn)))"

definition sendSignal :: "int \<Rightarrow> int \<Rightarrow> kernel \<Rightarrow> result_code \<times> kernel" where
  "sendSignal pid sig kn =
     (if pid \<le> 0 then (INVALID_INPUT, kn)
      else (case kernel_kill pid sig kn of
              (ret, errno, kn) \<Rightarrow>
                if ret = -1 then (if errno = ESRCH then NOT_FOUND else DB_ERROR, kn) else (OK, kn)))"

definition signal_all :: "int \<Rightarrow> int list \<Rightarrow> kernel \<Rightarrow> kernel" where
  "signal_all sig pids kn = fold (\<lambda>pid kn. snd (sendSignal pid sig kn)) pids kn"

text \<open>One pass of the polling loop over \<open>remaining\<close>; the first result is \<open>still_alive\<close>.\<close>

fun reap_pass :: "int list \<Rightarrow> process_registry \<Rightarrow> kernel \<Rightarrow> int list \<times> process_registry \<times> kernel" where
  "reap_pass [] registry kn = ([], registry, kn)"
| "reap_pass (pid # pids) registry kn =
     (case waitpid_nohang pid kn of
        (WaitReaped p status, kn) \<Rightarrow> reap_pass pids (snd (updateState pid REAPED registry)) kn
      | (WaitZero, kn) \<Rightarrow>
          (case reap_pass pids registry kn of (still, r) \<Rightarrow> (pid # still, r))
      | (WaitFails errno, kn) \<Rightarrow>
          if errno = 4 then (case reap_pass pids registry kn of (still, r) \<Rightarrow> (pid # still, r))
          else if errno = ECHILD then reap_pass pids (snd (updateState pid REAPED registry)) kn
          else reap_pass pids registry kn)"

text \<open>
  The polling loop. \<open>elapsed n\<close> is \<open>elapsed_sec\<close> at poll \<open>n\<close>. \<^const>\<open>None\<close>: it does not return.
\<close>

record process_env =
  pe_elapsed :: "nat \<Rightarrow> int"
  pe_evolve :: "nat \<Rightarrow> kernel \<Rightarrow> kernel"

partial_function (option) reap_loop ::
  "process_env \<Rightarrow> nat \<Rightarrow> int list \<Rightarrow> process_registry \<Rightarrow> kernel
     \<Rightarrow> (int list \<times> process_registry \<times> kernel) option" where
  "reap_loop env n remaining registry kn =
     (if remaining = [] \<or> SHUTDOWN_TIMEOUT_SEC \<le> pe_elapsed env n then Some (remaining, registry, kn)
      else (case reap_pass remaining registry (pe_evolve env n kn) of
              (still, registry, kn) \<Rightarrow> reap_loop env (n + 1) still registry kn))"

declare reap_loop.simps [code]

text \<open>The blocking reaps after \<open>SIGKILL\<close>.\<close>

fun final_reap :: "int list \<Rightarrow> process_registry \<Rightarrow> kernel \<Rightarrow> (process_registry \<times> kernel) option" where
  "final_reap [] registry kn = Some (registry, kn)"
| "final_reap (pid # pids) registry kn =
     (case waitpid_blocking pid kn of
        None \<Rightarrow> None
      | Some (WaitReaped p status, kn) \<Rightarrow> final_reap pids (snd (updateState pid REAPED registry)) kn
      | Some (r, kn) \<Rightarrow> final_reap pids registry kn)"

definition reapAll ::
  "process_env \<Rightarrow> process_registry \<Rightarrow> kernel \<Rightarrow> (result_code \<times> process_registry \<times> kernel) option" where
  "reapAll env registry kn =
     (case getAllPids registry of
        (rc, pids) \<Rightarrow>
          if rc \<noteq> OK then Some (INVALID_STATE, registry, kn)
          else (case reap_loop env 0 pids registry (signal_all SIGTERM pids kn) of
                  None \<Rightarrow> None
                | Some (remaining, registry, kn) \<Rightarrow>
                    map_option (\<lambda>(registry, kn). (OK, registry, kn))
                      (if remaining = [] then Some (registry, kn)
                       else final_reap remaining registry (signal_all SIGKILL remaining kn))))"

section \<open>The registry as a map\<close>

text \<open>The contract of the registry's operations on the map from pids to records.\<close>

locale record_store =
  fixes lookup :: "'s \<Rightarrow> 'k \<Rightarrow> 'r option"
    and add :: "'k \<Rightarrow> 'r \<Rightarrow> 's \<Rightarrow> result_code \<times> 's"
    and modify :: "('r \<Rightarrow> 'r) \<Rightarrow> 'k \<Rightarrow> 's \<Rightarrow> result_code \<times> 's"
    and remove :: "'k \<Rightarrow> 's \<Rightarrow> result_code \<times> 's"
  assumes add_new: "lookup s k = None \<Longrightarrow> add k r s = (rc, s') \<Longrightarrow> rc = OK \<and> lookup s' = (lookup s)(k \<mapsto> r)"
    and add_old: "lookup s k = Some r' \<Longrightarrow> add k r s = (ALREADY_EXISTS, s)"
    and modify_new: "lookup s k = None \<Longrightarrow> modify f k s = (NOT_FOUND, s)"
    and modify_old: "lookup s k = Some r \<Longrightarrow> modify f k s = (rc, s') \<Longrightarrow> rc = OK \<and> lookup s' = (lookup s)(k \<mapsto> f r)"
    and remove_new: "lookup s k = None \<Longrightarrow> remove k s = (NOT_FOUND, s)"
    and remove_old: "lookup s k = Some r \<Longrightarrow> remove k s = (rc, s') \<Longrightarrow> rc = OK \<and> lookup s' = (lookup s)(k := None)"
begin

lemma lookup_modify: "lookup (snd (modify f k s)) = (lookup s)(k := map_option f (lookup s k))"
proof (cases "lookup s k")
  case None
  then show ?thesis by (simp add: modify_new fun_upd_idem)
next
  case (Some r)
  then show ?thesis using modify_old [OF Some, of f] by (cases "modify f k s") simp
qed

lemma dom_modify: "dom (lookup (snd (modify f k s))) = dom (lookup s)"
  by (auto simp: lookup_modify dom_def)

lemma modify_comp:
  "lookup (snd (modify f k (snd (modify g k s)))) = lookup (snd (modify (f \<circ> g) k s))"
  by (auto simp: lookup_modify option.map_comp fun_eq_iff)

lemma remove_add:
  assumes "lookup s k = None"
  shows "lookup (snd (remove k (snd (add k r s)))) = lookup s"
proof -
  let ?s = "snd (add k r s)"
  have a: "lookup ?s = (lookup s)(k \<mapsto> r)"
    using add_new [OF assms, of r "fst (add k r s)" ?s] by simp
  then have "lookup ?s k = Some r" by simp
  from remove_old [OF this, of "fst (remove k ?s)" "snd (remove k ?s)"]
  have "lookup (snd (remove k ?s)) = (lookup ?s)(k := None)" by simp
  also have "\<dots> = lookup s" unfolding a using assms by (auto simp: fun_eq_iff)
  finally show ?thesis .
qed

end

definition modify_record ::
  "(process_record \<Rightarrow> process_record) \<Rightarrow> int \<Rightarrow> process_registry \<Rightarrow> result_code \<times> process_registry" where
  "modify_record f pid registry =
     (case map_of registry pid of
        None \<Rightarrow> (NOT_FOUND, registry)
      | Some r \<Rightarrow> (OK, AList.update pid (f r) registry))"

lemma updateState_modify: "updateState pid st = modify_record (pr_state_update (\<lambda>_. st)) pid"
  by (auto simp: updateState_def modify_record_def fun_eq_iff split: option.splits)

lemma increment_modify:
  "(fst (incrementRestartCount pid c reg), snd (snd (incrementRestartCount pid c reg)))
     = modify_record (\<lambda>r. r\<lparr>pr_restart_count := pr_restart_count r + 1\<rparr>) pid reg"
  by (auto simp: incrementRestartCount_def modify_record_def Let_def split: option.splits)

interpretation reg: record_store map_of registerProcess modify_record removeRecord
  by unfold_locales (auto simp: registerProcess_def modify_record_def removeRecord_def)

lemma map_of_updateState:
  "map_of (snd (updateState pid st reg)) = (map_of reg)(pid := map_option (pr_state_update (\<lambda>_. st)) (map_of reg pid))"
  by (simp add: updateState_modify reg.lookup_modify)

section \<open>Reaping\<close>

lemma waitpid_nohang_cases:
  obtains (gone) "map_of kn pid = None" "waitpid_nohang pid kn = (WaitFails ECHILD, kn)"
  | (alive) "map_of kn pid = Some Alive" "waitpid_nohang pid kn = (WaitZero, kn)"
  | (zombie) c where "map_of kn pid = Some c" "c \<noteq> Alive"
      "waitpid_nohang pid kn = (WaitReaped pid c, AList.delete pid kn)"
  by (cases "map_of kn pid"; cases "the (map_of kn pid)") (auto simp: waitpid_nohang_def)

lemma after_reap_known:
  assumes "map_of reg pid = Some r"
  shows "after_reap pid c reg =
    (if c = Exited 0 then NONE
     else if pr_restart_count r + 1 \<le> MAX_RESTARTS then RESTART else ESCALATE_ERROR,
     if c = Exited 0 then AList.update pid (r\<lparr>pr_state := REAPED\<rparr>) reg
     else AList.update pid (r\<lparr>pr_state := REAPED, pr_restart_count := pr_restart_count r + 1\<rparr>)
            (AList.update pid (r\<lparr>pr_state := REAPED\<rparr>) reg))"
  using assms by (simp add: after_reap_def updateState_def getRecord_def incrementRestartCount_def Let_def)

text \<open>The restart decision: reaping a registered child that has ended marks it as reaped and removes
  it from the kernel; after a clean exit nothing is to be done, after an abnormal one the restart
  count goes up by one and the child is to be restarted while the count is at most three, and an
  error is to be escalated afterwards. Other records do not change.\<close>

theorem reapOne_decides:
  assumes "map_of kn pid = Some c" "c \<noteq> Alive" "map_of reg pid = Some r"
    and "reapOne pid reg kn = (rc, act, reg', kn')"
  shows "rc = OK \<and> map_of kn' = (map_of kn)(pid := None)
    \<and> act = (if c = Exited 0 then NONE else if pr_restart_count r < 3 then RESTART else ESCALATE_ERROR)
    \<and> map_of reg' = (map_of reg)(pid \<mapsto> r\<lparr>pr_state := REAPED,
         pr_restart_count := pr_restart_count r + (if c = Exited 0 then 0 else 1)\<rparr>)"
proof -
  have w: "waitpid_nohang pid kn = (WaitReaped pid c, AList.delete pid kn)"
    using assms(1,2) by (cases c) (simp_all add: waitpid_nohang_def)
  show ?thesis
    using assms(4)
    by (auto simp: reapOne_def w after_reap_known [OF assms(3)] MAX_RESTARTS_def split: if_splits)
qed

definition demo_record :: process_record where
  "demo_record = new_process_record\<lparr>pr_pid := 42, pr_state := RUNNING, pr_restart_count := 3\<rparr>"

theorem reapOne_decides_witness:
  "fst (snd (reapOne 42 [(42, demo_record)] [(42, Signaled 11)])) = ESCALATE_ERROR"
  using reapOne_decides [of "[(42, Signaled 11)]" 42 "Signaled 11" "[(42, demo_record)]" demo_record]
  by (cases "reapOne 42 [(42, demo_record)] [(42, Signaled 11)]") (simp add: demo_record_def)

section \<open>Shutdown of all children\<close>

text \<open>A pid is settled when its record says so and the kernel has no such child.\<close>

definition settled :: "process_registry \<Rightarrow> kernel \<Rightarrow> int \<Rightarrow> bool" where
  "settled reg kn p \<longleftrightarrow> map_of kn p = None \<and> (\<exists>r. map_of reg p = Some r \<and> pr_state r = REAPED)"

lemma settled_mark:
  "map_of kn p = None \<Longrightarrow> p \<in> dom (map_of reg) \<Longrightarrow> settled (snd (updateState p REAPED reg)) kn p"
  by (auto simp: settled_def map_of_updateState)

lemma settled_other:
  "settled reg kn q \<Longrightarrow> dom (map_of kn') \<subseteq> dom (map_of kn) \<Longrightarrow>
   settled reg kn' q \<and> settled (snd (updateState p REAPED reg)) kn' q"
  by (auto simp: settled_def domIff subset_iff map_of_updateState)

lemma dom_updateState [simp]: "dom (map_of (snd (updateState p st reg))) = dom (map_of reg)"
  by (auto simp: dom_def map_of_updateState)

text \<open>What a pass over \<open>pids\<close> that leaves \<open>still\<close> achieves.\<close>

definition progress ::
  "int set \<Rightarrow> int set \<Rightarrow> process_registry \<Rightarrow> kernel \<Rightarrow> process_registry \<Rightarrow> kernel \<Rightarrow> bool" where
  "progress P S reg kn reg' kn' \<longleftrightarrow> S \<subseteq> P \<and> dom (map_of reg') = dom (map_of reg)
     \<and> dom (map_of kn') \<subseteq> dom (map_of kn)
     \<and> (\<forall>p. p \<in> P - S \<or> settled reg kn p \<longrightarrow> settled reg' kn' p)"

lemma progress_refl: "progress P P reg kn reg kn"
  by (simp add: progress_def)

lemma progress_trans:
  "progress P S reg kn reg1 kn1 \<Longrightarrow> progress S T reg1 kn1 reg2 kn2 \<Longrightarrow> progress P T reg kn reg2 kn2"
  unfolding progress_def by blast

lemma progress_union:
  "progress P S reg kn reg1 kn1 \<Longrightarrow> progress Q T reg1 kn1 reg2 kn2 \<Longrightarrow>
   progress (P \<union> Q) (S \<union> T) reg kn reg2 kn2"
  unfolding progress_def by blast

lemma progress_mark:
  assumes "map_of kn' p = None" "dom (map_of kn') \<subseteq> dom (map_of kn)" "p \<in> dom (map_of reg)"
  shows "progress {p} {} reg kn (snd (updateState p REAPED reg)) kn'"
  using settled_mark [OF assms(1,3)] settled_other [OF _ assms(2)] assms(2)
  by (auto simp: progress_def)

lemma progress_evolution: "dom (map_of kn') = dom (map_of kn) \<Longrightarrow> progress P P reg kn reg kn'"
  by (auto simp: progress_def settled_def domIff)

lemma reap_pass_progress:
  "reap_pass pids reg kn = (still, reg', kn') \<Longrightarrow> set pids \<subseteq> dom (map_of reg) \<Longrightarrow>
   progress (set pids) (set still) reg kn reg' kn'"
proof (induction pids arbitrary: reg kn still reg' kn')
  case Nil
  then show ?case by (simp add: progress_refl)
next
  case (Cons pid pids)
  let ?reg = "snd (updateState pid REAPED reg)"
  have P: "set (pid # pids) = {pid} \<union> set pids" by simp
  show ?case
  proof (cases rule: waitpid_nohang_cases [of kn pid])
    case gone
    then have "reap_pass pids ?reg kn = (still, reg', kn')"
      using Cons.prems(1) by (simp add: ECHILD_def)
    from progress_union [OF progress_mark Cons.IH [OF this], of kn] gone(1) Cons.prems(2)
    show ?thesis by simp
  next
    case alive
    then obtain still' where s: "reap_pass pids reg kn = (still', reg', kn')" "still = pid # still'"
      using Cons.prems(1) by (auto split: prod.splits)
    from progress_union [OF progress_refl Cons.IH [OF s(1)], of "{pid}"] Cons.prems(2) s(2)
    show ?thesis by simp
  next
    case (zombie c)
    then have "reap_pass pids ?reg (AList.delete pid kn) = (still, reg', kn')"
      using Cons.prems(1) by simp
    from progress_union [OF progress_mark Cons.IH [OF this], of kn] Cons.prems(2) show ?thesis
      by auto
  qed
qed

lemma reap_pass_alive:
  "reap_pass pids reg kn = (still, reg', kn') \<Longrightarrow>
   (\<forall>p. map_of kn p = Some Alive \<longrightarrow> map_of kn' p = Some Alive)
   \<and> (\<forall>p. p \<in> set still \<longrightarrow> map_of kn' p = Some Alive)"
proof (induction pids arbitrary: reg kn still reg' kn')
  case (Cons pid pids)
  show ?case
  proof (cases rule: waitpid_nohang_cases [of kn pid])
    case gone
    then have "reap_pass pids (snd (updateState pid REAPED reg)) kn = (still, reg', kn')"
      using Cons.prems by (simp add: ECHILD_def)
    from Cons.IH [OF this] show ?thesis .
  next
    case alive
    then obtain still' where s: "reap_pass pids reg kn = (still', reg', kn')" "still = pid # still'"
      using Cons.prems by (auto split: prod.splits)
    from Cons.IH [OF s(1)] alive(1) show ?thesis unfolding s(2) by auto
  next
    case (zombie c)
    then have "reap_pass pids (snd (updateState pid REAPED reg)) (AList.delete pid kn) = (still, reg', kn')"
      using Cons.prems by simp
    from Cons.IH [OF this] zombie(1,2) show ?thesis
      by (metis (no_types, lifting) fun_upd_apply map_of_erase option.inject)
  qed
qed simp

text \<open>The polling loop returns by poll \<open>N\<close> at the latest when the time is up then.\<close>

lemma reap_loop_returns:
  assumes "SHUTDOWN_TIMEOUT_SEC \<le> pe_elapsed env N" "\<And>n kn. child_evolution kn (pe_evolve env n kn)"
    and "n \<le> N" "set remaining \<subseteq> dom (map_of reg)"
  shows "\<exists>still reg' kn'. reap_loop env n remaining reg kn = Some (still, reg', kn')
    \<and> progress (set remaining) (set still) reg kn reg' kn'
    \<and> (set remaining \<subseteq> dom (map_of kn) \<or> pe_elapsed env n < SHUTDOWN_TIMEOUT_SEC \<longrightarrow>
         set still \<subseteq> dom (map_of kn'))"
  using assms(3,4)
proof (induction "N - n" arbitrary: n remaining reg kn)
  case 0
  then have "n = N" by simp
  then show ?case
    using assms(1) progress_refl by (subst reap_loop.simps) auto
next
  case (Suc m)
  show ?case
  proof (cases "remaining = [] \<or> SHUTDOWN_TIMEOUT_SEC \<le> pe_elapsed env n")
    case True
    then show ?thesis using progress_refl by (subst reap_loop.simps) auto
  next
    case False
    let ?kn = "pe_evolve env n kn"
    obtain still reg1 kn1 where p: "reap_pass remaining reg ?kn = (still, reg1, kn1)"
      by (metis surj_pair)
    have e: "progress (set remaining) (set remaining) reg kn reg ?kn"
      using assms(2) [of kn n] by (intro progress_evolution) (simp add: child_evolution_def)
    note p1 = progress_trans [OF e reap_pass_progress [OF p Suc.prems(2)]]
    have n: "m = N - (n + 1)" "n + 1 \<le> N" using Suc.hyps(2) by simp_all
    have "set still \<subseteq> dom (map_of reg1)" using p1 Suc.prems(2) by (auto simp: progress_def)
    from Suc.hyps(1) [OF n this] obtain still2 reg2 kn2 where
      l: "reap_loop env (n + 1) still reg1 kn1 = Some (still2, reg2, kn2)"
      "progress (set still) (set still2) reg1 kn1 reg2 kn2"
      "set still \<subseteq> dom (map_of kn1) \<longrightarrow> set still2 \<subseteq> dom (map_of kn2)" by blast
    have "set still \<subseteq> dom (map_of kn1)" using reap_pass_alive [OF p] by auto
    have "reap_loop env n remaining reg kn = Some (still2, reg2, kn2)"
      using False p l(1) by (subst reap_loop.simps) simp
    with progress_trans [OF p1 l(2)] l(3) \<open>set still \<subseteq> dom (map_of kn1)\<close> show ?thesis by blast
  qed
qed

lemma signal_all_dom: "dom (map_of (signal_all sig pids kn)) = dom (map_of kn)"
proof (induction pids arbitrary: kn)
  case (Cons p pids)
  have "dom (map_of (snd (sendSignal p sig kn))) = dom (map_of kn)"
    by (auto simp: sendSignal_def kernel_kill_def split: option.splits child.splits)
  with Cons show ?case by (simp add: signal_all_def)
qed (simp add: signal_all_def)

text \<open>After \<open>SIGKILL\<close> none of the signalled children is alive, so the blocking reaps return.\<close>

definition dead :: "kernel \<Rightarrow> int \<Rightarrow> bool" where
  "dead kn p \<longleftrightarrow> map_of kn p \<noteq> Some Alive"

lemma dead_send: "dead kn q \<Longrightarrow> dead (snd (sendSignal p sig kn)) q"
  by (auto simp: dead_def sendSignal_def kernel_kill_def split: option.splits child.splits)

lemma dead_kill: "0 < p \<Longrightarrow> dead (snd (sendSignal p SIGKILL kn)) p"
  by (auto simp: dead_def sendSignal_def kernel_kill_def split: option.splits child.splits)

lemma signal_all_dead:
  "(\<And>p. p \<in> set pids \<Longrightarrow> 0 < p) \<Longrightarrow> p \<in> set pids \<or> dead kn p \<Longrightarrow> dead (signal_all SIGKILL pids kn) p"
  by (induction pids arbitrary: kn) (auto simp: signal_all_def dead_kill dead_send)

lemma final_reap_returns:
  "(\<And>p. p \<in> set pids \<Longrightarrow> dead kn p \<and> p \<in> dom (map_of reg) \<and>
      (map_of kn p \<noteq> None \<or> settled reg kn p)) \<Longrightarrow>
   \<exists>reg' kn'. final_reap pids reg kn = Some (reg', kn') \<and> dom (map_of reg') = dom (map_of reg)
     \<and> (\<forall>p. p \<in> set pids \<or> settled reg kn p \<longrightarrow> settled reg' kn' p)"
proof (induction pids arbitrary: reg kn)
  case (Cons pid pids)
  note prem = Cons.prems [of pid, simplified]
  show ?case
  proof (cases rule: waitpid_nohang_cases [of kn pid])
    case gone
    with prem have "settled reg kn pid" by simp
    moreover have "final_reap (pid # pids) reg kn = final_reap pids reg kn"
      using gone by (simp add: waitpid_blocking_def)
    ultimately show ?thesis using Cons.IH [of kn reg] Cons.prems by auto
  next
    case alive
    with prem show ?thesis by (simp add: dead_def)
  next
    case (zombie c)
    let ?kn = "AList.delete pid kn" and ?reg = "snd (updateState pid REAPED reg)"
    have eq: "final_reap (pid # pids) reg kn = final_reap pids ?reg ?kn"
      using zombie by (simp add: waitpid_blocking_def)
    have s: "settled ?reg ?kn pid" using prem by (intro settled_mark) auto
    have sub: "dom (map_of ?kn) \<subseteq> dom (map_of kn)" by auto
    have "dead ?kn p \<and> p \<in> dom (map_of ?reg) \<and> (map_of ?kn p \<noteq> None \<or> settled ?reg ?kn p)"
      if "p \<in> set pids" for p
    proof (cases "p = pid")
      case True
      with s prem show ?thesis by (simp add: dead_def domIff)
    next
      case False
      with Cons.prems [of p] that settled_other [of reg kn p ?kn pid] sub
      show ?thesis by (auto simp: dead_def)
    qed
    from Cons.IH [OF this] obtain reg' kn' where
      f: "final_reap pids ?reg ?kn = Some (reg', kn')" "dom (map_of reg') = dom (map_of ?reg)"
      "\<forall>p. p \<in> set pids \<or> settled ?reg ?kn p \<longrightarrow> settled reg' kn' p" by blast
    then have "dom (map_of reg') = dom (map_of reg)" by simp
    moreover have "settled reg kn p \<Longrightarrow> settled ?reg ?kn p" for p
      using settled_other [of reg kn p ?kn pid] sub by blast
    ultimately show ?thesis using eq f s by auto
  qed
qed auto

lemma reapAll_returns:
  assumes "SHUTDOWN_TIMEOUT_SEC \<le> pe_elapsed env N" "pe_elapsed env 0 < SHUTDOWN_TIMEOUT_SEC"
    and "\<And>n kn. child_evolution kn (pe_evolve env n kn)"
    and "\<And>p. p \<in> dom (map_of reg) \<Longrightarrow> 0 < p"
  shows "\<exists>reg' kn'. reapAll env reg kn = Some (OK, reg', kn')
    \<and> (\<forall>p. p \<in> dom (map_of reg) \<longrightarrow>
         map_of kn' p = None \<and> (\<exists>r. map_of reg' p = Some r \<and> pr_state r = REAPED))"
proof -
  let ?pids = "map fst reg"
  have pids: "set ?pids = dom (map_of reg)" by (simp add: dom_map_of_conv_image_fst)
  then obtain still reg1 kn1 where
    l: "reap_loop env 0 ?pids reg (signal_all SIGTERM ?pids kn) = Some (still, reg1, kn1)"
    and p: "progress (set ?pids) (set still) reg (signal_all SIGTERM ?pids kn) reg1 kn1"
    and d: "set still \<subseteq> dom (map_of kn1)"
    using reap_loop_returns [OF assms(1,3), of 0 ?pids reg] assms(2)
    by (metis le0 order_refl)
  have s: "settled reg1 kn1 q" if "q \<in> dom (map_of reg)" "q \<notin> set still" for q
    using p that pids by (simp add: progress_def)
  show ?thesis
  proof (cases "still = []")
    case True
    with l s show ?thesis by (auto simp: reapAll_def getAllPids_def settled_def)
  next
    case False
    let ?kn = "signal_all SIGKILL still kn1"
    have still: "set still \<subseteq> dom (map_of reg)" using p pids by (simp add: progress_def)
    have "dead ?kn q \<and> q \<in> dom (map_of reg1) \<and> (map_of ?kn q \<noteq> None \<or> settled reg1 ?kn q)"
      if "q \<in> set still" for q
      using that still d p assms(4) signal_all_dead [of still q kn1] signal_all_dom [of SIGKILL still kn1]
      by (auto simp: progress_def domIff)
    from final_reap_returns [OF this] obtain reg2 kn2 where
      f: "final_reap still reg1 ?kn = Some (reg2, kn2)"
      "\<forall>q. q \<in> set still \<or> settled reg1 ?kn q \<longrightarrow> settled reg2 kn2 q" by blast
    have "settled reg1 ?kn q" if "q \<in> dom (map_of reg)" "q \<notin> set still" for q
      using s [OF that] signal_all_dom [of SIGKILL still kn1] by (auto simp: settled_def domIff)
    with f(2) have "settled reg2 kn2 q" if "q \<in> dom (map_of reg)" for q using that by blast
    with l f(1) False show ?thesis by (auto simp: reapAll_def getAllPids_def settled_def)
  qed
qed

text \<open>Shutdown of the children ends and leaves none: if the clock reaches the grace period at some
  poll, \<open>reapAll\<close> returns \<open>OK\<close> however the children react to \<open>SIGTERM\<close>, and then every registered
  process is marked as reaped and no longer a child, zombies included.\<close>

theorem reapAll_reaps_all:
  assumes "SHUTDOWN_TIMEOUT_SEC \<le> pe_elapsed env N" "pe_elapsed env 0 < SHUTDOWN_TIMEOUT_SEC"
    and "\<And>n kn. child_evolution kn (pe_evolve env n kn)"
    and "\<And>p. p \<in> dom (map_of reg) \<Longrightarrow> 0 < p"
  shows "\<exists>reg' kn'. reapAll env reg kn = Some (OK, reg', kn')
    \<and> (\<forall>p. p \<in> dom (map_of reg) \<longrightarrow>
         map_of kn' p = None \<and> (\<exists>r. map_of reg' p = Some r \<and> pr_state r = REAPED))"
  using reapAll_returns [OF assms] .

definition stubborn_env :: process_env where
  "stubborn_env = \<lparr>pe_elapsed = (\<lambda>n. int n), pe_evolve = (\<lambda>n kn. kn)\<rparr>"

theorem reapAll_reaps_all_witness:
  "\<exists>reg' kn'. reapAll stubborn_env [(42, demo_record)] [(42, Alive)] = Some (OK, reg', kn')
     \<and> map_of kn' 42 = None"
  using reapAll_reaps_all [of stubborn_env 10 "[(42, demo_record)]" "[(42, Alive)]"]
  by (auto simp: stubborn_env_def SHUTDOWN_TIMEOUT_SEC_def child_evolution_def)

section \<open>Restarts\<close>

text \<open>\<open>AgentJob::execute\<close> registers each child under its own pid, with a restart count of zero.\<close>

inductive process_step ::
  "process_registry \<times> kernel \<Rightarrow> process_registry \<times> kernel \<Rightarrow> bool" where
  process_spawn:
    "map_of kn pid = None \<Longrightarrow> map_of reg pid = None \<Longrightarrow> pr_restart_count r = 0 \<Longrightarrow>
     process_step (reg, kn) (snd (registerProcess pid r reg), AList.update pid Alive kn)"
| process_evolve: "child_evolution kn kn' \<Longrightarrow> process_step (reg, kn) (reg, kn')"
| process_reap: "reapOne pid reg kn = (rc, act, reg', kn') \<Longrightarrow> process_step (reg, kn) (reg', kn')"

definition first_life :: "process_registry \<times> kernel \<Rightarrow> bool" where
  "first_life s \<longleftrightarrow>
     (\<forall>p r c. map_of (snd s) p = Some c \<longrightarrow> map_of (fst s) p = Some r \<longrightarrow> pr_restart_count r = 0)"

lemma first_lifeD:
  "first_life (reg, kn) \<Longrightarrow> map_of kn p = Some c \<Longrightarrow> map_of reg p = Some r \<Longrightarrow> pr_restart_count r = 0"
  by (auto simp: first_life_def)

lemma first_lifeI:
  "(\<And>p c r. map_of kn p = Some c \<Longrightarrow> map_of reg p = Some r \<Longrightarrow> pr_restart_count r = 0) \<Longrightarrow>
   first_life (reg, kn)"
  by (auto simp: first_life_def)

lemma first_life_reap:
  assumes "first_life (reg, kn)" "reapOne pid reg kn = (rc, act, reg', kn')"
  shows "first_life (reg', kn') \<and> act \<noteq> ESCALATE_ERROR"
proof (cases rule: waitpid_nohang_cases [of kn pid])
  case (zombie c)
  note D = first_lifeD [OF assms(1)]
  show ?thesis
  proof (cases "map_of reg pid")
    case None
    then have "after_reap pid c reg = (NONE, reg)"
      by (simp add: after_reap_def updateState_def getRecord_def Let_def)
    then have "reg' = reg \<and> kn' = AList.delete pid kn \<and> act = NONE"
      using assms(2) zombie by (simp add: reapOne_def)
    then show ?thesis by (auto intro!: first_lifeI dest: D split: if_splits)
  next
    case (Some r)
    have r: "pr_restart_count r = 0" using D [OF zombie(1) Some] .
    have "kn' = AList.delete pid kn" "act \<noteq> ESCALATE_ERROR"
      "\<And>q. q \<noteq> pid \<Longrightarrow> map_of reg' q = map_of reg q"
      using assms(2) zombie r
      by (auto simp: reapOne_def after_reap_known [OF Some] MAX_RESTARTS_def split: if_splits)
    then show ?thesis by (auto intro!: first_lifeI dest: D split: if_splits)
  qed
qed (use assms in \<open>auto simp: reapOne_def\<close>)

lemma first_life_step: "process_step s t \<Longrightarrow> first_life s \<Longrightarrow> first_life t"
proof (induction rule: process_step.induct)
  case (process_reap pid reg kn rc act reg' kn')
  then show ?case using first_life_reap by blast
next
  case (process_evolve kn kn' reg)
  then have "map_of kn' p = Some c \<Longrightarrow> \<exists>c. map_of kn p = Some c" for p c
    by (auto simp: child_evolution_def dom_def set_eq_iff)
  with process_evolve show ?case unfolding first_life_def fst_conv snd_conv by blast
qed (auto simp: first_life_def registerProcess_def split: if_splits)

interpretation restarts: invariant_system "\<lambda>s. s = ([], [])" process_step first_life
  by unfold_locales (simp add: first_life_def, erule (1) first_life_step [rotated])

text \<open>The restart limit is never reached: each pid is registered with a count of zero and leaves the
  kernel when it is reaped for the first time, so whatever the children do, as long as pids are not
  reused, no reap ever asks to escalate an error.\<close>

theorem restart_limit_never_reached:
  assumes "process_step\<^sup>*\<^sup>* ([], []) (reg, kn)" "reapOne pid reg kn = (rc, act, reg', kn')"
  shows "act \<noteq> ESCALATE_ERROR"
  using restarts.reachable_inv [OF refl assms(1)] first_life_reap assms(2) by blast

theorem restart_limit_never_reached_witness:
  "fst (snd (reapOne 42 [] [])) \<noteq> ESCALATE_ERROR"
  using restart_limit_never_reached [of "[]" "[]" 42]
  by (cases "reapOne 42 [] []") simp

end
