(* ===== verification/Scheduler.thy ===== *)
theory Scheduler
  imports Process_Mgmt Thread_Pool Db_Socket
begin

text \<open>
  The supervisor loop of the server: \<open>src/os_layer/scheduler/src\<close>. Jobs are objects on a heap and the
  registry holds pointers to them, so registering a job twice shares its counter. What a job does
  is outside the scheduler; a tick returns the sequence of calls it makes. The drain composes the
  shutdown of the children (\<open>Process_Mgmt\<close>), of the pool (\<open>Thread_Pool\<close>) and of the database
  connection (\<open>Db_Socket\<close>).
\<close>

section \<open>Jobs and ticks\<close>

text \<open>An \<open>int\<close> has 32 bits: the assignment of a \<open>long\<close> keeps the low ones.\<close>

definition to_int32 :: "int \<Rightarrow> int" where
  "to_int32 i = sint (word_of_int i :: 32 word)"

record job =
  jb_interval_ticks :: int
  jb_next_fire_tick :: int

definition new_job :: "int \<Rightarrow> job" where
  "new_job interval = \<lparr>jb_interval_ticks = interval, jb_next_fire_tick = interval\<rparr>"

datatype scheduler_state = INITIALIZING | RUNNING | DRAINING | STOPPED

definition MAX_JOBS :: nat where "MAX_JOBS = 32"

text \<open>\<open>sd_job_registry\<close> is the used part of the array; \<^const>\<open>None\<close> is a null pointer.\<close>

record scheduler =
  sd_state :: scheduler_state
  sd_drain_requested :: bool
  sd_current_tick :: int
  sd_job_registry :: "nat option list"
  sd_observers :: "nat option list"
  sd_heap :: "nat \<Rightarrow> job"

datatype sched_event =
    Executes nat int                    \<comment> \<open>the job's \<open>execute()\<close>, at a tick\<close>
  | Notifies nat nat result_code        \<comment> \<open>an observer's \<open>onJobComplete\<close>, with job and result\<close>

definition setState :: "scheduler_state \<Rightarrow> scheduler \<Rightarrow> scheduler" where
  "setState new_state sd = sd\<lparr>sd_state := new_state\<rparr>"

definition registerJob :: "nat option \<Rightarrow> scheduler \<Rightarrow> scheduler" where
  "registerJob job sd =
     (if length (sd_job_registry sd) < MAX_JOBS
      then sd\<lparr>sd_job_registry := sd_job_registry sd @ [job]\<rparr> else sd)"

definition registerObserver :: "nat option \<Rightarrow> scheduler \<Rightarrow> scheduler" where
  "registerObserver obs sd = sd\<lparr>sd_observers := sd_observers sd @ [obs]\<rparr>"

definition notifications :: "nat option list \<Rightarrow> nat \<Rightarrow> result_code \<Rightarrow> sched_event list" where
  "notifications observers job rc =
     concat (map (\<lambda>obs. case obs of None \<Rightarrow> [] | Some ob \<Rightarrow> [Notifies ob job rc]) observers)"

text \<open>The assignment to the job's counter after it has run.\<close>

definition reschedule :: "int \<Rightarrow> nat \<Rightarrow> (nat \<Rightarrow> job) \<Rightarrow> nat \<Rightarrow> job" where
  "reschedule now j heap =
     heap(j := (heap j)\<lparr>jb_next_fire_tick := to_int32 (now + jb_interval_ticks (heap j))\<rparr>)"

text \<open>\<open>throws j t\<close>: the execution of job \<open>j\<close> at tick \<open>t\<close> ends in an exception.\<close>

fun tick_jobs ::
  "(nat \<Rightarrow> int \<Rightarrow> bool) \<Rightarrow> nat option list \<Rightarrow> int \<Rightarrow> nat option list \<Rightarrow> (nat \<Rightarrow> job)
     \<Rightarrow> (nat \<Rightarrow> job) \<times> sched_event list" where
  "tick_jobs throws observers now [] heap = (heap, [])"
| "tick_jobs throws observers now (None # ptrs) heap = tick_jobs throws observers now ptrs heap"
| "tick_jobs throws observers now (Some j # ptrs) heap =
     (if jb_next_fire_tick (heap j) \<le> now then
        (case tick_jobs throws observers now ptrs (reschedule now j heap) of
           (heap, evs) \<Rightarrow>
             (heap, Executes j now
                # notifications observers j (if throws j now then INVALID_STATE else OK) @ evs))
      else tick_jobs throws observers now ptrs heap)"

definition tick :: "(nat \<Rightarrow> int \<Rightarrow> bool) \<Rightarrow> scheduler \<Rightarrow> scheduler \<times> sched_event list" where
  "tick throws sd =
     (if sd_state sd \<noteq> RUNNING then (sd, [])
      else
        let now = sd_current_tick sd + 1;
            (heap, evs) = tick_jobs throws (sd_observers sd) now (sd_job_registry sd) (sd_heap sd)
        in (sd\<lparr>sd_current_tick := now, sd_heap := heap\<rparr>, evs))"

fun ticks :: "(nat \<Rightarrow> int \<Rightarrow> bool) \<Rightarrow> nat \<Rightarrow> scheduler \<Rightarrow> scheduler \<times> sched_event list" where
  "ticks throws 0 sd = (sd, [])"
| "ticks throws (Suc n) sd =
     (case ticks throws n sd of (sd, evs) \<Rightarrow>
        (case tick throws sd of (sd, evs') \<Rightarrow> (sd, evs @ evs')))"

definition requestDrain :: "scheduler \<Rightarrow> scheduler" where
  "requestDrain sd = sd\<lparr>sd_drain_requested := True\<rparr>"

section \<open>Timer\<close>

text \<open>\<open>setitimer\<close> may fail; the timer's interval in seconds, 0 when disarmed.\<close>

definition timer_arm :: "bool \<Rightarrow> int \<Rightarrow> int \<Rightarrow> result_code \<times> int" where
  "timer_arm setitimer_ok interval_seconds armed =
     (if interval_seconds \<le> 0 then (INVALID_INPUT, armed)
      else if \<not> setitimer_ok then (FILE_SYSTEM_ERROR, armed)
      else (OK, interval_seconds))"

definition timer_disarm :: "bool \<Rightarrow> int \<Rightarrow> result_code \<times> int" where
  "timer_disarm setitimer_ok armed =
     (if \<not> setitimer_ok then (FILE_SYSTEM_ERROR, armed) else (OK, 0))"

section \<open>Spawning an agent\<close>

text \<open>
  \<open>AgentJob::execute\<close> in the parent: \<open>fork\<close> delivers the child's pid, or \<^const>\<open>None\<close> on failure.
\<close>

record agent_job =
  aj_agent_name :: string
  aj_fifo_path :: string

definition agent_execute ::
  "bool \<Rightarrow> int option \<Rightarrow> agent_job \<Rightarrow> process_registry \<Rightarrow> kernel \<Rightarrow> process_registry \<times> kernel" where
  "agent_execute mkfifo_ok forked aj registry kn =
     (if \<not> mkfifo_ok then (registry, kn)
      else (case forked of
              None \<Rightarrow> (registry, kn)
            | Some pid \<Rightarrow>
                let record = new_process_record
                      \<lparr>pr_pid := pid, pr_agent_name := take 31 (aj_agent_name aj),
                       pr_fifo_path := take 63 (aj_fifo_path aj), pr_state := process_state.RUNNING\<rparr>
                in (snd (registerProcess pid record registry), AList.update pid Alive kn)))"

text \<open>The SQL jobs; their result only decides a log line.\<close>

definition EXPIRE_WARRANTS_SQL :: string where
  "EXPIRE_WARRANTS_SQL = ''UPDATE warrants SET status='' @ [CHR 0x27] @ ''EXPIRED'' @ [CHR 0x27]
     @ '' WHERE expiry_date < NOW()''"

definition expire_warrants_execute :: "'c libpq \<Rightarrow> 'c unix_socket \<Rightarrow> 'c unix_socket run" where
  "expire_warrants_execute lib us =
     and_then (executeQuery lib EXPIRE_WARRANTS_SQL us) (\<lambda>(res, results, us). Inr us)"

definition check_health_execute :: "'c libpq \<Rightarrow> 'c unix_socket \<Rightarrow> 'c unix_socket run" where
  "check_health_execute lib us =
     and_then (executeQuery lib ''SELECT 1'' us) (\<lambda>(res, results, us). Inr us)"

section \<open>Signals and the drain\<close>

record 'c supervisor =
  sv_scheduler :: scheduler
  sv_timer :: int
  sv_registry :: process_registry
  sv_kernel :: kernel
  sv_pool :: thread_pool
  sv_db :: "'c unix_socket"
  sv_alarm_pending :: bool
  sv_chld_pending :: bool

text \<open>
  The environment: exceptions of jobs, \<open>setitimer\<close>, the children and the clock, and the state of the
  pool when the joins of \<open>shutdown\<close> return (\<^const>\<open>None\<close>: they never do).
\<close>

record supervisor_env =
  se_throws :: "nat \<Rightarrow> int \<Rightarrow> bool"
  se_setitimer_ok :: bool
  se_process :: process_env
  se_join :: "thread_pool \<Rightarrow> thread_pool option"

definition SIGHUP :: int where "SIGHUP = 1"
definition SIGINT :: int where "SIGINT = 2"
definition SIGALRM :: int where "SIGALRM = 14"
definition SIGCHLD :: int where "SIGCHLD = 17"

text \<open>\<open>master_handler\<close> with the table that \<open>init\<close> fills; the callback of \<open>SIGHUP\<close> is the caller's.\<close>

definition master_handler :: "int \<Rightarrow> 'c supervisor \<Rightarrow> 'c supervisor" where
  "master_handler sig sv =
     (if sig = SIGALRM then sv\<lparr>sv_alarm_pending := True\<rparr>
      else if sig = SIGCHLD then sv\<lparr>sv_chld_pending := True\<rparr>
      else if sig = SIGTERM \<or> sig = SIGINT then sv\<lparr>sv_scheduler := requestDrain (sv_scheduler sv)\<rparr>
      else sv)"

definition drain_pool :: "supervisor_env \<Rightarrow> thread_pool \<Rightarrow> thread_pool run" where
  "drain_pool env tp =
     (case se_join env (shutdown_broadcast (shutdown_request tp)) of
        None \<Rightarrow> Inl BlocksForever
      | Some tp' \<Rightarrow> Inr tp')"

definition drain_children ::
  "supervisor_env \<Rightarrow> process_registry \<Rightarrow> kernel \<Rightarrow> (process_registry \<times> kernel) run" where
  "drain_children env registry kn =
     (case reapAll (se_process env) registry kn of
        None \<Rightarrow> Inl BlocksForever
      | Some (rc, registry, kn) \<Rightarrow> Inr (registry, kn))"

definition handleDrainRequest :: "supervisor_env \<Rightarrow> 'c supervisor \<Rightarrow> 'c supervisor run" where
  "handleDrainRequest env sv =
     (if \<not> sd_drain_requested (sv_scheduler sv) then Inr sv
      else
        let sd = setState DRAINING ((sv_scheduler sv)\<lparr>sd_drain_requested := False\<rparr>);
            timer = snd (timer_disarm (se_setitimer_ok env) (sv_timer sv))
        in and_then (drain_children env (sv_registry sv) (sv_kernel sv)) (\<lambda>(registry, kn).
             and_then (drain_pool env (sv_pool sv)) (\<lambda>tp.
               and_then (disconnect (sv_db sv)) (\<lambda>us.
                 Inr (sv\<lparr>sv_scheduler := setState STOPPED sd, sv_timer := timer, sv_registry := registry,
                         sv_kernel := kn, sv_pool := tp, sv_db := us\<rparr>)))))"

text \<open>The loop of \<open>SIGCHLD\<close>: \<open>waitpid(-1)\<close> until no child is left to reap.\<close>

lemma length_delete_less: "map_of m k = Some v \<Longrightarrow> length (AList.delete k m) < length m"
  by (induction m) (auto simp: AList.delete_eq le_imp_less_Suc)

lemma waitpid_any_reaped:
  "waitpid_any kn = (WaitReaped p c, kn') \<Longrightarrow>
   (p, c) \<in> set kn \<and> c \<noteq> Alive \<and> kn' = AList.delete p kn \<and> length kn' < length kn"
proof -
  assume w: "waitpid_any kn = (WaitReaped p c, kn')"
  then obtain rest where f: "filter (\<lambda>(p, c). c \<noteq> Alive) kn = (p, c) # rest" "kn' = AList.delete p kn"
    by (auto simp: waitpid_any_def split: list.splits if_splits)
  then have "(p, c) \<in> set kn \<and> c \<noteq> Alive"
    by (metis (mono_tags, lifting) case_prod_conv filter_eq_Cons_iff in_set_conv_decomp)
  then obtain v where "map_of kn p = Some v" by (metis weak_map_of_SomeI)
  with f(2) show ?thesis
    using \<open>(p, c) \<in> set kn \<and> c \<noteq> Alive\<close> length_delete_less [of kn p v] by simp
qed

lemma reapOne_shrinks: "reapOne p reg kn = (rc, act, reg', kn') \<Longrightarrow> length kn' \<le> length kn"
proof (cases rule: waitpid_nohang_cases [of kn p])
  case (zombie c)
  assume "reapOne p reg kn = (rc, act, reg', kn')"
  with zombie length_delete_less [OF zombie(1)] show ?thesis
    by (auto simp: reapOne_def split: prod.splits)
qed (auto simp: reapOne_def split: if_splits)

function reap_pending :: "process_registry \<Rightarrow> kernel \<Rightarrow> process_registry \<times> kernel" where
  "reap_pending registry kn =
     (case waitpid_any kn of
        (WaitReaped pid status, kn') \<Rightarrow>
          (case reapOne pid registry kn' of
             (rc, act, registry', kn'') \<Rightarrow> reap_pending registry' kn'')
      | (r, kn') \<Rightarrow> (registry, kn'))"
  by pat_completeness auto
termination
  by (relation "measure (\<lambda>(reg, kn). length kn)")
    (auto dest!: waitpid_any_reaped [OF sym] reapOne_shrinks [OF sym])

declare reap_pending.simps [simp del]

definition poll_alarm ::
  "supervisor_env \<Rightarrow> 'c supervisor \<Rightarrow> 'c supervisor \<times> sched_event list" where
  "poll_alarm env sv =
     (if sv_alarm_pending sv then
        (case tick (se_throws env) (sv_scheduler sv) of
           (sd, evs) \<Rightarrow> (sv\<lparr>sv_alarm_pending := False, sv_scheduler := sd\<rparr>, evs))
      else (sv, []))"

definition poll_children :: "'c supervisor \<Rightarrow> 'c supervisor" where
  "poll_children sv =
     (if sv_chld_pending sv then
        (case reap_pending (sv_registry sv) (sv_kernel sv) of
           (registry, kn) \<Rightarrow> sv\<lparr>sv_chld_pending := False, sv_registry := registry, sv_kernel := kn\<rparr>)
      else sv)"

definition processPendingSignals ::
  "supervisor_env \<Rightarrow> 'c supervisor \<Rightarrow> ('c supervisor \<times> sched_event list) run" where
  "processPendingSignals env sv =
     and_then (handleDrainRequest env sv) (\<lambda>sv.
       case poll_alarm env sv of (sv, evs) \<Rightarrow> Inr (poll_children sv, evs))"

lemma poll_alarm_frame:
  "sv_registry (fst (poll_alarm env sv)) = sv_registry sv"
  "sv_kernel (fst (poll_alarm env sv)) = sv_kernel sv"
  "sv_chld_pending (fst (poll_alarm env sv)) = sv_chld_pending sv"
  by (auto simp: poll_alarm_def split: prod.splits)

lemma poll_not_draining:
  "\<not> sd_drain_requested (sv_scheduler sv) \<Longrightarrow>
   processPendingSignals env sv = Inr (poll_children (fst (poll_alarm env sv)), snd (poll_alarm env sv))"
  by (simp add: processPendingSignals_def handleDrainRequest_def split: prod.splits)

section \<open>When a job fires\<close>

fun executions :: "nat \<Rightarrow> sched_event list \<Rightarrow> int list" where
  "executions j [] = []"
| "executions j (Executes k t # evs) = (if k = j then t # executions j evs else executions j evs)"
| "executions j (Notifies ob k rc # evs) = executions j evs"

lemma executions_append [simp]: "executions j (xs @ ys) = executions j xs @ executions j ys"
  by (induction j xs rule: executions.induct) auto

lemma executions_notifications [simp]: "executions j (notifications obs k rc) = []"
  by (induction obs) (auto simp: notifications_def split: option.splits)

lemma to_int32_id: "- (2 ^ 31) \<le> i \<Longrightarrow> i < 2 ^ 31 \<Longrightarrow> to_int32 i = i"
  by (simp add: to_int32_def sint_sbintrunc' signed_take_bit_int_eq_self)

lemma reschedule_other [simp]: "k \<noteq> j \<Longrightarrow> reschedule now k heap j = heap j"
  by (simp add: reschedule_def)

lemma tick_jobs_idle:
  "tick_jobs th obs now ptrs heap = (heap', evs) \<Longrightarrow>
   Some j \<notin> set ptrs \<or> now < jb_next_fire_tick (heap j) \<Longrightarrow>
   heap' j = heap j \<and> executions j evs = []"
proof (induction th obs now ptrs heap arbitrary: heap' evs rule: tick_jobs.induct)
  case (3 th obs now k ptrs heap)
  show ?case
  proof (cases "jb_next_fire_tick (heap k) \<le> now")
    case True
    then obtain evs' where t: "tick_jobs th obs now ptrs (reschedule now k heap) = (heap', evs')"
      "evs = Executes k now # notifications obs k (if th k now then INVALID_STATE else OK) @ evs'"
      using "3.prems"(1) by (auto split: prod.splits)
    have "k \<noteq> j" using True "3.prems"(2) by auto
    with "3.IH"(1) [OF True t(1)] "3.prems"(2) t(2) show ?thesis by auto
  next
    case False
    with "3.IH"(2) [OF False] "3.prems" show ?thesis by auto
  qed
qed auto

lemma tick_jobs_due:
  "tick_jobs th obs now ptrs heap = (heap', evs) \<Longrightarrow>
   Some j \<in> set ptrs \<Longrightarrow> jb_next_fire_tick (heap j) \<le> now \<Longrightarrow>
   now < to_int32 (now + jb_interval_ticks (heap j)) \<Longrightarrow>
   heap' j = reschedule now j heap j \<and> executions j evs = [now]"
proof (induction th obs now ptrs heap arbitrary: heap' evs rule: tick_jobs.induct)
  case (3 th obs now k ptrs heap)
  show ?case
  proof (cases "jb_next_fire_tick (heap k) \<le> now")
    case True
    then obtain evs' where t: "tick_jobs th obs now ptrs (reschedule now k heap) = (heap', evs')"
      "evs = Executes k now # notifications obs k (if th k now then INVALID_STATE else OK) @ evs'"
      using "3.prems"(1) by (auto split: prod.splits)
    show ?thesis
    proof (cases "k = j")
      case True
      have "now < jb_next_fire_tick (reschedule now j heap j)"
        using "3.prems"(4) by (simp add: reschedule_def)
      with tick_jobs_idle [OF t(1), of j] t(2) True show ?thesis by simp
    next
      case False
      with "3.IH"(1) [OF True t(1)] "3.prems" t(2) show ?thesis by (simp add: reschedule_def)
    qed
  next
    case False
    then have "k \<noteq> j" using "3.prems"(3) by auto
    with "3.IH"(2) [OF False] "3.prems" False show ?thesis by auto
  qed
qed auto

text \<open>After \<open>n\<close> ticks from the start the counter of a job with interval \<open>k\<close> is its next multiple.\<close>

definition on_schedule :: "nat \<Rightarrow> int \<Rightarrow> nat \<Rightarrow> scheduler \<Rightarrow> bool" where
  "on_schedule j k n sd \<longleftrightarrow> sd_state sd = RUNNING \<and> sd_current_tick sd = int n
     \<and> Some j \<in> set (sd_job_registry sd)
     \<and> sd_heap sd j = \<lparr>jb_interval_ticks = k, jb_next_fire_tick = k * (int n div k + 1)\<rparr>"

lemma div_bounds:
  assumes "0 < (k :: int)"
  shows "k * (m div k) \<le> m" "m < k * (m div k + 1)"
proof -
  have "m = k * (m div k) + m mod k" "0 \<le> m mod k" "m mod k < k" using assms by simp_all
  then show "k * (m div k) \<le> m" "m < k * (m div k + 1)"
    unfolding distrib_left by linarith+
qed

lemma next_multiple:
  assumes "0 < (k :: int)" "k * (m div k + 1) \<le> m + 1"
  shows "k dvd m + 1" "k * ((m + 1) div k + 1) = m + 1 + k"
proof -
  have e: "k * (m div k + 1) = m + 1" using div_bounds(2) [OF assms(1), of m] assms(2) by simp
  then show d: "k dvd m + 1" by (metis dvd_triv_left)
  from d have "k * ((m + 1) div k) = m + 1" by simp
  then show "k * ((m + 1) div k + 1) = m + 1 + k" by (simp add: distrib_left)
qed

lemma not_next_multiple:
  assumes "0 < (k :: int)" "m + 1 < k * (m div k + 1)"
  shows "\<not> k dvd m + 1" "(m + 1) div k = m div k"
proof -
  have "(m + 1) div k < m div k + 1"
    using assms div_bounds(1) [OF assms(1), of "m + 1"] by (smt (verit) mult_left_mono)
  moreover have "m div k \<le> (m + 1) div k" using assms(1) by (simp add: zdiv_mono1)
  ultimately show e: "(m + 1) div k = m div k" by simp
  show "\<not> k dvd m + 1"
  proof
    assume "k dvd m + 1"
    then have "k * (m div k) = m + 1" using e by (metis dvd_mult_div_cancel)
    with div_bounds(1) [OF assms(1), of m] show False by simp
  qed
qed

lemma tick_on_schedule:
  assumes "on_schedule j k n sd" "0 < k" "int n + 1 + k < 2 ^ 31" "tick th sd = (sd', evs)"
  shows "on_schedule j k (n + 1) sd'
    \<and> executions j evs = (if k dvd int n + 1 then [int n + 1] else [])"
proof -
  let ?now = "int n + 1"
  obtain heap' where t: "tick_jobs th (sd_observers sd) ?now (sd_job_registry sd) (sd_heap sd) = (heap', evs)"
    "sd' = sd\<lparr>sd_current_tick := ?now, sd_heap := heap'\<rparr>"
    using assms(1,4) by (auto simp: tick_def on_schedule_def Let_def split: prod.splits)
  have h: "sd_heap sd j = \<lparr>jb_interval_ticks = k, jb_next_fire_tick = k * (int n div k + 1)\<rparr>"
    and j: "Some j \<in> set (sd_job_registry sd)" using assms(1) by (simp_all add: on_schedule_def)
  have wide: "to_int32 (?now + k) = ?now + k" using assms(2,3) by (intro to_int32_id) auto
  show ?thesis
  proof (cases "k * (int n div k + 1) \<le> ?now")
    case True
    with tick_jobs_due [OF t(1) j] next_multiple [OF assms(2) True] h wide assms(1,2) t(2)
    show ?thesis by (simp add: on_schedule_def reschedule_def add.commute)
  next
    case False
    then have "int n + 1 < k * (int n div k + 1)" by simp
    with tick_jobs_idle [OF t(1), of j] not_next_multiple [OF assms(2) this] h assms(1) t(2)
    show ?thesis by (simp add: on_schedule_def add.commute)
  qed
qed

lemma ticks_on_schedule:
  "on_schedule j k 0 sd \<Longrightarrow> 0 < k \<Longrightarrow> int n + k < 2 ^ 31 \<Longrightarrow> ticks th n sd = (sd', evs) \<Longrightarrow>
   on_schedule j k n sd' \<and> executions j evs = filter (\<lambda>t. k dvd t) [1..int n]"
proof (induction n arbitrary: sd' evs)
  case (Suc n)
  obtain sd1 evs1 where 1: "ticks th n sd = (sd1, evs1)" by (metis surj_pair)
  obtain evs2 where 2: "tick th sd1 = (sd', evs2)" "evs = evs1 @ evs2"
    using Suc.prems(4) 1 by (auto split: prod.splits)
  have "on_schedule j k n sd1 \<and> executions j evs1 = filter (\<lambda>t. k dvd t) [1..int n]"
    using Suc.IH [OF Suc.prems(1,2) _ 1] Suc.prems(3) by simp
  with tick_on_schedule [OF _ Suc.prems(2) _ 2(1), of j n] Suc.prems(3) 2(2)
    upto_rec2 [of 1 "int n + 1"] show ?case by (simp add: add.commute)
qed simp

text \<open>C37 A job fires exactly at the multiples of its interval: in a running scheduler that has not ticked
  yet, a registered job with interval \<open>k\<close> is executed, in the first \<open>n\<close> ticks, once at each tick
  divisible by \<open>k\<close> and at no other, whatever the other jobs do, whether executions throw, and even
  if it is registered more than once, while \<open>n + k\<close> is below \<open>2^31\<close>.\<close>

theorem job_fires_on_multiples:
  assumes "sd_state sd = RUNNING" "sd_current_tick sd = 0" "Some j \<in> set (sd_job_registry sd)"
    and "sd_heap sd j = new_job k" "0 < k" "int n + k < 2 ^ 31"
  shows "executions j (snd (ticks throws n sd)) = filter (\<lambda>t. k dvd t) [1..int n]"
proof -
  obtain sd' evs where t: "ticks throws n sd = (sd', evs)" by (metis surj_pair)
  have "on_schedule j k 0 sd" using assms by (simp add: on_schedule_def new_job_def)
  from ticks_on_schedule [OF this assms(5,6) t] t show ?thesis by simp
qed

definition demo_scheduler :: scheduler where
  "demo_scheduler = \<lparr>sd_state = RUNNING, sd_drain_requested = False, sd_current_tick = 0,
     sd_job_registry = [Some 0, Some 1], sd_observers = [Some 5], sd_heap = (\<lambda>j. new_job (int j + 2))\<rparr>"

theorem job_fires_on_multiples_witness:
  "executions 1 (snd (ticks (\<lambda>j t. j = 0) 7 demo_scheduler)) = [3, 6]"
proof -
  have "filter (\<lambda>t. 3 dvd t) [1..7] = [3, 6 :: int]" by (simp add: upto_rec1)
  then show ?thesis
    using job_fires_on_multiples [of demo_scheduler 1 3 7 "\<lambda>j t. j = 0"]
    by (simp add: demo_scheduler_def)
qed

section \<open>Children reaped by the signal handler\<close>

lemma waitpid_any_none:
  assumes "waitpid_any kn = (w, kn1)" "\<And>p c. w \<noteq> WaitReaped p c"
  shows "kn1 = kn \<and> (map_of kn p = None \<or> map_of kn p = Some Alive)"
proof -
  have "filter (\<lambda>(p, c). c \<noteq> Alive) kn = []" "kn1 = kn"
    using assms by (auto simp: waitpid_any_def split: list.splits prod.splits if_splits)
  then have "\<forall>p c. (p, c) \<in> set kn \<longrightarrow> c = Alive" by (auto simp: filter_empty_conv)
  with \<open>kn1 = kn\<close> show ?thesis by (cases "map_of kn p") (auto dest: map_of_SomeD)
qed

lemma reap_pending_spec:
  "reap_pending reg kn = (reg', kn') \<Longrightarrow> wf_map kn \<Longrightarrow>
   reg' = reg \<and> wf_map kn' \<and> (\<forall>p. map_of kn' p = (if map_of kn p = Some Alive then Some Alive else None))"
proof (induction reg kn arbitrary: reg' kn' rule: reap_pending.induct)
  case (1 reg kn)
  obtain w kn1 where w: "waitpid_any kn = (w, kn1)" by (metis surj_pair)
  show ?case
  proof (cases w)
    case (WaitReaped p c)
    note r = waitpid_any_reaped [OF w [unfolded WaitReaped]]
    then have one: "reapOne p reg kn1 = (OK, NONE, reg, kn1)"
      by (simp add: reapOne_def waitpid_nohang_def)
    have rec: "reap_pending reg kn1 = (reg', kn')"
      using "1.prems"(1) unfolding reap_pending.simps [of reg kn] w WaitReaped by (simp add: one)
    have "wf_map kn1" using r "1.prems"(2) by simp
    from "1.IH" [OF w [symmetric] WaitReaped one [symmetric] refl refl rec this]
    have ih: "reg' = reg" "wf_map kn'"
      "\<forall>p. map_of kn' p = (if map_of kn1 p = Some Alive then Some Alive else None)" by auto
    have "map_of kn p = Some c"
      using r "1.prems"(2) by (simp add: wf_map_def)
    with ih r show ?thesis by simp
  qed (use "1.prems" w waitpid_any_none [OF w] in \<open>auto simp: reap_pending.simps [of reg kn]\<close>)
qed

text \<open>The signal handler reaps behind the registry's back: the loop for \<open>SIGCHLD\<close> always ends and
  removes every ended child from the kernel, but it has reaped each child itself before it calls
  \<open>reapOne\<close>, which then finds no child, so no record of the registry ever changes: ended agents stay
  registered as running, and no restart is ever counted.\<close>

theorem sigchld_loop_bypasses_registry:
  assumes "wf_map (sv_kernel sv)" "sv_chld_pending sv" "\<not> sd_drain_requested (sv_scheduler sv)"
    and "processPendingSignals env sv = Inr (sv', evs)"
  shows "sv_registry sv' = sv_registry sv \<and> \<not> sv_chld_pending sv'
    \<and> (\<forall>p. map_of (sv_kernel sv') p
             = (if map_of (sv_kernel sv) p = Some Alive then Some Alive else None))"
proof -
  obtain reg' kn' where r: "reap_pending (sv_registry sv) (sv_kernel sv) = (reg', kn')"
    by (metis surj_pair)
  have "sv' = poll_children (fst (poll_alarm env sv))"
    using assms(3,4) by (simp add: poll_not_draining)
  then have "sv_registry sv' = reg' \<and> sv_kernel sv' = kn' \<and> \<not> sv_chld_pending sv'"
    using assms(2) r by (simp add: poll_children_def poll_alarm_frame)
  with reap_pending_spec [OF r assms(1)] show ?thesis by simp
qed

definition demo_supervisor :: "unit supervisor" where
  "demo_supervisor = \<lparr>sv_scheduler = demo_scheduler, sv_timer = 1, sv_registry = [(42, demo_record)],
     sv_kernel = [(42, Signaled 11)], sv_pool = new_pool,
     sv_db = \<lparr>us_held = False, us_conn = Some (), us_conn_string = []\<rparr>,
     sv_alarm_pending = True, sv_chld_pending = True\<rparr>"

definition demo_senv :: supervisor_env where
  "demo_senv = \<lparr>se_throws = (\<lambda>j t. False), se_setitimer_ok = True, se_process = stubborn_env,
     se_join = Some\<rparr>"

theorem sigchld_loop_bypasses_registry_witness:
  "\<exists>sv' evs. processPendingSignals demo_senv demo_supervisor = Inr (sv', evs)
     \<and> map_of (sv_registry sv') 42 = Some demo_record \<and> map_of (sv_kernel sv') 42 = None"
proof -
  obtain sv' evs where p: "processPendingSignals demo_senv demo_supervisor = Inr (sv', evs)"
    using poll_not_draining [of demo_supervisor demo_senv]
    by (simp add: demo_supervisor_def demo_scheduler_def)
  have "wf_map (sv_kernel demo_supervisor)" by (simp add: demo_supervisor_def wf_map_def)
  from sigchld_loop_bypasses_registry [OF this _ _ p] p show ?thesis
    by (simp add: demo_supervisor_def demo_scheduler_def)
qed

section \<open>The drain\<close>

lemma disconnect_free:
  "\<not> us_held us \<Longrightarrow> disconnect us = Inr (us\<lparr>us_conn := None\<rparr>)"
  by (cases us) (simp add: disconnect_def lock_defs)

text \<open>The drain stops the system: with the database mutex free, children that obey \<open>SIGKILL\<close>, a clock
  that advances and workers that finish, the poll after a termination signal returns with the
  scheduler stopped, the timer disarmed, the connection closed and every registered child reaped;
  it executes no job although an alarm is pending, and a stopped scheduler never executes one
  again.\<close>

theorem drain_stops_everything:
  assumes "sd_drain_requested (sv_scheduler sv)" "\<not> us_held (sv_db sv)" "se_setitimer_ok env"
    and "se_join env (shutdown_broadcast (shutdown_request (sv_pool sv))) = Some tp"
    and "SHUTDOWN_TIMEOUT_SEC \<le> pe_elapsed (se_process env) N"
    and "pe_elapsed (se_process env) 0 < SHUTDOWN_TIMEOUT_SEC"
    and "\<And>n kn. child_evolution kn (pe_evolve (se_process env) n kn)"
    and "\<And>p. p \<in> dom (map_of (sv_registry sv)) \<Longrightarrow> 0 < p"
    and "\<not> sv_chld_pending sv"
  shows "\<exists>sv'. processPendingSignals env sv = Inr (sv', [])
    \<and> sd_state (sv_scheduler sv') = STOPPED \<and> \<not> sd_drain_requested (sv_scheduler sv')
    \<and> sv_timer sv' = 0 \<and> us_conn (sv_db sv') = None
    \<and> (\<forall>p. p \<in> dom (map_of (sv_registry sv)) \<longrightarrow> map_of (sv_kernel sv') p = None)
    \<and> (\<forall>n. snd (ticks (se_throws env) n (sv_scheduler sv')) = [])"
proof -
  have "\<exists>reg' kn'. reapAll (se_process env) (sv_registry sv) (sv_kernel sv) = Some (OK, reg', kn')
    \<and> (\<forall>p. p \<in> dom (map_of (sv_registry sv)) \<longrightarrow>
         map_of kn' p = None \<and> (\<exists>r. map_of reg' p = Some r \<and> pr_state r = REAPED))"
    by (rule reapAll_returns [OF assms(5,6,7)]) (erule assms(8))
  then obtain reg' kn' where
    r: "reapAll (se_process env) (sv_registry sv) (sv_kernel sv) = Some (OK, reg', kn')"
    "\<forall>p. p \<in> dom (map_of (sv_registry sv)) \<longrightarrow> map_of kn' p = None" by blast
  have stopped: "fst (ticks th n sd) = sd \<and> snd (ticks th n sd) = []" if "sd_state sd = STOPPED" for th n sd
    using that by (induction n) (auto simp: tick_def split: prod.splits)
  let ?sd = "setState STOPPED (setState DRAINING ((sv_scheduler sv)\<lparr>sd_drain_requested := False\<rparr>))"
  let ?sv = "sv\<lparr>sv_scheduler := ?sd, sv_timer := 0, sv_registry := reg', sv_kernel := kn', sv_pool := tp,
    sv_db := (sv_db sv)\<lparr>us_conn := None\<rparr>\<rparr>"
  have h: "handleDrainRequest env sv = Inr ?sv"
    unfolding handleDrainRequest_def drain_children_def drain_pool_def r(1) assms(4)
      disconnect_free [OF assms(2)]
    using assms(1,3) by (simp add: timer_disarm_def)
  have sd: "sd_state ?sd = STOPPED" "\<not> sd_drain_requested ?sd" by (simp_all add: setState_def)
  have a: "poll_alarm env ?sv = (?sv\<lparr>sv_alarm_pending := False\<rparr>, [])"
    using sd(1) by (simp add: poll_alarm_def tick_def)
  have "processPendingSignals env sv = Inr (?sv\<lparr>sv_alarm_pending := False\<rparr>, [])"
    using assms(9) unfolding processPendingSignals_def h and_then.simps a by (simp add: poll_children_def)
  then show ?thesis
    using sd r(2) stopped [OF sd(1)] by simp
qed

theorem drain_stops_everything_witness:
  "\<exists>sv'. processPendingSignals demo_senv
       (demo_supervisor\<lparr>sv_scheduler := requestDrain demo_scheduler, sv_chld_pending := False\<rparr>) = Inr (sv', [])
     \<and> sd_state (sv_scheduler sv') = STOPPED"
  using drain_stops_everything [of "demo_supervisor\<lparr>sv_scheduler := requestDrain demo_scheduler,
      sv_chld_pending := False\<rparr>" demo_senv "shutdown_broadcast (shutdown_request new_pool)" 10]
  by (auto simp: requestDrain_def demo_supervisor_def demo_senv_def stubborn_env_def
      SHUTDOWN_TIMEOUT_SEC_def child_evolution_def)

end
