(* ===== verification/Enforcement_Db.thy ===== *)
theory Enforcement_Db
  imports Db_Socket "HOL-Library.Char_ord" "HOL-Library.List_Lexorder"
begin

text \<open>
  The tables behind the enforcement managers, and what the SQL constants of
  \<open>src/system/subsystem3/enforcement/src/{arrest,bail,warrant}_manager.cpp\<close> do to them, statement by
  statement. The managers themselves (theory \<open>Enforcement\<close>) take the database as a parameter; this
  theory is the instance on which the properties are stated.

  Any statement may fail: \<open>db_fails n\<close> says whether the \<open>n\<close>-th one does, for whatever reason (a
  constraint, a trigger, the connection), and a failed statement changes nothing. A statement is a
  transaction of its own, so the local session variables of \<open>set_config\<close> are gone when it ends.
  The columns are those the SQL texts name; an SQL NULL is \<^const>\<open>None\<close>.
\<close>

section \<open>Tables\<close>

record arrest_row =
  ar_arrest_number :: cstr
  ar_accused_cnic :: cstr
  ar_case_id :: int
  ar_warrant_id :: "int option"
  ar_arresting_officer_id :: int
  ar_custody_status :: string
  ar_arrest_location :: cstr
  ar_release_reason :: cstr
  ar_dispute_reason :: cstr
  ar_is_disputed :: bool
  ar_arrested_at :: int
  ar_released_at :: "int option"
  ar_created_at :: int
  ar_updated_at :: int

record warrant_row =
  wr_warrant_number :: cstr
  wr_case_id :: int
  wr_accused_cnic :: cstr
  wr_warrant_type :: cstr
  wr_warrant_status :: string
  wr_issuing_court :: cstr
  wr_magistrate_name :: cstr
  wr_target_address :: cstr
  wr_valid_until :: cstr
  wr_cancellation_reason :: cstr
  wr_requested_by :: int
  wr_executed_by :: "int option"
  wr_cancelled_by :: "int option"
  wr_issue_date :: int
  wr_executed_at :: "int option"
  wr_cancelled_at :: "int option"
  wr_created_at :: int
  wr_updated_at :: int

record bail_row =
  br_bail_number :: cstr
  br_arrest_id :: int
  br_bail_status :: string
  br_bail_type :: cstr
  br_bail_amount :: int
  br_court_name :: cstr
  br_magistrate_name :: cstr
  br_valid_until :: cstr
  br_surety_name :: cstr
  br_surety_cnic :: cstr
  br_surety_contact :: cstr
  br_revocation_reason :: cstr
  br_recorded_by :: int
  br_revoked_by :: "int option"
  br_bail_date :: int
  br_revoked_at :: "int option"
  br_created_at :: int
  br_updated_at :: int

type_synonym 'r table = "(int \<times> 'r) list"

record case_db =
  db_arrests :: "arrest_row table"
  db_warrants :: "warrant_row table"
  db_bails :: "bail_row table"
  db_cases :: "(string \<times> int) table"   \<comment> \<open>status and station of a case\<close>
  db_persons :: "string list"
  db_now :: int
  db_fails :: "nat \<Rightarrow> bool"
  db_count :: nat

section \<open>Statements\<close>

datatype sql =
    SQL_INSERT_ARREST | SQL_GET_STATUS | SQL_UPDATE_STATUS | SQL_SET_DISPUTED
  | SQL_EXECUTE_WARRANT_ON_ARREST | SQL_PERSON_EXISTS | SQL_SELECT_BY_CASE
  | SQL_SET_SESSION
  | SQL_INSERT_BAIL | SQL_UPDATE_ARREST_BAIL_GRANTED | SQL_GET_BAIL_STATUS | SQL_REVOKE_BAIL
  | SQL_RESTORE_CUSTODY | SQL_GET_BY_ARREST | SQL_ARREST_IN_CUSTODY
  | SQL_BY_CASE | SQL_ACTIVE_BY_STATION | SQL_GET_STATUS_EXPIRY | SQL_INSERT | SQL_EXECUTE
  | SQL_CANCEL | SQL_CASE_STATUS

text \<open>A parameter in an integer context: \<^const>\<open>None\<close> for NULL.\<close>

definition sql_int :: "cstr \<Rightarrow> int option" where
  "sql_int p = map_option atoi p"

definition sql_int0 :: "cstr \<Rightarrow> int" where
  "sql_int0 p = (case p of None \<Rightarrow> 0 | Some s \<Rightarrow> atoi s)"

text \<open>\<open>PQgetvalue\<close> of a text column, and \<open>COALESCE(column, '')\<close>: NULL reads as the empty text.\<close>

definition cell :: "cstr \<Rightarrow> string" where
  "cell p = (case p of None \<Rightarrow> [] | Some s \<Rightarrow> s)"

definition coalesce_int :: "int \<Rightarrow> int option \<Rightarrow> string" where
  "coalesce_int d p = show_int (case p of None \<Rightarrow> d | Some i \<Rightarrow> i)"

definition update_where :: "(int \<Rightarrow> 'r \<Rightarrow> bool) \<Rightarrow> ('r \<Rightarrow> 'r) \<Rightarrow> 'r table \<Rightarrow> 'r table" where
  "update_where P f t = map (\<lambda>(k, r). (k, if P k r then f r else r)) t"

definition count_where :: "(int \<Rightarrow> 'r \<Rightarrow> bool) \<Rightarrow> 'r table \<Rightarrow> nat" where
  "count_where P t = length (filter (\<lambda>(k, r). P k r) t)"

text \<open>\<open>BIGSERIAL\<close>: a number above all numbers in the table.\<close>

definition next_id :: "'r table \<Rightarrow> int" where
  "next_id t = Max (insert 0 (set (map fst t))) + 1"

text \<open>The rows of the SELECT lists, as text.\<close>

definition arrest_text :: "int \<Rightarrow> arrest_row \<Rightarrow> string list" where
  "arrest_text k r =
     [show_int k, cell (ar_arrest_number r), cell (ar_accused_cnic r), show_int (ar_case_id r),
      coalesce_int (-1) (ar_warrant_id r), show_int (ar_arresting_officer_id r), ar_custody_status r,
      cell (ar_arrest_location r), cell (ar_release_reason r), cell (ar_dispute_reason r),
      (if ar_is_disputed r then ''t'' else ''f''), show_int (ar_arrested_at r),
      coalesce_int 0 (ar_released_at r), show_int (ar_created_at r), show_int (ar_updated_at r)]"

definition warrant_text :: "int \<Rightarrow> warrant_row \<Rightarrow> string list" where
  "warrant_text k r =
     [show_int k, cell (wr_warrant_number r), show_int (wr_case_id r), cell (wr_accused_cnic r),
      cell (wr_warrant_type r), wr_warrant_status r, cell (wr_issuing_court r),
      cell (wr_magistrate_name r), cell (wr_target_address r), cell (wr_valid_until r),
      cell (wr_cancellation_reason r), show_int (wr_requested_by r), coalesce_int 0 (wr_executed_by r),
      coalesce_int 0 (wr_cancelled_by r), show_int (wr_issue_date r), coalesce_int 0 (wr_executed_at r),
      coalesce_int 0 (wr_cancelled_at r), show_int (wr_created_at r), show_int (wr_updated_at r)]"

definition bail_text :: "int \<Rightarrow> bail_row \<Rightarrow> string list" where
  "bail_text k r =
     [show_int k, cell (br_bail_number r), show_int (br_arrest_id r), br_bail_status r,
      cell (br_bail_type r), show_int (br_bail_amount r), cell (br_court_name r),
      cell (br_magistrate_name r), cell (br_valid_until r), cell (br_surety_name r),
      cell (br_surety_cnic r), cell (br_surety_contact r), cell (br_revocation_reason r),
      show_int (br_recorded_by r), coalesce_int 0 (br_revoked_by r), show_int (br_bail_date r),
      coalesce_int 0 (br_revoked_at r), show_int (br_created_at r), show_int (br_updated_at r)]"

definition new_arrest_row :: "cstr list \<Rightarrow> int \<Rightarrow> arrest_row" where
  "new_arrest_row ps now =
     \<lparr>ar_arrest_number = ps ! 0, ar_accused_cnic = ps ! 1, ar_case_id = sql_int0 (ps ! 2),
      ar_warrant_id = sql_int (ps ! 3), ar_arresting_officer_id = sql_int0 (ps ! 4),
      ar_custody_status = ''IN_CUSTODY'', ar_arrest_location = ps ! 5, ar_release_reason = None,
      ar_dispute_reason = None, ar_is_disputed = False, ar_arrested_at = now, ar_released_at = None,
      ar_created_at = now, ar_updated_at = now\<rparr>"

definition new_warrant_row :: "cstr list \<Rightarrow> int \<Rightarrow> warrant_row" where
  "new_warrant_row ps now =
     \<lparr>wr_warrant_number = ps ! 0, wr_case_id = sql_int0 (ps ! 1), wr_accused_cnic = ps ! 2,
      wr_warrant_type = ps ! 3, wr_warrant_status = ''ISSUED'', wr_issuing_court = ps ! 4,
      wr_magistrate_name = ps ! 5, wr_target_address = ps ! 6, wr_valid_until = ps ! 7,
      wr_cancellation_reason = None, wr_requested_by = sql_int0 (ps ! 8), wr_executed_by = None,
      wr_cancelled_by = None, wr_issue_date = now, wr_executed_at = None, wr_cancelled_at = None,
      wr_created_at = now, wr_updated_at = now\<rparr>"

definition new_bail_row :: "cstr list \<Rightarrow> int \<Rightarrow> bail_row" where
  "new_bail_row ps now =
     \<lparr>br_bail_number = ps ! 0, br_arrest_id = sql_int0 (ps ! 1), br_bail_status = ''ACTIVE'',
      br_bail_type = ps ! 2, br_bail_amount = sql_int0 (ps ! 3), br_court_name = ps ! 4,
      br_magistrate_name = ps ! 5, br_valid_until = (if cell (ps ! 6) = [] then None else ps ! 6),
      br_surety_name = ps ! 7, br_surety_cnic = ps ! 8, br_surety_contact = ps ! 9,
      br_revocation_reason = None, br_recorded_by = sql_int0 (ps ! 10), br_revoked_by = None,
      br_bail_date = now, br_revoked_at = None, br_created_at = now, br_updated_at = now\<rparr>"

definition set_custody :: "string \<Rightarrow> int \<Rightarrow> arrest_row \<Rightarrow> arrest_row" where
  "set_custody s now r = r\<lparr>ar_custody_status := s, ar_updated_at := now\<rparr>"

section \<open>Their effect\<close>

text \<open>\<open>on_arrests P f\<close> is an UPDATE of the arrests with \<open>P\<close>.\<close>

definition on_arrests ::
  "(int \<Rightarrow> arrest_row \<Rightarrow> bool) \<Rightarrow> (arrest_row \<Rightarrow> arrest_row) \<Rightarrow> case_db \<Rightarrow> pg_result \<times> case_db" where
  "on_arrests P f db =
     (CommandOk (count_where P (db_arrests db)), db\<lparr>db_arrests := update_where P f (db_arrests db)\<rparr>)"

definition on_warrants ::
  "(int \<Rightarrow> warrant_row \<Rightarrow> bool) \<Rightarrow> (warrant_row \<Rightarrow> warrant_row) \<Rightarrow> case_db \<Rightarrow> pg_result \<times> case_db" where
  "on_warrants P f db =
     (CommandOk (count_where P (db_warrants db)), db\<lparr>db_warrants := update_where P f (db_warrants db)\<rparr>)"

definition on_bails ::
  "(int \<Rightarrow> bail_row \<Rightarrow> bool) \<Rightarrow> (bail_row \<Rightarrow> bail_row) \<Rightarrow> case_db \<Rightarrow> pg_result \<times> case_db" where
  "on_bails P f db =
     (CommandOk (count_where P (db_bails db)), db\<lparr>db_bails := update_where P f (db_bails db)\<rparr>)"

definition selected :: "(int \<Rightarrow> 'r \<Rightarrow> bool) \<Rightarrow> (int \<Rightarrow> 'r \<Rightarrow> string list) \<Rightarrow> 'r table \<Rightarrow> pg_result" where
  "selected P row t = TuplesOk (map (\<lambda>(k, r). row k r) (filter (\<lambda>(k, r). P k r) t))"

type_synonym statement = "cstr list \<Rightarrow> case_db \<Rightarrow> pg_result \<times> case_db"

definition sql_insert_arrest :: statement where
  "sql_insert_arrest ps db =
     (let k = next_id (db_arrests db)
      in (TuplesOk [[show_int k]], db\<lparr>db_arrests := db_arrests db @ [(k, new_arrest_row ps (db_now db))]\<rparr>))"

definition sql_get_status :: statement where
  "sql_get_status ps db =
     (selected (\<lambda>k r. Some k = sql_int (ps ! 0)) (\<lambda>k r. [ar_custody_status r]) (db_arrests db), db)"

definition sql_update_status :: statement where
  "sql_update_status ps db =
     on_arrests (\<lambda>k r. Some k = sql_int (ps ! 2))
       (\<lambda>r. (set_custody (cell (ps ! 0)) (db_now db) r)
          \<lparr>ar_release_reason := ps ! 1,
           ar_released_at := (if cell (ps ! 0) \<in> {''RELEASED'', ''ESCAPED''} then Some (db_now db)
                              else ar_released_at r)\<rparr>) db"

definition sql_set_disputed :: statement where
  "sql_set_disputed ps db =
     on_arrests (\<lambda>k r. Some k = sql_int (ps ! 1))
       (\<lambda>r. r\<lparr>ar_is_disputed := True, ar_dispute_reason := ps ! 0, ar_updated_at := db_now db\<rparr>) db"

definition sql_execute_warrant_on_arrest :: statement where
  "sql_execute_warrant_on_arrest ps db =
     on_warrants (\<lambda>k r. Some k = sql_int (ps ! 1) \<and> wr_warrant_status r = ''ISSUED'')
       (\<lambda>r. r\<lparr>wr_warrant_status := ''EXECUTED'', wr_executed_by := sql_int (ps ! 0),
              wr_executed_at := Some (db_now db), wr_updated_at := db_now db\<rparr>) db"

definition sql_person_exists :: statement where
  "sql_person_exists ps db =
     (TuplesOk (if \<exists>c \<in> set (db_persons db). ps ! 0 = Some c then [[''1'']] else []), db)"

definition sql_select_by_case :: statement where
  "sql_select_by_case ps db =
     (selected (\<lambda>k r. Some (ar_case_id r) = sql_int (ps ! 0)) arrest_text
        (sort_key (\<lambda>(k, r). - ar_arrested_at r) (db_arrests db)), db)"

definition sql_set_session :: statement where
  "sql_set_session ps db = (TuplesOk [[cell (ps ! 0), cell (ps ! 1)]], db)"

definition sql_insert_bail :: statement where
  "sql_insert_bail ps db =
     (let k = next_id (db_bails db)
      in (TuplesOk [[show_int k]], db\<lparr>db_bails := db_bails db @ [(k, new_bail_row ps (db_now db))]\<rparr>))"

definition sql_update_arrest_bail_granted :: statement where
  "sql_update_arrest_bail_granted ps db =
     on_arrests (\<lambda>k r. Some k = sql_int (ps ! 0) \<and> ar_custody_status r = ''IN_CUSTODY'')
       (set_custody ''BAIL_GRANTED'' (db_now db)) db"

definition sql_get_bail_status :: statement where
  "sql_get_bail_status ps db =
     (selected (\<lambda>k r. Some k = sql_int (ps ! 0)) (\<lambda>k r. [br_bail_status r, show_int (br_arrest_id r)])
        (db_bails db), db)"

definition sql_revoke_bail :: statement where
  "sql_revoke_bail ps db =
     on_bails (\<lambda>k r. Some k = sql_int (ps ! 2))
       (\<lambda>r. r\<lparr>br_bail_status := ''REVOKED'', br_revoked_by := sql_int (ps ! 0),
              br_revocation_reason := ps ! 1, br_revoked_at := Some (db_now db),
              br_updated_at := db_now db\<rparr>) db"

definition sql_restore_custody :: statement where
  "sql_restore_custody ps db =
     on_arrests (\<lambda>k r. Some k = sql_int (ps ! 0)) (set_custody ''IN_CUSTODY'' (db_now db)) db"

definition sql_get_by_arrest :: statement where
  "sql_get_by_arrest ps db =
     (case selected (\<lambda>k r. Some (br_arrest_id r) = sql_int (ps ! 0)) bail_text
             (sort_key (\<lambda>(k, r). if br_bail_status r = ''ACTIVE'' then 0 else 1 :: nat)
               (sort_key (\<lambda>(k, r). - br_created_at r) (db_bails db))) of
        TuplesOk rows \<Rightarrow> (TuplesOk (take 1 rows), db)
      | res \<Rightarrow> (res, db))"

definition sql_arrest_in_custody :: statement where
  "sql_arrest_in_custody ps db =
     (case selected (\<lambda>k r. Some k = sql_int (ps ! 0) \<and> ar_custody_status r = ''IN_CUSTODY'')
             (\<lambda>k r. [''1'']) (db_arrests db) of
        TuplesOk rows \<Rightarrow> (TuplesOk (take 1 rows), db)
      | res \<Rightarrow> (res, db))"

definition sql_by_case :: statement where
  "sql_by_case ps db =
     (selected (\<lambda>k r. Some (wr_case_id r) = sql_int (ps ! 0)) warrant_text
        (sort_key (\<lambda>(k, r). - wr_issue_date r) (db_warrants db)), db)"

definition sql_active_by_station :: statement where
  "sql_active_by_station ps db =
     (selected (\<lambda>k r. wr_warrant_status r = ''ISSUED''
          \<and> (\<exists>c \<in> set (db_cases db). fst c = wr_case_id r \<and> Some (snd (snd c)) = sql_int (ps ! 0)))
        warrant_text (sort_key (\<lambda>(k, r). cell (wr_valid_until r)) (db_warrants db)), db)"

definition sql_get_status_expiry :: statement where
  "sql_get_status_expiry ps db =
     (selected (\<lambda>k r. Some k = sql_int (ps ! 0)) (\<lambda>k r. [wr_warrant_status r, cell (wr_valid_until r)])
        (db_warrants db), db)"

definition sql_insert :: statement where
  "sql_insert ps db =
     (let k = next_id (db_warrants db)
      in (TuplesOk [[show_int k]], db\<lparr>db_warrants := db_warrants db @ [(k, new_warrant_row ps (db_now db))]\<rparr>))"

definition sql_execute :: statement where
  "sql_execute ps db =
     on_warrants (\<lambda>k r. Some k = sql_int (ps ! 1))
       (\<lambda>r. r\<lparr>wr_warrant_status := ''EXECUTED'', wr_executed_by := sql_int (ps ! 0),
              wr_executed_at := Some (db_now db), wr_updated_at := db_now db\<rparr>) db"

definition sql_cancel :: statement where
  "sql_cancel ps db =
     on_warrants (\<lambda>k r. Some k = sql_int (ps ! 2))
       (\<lambda>r. r\<lparr>wr_warrant_status := ''CANCELLED'', wr_cancelled_by := sql_int (ps ! 0),
              wr_cancellation_reason := ps ! 1, wr_cancelled_at := Some (db_now db),
              wr_updated_at := db_now db\<rparr>) db"

definition sql_case_status :: statement where
  "sql_case_status ps db =
     (selected (\<lambda>k r. Some k = sql_int (ps ! 0)) (\<lambda>k r. [fst r]) (db_cases db), db)"

text \<open>\<open>PQexecParams\<close> with one of the constants.\<close>

fun exec_sql :: "sql \<Rightarrow> statement" where
  "exec_sql SQL_INSERT_ARREST ps db = sql_insert_arrest ps db"
| "exec_sql SQL_GET_STATUS ps db = sql_get_status ps db"
| "exec_sql SQL_UPDATE_STATUS ps db = sql_update_status ps db"
| "exec_sql SQL_SET_DISPUTED ps db = sql_set_disputed ps db"
| "exec_sql SQL_EXECUTE_WARRANT_ON_ARREST ps db = sql_execute_warrant_on_arrest ps db"
| "exec_sql SQL_PERSON_EXISTS ps db = sql_person_exists ps db"
| "exec_sql SQL_SELECT_BY_CASE ps db = sql_select_by_case ps db"
| "exec_sql SQL_SET_SESSION ps db = sql_set_session ps db"
| "exec_sql SQL_INSERT_BAIL ps db = sql_insert_bail ps db"
| "exec_sql SQL_UPDATE_ARREST_BAIL_GRANTED ps db = sql_update_arrest_bail_granted ps db"
| "exec_sql SQL_GET_BAIL_STATUS ps db = sql_get_bail_status ps db"
| "exec_sql SQL_REVOKE_BAIL ps db = sql_revoke_bail ps db"
| "exec_sql SQL_RESTORE_CUSTODY ps db = sql_restore_custody ps db"
| "exec_sql SQL_GET_BY_ARREST ps db = sql_get_by_arrest ps db"
| "exec_sql SQL_ARREST_IN_CUSTODY ps db = sql_arrest_in_custody ps db"
| "exec_sql SQL_BY_CASE ps db = sql_by_case ps db"
| "exec_sql SQL_ACTIVE_BY_STATION ps db = sql_active_by_station ps db"
| "exec_sql SQL_GET_STATUS_EXPIRY ps db = sql_get_status_expiry ps db"
| "exec_sql SQL_INSERT ps db = sql_insert ps db"
| "exec_sql SQL_EXECUTE ps db = sql_execute ps db"
| "exec_sql SQL_CANCEL ps db = sql_cancel ps db"
| "exec_sql SQL_CASE_STATUS ps db = sql_case_status ps db"

definition run_sql :: "case_db \<Rightarrow> sql \<Rightarrow> cstr list \<Rightarrow> pg_result \<times> case_db" where
  "run_sql db stmt ps =
     (let db' = db\<lparr>db_count := db_count db + 1\<rparr>
      in if db_fails db (db_count db) then (ResultError, db') else exec_sql stmt ps db')"

lemmas sql_defs =   sql_insert_arrest_def sql_get_status_def sql_update_status_def
  sql_set_disputed_def sql_execute_warrant_on_arrest_def sql_person_exists_def
  sql_select_by_case_def sql_set_session_def sql_insert_bail_def sql_update_arrest_bail_granted_def
  sql_get_bail_status_def sql_revoke_bail_def sql_restore_custody_def sql_get_by_arrest_def
  sql_arrest_in_custody_def sql_by_case_def sql_active_by_station_def sql_get_status_expiry_def
  sql_insert_def sql_execute_def sql_cancel_def sql_case_status_def

section \<open>Tables as maps\<close>

lemma sql_int_show [simp]: "sql_int (Some (show_int i)) = Some i"
  by (simp add: sql_int_def text_simps)

lemma sql_int0_show [simp]: "sql_int0 (Some (show_int i)) = i"
  by (simp add: sql_int0_def text_simps)

lemma sql_int_None [simp]: "sql_int None = None"
  by (simp add: sql_int_def)

lemma map_of_update_where:
  "map_of (update_where P f t) k = map_option (\<lambda>r. if P k r then f r else r) (map_of t k)"
  by (induction t) (auto simp: update_where_def)

lemma fst_update_where [simp]: "map fst (update_where P f t) = map fst t"
  by (induction t) (auto simp: update_where_def)

lemma wf_update_where [simp]: "wf_map (update_where P f t) = wf_map t"
  by (simp add: wf_map_def)

lemma filter_key:
  "wf_map t \<Longrightarrow> filter (\<lambda>(k, r). k = i \<and> P k r) t
     = (case map_of t i of None \<Rightarrow> [] | Some r \<Rightarrow> if P i r then [(i, r)] else [])"
proof (induction t)
  case (Cons kr t)
  obtain k r where kr: "kr = (k, r)" by (cases kr)
  have "k = i \<Longrightarrow> map_of t i = None" using Cons.prems by (simp add: wf_map_def kr map_of_eq_None_iff)
  with Cons show ?case by (auto simp: wf_map_def kr split: option.splits)
qed simp

lemma selected_key:
  "wf_map t \<Longrightarrow> selected (\<lambda>k r. Some k = Some i \<and> P k r) row t
     = TuplesOk (case map_of t i of None \<Rightarrow> [] | Some r \<Rightarrow> if P i r then [row i r] else [])"
  using filter_key [of t i P] by (auto simp: selected_def split: option.splits)

lemma next_id_fresh: "next_id t \<notin> set (map fst t)"
proof
  assume "next_id t \<in> set (map fst t)"
  then have "next_id t \<le> Max (insert 0 (set (map fst t)))" by (intro Max_ge) auto
  then show False by (simp add: next_id_def)
qed

lemma next_id_pos: "0 < next_id t"
  using Max_ge [of "insert 0 (set (map fst t))" 0] by (simp add: next_id_def)

lemma map_of_insert:
  "map_of (t @ [(next_id t, r)]) = (map_of t)(next_id t \<mapsto> r)"
proof -
  have "map_of t (next_id t) = None" using next_id_fresh [of t] by (simp add: map_of_eq_None_iff)
  then show ?thesis by (auto simp: fun_eq_iff map_add_def split: option.splits)
qed

lemma wf_insert: "wf_map t \<Longrightarrow> wf_map (t @ [(next_id t, r)])"
  using next_id_fresh [of t] by (simp add: wf_map_def)

end
