(* ===== verification/Arrest.thy ===== *)
theory Arrest
  imports Auth Enforcement_Db "HOL-Library.Multiset"
begin

text \<open>
  \<open>enforcement::ArrestManager\<close> (\<open>src/system/subsystem3/enforcement\<close>: \<open>include/arrest_manager.h\<close>,
  \<open>src/arrest_manager.cpp\<close>): recording an arrest, the custody state machine, disputes and the list of
  a case. \<open>PQexecParams\<close> is the parameter \<open>pq\<close>, over a database of any type; what its statements must
  do for the custody updates to be right is the locale \<open>custody_backend\<close>, which the tables of
  \<open>Enforcement_Db\<close> meet.

  \<open>_validateTransition\<close> looks at the text of \<open>PQgetvalue\<close> after \<open>PQclear\<close> has freed it. The
  parameter \<open>freed\<close> says what such a read gives: \<^term>\<open>Inr :: string \<Rightarrow> string run\<close> when the bytes are
  still in place, an undefined behaviour by the language.
\<close>

section \<open>The database connection\<close>

type_synonym 'd backend = "'d \<Rightarrow> sql \<Rightarrow> cstr list \<Rightarrow> pg_result \<times> 'd"

text \<open>\<open>snprintf(p, 24, "%d", i)\<close>: the buffer holds every \<open>int\<close>.\<close>

definition int_param :: "int \<Rightarrow> cstr" where
  "int_param i = Some (show_int i)"

definition setSessionVars :: "'d backend \<Rightarrow> int \<Rightarrow> string \<Rightarrow> 'd \<Rightarrow> bool \<times> 'd" where
  "setSessionVars pq officer_id belt db =
     (case pq db SQL_SET_SESSION [int_param officer_id, Some belt] of
        (TuplesOk rows, db') \<Rightarrow> (True, db')
      | (res, db') \<Rightarrow> (False, db'))"

definition ARREST_NUM_LEN :: nat where "ARREST_NUM_LEN = 32"

definition ARREST_CNIC_LEN :: nat where "ARREST_CNIC_LEN = 16"

definition ARREST_STATUS_LEN :: nat where "ARREST_STATUS_LEN = 16"

definition ARREST_LOCATION_LEN :: nat where "ARREST_LOCATION_LEN = 256"

definition ARREST_REASON_LEN :: nat where "ARREST_REASON_LEN = 512"

lemmas arrest_lens [simp] =
  ARREST_NUM_LEN_def ARREST_CNIC_LEN_def ARREST_STATUS_LEN_def ARREST_LOCATION_LEN_def
  ARREST_REASON_LEN_def

record arrest_record =
  ac_arrest_id :: int
  ac_arrest_number :: string
  ac_accused_cnic :: string
  ac_case_id :: int
  ac_warrant_id :: int
  ac_arresting_officer_id :: int
  ac_custody_status :: string
  ac_arrest_location :: string
  ac_release_reason :: string
  ac_dispute_reason :: string
  ac_is_disputed :: bool
  ac_arrested_at :: int
  ac_released_at :: int
  ac_created_at :: int
  ac_updated_at :: int

section \<open>The custody state machine\<close>

primrec custodyStr :: "custody_status \<Rightarrow> string" where
  "custodyStr IN_CUSTODY = ''IN_CUSTODY''"
| "custodyStr BAIL_GRANTED = ''BAIL_GRANTED''"
| "custodyStr REMANDED = ''REMANDED''"
| "custodyStr RELEASED = ''RELEASED''"
| "custodyStr ESCAPED = ''ESCAPED''"

definition TRANSITIONS :: "(string \<times> string) list" where
  "TRANSITIONS =
     [(''IN_CUSTODY'', ''BAIL_GRANTED''), (''IN_CUSTODY'', ''REMANDED''),
      (''IN_CUSTODY'', ''RELEASED''), (''IN_CUSTODY'', ''ESCAPED''),
      (''BAIL_GRANTED'', ''RELEASED''), (''REMANDED'', ''RELEASED'')]"

definition isLegalTransition :: "string \<Rightarrow> string \<Rightarrow> bool" where
  "isLegalTransition from target \<longleftrightarrow> list_ex (\<lambda>t. fst t = from \<and> snd t = target) TRANSITIONS"

section \<open>Helpers\<close>

definition personExists :: "'d backend \<Rightarrow> cstr \<Rightarrow> 'd \<Rightarrow> bool \<times> 'd" where
  "personExists pq cnic db =
     (case pq db SQL_PERSON_EXISTS [cnic] of
        (TuplesOk rows, db') \<Rightarrow> (0 < length rows, db')
      | (res, db') \<Rightarrow> (False, db'))"

definition validateTransition ::
  "'d backend \<Rightarrow> (string \<Rightarrow> string run) \<Rightarrow> int \<Rightarrow> string \<Rightarrow> string \<Rightarrow> result_code \<Rightarrow> 'd
     \<Rightarrow> (bool \<times> string \<times> result_code \<times> 'd) run" where
  "validateTransition pq freed arrest_id target_status out_current out_code db =
     (case pq db SQL_GET_STATUS [int_param arrest_id] of
        (TuplesOk (row # rows), db') \<Rightarrow>
          let out_current = in_buffer ARREST_STATUS_LEN (row ! 0)
          in and_then (freed (row ! 0)) (\<lambda>current.
               if \<not> isLegalTransition current target_status
               then Inr (False, out_current, INVALID_STATE, db')
               else Inr (True, out_current, out_code, db'))
      | (res, db') \<Rightarrow> Inr (False, out_current, NOT_FOUND, db'))"

definition arrest_mapRow :: "string list \<Rightarrow> arrest_record" where
  "arrest_mapRow row =
     \<lparr>ac_arrest_id = atoi (row ! 0),
      ac_arrest_number = in_buffer ARREST_NUM_LEN (row ! 1),
      ac_accused_cnic = in_buffer ARREST_CNIC_LEN (row ! 2),
      ac_case_id = atoi (row ! 3),
      ac_warrant_id = atoi (row ! 4),
      ac_arresting_officer_id = atoi (row ! 5),
      ac_custody_status = in_buffer ARREST_STATUS_LEN (row ! 6),
      ac_arrest_location = in_buffer ARREST_LOCATION_LEN (row ! 7),
      ac_release_reason = in_buffer ARREST_REASON_LEN (row ! 8),
      ac_dispute_reason = in_buffer ARREST_REASON_LEN (row ! 9),
      ac_is_disputed = (row ! 10 = ''t''),
      ac_arrested_at = atoi (row ! 11),
      ac_released_at = atoi (row ! 12),
      ac_created_at = atoi (row ! 13),
      ac_updated_at = atoi (row ! 14)\<rparr>"

section \<open>Operations\<close>

text \<open>
  The out parameters are results; \<open>out_arrest_id\<close> comes in as well, since it keeps its value when the
  operation fails. \<open>now\<close> is \<open>time(nullptr)\<close>.
\<close>

definition arrest_number :: "int \<Rightarrow> session_context \<Rightarrow> string" where
  "arrest_number now session =
     in_buffer ARREST_NUM_LEN (''AR-'' @ show_int now @ ''-'' @ show_int (sc_officerId session))"

definition mark_warrant_executed ::
  "'d backend \<Rightarrow> session_context \<Rightarrow> int \<Rightarrow> 'd \<Rightarrow> 'd" where
  "mark_warrant_executed pq session warrant_id db =
     (if 0 < warrant_id
      then snd (pq db SQL_EXECUTE_WARRANT_ON_ARREST
                  [int_param (sc_officerId session), int_param warrant_id])
      else db)"

definition recordArrest ::
  "'d backend \<Rightarrow> int \<Rightarrow> session_context \<Rightarrow> int \<Rightarrow> cstr \<Rightarrow> cstr \<Rightarrow> int \<Rightarrow> int \<Rightarrow> 'd
     \<Rightarrow> bool \<times> int \<times> result_code \<times> 'd" where
  "recordArrest pq now session case_id accused_cnic arrest_location warrant_id out_arrest_id db =
     (let (exists, db) = personExists pq accused_cnic db
      in if \<not> exists then (False, out_arrest_id, NOT_FOUND, db)
         else
           let (ok, db) = setSessionVars pq (sc_officerId session) (sc_belt_number session) db
           in if \<not> ok then (False, out_arrest_id, DB_ERROR, db)
              else
                let warrant_param = (if 0 < warrant_id then int_param warrant_id else None);
                    params = [Some (arrest_number now session), accused_cnic, int_param case_id,
                              warrant_param, int_param (sc_officerId session), arrest_location]
                in case pq db SQL_INSERT_ARREST params of
                     (TuplesOk (row # rows), db') \<Rightarrow>
                       (True, atoi (row ! 0), OK, mark_warrant_executed pq session warrant_id db')
                   | (res, db') \<Rightarrow> (False, out_arrest_id, DB_ERROR, db'))"

definition updateCustodyStatus ::
  "'d backend \<Rightarrow> (string \<Rightarrow> string run) \<Rightarrow> session_context \<Rightarrow> int \<Rightarrow> custody_status \<Rightarrow> cstr
     \<Rightarrow> result_code \<Rightarrow> 'd \<Rightarrow> (bool \<times> result_code \<times> 'd) run" where
  "updateCustodyStatus pq freed session arrest_id new_status reason out_code db =
     (let target = custodyStr new_status
      in if (new_status = RELEASED \<or> new_status = ESCAPED) \<and> null_or_empty reason
         then Inr (False, INVALID_INPUT, db)
         else
           and_then (validateTransition pq freed arrest_id target [] out_code db)
             (\<lambda>(legal, current, out_code, db).
               if \<not> legal then Inr (False, out_code, db)
               else
                 let (ok, db) = setSessionVars pq (sc_officerId session) (sc_belt_number session) db
                 in if \<not> ok then Inr (False, DB_ERROR, db)
                    else
                      case pq db SQL_UPDATE_STATUS
                             [Some target, Some (or_empty reason), int_param arrest_id] of
                        (CommandOk n, db') \<Rightarrow> Inr (True, OK, db')
                      | (res, db') \<Rightarrow> Inr (False, DB_ERROR, db')))"

definition markAsDisputed ::
  "'d backend \<Rightarrow> session_context \<Rightarrow> int \<Rightarrow> cstr \<Rightarrow> 'd \<Rightarrow> bool \<times> result_code \<times> 'd" where
  "markAsDisputed pq session arrest_id dispute_reason db =
     (if null_or_empty dispute_reason then (False, INVALID_INPUT, db)
      else
        let (ok, db) = setSessionVars pq (sc_officerId session) (sc_belt_number session) db
        in if \<not> ok then (False, DB_ERROR, db)
           else
             case pq db SQL_SET_DISPUTED [dispute_reason, int_param arrest_id] of
               (CommandOk n, db') \<Rightarrow> (True, OK, db')
             | (res, db') \<Rightarrow> (False, DB_ERROR, db'))"

definition getArrestsByCase ::
  "'d backend \<Rightarrow> int \<Rightarrow> arrest_record list \<Rightarrow> 'd \<Rightarrow> result_code \<times> arrest_record list \<times> 'd" where
  "getArrestsByCase pq case_id out db =
     (case pq db SQL_SELECT_BY_CASE [int_param case_id] of
        (TuplesOk rows, db') \<Rightarrow>
          if length rows = 0 then (NOT_FOUND, out, db')
          else (OK, out @ map arrest_mapRow rows, db')
      | (res, db') \<Rightarrow> (DB_ERROR, out, db'))"

section \<open>What an operation can do to the custody states\<close>

lemma isLegalTransition_iff:
  "isLegalTransition from target \<longleftrightarrow>
     (from = ''IN_CUSTODY'' \<and> target \<in> {''BAIL_GRANTED'', ''REMANDED'', ''RELEASED'', ''ESCAPED''})
     \<or> (from \<in> {''BAIL_GRANTED'', ''REMANDED''} \<and> target = ''RELEASED'')"
  by (auto simp: isLegalTransition_def TRANSITIONS_def)

lemma terminal_custody:
  "from = ''RELEASED'' \<or> from = ''ESCAPED'' \<Longrightarrow> \<not> isLegalTransition from target"
  by (auto simp: isLegalTransition_iff)

text \<open>What the header promises for a custody update of an arrest in state \<open>s\<close> (none: no such arrest).\<close>

definition custody_decision :: "string option \<Rightarrow> custody_status \<Rightarrow> cstr \<Rightarrow> result_code" where
  "custody_decision s st reason =
     (if (st = RELEASED \<or> st = ESCAPED) \<and> null_or_empty reason then INVALID_INPUT
      else case s of
             None \<Rightarrow> NOT_FOUND
           | Some c \<Rightarrow> if isLegalTransition c (custodyStr st) then OK else INVALID_STATE)"

text \<open>
  The contract of a database behind \<open>updateCustodyStatus\<close>: \<open>good\<close> databases stay good, the custody
  states are \<open>custody\<close>, and each statement fails without a change or does what its text says.
\<close>

locale custody_backend =
  fixes pq :: "'d backend"
    and good :: "'d \<Rightarrow> bool"
    and custody :: "'d \<Rightarrow> int \<Rightarrow> string option"
  assumes pq_session:
      "good db \<Longrightarrow> pq db SQL_SET_SESSION ps = (res, db') \<Longrightarrow> good db' \<and> custody db' = custody db"
    and pq_status:
      "good db \<Longrightarrow> pq db SQL_GET_STATUS [int_param i] = (res, db') \<Longrightarrow>
         good db' \<and> custody db' = custody db
         \<and> (res = ResultError
            \<or> res = TuplesOk (case custody db i of None \<Rightarrow> [] | Some s \<Rightarrow> [[s]]))"
    and pq_update:
      "good db \<Longrightarrow> pq db SQL_UPDATE_STATUS [Some s, r, int_param i] = (res, db') \<Longrightarrow>
         good db'
         \<and> (res = ResultError \<and> custody db' = custody db
            \<or> (\<exists>n. res = CommandOk n)
               \<and> custody db' = (if custody db i = None then custody db else (custody db)(i \<mapsto> s)))"
begin

lemma session_step:
  assumes "good db" "setSessionVars pq officer belt db = (ok, db')"
  shows "good db'" "custody db' = custody db"
  using assms pq_session [of db]
  by (auto simp: setSessionVars_def split: prod.splits pg_result.splits)

lemma validateTransition_cases:
  assumes g: "good db" and v: "validateTransition pq Inr i target cur rc db = Inr (legal, cur', rc', db')"
  shows "good db' \<and> custody db' = custody db
    \<and> (legal \<longrightarrow> (\<exists>s. custody db i = Some s \<and> isLegalTransition s target) \<and> rc' = rc)
    \<and> (\<not> legal \<longrightarrow> rc' \<in> {NOT_FOUND, INVALID_STATE})"
proof -
  obtain res db1 where q: "pq db SQL_GET_STATUS [int_param i] = (res, db1)" by fastforce
  from pq_status [OF g q] v q show ?thesis
    by (auto simp: validateTransition_def Let_def split: option.splits if_splits)
qed

lemma update_cases:
  assumes g: "good db"
    and u: "updateCustodyStatus pq Inr session i st reason rc db = Inr (ok, rc', db')"
  shows "good db'
    \<and> (ok \<longrightarrow> rc' = OK \<and> (\<exists>s. custody db i = Some s \<and> isLegalTransition s (custodyStr st))
              \<and> custody db' = (custody db)(i \<mapsto> custodyStr st))
    \<and> (\<not> ok \<longrightarrow> rc' \<in> {INVALID_INPUT, NOT_FOUND, INVALID_STATE, DB_ERROR} \<and> custody db' = custody db)"
proof (cases "(st = RELEASED \<or> st = ESCAPED) \<and> null_or_empty reason")
  case True
  with u g show ?thesis by (simp add: updateCustodyStatus_def)
next
  case False
  with u obtain legal cur rc1 db1 where
    v: "validateTransition pq Inr i (custodyStr st) [] rc db = Inr (legal, cur, rc1, db1)"
    by (auto simp: updateCustodyStatus_def Let_def and_then_Inr_iff)
  note v' = validateTransition_cases [OF g v]
  show ?thesis
  proof (cases legal)
    case False
    with u v v' \<open>\<not> (_ \<and> _)\<close> show ?thesis by (auto simp: updateCustodyStatus_def Let_def)
  next
    case True
    obtain sok db2 where
      s: "setSessionVars pq (sc_officerId session) (sc_belt_number session) db1 = (sok, db2)" by fastforce
    note s' = session_step [OF _ s]
    obtain res db3 where
      q: "pq db2 SQL_UPDATE_STATUS [Some (custodyStr st), Some (or_empty reason), int_param i] = (res, db3)"
      by fastforce
    have g2: "good db2" and c2: "custody db2 = custody db" using v' s' by auto
    from True v' obtain c where c: "custody db i = Some c" "isLegalTransition c (custodyStr st)" by auto
    have "(ok, rc', db') = (if \<not> sok then (False, DB_ERROR, db2)
        else (case res of CommandOk n \<Rightarrow> (True, OK, db3) | _ \<Rightarrow> (False, DB_ERROR, db3)))"
      using u v True s q \<open>\<not> (_ \<and> _)\<close>
      by (cases res) (auto simp: updateCustodyStatus_def Let_def split: if_splits)
    with pq_update [OF g2 q] g2 c2 c show ?thesis by (auto split: if_splits)
  qed
qed

end

text \<open>The same while every statement succeeds.\<close>

locale live_custody_backend = custody_backend +
  assumes live_session: "good db \<Longrightarrow> \<exists>rows db'. pq db SQL_SET_SESSION ps = (TuplesOk rows, db')"
    and live_status: "good db \<Longrightarrow> \<exists>rows db'. pq db SQL_GET_STATUS [int_param i] = (TuplesOk rows, db')"
    and live_update:
      "good db \<Longrightarrow> \<exists>n db'. pq db SQL_UPDATE_STATUS [Some s, r, int_param i] = (CommandOk n, db')"
begin

lemma validate_total:
  assumes g: "good db"
  obtains db1 where "good db1" "custody db1 = custody db"
    "validateTransition pq freed i target cur rc db =
       (case custody db i of None \<Rightarrow> Inr (False, cur, NOT_FOUND, db1)
        | Some s \<Rightarrow> and_then (freed s) (\<lambda>s'.
            Inr (isLegalTransition s' target, in_buffer ARREST_STATUS_LEN s,
                 if isLegalTransition s' target then rc else INVALID_STATE, db1)))"
proof -
  obtain rows db1 where q: "pq db SQL_GET_STATUS [int_param i] = (TuplesOk rows, db1)"
    using live_status [OF g] by blast
  note st = pq_status [OF g q]
  show thesis
  proof (rule that)
    show g1: "good db1" "custody db1 = custody db" using st by auto
    have rows: "rows = (case custody db i of None \<Rightarrow> [] | Some s \<Rightarrow> [[s]])" using st by simp
    show "validateTransition pq freed i target cur rc db =
       (case custody db i of None \<Rightarrow> Inr (False, cur, NOT_FOUND, db1)
        | Some s \<Rightarrow> and_then (freed s) (\<lambda>s'.
            Inr (isLegalTransition s' target, in_buffer ARREST_STATUS_LEN s,
                 if isLegalTransition s' target then rc else INVALID_STATE, db1)))"
    proof (cases "custody db i")
      case (Some s)
      with q rows show ?thesis by (cases "freed s") (simp_all add: validateTransition_def)
    qed (use q rows in \<open>simp add: validateTransition_def\<close>)
  qed
qed

lemma update_total:
  assumes g: "good db"
  obtains db' where "updateCustodyStatus pq Inr session i st reason rc db
      = Inr (custody_decision (custody db i) st reason = OK, custody_decision (custody db i) st reason, db')"
proof (cases "(st = RELEASED \<or> st = ESCAPED) \<and> null_or_empty reason")
  case True
  then show thesis by (intro that [of db]) (simp add: updateCustodyStatus_def custody_decision_def)
next
  case False
  define target where "target = custodyStr st"
  obtain db1 where g1: "good db1" and "custody db1 = custody db" and v:
    "validateTransition pq Inr i target [] rc db =
       (case custody db i of None \<Rightarrow> Inr (False, [], NOT_FOUND, db1)
        | Some s \<Rightarrow> and_then (Inr s) (\<lambda>s'. Inr (isLegalTransition s' target,
            in_buffer ARREST_STATUS_LEN s, if isLegalTransition s' target then rc else INVALID_STATE, db1)))"
    by (rule validate_total [OF g])
  obtain rows db2 where r: "pq db1 SQL_SET_SESSION
      [int_param (sc_officerId session), Some (sc_belt_number session)] = (TuplesOk rows, db2)"
    using live_session [OF g1] by blast
  have s: "setSessionVars pq (sc_officerId session) (sc_belt_number session) db1 = (True, db2)"
      "good db2"
    using r pq_session [OF g1 r] by (simp_all add: setSessionVars_def)
  obtain n db3 where u: "pq db2 SQL_UPDATE_STATUS [Some target, Some (or_empty reason), int_param i]
      = (CommandOk n, db3)"
    using live_update [OF s(2)] by blast
  have upd: "updateCustodyStatus pq Inr session i st reason rc db =
      and_then (validateTransition pq Inr i target [] rc db) (\<lambda>(legal, current, rc, db).
        if \<not> legal then Inr (False, rc, db)
        else let (ok, db) = setSessionVars pq (sc_officerId session) (sc_belt_number session) db
             in if \<not> ok then Inr (False, DB_ERROR, db)
                else case pq db SQL_UPDATE_STATUS [Some target, Some (or_empty reason), int_param i] of
                       (CommandOk n, db') \<Rightarrow> Inr (True, OK, db')
                     | (res, db') \<Rightarrow> Inr (False, DB_ERROR, db'))"
    unfolding updateCustodyStatus_def target_def Let_def by (rule if_not_P) (rule False)
  have dec: "custody_decision (custody db i) st reason = (case custody db i of None \<Rightarrow> NOT_FOUND
      | Some s \<Rightarrow> if isLegalTransition s target then OK else INVALID_STATE)"
    unfolding custody_decision_def target_def using False by (rule if_not_P)
  show thesis
  proof (cases "custody db i")
    case None
    then show thesis by (intro that [of db1]) (simp add: upd v dec [unfolded None])
  next
    case (Some c)
    then show thesis
      by (intro that [of "if isLegalTransition c target then db3 else db1"]) (simp add: upd v dec [unfolded Some] s u)
  qed
qed

lemma freed_read:
  assumes "good db" "\<not> ((st = RELEASED \<or> st = ESCAPED) \<and> null_or_empty reason)" "custody db i \<noteq> None"
  shows "updateCustodyStatus pq (\<lambda>s. Inl flt) session i st reason rc db = Inl flt"
proof -
  obtain db1 where v: "validateTransition pq (\<lambda>s. Inl flt) i (custodyStr st) [] rc db =
      (case custody db i of None \<Rightarrow> Inr (False, [], NOT_FOUND, db1)
       | Some s \<Rightarrow> and_then (Inl flt) (\<lambda>s'. Inr (isLegalTransition s' (custodyStr st),
           in_buffer ARREST_STATUS_LEN s,
           if isLegalTransition s' (custodyStr st) then rc else INVALID_STATE, db1)))"
    by (rule validate_total [OF assms(1)])
  then have "validateTransition pq (\<lambda>s. Inl flt) i (custodyStr st) [] rc db = Inl flt"
    using assms(3) by (cases "custody db i") simp_all
  with assms(2) show ?thesis by (auto simp: updateCustodyStatus_def)
qed

end

section \<open>The contract holds for the tables\<close>

definition custody_of :: "case_db \<Rightarrow> int \<Rightarrow> string option" where
  "custody_of db i = map_option ar_custody_status (map_of (db_arrests db) i)"

definition wf_db :: "case_db \<Rightarrow> bool" where
  "wf_db db \<longleftrightarrow> wf_map (db_arrests db) \<and> wf_map (db_warrants db) \<and> wf_map (db_bails db)"

lemma run_sql_cases:
  assumes "run_sql db stmt ps = (res, db')"
  obtains "db_fails db (db_count db)" "res = ResultError" "db' = db\<lparr>db_count := db_count db + 1\<rparr>"
  | "\<not> db_fails db (db_count db)" "exec_sql stmt ps (db\<lparr>db_count := db_count db + 1\<rparr>) = (res, db')"
  using assms by (auto simp: run_sql_def Let_def split: if_splits)

lemma wf_db_count [simp]: "wf_db (db\<lparr>db_count := n\<rparr>) = wf_db db"
  by (simp add: wf_db_def)

lemma custody_of_count [simp]: "custody_of (db\<lparr>db_count := n\<rparr>) = custody_of db"
  by (simp add: custody_of_def fun_eq_iff)

lemma custody_of_update:
  "db_arrests db' = update_where (\<lambda>k r. Some k = Some i) (\<lambda>r. f r) (db_arrests db) \<Longrightarrow>
   (\<And>r. ar_custody_status (f r) = s) \<Longrightarrow>
   custody_of db' = (if custody_of db i = None then custody_of db else (custody_of db)(i \<mapsto> s))"
proof (rule ext)
  fix j
  assume "db_arrests db' = update_where (\<lambda>k r. Some k = Some i) (\<lambda>r. f r) (db_arrests db)"
    and "\<And>r. ar_custody_status (f r) = s"
  then show "custody_of db' j
      = (if custody_of db i = None then custody_of db else (custody_of db)(i \<mapsto> s)) j"
    by (cases "j = i"; cases "map_of (db_arrests db) j")
       (auto simp: custody_of_def map_of_update_where)
qed

interpretation custody_db: custody_backend run_sql wf_db custody_of
proof unfold_locales
  fix db ps res db'
  assume "wf_db db" "run_sql db SQL_SET_SESSION ps = (res, db')"
  then show "wf_db db' \<and> custody_of db' = custody_of db"
    by (elim run_sql_cases) (auto simp: sql_set_session_def)
next
  fix db i res db'
  assume "wf_db db" and r: "run_sql db SQL_GET_STATUS [int_param i] = (res, db')"
  then have w: "wf_map (db_arrests db)" by (simp add: wf_db_def)
  from r show "wf_db db' \<and> custody_of db' = custody_of db
    \<and> (res = ResultError \<or> res = TuplesOk (case custody_of db i of None \<Rightarrow> [] | Some s \<Rightarrow> [[s]]))"
    using \<open>wf_db db\<close> selected_key [OF w, of i "\<lambda>k r. True" "\<lambda>k r. [ar_custody_status r]"]
    by (elim run_sql_cases)
       (auto simp: sql_get_status_def int_param_def custody_of_def split: option.splits)
next
  fix db s r i res db'
  assume "wf_db db" and r: "run_sql db SQL_UPDATE_STATUS [Some s, r, int_param i] = (res, db')"
  from r show "wf_db db' \<and> (res = ResultError \<and> custody_of db' = custody_of db
    \<or> (\<exists>n. res = CommandOk n)
      \<and> custody_of db' = (if custody_of db i = None then custody_of db else (custody_of db)(i \<mapsto> s)))"
  proof (cases rule: run_sql_cases)
    case 1
    with \<open>wf_db db\<close> show ?thesis by simp
  next
    case 2
    define f where "f r0 = (set_custody s (db_now db) r0)\<lparr>ar_release_reason := r,
      ar_released_at := (if s \<in> {''RELEASED'', ''ESCAPED''} then Some (db_now db)
                         else ar_released_at r0)\<rparr>" for r0
    have c: "ar_custody_status (f r0) = s" for r0 by (simp add: f_def set_custody_def)
    have "db_arrests db' = update_where (\<lambda>k r. Some k = Some i) (\<lambda>r. f r) (db_arrests db)"
      and "\<exists>n. res = CommandOk n" and "wf_db db'"
      using 2 \<open>wf_db db\<close>
      by (auto simp: sql_update_status_def on_arrests_def int_param_def wf_db_def cell_def f_def cong: if_cong)
    with custody_of_update [of db' i f db s, OF _ c] show ?thesis by blast
  qed
qed

definition no_failures :: "case_db \<Rightarrow> bool" where
  "no_failures db \<longleftrightarrow> wf_db db \<and> db_fails db = (\<lambda>n. False)"

lemma run_sql_live:
  "db_fails db = (\<lambda>n. False) \<Longrightarrow>
   run_sql db stmt ps = exec_sql stmt ps (db\<lparr>db_count := db_count db + 1\<rparr>)"
  by (simp add: run_sql_def)

lemma exec_sql_fails:
  "exec_sql stmt ps db = (res, db') \<Longrightarrow> db_fails db' = db_fails db"
  by (cases stmt)
     (auto simp: sql_defs on_arrests_def on_warrants_def on_bails_def Let_def split: pg_result.splits)

lemma run_sql_fails: "run_sql db stmt ps = (res, db') \<Longrightarrow> db_fails db' = db_fails db"
  by (elim run_sql_cases) (auto dest: exec_sql_fails)

interpretation live_custody_db: live_custody_backend run_sql no_failures custody_of
proof unfold_locales
  fix db ps res db'
  assume "no_failures db" and r: "run_sql db SQL_SET_SESSION ps = (res, db')"
  then show "no_failures db' \<and> custody_of db' = custody_of db"
    using custody_db.pq_session [OF _ r] run_sql_fails [OF r] by (simp add: no_failures_def)
next
  fix db i res db'
  assume "no_failures db" and r: "run_sql db SQL_GET_STATUS [int_param i] = (res, db')"
  then show "no_failures db' \<and> custody_of db' = custody_of db
    \<and> (res = ResultError \<or> res = TuplesOk (case custody_of db i of None \<Rightarrow> [] | Some s \<Rightarrow> [[s]]))"
    using custody_db.pq_status [OF _ r] run_sql_fails [OF r] by (simp add: no_failures_def)
next
  fix db s r i res db'
  assume "no_failures db" and q: "run_sql db SQL_UPDATE_STATUS [Some s, r, int_param i] = (res, db')"
  then show "no_failures db' \<and> (res = ResultError \<and> custody_of db' = custody_of db
    \<or> (\<exists>n. res = CommandOk n)
      \<and> custody_of db' = (if custody_of db i = None then custody_of db else (custody_of db)(i \<mapsto> s)))"
    using custody_db.pq_update [OF _ q] run_sql_fails [OF q] by (simp add: no_failures_def)
qed (auto simp: no_failures_def run_sql_live sql_set_session_def sql_get_status_def
       sql_update_status_def selected_def on_arrests_def)

section \<open>Custody\<close>

definition demo_officer :: session_context where
  "demo_officer = empty_session\<lparr>sc_officerId := 7, sc_belt_number := ''B-7''\<rparr>"

definition demo_arrest :: "int \<Rightarrow> string \<Rightarrow> arrest_row" where
  "demo_arrest case_id status = (new_arrest_row [Some ''AR-1-7'', Some ''42101-1234567-1'',
     Some (show_int case_id), None, Some ''7'', Some ''Saddar''] 100)\<lparr>ar_custody_status := status\<rparr>"

definition demo_warrant :: "string \<Rightarrow> string \<Rightarrow> warrant_row" where
  "demo_warrant status valid_until = (new_warrant_row [Some ''WR-1-7'', Some ''3'', Some ''42101-1234567-1'',
     Some ''ARREST'', Some ''Sessions Court'', Some ''Khan'', Some [], Some valid_until, Some ''7''] 100)
     \<lparr>wr_warrant_status := status\<rparr>"

definition demo_db :: case_db where
  "demo_db = \<lparr>db_arrests = [(1, demo_arrest 3 ''IN_CUSTODY''), (2, demo_arrest 3 ''RELEASED'')],
     db_warrants = [(5, demo_warrant ''ISSUED'' ''2026-05-15'')], db_bails = [],
     db_cases = [(3, (''REGISTERED'', 11))], db_persons = [''42101-1234567-1''], db_now = 200,
     db_fails = (\<lambda>n. False), db_count = 0\<rparr>"

lemma demo_db_live: "no_failures demo_db"
  by (simp add: no_failures_def wf_db_def demo_db_def wf_map_def)

lemma demo_custody: "custody_of demo_db 1 = Some ''IN_CUSTODY''" "custody_of demo_db 2 = Some ''RELEASED''"
  by (simp_all add: custody_of_def demo_db_def demo_arrest_def)

text \<open>While the database answers, a custody update does what the header promises on every branch: a
  release or an escape without a reason is refused, an unknown arrest is not found, a move that is not
  in the table is an invalid state, and only a legal move changes a custody state, the one asked for.\<close>

theorem custody_update_decides:
  assumes "no_failures db"
  shows "\<exists>db'. updateCustodyStatus run_sql Inr session i st reason rc db
      = Inr (custody_decision (custody_of db i) st reason = OK,
             custody_decision (custody_of db i) st reason, db')
    \<and> custody_of db' = (if custody_decision (custody_of db i) st reason = OK
                         then (custody_of db)(i \<mapsto> custodyStr st) else custody_of db)"
proof -
  obtain db' where u: "updateCustodyStatus run_sql Inr session i st reason rc db
      = Inr (custody_decision (custody_of db i) st reason = OK,
             custody_decision (custody_of db i) st reason, db')"
    by (rule live_custody_db.update_total [OF assms])
  with live_custody_db.update_cases [OF assms u] show ?thesis by auto
qed

theorem custody_update_decides_witness:
  "\<exists>db'. updateCustodyStatus run_sql Inr demo_officer 1 RELEASED (Some ''acquitted'') OK demo_db
       = Inr (True, OK, db')
     \<and> custody_of db' 1 = Some ''RELEASED'' \<and> custody_of db' 2 = Some ''RELEASED''"
  using custody_update_decides [OF demo_db_live, of demo_officer 1 RELEASED "Some ''acquitted''" OK]
  by (auto simp: demo_custody custody_decision_def isLegalTransition_iff NUL_def)

text \<open>The current state is compared after \<open>PQclear\<close> has freed its text: by the rules of the
  language, every custody update of an existing arrest that passes the reason check has undefined
  behaviour.\<close>

theorem custody_read_after_clear:
  assumes "no_failures db" and "custody_of db i \<noteq> None"
    and "st \<in> {RELEASED, ESCAPED} \<longrightarrow> \<not> null_or_empty reason"
  shows "updateCustodyStatus run_sql (\<lambda>s. Inl UndefinedBehaviour) session i st reason rc db
    = Inl UndefinedBehaviour"
  by (rule live_custody_db.freed_read) (use assms in auto)

theorem custody_read_after_clear_witness:
  "updateCustodyStatus run_sql (\<lambda>s. Inl UndefinedBehaviour) demo_officer 1 REMANDED None OK demo_db
    = Inl UndefinedBehaviour"
  by (rule custody_read_after_clear [OF demo_db_live]) (simp_all add: demo_custody)

section \<open>Recording and listing arrests\<close>

definition warrant_of :: "case_db \<Rightarrow> int \<Rightarrow> string option" where
  "warrant_of db i = map_option wr_warrant_status (map_of (db_warrants db) i)"

lemma warrant_of_count [simp]: "warrant_of (db\<lparr>db_count := n\<rparr>) = warrant_of db"
  by (simp add: warrant_of_def fun_eq_iff)

lemma setSessionVars_live:
  "db_fails db = (\<lambda>n. False) \<Longrightarrow>
   setSessionVars run_sql officer belt db = (True, db\<lparr>db_count := db_count db + 1\<rparr>)"
  by (simp add: setSessionVars_def run_sql_live sql_set_session_def)

lemma personExists_live:
  "db_fails db = (\<lambda>n. False) \<Longrightarrow>
   personExists run_sql cnic db
     = (\<exists>c \<in> set (db_persons db). cnic = Some c, db\<lparr>db_count := db_count db + 1\<rparr>)"
  by (simp add: personExists_def run_sql_live sql_person_exists_def)

lemma mark_warrant_executed_live:
  assumes "db_fails db = (\<lambda>n. False)"
  shows "custody_of (mark_warrant_executed run_sql session w db) = custody_of db"
    and "warrant_of (mark_warrant_executed run_sql session w db) j
      = (if j = w \<and> 0 < w \<and> warrant_of db j = Some ''ISSUED'' then Some ''EXECUTED'' else warrant_of db j)"
proof -
  show "custody_of (mark_warrant_executed run_sql session w db) = custody_of db"
    using assms by (auto simp: mark_warrant_executed_def run_sql_live on_warrants_def custody_of_def
        sql_execute_warrant_on_arrest_def fun_eq_iff)
  show "warrant_of (mark_warrant_executed run_sql session w db) j
      = (if j = w \<and> 0 < w \<and> warrant_of db j = Some ''ISSUED'' then Some ''EXECUTED'' else warrant_of db j)"
    using assms
    by (cases "j = w"; cases "map_of (db_warrants db) j")
       (auto simp: mark_warrant_executed_def run_sql_live sql_execute_warrant_on_arrest_def
          on_warrants_def int_param_def warrant_of_def map_of_update_where)
qed

text \<open>Recording the arrest of a known person succeeds while the database answers: the arrest gets a
  new number, is in custody, and no other arrest changes; the warrant it names is executed when it is
  issued, and no other warrant changes. The warrant's state, expiry and case are not looked at, nor is
  the officer's duty.\<close>

theorem recordArrest_effect:
  assumes "no_failures db" and "p \<in> set (db_persons db)"
  shows "\<exists>i db'. recordArrest run_sql now session case_id (Some p) loc w out db = (True, i, OK, db')
    \<and> custody_of db i = None \<and> custody_of db' = (custody_of db)(i \<mapsto> ''IN_CUSTODY'')
    \<and> (\<forall>j. warrant_of db' j = (if j = w \<and> 0 < w \<and> warrant_of db j = Some ''ISSUED''
                                then Some ''EXECUTED'' else warrant_of db j))"
proof -
  let ?i = "next_id (db_arrests db)"
  define row where "row = new_arrest_row [Some (arrest_number now session), Some p, int_param case_id,
    if 0 < w then int_param w else None, int_param (sc_officerId session), loc] (db_now db)"
  define db1 where "db1 = db\<lparr>db_count := db_count db + 1 + 1 + 1, db_arrests := db_arrests db @ [(?i, row)]\<rparr>"
  have live: "db_fails db = (\<lambda>n. False)" "db_fails db1 = (\<lambda>n. False)"
    using assms(1) by (simp_all add: no_failures_def db1_def)
  have rec: "recordArrest run_sql now session case_id (Some p) loc w out db
      = (True, ?i, OK, mark_warrant_executed run_sql session w db1)"
    using assms(2) live
    by (simp add: recordArrest_def personExists_live setSessionVars_live run_sql_live
        sql_insert_arrest_def Let_def text_simps db1_def row_def)
  have "custody_of db ?i = None"
    using next_id_fresh [of "db_arrests db"] by (simp add: custody_of_def map_of_eq_None_iff)
  moreover have "custody_of db1 = (custody_of db)(?i \<mapsto> ''IN_CUSTODY'')"
    by (simp add: custody_of_def db1_def map_of_insert fun_eq_iff row_def new_arrest_row_def
        del: map_of_append)
  moreover have "warrant_of db1 = warrant_of db" by (simp add: warrant_of_def fun_eq_iff db1_def)
  ultimately show ?thesis
    using rec mark_warrant_executed_live [OF live(2), of session w] by auto
qed

theorem recordArrest_effect_witness:
  "\<exists>i db'. recordArrest run_sql 300 demo_officer 9 (Some ''42101-1234567-1'') (Some ''Saddar'') 5 0 demo_db
      = (True, i, OK, db') \<and> warrant_of db' 5 = Some ''EXECUTED''"
proof -
  have "''42101-1234567-1'' \<in> set (db_persons demo_db)" by (simp add: demo_db_def)
  moreover have "warrant_of demo_db 5 = Some ''ISSUED''"
    by (simp add: warrant_of_def demo_db_def demo_warrant_def)
  ultimately show ?thesis
    using recordArrest_effect [OF demo_db_live, of _ 300 demo_officer 9 "Some ''Saddar''" 5 0] by fastforce
qed

text \<open>The record a caller should see for a row: the texts cut to their fields, NULLs as their defaults.\<close>

definition arrest_view :: "int \<Rightarrow> arrest_row \<Rightarrow> arrest_record" where
  "arrest_view k r =
     \<lparr>ac_arrest_id = k, ac_arrest_number = take 31 (cell (ar_arrest_number r)),
      ac_accused_cnic = take 15 (cell (ar_accused_cnic r)), ac_case_id = ar_case_id r,
      ac_warrant_id = (case ar_warrant_id r of None \<Rightarrow> -1 | Some w \<Rightarrow> w),
      ac_arresting_officer_id = ar_arresting_officer_id r,
      ac_custody_status = take 15 (ar_custody_status r),
      ac_arrest_location = take 255 (cell (ar_arrest_location r)),
      ac_release_reason = take 511 (cell (ar_release_reason r)),
      ac_dispute_reason = take 511 (cell (ar_dispute_reason r)),
      ac_is_disputed = ar_is_disputed r, ac_arrested_at = ar_arrested_at r,
      ac_released_at = (case ar_released_at r of None \<Rightarrow> 0 | Some w \<Rightarrow> w),
      ac_created_at = ar_created_at r, ac_updated_at = ar_updated_at r\<rparr>"

lemma arrest_mapRow_text: "arrest_mapRow (arrest_text k r) = arrest_view k r"
  by (simp add: arrest_mapRow_def arrest_text_def arrest_view_def coalesce_int_def text_simps
      in_buffer_def)

lemma image_mset_filter_case:
  "image_mset (\<lambda>(k, r). f k r) (mset (filter (\<lambda>(k, r). P r) (sort_key g t)))
    = {# f (fst x) (snd x) | x \<in># mset t. P (snd x) #}"
  by (simp add: split_def mset_filter)

lemma sorted_map_filter:
  assumes "sorted (map g ts)" and "\<And>x. h (f x) = - g x"
  shows "sorted_wrt (\<lambda>a b. h b \<le> (h a :: int)) (map f (filter P ts))"
  using sorted_filter [OF assms(1), of P] assms(2) by (simp add: sorted_wrt_map)

text \<open>Listing a case appends one record for each of its arrests and for no other, latest first, each
  with the values of its row; a case without arrests is not found and leaves the list as it was.\<close>

theorem getArrestsByCase_lists:
  assumes "no_failures db"
  shows "\<exists>rc recs db'. getArrestsByCase run_sql case_id out db = (rc, out @ recs, db')
    \<and> rc = (if recs = [] then NOT_FOUND else OK)
    \<and> mset recs = {# arrest_view (fst x) (snd x) | x \<in># mset (db_arrests db). ar_case_id (snd x) = case_id #}
    \<and> sorted_wrt (\<lambda>a b. ac_arrested_at b \<le> ac_arrested_at a) recs
    \<and> db_arrests db' = db_arrests db"
proof -
  define ts where "ts = filter (\<lambda>(k, r). ar_case_id r = case_id)
    (sort_key (\<lambda>(k, r). - ar_arrested_at r) (db_arrests db))"
  let ?recs = "map (\<lambda>(k, r). arrest_view k r) ts"
  have "getArrestsByCase run_sql case_id out db
      = (if ts = [] then NOT_FOUND else OK, out @ ?recs, db\<lparr>db_count := db_count db + 1\<rparr>)"
    using assms
    by (auto simp: getArrestsByCase_def run_sql_live no_failures_def sql_select_by_case_def selected_def
        int_param_def ts_def comp_def split_def arrest_mapRow_text)
  moreover have "mset ?recs
      = {# arrest_view (fst x) (snd x) | x \<in># mset (db_arrests db). ar_case_id (snd x) = case_id #}"
    using image_mset_filter_case [of arrest_view "\<lambda>r. ar_case_id r = case_id"] by (simp add: ts_def)
  moreover have "sorted_wrt (\<lambda>a b. ac_arrested_at b \<le> ac_arrested_at a) ?recs"
    unfolding ts_def
    by (rule sorted_map_filter [where g = "\<lambda>(k, r). - ar_arrested_at r"])
       (auto simp: arrest_view_def split_def)
  ultimately show ?thesis by auto
qed

theorem getArrestsByCase_lists_witness:
  "\<exists>recs db'. getArrestsByCase run_sql 3 [] demo_db = (OK, recs, db') \<and> length recs = 2"
proof -
  obtain rc recs db' where r: "getArrestsByCase run_sql 3 [] demo_db = (rc, [] @ recs, db')"
    "rc = (if recs = [] then NOT_FOUND else OK)"
    "mset recs = {# arrest_view (fst x) (snd x) | x \<in># mset (db_arrests demo_db). ar_case_id (snd x) = 3 #}"
    using getArrestsByCase_lists [OF demo_db_live, of 3 "[]"] by blast
  have "size (mset recs) = 2"
    unfolding r(3) by (simp add: demo_db_def demo_arrest_def new_arrest_row_def text_simps)
  with r(1,2) show ?thesis by auto
qed

end
