(* ===== verification/Calendar.thy ===== *)
theory Calendar
  imports Prelude_JF
begin

text \<open>
  The calendar behind \<open>timegm\<close>, which the warrants and the forensic module call to turn a date into a
  time: the proleptic Gregorian calendar in UTC.
\<close>

definition leap_year :: "int \<Rightarrow> bool" where
  "leap_year y \<longleftrightarrow> y mod 4 = 0 \<and> (y mod 100 \<noteq> 0 \<or> y mod 400 = 0)"

text \<open>The days before the first of January of a year, counted from 1970.\<close>

definition days_before_year :: "int \<Rightarrow> int" where
  "days_before_year y =
     365 * (y - 1970) + ((y - 1) div 4 - (y - 1) div 100 + (y - 1) div 400) - 477"

definition days_before_month :: "int \<Rightarrow> int \<Rightarrow> int" where
  "days_before_month y m =
     [0, 31, 59, 90, 120, 151, 181, 212, 243, 273, 304, 334] ! nat m
       + (if 1 < m \<and> leap_year y then 1 else 0)"

text \<open>
  \<open>timegm\<close> of a broken-down UTC time at midnight: \<open>tm_year\<close> counts from 1900, \<open>tm_mon\<close> from 0 and may
  lie outside the year, \<open>tm_mday\<close> from 1 and may lie outside the month.
\<close>

definition timegm :: "int \<Rightarrow> int \<Rightarrow> int \<Rightarrow> int" where
  "timegm tm_year tm_mon tm_mday =
     (let y = tm_year + 1900 + tm_mon div 12
      in 86400 * (days_before_year y + days_before_month y (tm_mon mod 12) + tm_mday - 1))"

end
