(* ===== verification/Warrant.thy ===== *)
theory Warrant
  imports Arrest Calendar
begin

text \<open>
  \<open>enforcement::WarrantManager\<close> (\<open>src/system/subsystem3/enforcement\<close>: \<open>include/warrant_manager.h\<close>,
  \<open>src/warrant_manager.cpp\<close>): requesting, executing and cancelling a warrant, and the two lists.
  Every write operation starts with the rank check of \<open>AuthManager\<close>; what follows the check is a
  definition of its own, \<open>..._authorized\<close>, since no session passes it.
  The expiry date goes through \<open>sscanf\<close> and \<open>timegm\<close>, which are written out.
\<close>

section \<open>Records\<close>

definition WARRANT_NUM_LEN :: nat where "WARRANT_NUM_LEN = 32"

definition WARRANT_CNIC_LEN :: nat where "WARRANT_CNIC_LEN = 16"

definition WARRANT_COURT_LEN :: nat where "WARRANT_COURT_LEN = 128"

definition WARRANT_JUDGE_LEN :: nat where "WARRANT_JUDGE_LEN = 128"

definition WARRANT_ADDR_LEN :: nat where "WARRANT_ADDR_LEN = 256"

definition WARRANT_STATUS_LEN :: nat where "WARRANT_STATUS_LEN = 16"

definition WARRANT_TYPE_LEN :: nat where "WARRANT_TYPE_LEN = 16"

definition WARRANT_REASON_LEN :: nat where "WARRANT_REASON_LEN = 512"

definition WARRANT_DATE_LEN :: nat where "WARRANT_DATE_LEN = 32"

lemmas warrant_lens [simp] =
  WARRANT_NUM_LEN_def WARRANT_CNIC_LEN_def WARRANT_COURT_LEN_def WARRANT_JUDGE_LEN_def
  WARRANT_ADDR_LEN_def WARRANT_STATUS_LEN_def WARRANT_TYPE_LEN_def WARRANT_REASON_LEN_def
  WARRANT_DATE_LEN_def

record warrant_record =
  wt_warrant_id :: int
  wt_warrant_number :: string
  wt_case_id :: int
  wt_accused_cnic :: string
  wt_warrant_type :: string
  wt_warrant_status :: string
  wt_issuing_court :: string
  wt_magistrate_name :: string
  wt_target_address :: string
  wt_valid_until :: string
  wt_cancellation_reason :: string
  wt_requested_by :: int
  wt_executed_by :: int
  wt_cancelled_by :: int
  wt_issue_date :: int
  wt_executed_at :: int
  wt_cancelled_at :: int
  wt_created_at :: int
  wt_updated_at :: int

definition warrant_mapRow :: "string list \<Rightarrow> warrant_record" where
  "warrant_mapRow row =
     \<lparr>wt_warrant_id = atoi (row ! 0),
      wt_warrant_number = in_buffer WARRANT_NUM_LEN (row ! 1),
      wt_case_id = atoi (row ! 2),
      wt_accused_cnic = in_buffer WARRANT_CNIC_LEN (row ! 3),
      wt_warrant_type = in_buffer WARRANT_TYPE_LEN (row ! 4),
      wt_warrant_status = in_buffer WARRANT_STATUS_LEN (row ! 5),
      wt_issuing_court = in_buffer WARRANT_COURT_LEN (row ! 6),
      wt_magistrate_name = in_buffer WARRANT_JUDGE_LEN (row ! 7),
      wt_target_address = in_buffer WARRANT_ADDR_LEN (row ! 8),
      wt_valid_until = in_buffer WARRANT_DATE_LEN (row ! 9),
      wt_cancellation_reason = in_buffer WARRANT_REASON_LEN (row ! 10),
      wt_requested_by = atoi (row ! 11),
      wt_executed_by = atoi (row ! 12),
      wt_cancelled_by = atoi (row ! 13),
      wt_issue_date = atoi (row ! 14),
      wt_executed_at = atoi (row ! 15),
      wt_cancelled_at = atoi (row ! 16),
      wt_created_at = atoi (row ! 17),
      wt_updated_at = atoi (row ! 18)\<rparr>"

section \<open>Dates\<close>

text \<open>One \<open>%d\<close> of \<open>sscanf\<close>: white space, a sign, digits; without digits it fails.\<close>

definition scan_int :: "string \<Rightarrow> (int \<times> string) option" where
  "scan_int s =
     (let s' = dropWhile is_space s;
          rest = (if s' \<noteq> [] \<and> hd s' \<in> {CHR ''-'', CHR ''+''} then tl s' else s')
      in if takeWhile is_digit rest = [] then None else Some (atoi s, dropWhile is_digit rest))"

fun scan_dash :: "string \<Rightarrow> string option" where
  "scan_dash [] = None"
| "scan_dash (c # cs) = (if c = CHR ''-'' then Some cs else None)"

text \<open>\<open>sscanf(s, "%d-%d-%d", ...)\<close> over three fields that start at zero: year, month, day.\<close>

definition sscanf_date :: "string \<Rightarrow> int \<times> int \<times> int" where
  "sscanf_date s =
     (case scan_int s of None \<Rightarrow> (0, 0, 0)
      | Some (y, s1) \<Rightarrow>
        (case Option.bind (scan_dash s1) scan_int of None \<Rightarrow> (y, 0, 0)
         | Some (m, s2) \<Rightarrow>
           (case Option.bind (scan_dash s2) scan_int of None \<Rightarrow> (y, m, 0)
            | Some (d, s3) \<Rightarrow> (y, m, d))))"

definition expiry_epoch :: "string \<Rightarrow> int" where
  "expiry_epoch expiry = (case sscanf_date expiry of (y, m, d) \<Rightarrow> timegm (y - 1900) (m - 1) d)"

section \<open>Operations\<close>

primrec warrantTypeStr :: "warrant_type \<Rightarrow> string" where
  "warrantTypeStr ARREST = ''ARREST''"
| "warrantTypeStr SEARCH = ''SEARCH''"
| "warrantTypeStr SEIZURE = ''SEIZURE''"

definition warrant_validateState ::
  "'d backend \<Rightarrow> int \<Rightarrow> int \<Rightarrow> string \<Rightarrow> bool \<Rightarrow> result_code \<Rightarrow> 'd \<Rightarrow> bool \<times> result_code \<times> 'd" where
  "warrant_validateState pq now warrant_id expected_from check_expiry out_code db =
     (case pq db SQL_GET_STATUS_EXPIRY [int_param warrant_id] of
        (TuplesOk (row # rows), db') \<Rightarrow>
          let current = row ! 0; expiry = row ! 1
          in if current \<noteq> expected_from then (False, INVALID_STATE, db')
             else if check_expiry \<and> expiry \<noteq> [] \<and> expiry_epoch expiry < now
             then (False, INVALID_STATE, db')
             else (True, out_code, db')
      | (res, db') \<Rightarrow> (False, NOT_FOUND, db'))"

definition warrant_number :: "int \<Rightarrow> session_context \<Rightarrow> string" where
  "warrant_number now session =
     in_buffer WARRANT_NUM_LEN (''WR-'' @ show_int now @ ''-'' @ show_int (sc_officerId session))"

definition requestWarrant_authorized ::
  "'d backend \<Rightarrow> int \<Rightarrow> session_context \<Rightarrow> int \<Rightarrow> cstr \<Rightarrow> warrant_type \<Rightarrow> cstr \<Rightarrow> cstr \<Rightarrow> cstr \<Rightarrow> cstr
     \<Rightarrow> int \<Rightarrow> 'd \<Rightarrow> bool \<times> int \<times> result_code \<times> 'd" where
  "requestWarrant_authorized pq now session case_id accused_cnic warrant_type magistrate_name
       issuing_court valid_until target_address out_warrant_id db =
     (case pq db SQL_CASE_STATUS [int_param case_id] of
        (TuplesOk (row # rows), db) \<Rightarrow>
          if row ! 0 \<noteq> ''REGISTERED'' \<and> row ! 0 \<noteq> ''UNDER_INVESTIGATION''
          then (False, out_warrant_id, INVALID_STATE, db)
          else
            let (ok, db) = setSessionVars pq (sc_officerId session) (sc_belt_number session) db
            in if \<not> ok then (False, out_warrant_id, DB_ERROR, db)
               else
                 let params = [Some (warrant_number now session), int_param case_id, accused_cnic,
                               Some (warrantTypeStr warrant_type), issuing_court, magistrate_name,
                               Some (or_empty target_address), valid_until,
                               int_param (sc_officerId session)]
                 in case pq db SQL_INSERT params of
                      (TuplesOk (row # rows), db') \<Rightarrow> (True, atoi (row ! 0), OK, db')
                    | (res, db') \<Rightarrow> (False, out_warrant_id, DB_ERROR, db')
      | (res, db) \<Rightarrow> (False, out_warrant_id, NOT_FOUND, db))"

definition requestWarrant ::
  "'d backend \<Rightarrow> int \<Rightarrow> session_context \<Rightarrow> int \<Rightarrow> cstr \<Rightarrow> warrant_type \<Rightarrow> cstr \<Rightarrow> cstr \<Rightarrow> cstr \<Rightarrow> cstr
     \<Rightarrow> int \<Rightarrow> 'd \<Rightarrow> bool \<times> int \<times> result_code \<times> 'd" where
  "requestWarrant pq now session case_id accused_cnic warrant_type magistrate_name issuing_court
       valid_until target_address out_warrant_id db =
     (if validateRank session (rank_value INSPECTOR) \<noteq> OK
      then (False, out_warrant_id, RANK_INSUFFICIENT, db)
      else requestWarrant_authorized pq now session case_id accused_cnic warrant_type magistrate_name
             issuing_court valid_until target_address out_warrant_id db)"

definition executeWarrant_authorized ::
  "'d backend \<Rightarrow> int \<Rightarrow> session_context \<Rightarrow> int \<Rightarrow> result_code \<Rightarrow> 'd \<Rightarrow> bool \<times> result_code \<times> 'd" where
  "executeWarrant_authorized pq now session warrant_id out_code db =
     (let (valid, out_code, db) = warrant_validateState pq now warrant_id ''ISSUED'' True out_code db
      in if \<not> valid then (False, out_code, db)
         else
           let (ok, db) = setSessionVars pq (sc_officerId session) (sc_belt_number session) db
           in if \<not> ok then (False, DB_ERROR, db)
              else
                case pq db SQL_EXECUTE [int_param (sc_officerId session), int_param warrant_id] of
                  (CommandOk n, db') \<Rightarrow> (True, OK, db')
                | (res, db') \<Rightarrow> (False, DB_ERROR, db'))"

definition executeWarrant ::
  "'d backend \<Rightarrow> int \<Rightarrow> session_context \<Rightarrow> int \<Rightarrow> result_code \<Rightarrow> 'd \<Rightarrow> bool \<times> result_code \<times> 'd" where
  "executeWarrant pq now session warrant_id out_code db =
     (if validateRank session (rank_value INSPECTOR) \<noteq> OK then (False, RANK_INSUFFICIENT, db)
      else executeWarrant_authorized pq now session warrant_id out_code db)"

definition cancelWarrant_authorized ::
  "'d backend \<Rightarrow> int \<Rightarrow> session_context \<Rightarrow> int \<Rightarrow> cstr \<Rightarrow> result_code \<Rightarrow> 'd
     \<Rightarrow> bool \<times> result_code \<times> 'd" where
  "cancelWarrant_authorized pq now session warrant_id cancellation_reason out_code db =
     (let (valid, out_code, db) = warrant_validateState pq now warrant_id ''ISSUED'' False out_code db
      in if \<not> valid then (False, out_code, db)
         else
           let (ok, db) = setSessionVars pq (sc_officerId session) (sc_belt_number session) db
           in if \<not> ok then (False, DB_ERROR, db)
              else
                case pq db SQL_CANCEL
                       [int_param (sc_officerId session), cancellation_reason, int_param warrant_id] of
                  (CommandOk n, db') \<Rightarrow> (True, OK, db')
                | (res, db') \<Rightarrow> (False, DB_ERROR, db'))"

definition cancelWarrant ::
  "'d backend \<Rightarrow> int \<Rightarrow> session_context \<Rightarrow> int \<Rightarrow> cstr \<Rightarrow> result_code \<Rightarrow> 'd
     \<Rightarrow> bool \<times> result_code \<times> 'd" where
  "cancelWarrant pq now session warrant_id cancellation_reason out_code db =
     (if null_or_empty cancellation_reason then (False, INVALID_INPUT, db)
      else if validateRank session (rank_value INSPECTOR) \<noteq> OK then (False, RANK_INSUFFICIENT, db)
      else cancelWarrant_authorized pq now session warrant_id cancellation_reason out_code db)"

definition getWarrantsByCase ::
  "'d backend \<Rightarrow> int \<Rightarrow> warrant_record list \<Rightarrow> 'd \<Rightarrow> result_code \<times> warrant_record list \<times> 'd" where
  "getWarrantsByCase pq case_id out db =
     (case pq db SQL_BY_CASE [int_param case_id] of
        (TuplesOk rows, db') \<Rightarrow>
          if length rows = 0 then (NOT_FOUND, out, db')
          else (OK, out @ map warrant_mapRow rows, db')
      | (res, db') \<Rightarrow> (DB_ERROR, out, db'))"

definition getActiveWarrants ::
  "'d backend \<Rightarrow> int \<Rightarrow> warrant_record list \<Rightarrow> 'd \<Rightarrow> result_code \<times> warrant_record list \<times> 'd" where
  "getActiveWarrants pq station_id out db =
     (case pq db SQL_ACTIVE_BY_STATION [int_param station_id] of
        (TuplesOk rows, db') \<Rightarrow>
          if length rows = 0 then (NOT_FOUND, out, db')
          else (OK, out @ map warrant_mapRow rows, db')
      | (res, db') \<Rightarrow> (DB_ERROR, out, db'))"

section \<open>Behaviour on the tables\<close>

lemma rank_gate [simp]: "validateRank session 4 \<noteq> OK"
  by (simp add: validateRank_OK)

text \<open>What the state check answers for the warrant \<open>i\<close>.\<close>

definition warrant_decision :: "case_db \<Rightarrow> int \<Rightarrow> int \<Rightarrow> bool \<Rightarrow> result_code" where
  "warrant_decision db now i check_expiry =
     (case map_of (db_warrants db) i of
        None \<Rightarrow> NOT_FOUND
      | Some r \<Rightarrow>
          if wr_warrant_status r \<noteq> ''ISSUED'' then INVALID_STATE
          else if check_expiry \<and> cell (wr_valid_until r) \<noteq> [] \<and> expiry_epoch (cell (wr_valid_until r)) < now
          then INVALID_STATE else OK)"

lemma warrant_query:
  assumes "wf_map (db_warrants db)"
  shows "sql_get_status_expiry [int_param i] db = (TuplesOk (case map_of (db_warrants db) i of None \<Rightarrow> []
      | Some r \<Rightarrow> [[wr_warrant_status r, cell (wr_valid_until r)]]), db)"
  using selected_key [OF assms, of i "\<lambda>k r. True" "\<lambda>k r. [wr_warrant_status r, cell (wr_valid_until r)]"]
  by (simp add: sql_get_status_expiry_def int_param_def split: option.split)

lemma warrant_validateState_live:
  assumes "no_failures db"
  shows "warrant_validateState run_sql now i ''ISSUED'' chk rc db
    = (warrant_decision db now i chk = OK,
       if warrant_decision db now i chk = OK then rc else warrant_decision db now i chk,
       db\<lparr>db_count := db_count db + 1\<rparr>)"
proof -
  have w: "wf_map (db_warrants (db\<lparr>db_count := Suc (db_count db)\<rparr>))" and f: "db_fails db = (\<lambda>n. False)"
    using assms by (simp_all add: no_failures_def wf_db_def)
  show ?thesis
    by (cases "map_of (db_warrants db) i")
       (simp_all add: warrant_validateState_def run_sql_live [OF f] warrant_query [OF w]
          warrant_decision_def Let_def)
qed

lemma warrant_of_update:
  assumes "db_warrants db' = update_where (\<lambda>k r. Some k = Some i) f (db_warrants db)"
    and "\<And>r. wr_warrant_status (f r) = s" and "warrant_of db i \<noteq> None"
  shows "warrant_of db' = (warrant_of db)(i \<mapsto> s)"
proof (rule ext)
  fix j
  show "warrant_of db' j = ((warrant_of db)(i \<mapsto> s)) j"
    using assms by (cases "j = i"; cases "map_of (db_warrants db) j")
      (auto simp: warrant_of_def map_of_update_where)
qed

lemma decision_found: "warrant_decision db now i chk = OK \<Longrightarrow> warrant_of db i \<noteq> None"
  by (simp add: warrant_decision_def warrant_of_def split: option.splits)

text \<open>Behind the rank check, executing a warrant does what the state machine says: an unknown warrant
  is not found; one that is not issued, or whose expiry has passed, is an invalid state and nothing
  changes; otherwise the warrant is executed and no other warrant or arrest changes.
  The expiry is midnight at the start of the day \<open>valid_until\<close>.\<close>

theorem executeWarrant_authorized_effect:
  assumes "no_failures db"
  shows "\<exists>db'. executeWarrant_authorized run_sql now session i rc db
      = (warrant_decision db now i True = OK, warrant_decision db now i True, db')
    \<and> warrant_of db' = (if warrant_decision db now i True = OK
                         then (warrant_of db)(i \<mapsto> ''EXECUTED'') else warrant_of db)
    \<and> db_arrests db' = db_arrests db"
proof -
  have f: "db_fails db = (\<lambda>n. False)" using assms by (simp add: no_failures_def)
  show ?thesis
  proof (cases "warrant_decision db now i True = OK")
    case False
    then show ?thesis
      by (simp add: executeWarrant_authorized_def warrant_validateState_live [OF assms])
  next
    case True
    obtain n db' where e: "run_sql (db\<lparr>db_count := db_count db + 1 + 1\<rparr>) SQL_EXECUTE
        [int_param (sc_officerId session), int_param i] = (CommandOk n, db')"
      "db_warrants db' = update_where (\<lambda>k r. Some k = Some i) (\<lambda>r. r\<lparr>wr_warrant_status := ''EXECUTED'',
         wr_executed_by := Some (sc_officerId session), wr_executed_at := Some (db_now db),
         wr_updated_at := db_now db\<rparr>) (db_warrants db)" "db_arrests db' = db_arrests db"
      by (simp add: run_sql_live f sql_execute_def on_warrants_def int_param_def)
    with True warrant_of_update [OF e(2) _ decision_found [OF True], of "''EXECUTED''"] show ?thesis
      by (simp add: executeWarrant_authorized_def warrant_validateState_live [OF assms]
          setSessionVars_live f)
  qed
qed

lemma demo_expiry: "expiry_epoch ''2026-05-15'' = 1778803200"
  by code_simp

theorem executeWarrant_authorized_effect_witness:
  "(fst (executeWarrant_authorized run_sql 1778803200 demo_officer 5 OK demo_db)
     \<and> \<not> fst (executeWarrant_authorized run_sql 1778803201 demo_officer 5 OK demo_db))"
proof -
  have "warrant_decision demo_db 1778803200 5 True = OK"
    "warrant_decision demo_db 1778803201 5 True = INVALID_STATE"
    by (simp_all add: warrant_decision_def demo_db_def demo_warrant_def new_warrant_row_def cell_def
        demo_expiry)
  with executeWarrant_authorized_effect [OF demo_db_live, of 1778803200 demo_officer 5 OK]
    executeWarrant_authorized_effect [OF demo_db_live, of 1778803201 demo_officer 5 OK]
  show ?thesis by auto
qed

definition warrant_view :: "int \<Rightarrow> warrant_row \<Rightarrow> warrant_record" where
  "warrant_view k r =
     \<lparr>wt_warrant_id = k, wt_warrant_number = take 31 (cell (wr_warrant_number r)),
      wt_case_id = wr_case_id r, wt_accused_cnic = take 15 (cell (wr_accused_cnic r)),
      wt_warrant_type = take 15 (cell (wr_warrant_type r)),
      wt_warrant_status = take 15 (wr_warrant_status r),
      wt_issuing_court = take 127 (cell (wr_issuing_court r)),
      wt_magistrate_name = take 127 (cell (wr_magistrate_name r)),
      wt_target_address = take 255 (cell (wr_target_address r)),
      wt_valid_until = take 31 (cell (wr_valid_until r)),
      wt_cancellation_reason = take 511 (cell (wr_cancellation_reason r)),
      wt_requested_by = wr_requested_by r,
      wt_executed_by = (case wr_executed_by r of None \<Rightarrow> 0 | Some w \<Rightarrow> w),
      wt_cancelled_by = (case wr_cancelled_by r of None \<Rightarrow> 0 | Some w \<Rightarrow> w),
      wt_issue_date = wr_issue_date r,
      wt_executed_at = (case wr_executed_at r of None \<Rightarrow> 0 | Some w \<Rightarrow> w),
      wt_cancelled_at = (case wr_cancelled_at r of None \<Rightarrow> 0 | Some w \<Rightarrow> w),
      wt_created_at = wr_created_at r, wt_updated_at = wr_updated_at r\<rparr>"

lemma warrant_mapRow_text: "warrant_mapRow (warrant_text k r) = warrant_view k r"
  by (simp add: warrant_mapRow_def warrant_text_def warrant_view_def coalesce_int_def text_simps
      in_buffer_def)

text \<open>The dashboard of a station shows each issued warrant of its cases once and no other warrant,
  with the values of its row.\<close>

theorem getActiveWarrants_lists:
  assumes "no_failures db"
  shows "\<exists>rc recs db'. getActiveWarrants run_sql station out db = (rc, out @ recs, db')
    \<and> rc = (if recs = [] then NOT_FOUND else OK)
    \<and> mset recs = {# warrant_view (fst x) (snd x) | x \<in># mset (db_warrants db).
        wr_warrant_status (snd x) = ''ISSUED''
        \<and> (\<exists>c \<in> set (db_cases db). fst c = wr_case_id (snd x) \<and> snd (snd c) = station) #}
    \<and> db_warrants db' = db_warrants db"
proof -
  define P where "P r \<longleftrightarrow> wr_warrant_status r = ''ISSUED''
    \<and> (\<exists>c \<in> set (db_cases db). fst c = wr_case_id r \<and> snd (snd c) = station)" for r :: warrant_row
  define ts where "ts = filter (\<lambda>(k, r). P r)
    (sort_key (\<lambda>(k, r). cell (wr_valid_until r)) (db_warrants db))"
  let ?recs = "map (\<lambda>(k, r). warrant_view k r) ts"
  have "getActiveWarrants run_sql station out db
      = (if ts = [] then NOT_FOUND else OK, out @ ?recs, db\<lparr>db_count := db_count db + 1\<rparr>)"
    using assms
    by (auto simp: getActiveWarrants_def run_sql_live no_failures_def sql_active_by_station_def
        selected_def int_param_def ts_def P_def comp_def split_def warrant_mapRow_text)
  moreover have "mset ?recs = {# warrant_view (fst x) (snd x) | x \<in># mset (db_warrants db). P (snd x) #}"
    using image_mset_filter_case [of warrant_view P] by (simp add: ts_def)
  ultimately show ?thesis by (auto simp: P_def)
qed

theorem getActiveWarrants_lists_witness:
  "\<exists>recs db'. getActiveWarrants run_sql 11 [] demo_db = (OK, recs, db') \<and> length recs = 1"
proof -
  obtain rc recs db' where r: "getActiveWarrants run_sql 11 [] demo_db = (rc, [] @ recs, db')"
    "rc = (if recs = [] then NOT_FOUND else OK)"
    "mset recs = {# warrant_view (fst x) (snd x) | x \<in># mset (db_warrants demo_db).
        wr_warrant_status (snd x) = ''ISSUED''
        \<and> (\<exists>c \<in> set (db_cases demo_db). fst c = wr_case_id (snd x) \<and> snd (snd c) = 11) #}"
    using getActiveWarrants_lists [OF demo_db_live, of 11 "[]"] by blast
  have "sql_int0 (Some ''3'') = 3" by code_simp
  then have "size (mset recs) = 1"
    unfolding r(3) by (simp add: demo_db_def demo_warrant_def new_warrant_row_def)
  with r(1,2) show ?thesis by auto
qed

end
