(* ===== verification/Bail.thy ===== *)
theory Bail
  imports Warrant
begin

text \<open>
  \<open>enforcement::BailManager\<close> (\<open>src/system/subsystem3/enforcement\<close>: \<open>include/bail_manager.h\<close>,
  \<open>src/bail_manager.cpp\<close>): granting bail for an arrest in custody, revoking it, and the current bail of
  an arrest. As for the warrants, the part behind the rank check is a definition of its own, and as for
  the arrests \<open>freed\<close> is the read of a text that \<open>PQclear\<close> has freed.
\<close>

section \<open>Records\<close>

definition BAIL_NUM_LEN :: nat where "BAIL_NUM_LEN = 32"

definition BAIL_STATUS_LEN :: nat where "BAIL_STATUS_LEN = 16"

definition BAIL_TYPE_LEN :: nat where "BAIL_TYPE_LEN = 16"

definition BAIL_COURT_LEN :: nat where "BAIL_COURT_LEN = 128"

definition BAIL_JUDGE_LEN :: nat where "BAIL_JUDGE_LEN = 128"

definition BAIL_REASON_LEN :: nat where "BAIL_REASON_LEN = 512"

definition BAIL_CNIC_LEN :: nat where "BAIL_CNIC_LEN = 16"

definition BAIL_NAME_LEN :: nat where "BAIL_NAME_LEN = 128"

definition BAIL_CONTACT_LEN :: nat where "BAIL_CONTACT_LEN = 32"

definition BAIL_DATE_LEN :: nat where "BAIL_DATE_LEN = 32"

lemmas bail_lens [simp] =
  BAIL_NUM_LEN_def BAIL_STATUS_LEN_def BAIL_TYPE_LEN_def BAIL_COURT_LEN_def BAIL_JUDGE_LEN_def
  BAIL_REASON_LEN_def BAIL_CNIC_LEN_def BAIL_NAME_LEN_def BAIL_CONTACT_LEN_def BAIL_DATE_LEN_def

record bail_record =
  bl_bail_id :: int
  bl_bail_number :: string
  bl_arrest_id :: int
  bl_bail_status :: string
  bl_bail_type :: string
  bl_bail_amount_paise :: "64 word"
  bl_court_name :: string
  bl_magistrate_name :: string
  bl_valid_until :: string
  bl_surety_name :: string
  bl_surety_cnic :: string
  bl_surety_contact :: string
  bl_revocation_reason :: string
  bl_recorded_by :: int
  bl_revoked_by :: int
  bl_bail_date :: int
  bl_revoked_at :: int
  bl_created_at :: int
  bl_updated_at :: int

primrec bailTypeStr :: "bail_type \<Rightarrow> string" where
  "bailTypeStr REGULAR = ''REGULAR''"
| "bailTypeStr ANTICIPATORY = ''ANTICIPATORY''"
| "bailTypeStr INTERIM = ''INTERIM''"
| "bailTypeStr SURETY = ''SURETY''"

text \<open>\<open>legal::Compliance::validateBailAmount\<close>.\<close>

definition validateBailAmount :: "bail_type \<Rightarrow> 64 word \<Rightarrow> result_code \<times> string" where
  "validateBailAmount t bail_amount_paise =
     (if bail_amount_paise = 0 then (INVALID_INPUT, ''Bail amount must be greater than zero'')
      else (OK, []))"

section \<open>Helpers\<close>

definition arrestIsInCustody :: "'d backend \<Rightarrow> int \<Rightarrow> 'd \<Rightarrow> bool \<times> 'd" where
  "arrestIsInCustody pq arrest_id db =
     (case pq db SQL_ARREST_IN_CUSTODY [int_param arrest_id] of
        (TuplesOk rows, db') \<Rightarrow> (0 < length rows, db')
      | (res, db') \<Rightarrow> (False, db'))"

definition bail_validateState ::
  "'d backend \<Rightarrow> (string \<Rightarrow> string run) \<Rightarrow> int \<Rightarrow> int \<Rightarrow> result_code \<Rightarrow> 'd
     \<Rightarrow> (bool \<times> int \<times> result_code \<times> 'd) run" where
  "bail_validateState pq freed bail_id out_arrest_id out_code db =
     (case pq db SQL_GET_BAIL_STATUS [int_param bail_id] of
        (TuplesOk (row # rows), db') \<Rightarrow>
          and_then (freed (row ! 0)) (\<lambda>current.
            if current \<noteq> ''ACTIVE'' then Inr (False, atoi (row ! 1), INVALID_STATE, db')
            else Inr (True, atoi (row ! 1), out_code, db'))
      | (res, db') \<Rightarrow> Inr (False, out_arrest_id, NOT_FOUND, db'))"

definition bail_mapRow :: "string list \<Rightarrow> bail_record" where
  "bail_mapRow row =
     \<lparr>bl_bail_id = atoi (row ! 0),
      bl_bail_number = in_buffer BAIL_NUM_LEN (row ! 1),
      bl_arrest_id = atoi (row ! 2),
      bl_bail_status = in_buffer BAIL_STATUS_LEN (row ! 3),
      bl_bail_type = in_buffer BAIL_TYPE_LEN (row ! 4),
      bl_bail_amount_paise = word_of_int (atoi (row ! 5)),
      bl_court_name = in_buffer BAIL_COURT_LEN (row ! 6),
      bl_magistrate_name = in_buffer BAIL_JUDGE_LEN (row ! 7),
      bl_valid_until = in_buffer BAIL_DATE_LEN (row ! 8),
      bl_surety_name = in_buffer BAIL_NAME_LEN (row ! 9),
      bl_surety_cnic = in_buffer BAIL_CNIC_LEN (row ! 10),
      bl_surety_contact = in_buffer BAIL_CONTACT_LEN (row ! 11),
      bl_revocation_reason = in_buffer BAIL_REASON_LEN (row ! 12),
      bl_recorded_by = atoi (row ! 13),
      bl_revoked_by = atoi (row ! 14),
      bl_bail_date = atoi (row ! 15),
      bl_revoked_at = atoi (row ! 16),
      bl_created_at = atoi (row ! 17),
      bl_updated_at = atoi (row ! 18)\<rparr>"

section \<open>Operations\<close>

definition bail_number :: "int \<Rightarrow> session_context \<Rightarrow> string" where
  "bail_number now session =
     in_buffer BAIL_NUM_LEN (''BA-'' @ show_int now @ ''-'' @ show_int (sc_officerId session))"

definition recordBail_authorized ::
  "'d backend \<Rightarrow> int \<Rightarrow> session_context \<Rightarrow> int \<Rightarrow> bail_type \<Rightarrow> 64 word \<Rightarrow> cstr \<Rightarrow> cstr \<Rightarrow> cstr \<Rightarrow> cstr
     \<Rightarrow> cstr \<Rightarrow> cstr \<Rightarrow> int \<Rightarrow> 'd \<Rightarrow> bool \<times> int \<times> result_code \<times> 'd" where
  "recordBail_authorized pq now session arrest_id bail_type bail_amount_paise court_name
       magistrate_name valid_until surety_name surety_cnic surety_contact out_bail_id db =
     (let (in_custody, db) = arrestIsInCustody pq arrest_id db
      in if \<not> in_custody then (False, out_bail_id, INVALID_STATE, db)
         else if fst (validateBailAmount bail_type bail_amount_paise) \<noteq> OK
         then (False, out_bail_id, fst (validateBailAmount bail_type bail_amount_paise), db)
         else if bail_type = SURETY
                 \<and> (null_or_empty surety_name \<or> null_or_empty surety_cnic \<or> null_or_empty surety_contact)
         then (False, out_bail_id, INVALID_INPUT, db)
         else
           let (ok, db) = setSessionVars pq (sc_officerId session) (sc_belt_number session) db
           in if \<not> ok then (False, out_bail_id, DB_ERROR, db)
              else
                let params = [Some (bail_number now session), int_param arrest_id,
                              Some (bailTypeStr bail_type), Some (show_int (uint bail_amount_paise)),
                              court_name, magistrate_name, Some (or_empty valid_until),
                              Some (or_empty surety_name), Some (or_empty surety_cnic),
                              Some (or_empty surety_contact), int_param (sc_officerId session)]
                in case pq db SQL_INSERT_BAIL params of
                     (TuplesOk (row # rows), db') \<Rightarrow>
                       (True, atoi (row ! 0), OK,
                        snd (pq db' SQL_UPDATE_ARREST_BAIL_GRANTED [int_param arrest_id]))
                   | (res, db') \<Rightarrow> (False, out_bail_id, DB_ERROR, db'))"

definition recordBail ::
  "'d backend \<Rightarrow> int \<Rightarrow> session_context \<Rightarrow> int \<Rightarrow> bail_type \<Rightarrow> 64 word \<Rightarrow> cstr \<Rightarrow> cstr \<Rightarrow> cstr \<Rightarrow> cstr
     \<Rightarrow> cstr \<Rightarrow> cstr \<Rightarrow> int \<Rightarrow> 'd \<Rightarrow> bool \<times> int \<times> result_code \<times> 'd" where
  "recordBail pq now session arrest_id bail_type bail_amount_paise court_name magistrate_name
       valid_until surety_name surety_cnic surety_contact out_bail_id db =
     (if validateRank session (rank_value INSPECTOR) \<noteq> OK
      then (False, out_bail_id, RANK_INSUFFICIENT, db)
      else recordBail_authorized pq now session arrest_id bail_type bail_amount_paise court_name
             magistrate_name valid_until surety_name surety_cnic surety_contact out_bail_id db)"

definition revokeBail_authorized ::
  "'d backend \<Rightarrow> (string \<Rightarrow> string run) \<Rightarrow> session_context \<Rightarrow> int \<Rightarrow> cstr \<Rightarrow> result_code \<Rightarrow> 'd
     \<Rightarrow> (bool \<times> result_code \<times> 'd) run" where
  "revokeBail_authorized pq freed session bail_id revocation_reason out_code db =
     and_then (bail_validateState pq freed bail_id 0 out_code db) (\<lambda>(valid, arrest_id, out_code, db).
       if \<not> valid then Inr (False, out_code, db)
       else
         let (ok, db) = setSessionVars pq (sc_officerId session) (sc_belt_number session) db
         in if \<not> ok then Inr (False, DB_ERROR, db)
            else
              case pq db SQL_REVOKE_BAIL
                     [int_param (sc_officerId session), revocation_reason, int_param bail_id] of
                (CommandOk n, db') \<Rightarrow>
                  Inr (True, OK, snd (pq db' SQL_RESTORE_CUSTODY [int_param arrest_id]))
              | (res, db') \<Rightarrow> Inr (False, DB_ERROR, db'))"

definition revokeBail ::
  "'d backend \<Rightarrow> (string \<Rightarrow> string run) \<Rightarrow> session_context \<Rightarrow> int \<Rightarrow> cstr \<Rightarrow> result_code \<Rightarrow> 'd
     \<Rightarrow> (bool \<times> result_code \<times> 'd) run" where
  "revokeBail pq freed session bail_id revocation_reason out_code db =
     (if null_or_empty revocation_reason then Inr (False, INVALID_INPUT, db)
      else if validateRank session (rank_value INSPECTOR) \<noteq> OK
      then Inr (False, RANK_INSUFFICIENT, db)
      else revokeBail_authorized pq freed session bail_id revocation_reason out_code db)"

definition getBailByArrest ::
  "'d backend \<Rightarrow> int \<Rightarrow> bail_record \<Rightarrow> 'd \<Rightarrow> result_code \<times> bail_record \<times> 'd" where
  "getBailByArrest pq arrest_id out db =
     (case pq db SQL_GET_BY_ARREST [int_param arrest_id] of
        (TuplesOk rows, db') \<Rightarrow>
          (case rows of [] \<Rightarrow> (NOT_FOUND, out, db') | row # _ \<Rightarrow> (OK, bail_mapRow row, db'))
      | (res, db') \<Rightarrow> (DB_ERROR, out, db'))"

section \<open>Behaviour on the tables\<close>

definition bail_of :: "case_db \<Rightarrow> int \<Rightarrow> string option" where
  "bail_of db i = map_option br_bail_status (map_of (db_bails db) i)"

lemma arrestIsInCustody_live:
  assumes "no_failures db"
  shows "arrestIsInCustody run_sql i db
    = (custody_of db i = Some ''IN_CUSTODY'', db\<lparr>db_count := db_count db + 1\<rparr>)"
proof -
  have w: "wf_map (db_arrests db)" and f: "db_fails db = (\<lambda>n. False)"
    using assms by (simp_all add: no_failures_def wf_db_def)
  show ?thesis
    using selected_key [OF w, of i "\<lambda>k r. ar_custody_status r = ''IN_CUSTODY''" "\<lambda>k r. [''1'']"]
    by (cases "map_of (db_arrests db) i")
       (simp_all add: arrestIsInCustody_def run_sql_live f sql_arrest_in_custody_def int_param_def
          custody_of_def)
qed

text \<open>The conditions of a grant, in the order they are checked.\<close>

definition bail_decision ::
  "case_db \<Rightarrow> int \<Rightarrow> bail_type \<Rightarrow> 64 word \<Rightarrow> cstr \<Rightarrow> cstr \<Rightarrow> cstr \<Rightarrow> result_code" where
  "bail_decision db arrest_id t amount s_name s_cnic s_contact =
     (if custody_of db arrest_id \<noteq> Some ''IN_CUSTODY'' then INVALID_STATE
      else if amount = 0 then INVALID_INPUT
      else if t = SURETY \<and> (\<exists>p \<in> {s_name, s_cnic, s_contact}. null_or_empty p) then INVALID_INPUT
      else OK)"

text \<open>Behind the rank check, bail is granted exactly for an arrest in custody, with a positive amount
  and, for a surety bail, all three surety fields: then there is a new active bail for the arrest with
  that amount, the arrest is on bail, and every other bail and arrest is as before. Otherwise the code
  says what is missing and nothing changes.\<close>

theorem recordBail_authorized_effect:
  assumes "no_failures db"
  shows "\<exists>i db'. recordBail_authorized run_sql now session a t amount court judge valid
        s_name s_cnic s_contact out db
      = (bail_decision db a t amount s_name s_cnic s_contact = OK, i,
         bail_decision db a t amount s_name s_cnic s_contact, db')
    \<and> (if bail_decision db a t amount s_name s_cnic s_contact = OK
       then bail_of db i = None \<and> bail_of db' = (bail_of db)(i \<mapsto> ''ACTIVE'')
          \<and> map_option br_arrest_id (map_of (db_bails db') i) = Some a
          \<and> map_option br_bail_amount (map_of (db_bails db') i) = Some (uint amount)
          \<and> custody_of db' = (custody_of db)(a \<mapsto> ''BAIL_GRANTED'')
       else i = out \<and> bail_of db' = bail_of db \<and> custody_of db' = custody_of db)"
proof (cases "bail_decision db a t amount s_name s_cnic s_contact = OK")
  case False
  have "recordBail_authorized run_sql now session a t amount court judge valid
        s_name s_cnic s_contact out db
      = (False, out, bail_decision db a t amount s_name s_cnic s_contact,
         db\<lparr>db_count := db_count db + 1\<rparr>)"
    using False by (auto simp: recordBail_authorized_def arrestIsInCustody_live [OF assms]
        bail_decision_def validateBailAmount_def split: if_splits)
  with False show ?thesis by (simp add: bail_of_def custody_of_def fun_eq_iff)
next
  case True
  then have c: "custody_of db a = Some ''IN_CUSTODY''" and amt: "amount \<noteq> 0"
    and sur: "\<not> (t = SURETY \<and> (null_or_empty s_name \<or> null_or_empty s_cnic \<or> null_or_empty s_contact))"
    by (auto simp: bail_decision_def split: if_splits)
  have f: "db_fails db = (\<lambda>n. False)" using assms by (simp add: no_failures_def)
  let ?i = "next_id (db_bails db)"
  define row where "row = new_bail_row [Some (bail_number now session), int_param a, Some (bailTypeStr t),
    Some (show_int (uint amount)), court, judge, Some (or_empty valid), Some (or_empty s_name),
    Some (or_empty s_cnic), Some (or_empty s_contact), int_param (sc_officerId session)] (db_now db)"
  define db1 where "db1 = db\<lparr>db_count := db_count db + 1 + 1 + 1, db_bails := db_bails db @ [(?i, row)]\<rparr>"
  define db' where "db' = snd (run_sql db1 SQL_UPDATE_ARREST_BAIL_GRANTED [int_param a])"
  have rec: "recordBail_authorized run_sql now session a t amount court judge valid
        s_name s_cnic s_contact out db = (True, ?i, OK, db')"
    using c amt sur f
    by (auto simp: recordBail_authorized_def arrestIsInCustody_live [OF assms] validateBailAmount_def
        setSessionVars_live run_sql_live [OF f] sql_insert_bail_def Let_def text_simps db'_def db1_def
        row_def run_sql_live)
  have f1: "db_fails db1 = (\<lambda>n. False)" using f by (simp add: db1_def)
  have b: "map_of (db_bails db') = (map_of (db_bails db))(?i \<mapsto> row)"
    unfolding db'_def run_sql_live [OF f1]
    by (simp add: sql_update_arrest_bail_granted_def on_arrests_def db1_def map_of_insert
        del: map_of_append)
  have "custody_of db' = (custody_of db)(a \<mapsto> ''BAIL_GRANTED'')"
  proof (rule ext)
    fix j
    show "custody_of db' j = ((custody_of db)(a \<mapsto> ''BAIL_GRANTED'')) j"
      unfolding db'_def run_sql_live [OF f1] using c
      by (cases "j = a"; cases "map_of (db_arrests db) j")
         (auto simp: sql_update_arrest_bail_granted_def on_arrests_def db1_def custody_of_def
            map_of_update_where int_param_def set_custody_def)
  qed
  moreover have "bail_of db ?i = None"
    using next_id_fresh [of "db_bails db"] by (simp add: bail_of_def map_of_eq_None_iff)
  moreover have "bail_of db' = (bail_of db)(?i \<mapsto> ''ACTIVE'')"
    by (simp add: bail_of_def b fun_eq_iff row_def new_bail_row_def)
  moreover have "br_arrest_id row = a" "br_bail_amount row = uint amount"
    by (simp_all add: row_def new_bail_row_def int_param_def)
  ultimately show ?thesis using True rec b by auto
qed

theorem recordBail_authorized_effect_witness:
  "\<exists>i db'. recordBail_authorized run_sql 300 demo_officer 1 REGULAR 5000000 (Some ''Sessions Court'')
      (Some ''Khan'') None None None None 0 demo_db = (True, i, OK, db')
    \<and> custody_of db' 1 = Some ''BAIL_GRANTED''"
proof -
  have "bail_decision demo_db 1 REGULAR 5000000 None None None = OK"
    by (simp add: bail_decision_def demo_custody)
  with recordBail_authorized_effect [OF demo_db_live, of 300 demo_officer 1 REGULAR 5000000
      "Some ''Sessions Court''" "Some ''Khan''" None None None None 0]
  show ?thesis by fastforce
qed

lemma bail_validateState_live:
  assumes "no_failures db"
  shows "bail_validateState run_sql Inr i 0 rc db
    = (case map_of (db_bails db) i of None \<Rightarrow> Inr (False, 0, NOT_FOUND, db\<lparr>db_count := db_count db + 1\<rparr>)
       | Some r \<Rightarrow> Inr (br_bail_status r = ''ACTIVE'', br_arrest_id r,
                       if br_bail_status r = ''ACTIVE'' then rc else INVALID_STATE,
                       db\<lparr>db_count := db_count db + 1\<rparr>))"
proof -
  have w: "wf_map (db_bails db)" and f: "db_fails db = (\<lambda>n. False)"
    using assms by (simp_all add: no_failures_def wf_db_def)
  show ?thesis
    using selected_key [OF w, of i "\<lambda>k r. True" "\<lambda>k r. [br_bail_status r, show_int (br_arrest_id r)]"]
    by (cases "map_of (db_bails db) i")
       (simp_all add: bail_validateState_def run_sql_live f sql_get_bail_status_def int_param_def
          text_simps)
qed

text \<open>Behind the rank check, revoking an active bail puts its arrest back in custody whatever its
  state is by then: also an arrest that was released or has escaped since, which the custody state
  machine calls terminal.\<close>

theorem revokeBail_returns_any_arrest:
  assumes "no_failures db" and "map_of (db_bails db) i = Some r" and "br_bail_status r = ''ACTIVE''"
    and "custody_of db (br_arrest_id r) \<noteq> None"
  shows "\<exists>db'. revokeBail_authorized run_sql Inr session i reason rc db = Inr (True, OK, db')
    \<and> bail_of db' = (bail_of db)(i \<mapsto> ''REVOKED'')
    \<and> custody_of db' = (custody_of db)(br_arrest_id r \<mapsto> ''IN_CUSTODY'')"
proof -
  have f: "db_fails db = (\<lambda>n. False)" using assms(1) by (simp add: no_failures_def)
  define db1 where "db1 = snd (run_sql (db\<lparr>db_count := db_count db + 1 + 1\<rparr>) SQL_REVOKE_BAIL
    [int_param (sc_officerId session), reason, int_param i])"
  define db2 where "db2 = snd (run_sql db1 SQL_RESTORE_CUSTODY [int_param (br_arrest_id r)])"
  have rev: "revokeBail_authorized run_sql Inr session i reason rc db = Inr (True, OK, db2)"
    using assms(2,3) f
    by (simp add: revokeBail_authorized_def bail_validateState_live [OF assms(1)] setSessionVars_live
        run_sql_live sql_revoke_bail_def on_bails_def db1_def db2_def)
  have db1: "db_fails db1 = (\<lambda>n. False)" "db_arrests db1 = db_arrests db"
    "db_bails db1 = update_where (\<lambda>k r. Some k = Some i) (\<lambda>r. r\<lparr>br_bail_status := ''REVOKED'',
       br_revoked_by := Some (sc_officerId session), br_revocation_reason := reason,
       br_revoked_at := Some (db_now db), br_updated_at := db_now db\<rparr>) (db_bails db)"
    using f by (simp_all add: db1_def run_sql_live sql_revoke_bail_def on_bails_def int_param_def)
  have "db_arrests db2 = update_where (\<lambda>k q. Some k = Some (br_arrest_id r))
      (\<lambda>r. set_custody ''IN_CUSTODY'' (db_now db1) r) (db_arrests db1)" "db_bails db2 = db_bails db1"
    using db1(1) by (simp_all add: db2_def run_sql_live sql_restore_custody_def on_arrests_def
        int_param_def)
  moreover have "custody_of db1 = custody_of db" using db1(2) by (simp add: custody_of_def fun_eq_iff)
  with custody_of_update [OF calculation(1), of "''IN_CUSTODY''"] assms(4)
  have "custody_of db2 = (custody_of db)(br_arrest_id r \<mapsto> ''IN_CUSTODY'')"
    by (simp add: set_custody_def)
  moreover have "bail_of db2 = (bail_of db)(i \<mapsto> ''REVOKED'')"
    by (rule ext) (use assms(2) db1(3) calculation(2) in
      \<open>auto simp: bail_of_def map_of_update_where option.map_comp comp_def cong: option.map_cong\<close>)
  ultimately show ?thesis using rev by blast
qed

definition demo_bail_db :: case_db where
  "demo_bail_db = demo_db\<lparr>db_bails := [(4, new_bail_row [Some ''BA-1-7'', Some ''2'', Some ''REGULAR'',
     Some ''5000'', None, None, None, None, None, None, Some ''7''] 150)]\<rparr>"

theorem revokeBail_returns_any_arrest_witness:
  "custody_of demo_bail_db 2 = Some ''RELEASED''
    \<and> (\<exists>db'. revokeBail_authorized run_sql Inr demo_officer 4 (Some ''absconded'') OK demo_bail_db
        = Inr (True, OK, db') \<and> custody_of db' 2 = Some ''IN_CUSTODY'')"
proof -
  have l: "no_failures demo_bail_db"
    using demo_db_live by (simp add: no_failures_def wf_db_def demo_bail_db_def wf_map_def)
  have a: "sql_int0 (Some ''2'') = 2" by code_simp
  have c: "custody_of demo_bail_db 2 = Some ''RELEASED''"
    using demo_custody by (simp add: custody_of_def demo_bail_db_def)
  define r where "r = the (map_of (db_bails demo_bail_db) 4)"
  have r: "map_of (db_bails demo_bail_db) 4 = Some r" "br_bail_status r = ''ACTIVE''" "br_arrest_id r = 2"
    using a by (simp_all add: demo_bail_db_def r_def new_bail_row_def)
  have "custody_of demo_bail_db (br_arrest_id r) \<noteq> None" using c r(3) by simp
  from revokeBail_returns_any_arrest [OF l r(1,2) this, of demo_officer "Some ''absconded''" OK] c r(3)
  show ?thesis by auto
qed

end
