(* ===== verification/Enforcement.thy ===== *)
theory Enforcement
  imports Bail
begin

text \<open>
  The three enforcement managers together: any sequence of their operations, by any sessions and with
  any statements failing, as a transition system over the tables. The custody states and the warrant
  states are abstracted to maps, and the runs of the managers refine runs of two small machines.
\<close>

section \<open>What a statement can change\<close>

lemma exec_sql_custody:
  assumes "exec_sql stmt ps db = (res, db')"
    and "stmt \<notin> {SQL_INSERT_ARREST, SQL_UPDATE_STATUS, SQL_UPDATE_ARREST_BAIL_GRANTED, SQL_RESTORE_CUSTODY}"
  shows "custody_of db' = custody_of db"
proof (cases "stmt = SQL_SET_DISPUTED")
  case True
  show ?thesis
  proof (rule ext)
    fix j
    from assms True show "custody_of db' j = custody_of db j"
      by (cases "map_of (db_arrests db) j")
         (auto simp: sql_set_disputed_def on_arrests_def custody_of_def map_of_update_where)
  qed
next
  case False
  with assms have "db_arrests db' = db_arrests db"
    by (cases stmt) (auto simp: sql_defs on_warrants_def on_bails_def Let_def split: pg_result.splits)
  then show ?thesis by (simp add: custody_of_def fun_eq_iff)
qed

lemma exec_sql_warrants:
  assumes "exec_sql stmt ps db = (res, db')"
    and "stmt \<notin> {SQL_EXECUTE_WARRANT_ON_ARREST, SQL_INSERT, SQL_EXECUTE, SQL_CANCEL}"
  shows "warrant_of db' = warrant_of db"
proof -
  from assms have "db_warrants db' = db_warrants db"
    by (cases stmt) (auto simp: sql_defs on_arrests_def on_bails_def Let_def split: pg_result.splits)
  then show ?thesis by (simp add: warrant_of_def fun_eq_iff)
qed

lemma exec_sql_wf:
  assumes "exec_sql stmt ps db = (res, db')" and "wf_db db"
  shows "wf_db db'"
  using assms
  by (cases stmt) (auto simp: sql_defs on_arrests_def on_warrants_def on_bails_def wf_db_def Let_def
      wf_insert split: pg_result.splits)

lemma run_sql_keeps:
  assumes "run_sql db stmt ps = (res, db')"
  shows "wf_db db \<Longrightarrow> wf_db db'"
    and "stmt \<notin> {SQL_INSERT_ARREST, SQL_UPDATE_STATUS, SQL_UPDATE_ARREST_BAIL_GRANTED, SQL_RESTORE_CUSTODY}
      \<Longrightarrow> custody_of db' = custody_of db"
    and "stmt \<notin> {SQL_EXECUTE_WARRANT_ON_ARREST, SQL_INSERT, SQL_EXECUTE, SQL_CANCEL}
      \<Longrightarrow> warrant_of db' = warrant_of db"
  using assms
  by (auto elim!: run_sql_cases dest: exec_sql_wf exec_sql_custody exec_sql_warrants)

text \<open>What the operations look at: well-formedness, custody and warrant states.\<close>

definition same_states :: "case_db \<Rightarrow> case_db \<Rightarrow> bool" where
  "same_states db db' \<longleftrightarrow> (wf_db db \<longrightarrow> wf_db db') \<and> custody_of db' = custody_of db
     \<and> warrant_of db' = warrant_of db"

lemma same_states_refl [simp]: "same_states db db"
  by (simp add: same_states_def)

lemma same_states_trans [trans]: "same_states a b \<Longrightarrow> same_states b c \<Longrightarrow> same_states a c"
  by (simp add: same_states_def)

lemma run_sql_same:
  "run_sql db stmt ps = (res, db') \<Longrightarrow>
   stmt \<in> {SQL_GET_STATUS, SQL_SET_DISPUTED, SQL_PERSON_EXISTS, SQL_SELECT_BY_CASE, SQL_SET_SESSION,
     SQL_GET_BAIL_STATUS, SQL_GET_BY_ARREST, SQL_ARREST_IN_CUSTODY, SQL_BY_CASE, SQL_ACTIVE_BY_STATION,
     SQL_GET_STATUS_EXPIRY, SQL_CASE_STATUS} \<Longrightarrow> same_states db db'"
  using run_sql_keeps [of db stmt ps res db'] by (auto simp: same_states_def)

lemma session_same: "setSessionVars run_sql officer belt db = (ok, db') \<Longrightarrow> same_states db db'"
  by (auto simp: setSessionVars_def dest: run_sql_same split: prod.splits pg_result.splits)

lemma person_same: "personExists run_sql cnic db = (ok, db') \<Longrightarrow> same_states db db'"
  by (auto simp: personExists_def dest: run_sql_same split: prod.splits pg_result.splits)

section \<open>The abstract machines\<close>

inductive custody_step :: "(int \<Rightarrow> string option) \<Rightarrow> (int \<Rightarrow> string option) \<Rightarrow> bool" where
  book: "c i = None \<Longrightarrow> custody_step c (c(i \<mapsto> ''IN_CUSTODY''))"
| move: "c i = Some s \<Longrightarrow> isLegalTransition s t \<Longrightarrow> custody_step c (c(i \<mapsto> t))"

inductive warrant_step :: "(int \<Rightarrow> string option) \<Rightarrow> (int \<Rightarrow> string option) \<Rightarrow> bool" where
  issue: "w i = None \<Longrightarrow> warrant_step w (w(i \<mapsto> ''ISSUED''))"
| serve: "w i = Some ''ISSUED'' \<Longrightarrow> t \<in> {''EXECUTED'', ''CANCELLED''} \<Longrightarrow> warrant_step w (w(i \<mapsto> t))"

lemma custody_terminal:
  "custody_step\<^sup>*\<^sup>* c d \<Longrightarrow> c i = Some s \<Longrightarrow> s \<in> {''RELEASED'', ''ESCAPED''} \<Longrightarrow> d i = Some s"
  by (induction rule: rtranclp_induct)
     (auto elim!: custody_step.cases simp: isLegalTransition_iff split: if_splits)

lemma warrant_terminal:
  "warrant_step\<^sup>*\<^sup>* c d \<Longrightarrow> c i = Some s \<Longrightarrow> s \<noteq> ''ISSUED'' \<Longrightarrow> d i = Some s"
  by (induction rule: rtranclp_induct) (auto elim!: warrant_step.cases split: if_splits)

lemma custody_bailed:
  "custody_step\<^sup>*\<^sup>* c d \<Longrightarrow> c i = Some ''BAIL_GRANTED'' \<Longrightarrow> d i \<in> {Some ''BAIL_GRANTED'', Some ''RELEASED''}"
  by (induction rule: rtranclp_induct)
     (auto elim!: custody_step.cases simp: isLegalTransition_iff split: if_splits)

section \<open>The operations as steps\<close>

text \<open>\<open>freed\<close> is what the read of a text that \<open>PQclear\<close> has freed gives; an operation that comes to its end has got
  some text from it. \<open>reads_old\<close>: what it gets, if anything, is the old text, the bytes not having been reused.\<close>

definition reads_old :: "(string \<Rightarrow> string run) \<Rightarrow> bool" where
  "reads_old freed \<longleftrightarrow> (\<forall>s t. freed s = Inr t \<longrightarrow> t = s)"

inductive enforcement_step :: "(string \<Rightarrow> string run) \<Rightarrow> case_db \<Rightarrow> case_db \<Rightarrow> bool" for freed where
  arrest: "recordArrest run_sql now session case_id cnic loc w out db = (ok, i, rc, db') \<Longrightarrow>
    enforcement_step freed db db'"
| custody: "updateCustodyStatus run_sql freed session i st reason rc db = Inr (ok, rc', db') \<Longrightarrow>
    enforcement_step freed db db'"
| dispute: "markAsDisputed run_sql session i reason db = (ok, rc, db') \<Longrightarrow> enforcement_step freed db db'"
| arrests: "getArrestsByCase run_sql case_id out db = (rc, out', db') \<Longrightarrow> enforcement_step freed db db'"
| request: "requestWarrant run_sql now session case_id cnic wt judge court valid addr out db
      = (ok, i, rc, db') \<Longrightarrow> enforcement_step freed db db'"
| execute: "executeWarrant run_sql now session i rc db = (ok, rc', db') \<Longrightarrow> enforcement_step freed db db'"
| cancel: "cancelWarrant run_sql now session i reason rc db = (ok, rc', db') \<Longrightarrow> enforcement_step freed db db'"
| warrants: "getWarrantsByCase run_sql case_id outw db = (rc, outw', db') \<Longrightarrow> enforcement_step freed db db'"
| active: "getActiveWarrants run_sql station outw db = (rc, outw', db') \<Longrightarrow> enforcement_step freed db db'"
| bail: "recordBail run_sql now session i bt amount court judge valid sn sc sk out db
      = (ok, b, rc, db') \<Longrightarrow> enforcement_step freed db db'"
| revoke: "revokeBail run_sql freed session b reason rc db = Inr (ok, rc', db') \<Longrightarrow> enforcement_step freed db db'"
| bails: "getBailByArrest run_sql i outb db = (rc, outb', db') \<Longrightarrow> enforcement_step freed db db'"
| clock: "enforcement_step freed db (db\<lparr>db_now := t\<rparr>)"

text \<open>The same with the rank check out of the way, as it would be for a rank it accepts.\<close>

inductive authorized_step :: "(string \<Rightarrow> string run) \<Rightarrow> case_db \<Rightarrow> case_db \<Rightarrow> bool" for freed where
  coded: "enforcement_step freed db db' \<Longrightarrow> authorized_step freed db db'"
| request: "requestWarrant_authorized run_sql now session case_id cnic wt judge court valid addr out db
      = (ok, i, rc, db') \<Longrightarrow> authorized_step freed db db'"
| execute: "executeWarrant_authorized run_sql now session i rc db = (ok, rc', db') \<Longrightarrow>
    authorized_step freed db db'"
| cancel: "cancelWarrant_authorized run_sql now session i reason rc db = (ok, rc', db') \<Longrightarrow>
    authorized_step freed db db'"
| bail: "recordBail_authorized run_sql now session i bt amount court judge valid sn sc sk out db
      = (ok, b, rc, db') \<Longrightarrow> authorized_step freed db db'"
| revoke: "revokeBail_authorized run_sql freed session b reason rc db = Inr (ok, rc', db') \<Longrightarrow>
    authorized_step freed db db'"

section \<open>The statements that write\<close>

definition custody_ok :: "case_db \<Rightarrow> case_db \<Rightarrow> bool" where
  "custody_ok db db' \<longleftrightarrow> (wf_db db \<longrightarrow> wf_db db') \<and> custody_step\<^sup>=\<^sup>= (custody_of db) (custody_of db')"

definition warrant_ok :: "case_db \<Rightarrow> case_db \<Rightarrow> bool" where
  "warrant_ok db db' \<longleftrightarrow> (wf_db db \<longrightarrow> wf_db db') \<and> warrant_step\<^sup>=\<^sup>= (warrant_of db) (warrant_of db')"

lemma same_ok: "same_states db db' \<Longrightarrow> custody_ok db db'" "same_states db db' \<Longrightarrow> warrant_ok db db'"
  by (simp_all add: same_states_def custody_ok_def warrant_ok_def)

lemma ok_trans:
  "same_states db db1 \<Longrightarrow> custody_ok db1 db' \<Longrightarrow> custody_ok db db'"
  "same_states db db1 \<Longrightarrow> warrant_ok db1 db' \<Longrightarrow> warrant_ok db db'"
  "custody_ok db db1 \<Longrightarrow> same_states db1 db' \<Longrightarrow> custody_ok db db'"
  by (auto simp: same_states_def custody_ok_def warrant_ok_def)

lemma insert_arrest_ok:
  assumes "run_sql db SQL_INSERT_ARREST ps = (res, db')"
  shows "custody_ok db db'" "warrant_ok db db'"
proof -
  from assms show "custody_ok db db'"
  proof (cases rule: run_sql_cases)
    case 2
    let ?i = "next_id (db_arrests db)"
    have "custody_of db' = (custody_of db)(?i \<mapsto> ''IN_CUSTODY'')"
      using 2(2) by (auto simp: sql_insert_arrest_def Let_def custody_of_def map_of_insert fun_eq_iff
          new_arrest_row_def simp del: map_of_append)
    moreover have "custody_of db ?i = None"
      using next_id_fresh [of "db_arrests db"] by (simp add: custody_of_def map_of_eq_None_iff)
    ultimately show ?thesis
      using run_sql_keeps(1) [OF assms] by (auto simp: custody_ok_def intro: custody_step.book)
  qed (simp add: custody_ok_def)
  show "warrant_ok db db'"
    using run_sql_keeps(1,3) [OF assms] by (simp add: warrant_ok_def)
qed

lemma insert_warrant_ok:
  assumes "run_sql db SQL_INSERT ps = (res, db')"
  shows "warrant_ok db db'"
  using assms
proof (cases rule: run_sql_cases)
  case 2
  let ?i = "next_id (db_warrants db)"
  have "warrant_of db' = (warrant_of db)(?i \<mapsto> ''ISSUED'')"
    using 2(2) by (auto simp: sql_insert_def Let_def warrant_of_def map_of_insert fun_eq_iff
        new_warrant_row_def simp del: map_of_append)
  moreover have "warrant_of db ?i = None"
    using next_id_fresh [of "db_warrants db"] by (simp add: warrant_of_def map_of_eq_None_iff)
  ultimately show ?thesis
    using run_sql_keeps(1) [OF assms] by (auto simp: warrant_ok_def intro: warrant_step.issue)
qed (simp add: warrant_ok_def)

lemma serve_ok:
  assumes "run_sql db stmt ps = (res, db')" and "warrant_of db i = Some ''ISSUED''"
    and "stmt = SQL_EXECUTE \<and> ps ! 1 = int_param i \<or> stmt = SQL_CANCEL \<and> ps ! 2 = int_param i"
  shows "warrant_ok db db'"
  using assms(1)
proof (cases rule: run_sql_cases)
  case 2
  have "warrant_of db' = (warrant_of db)(i \<mapsto> (if stmt = SQL_EXECUTE then ''EXECUTED'' else ''CANCELLED''))"
  proof (rule ext)
    fix j
    show "warrant_of db' j
        = ((warrant_of db)(i \<mapsto> (if stmt = SQL_EXECUTE then ''EXECUTED'' else ''CANCELLED''))) j"
      using 2(2) assms(2,3) by (cases "map_of (db_warrants db) j")
        (auto simp: sql_execute_def sql_cancel_def on_warrants_def int_param_def warrant_of_def
           map_of_update_where)
  qed
  with assms(2) run_sql_keeps(1) [OF assms(1)] show ?thesis
    by (auto simp: warrant_ok_def intro!: warrant_step.serve)
qed (simp add: warrant_ok_def)

lemma serve_on_arrest_ok:
  assumes "run_sql db SQL_EXECUTE_WARRANT_ON_ARREST [p, int_param w] = (res, db')"
  shows "warrant_ok db db'" "custody_of db' = custody_of db" "wf_db db \<Longrightarrow> wf_db db'"
proof -
  show keeps: "custody_of db' = custody_of db" "wf_db db \<Longrightarrow> wf_db db'"
    using run_sql_keeps [OF assms] by auto
  from assms show "warrant_ok db db'"
  proof (cases rule: run_sql_cases)
    case 2
    have eq: "warrant_of db' j = (if j = w \<and> warrant_of db j = Some ''ISSUED''
        then Some ''EXECUTED'' else warrant_of db j)" for j
      using 2(2) by (cases "map_of (db_warrants db) j")
        (auto simp: sql_execute_warrant_on_arrest_def on_warrants_def int_param_def warrant_of_def
           map_of_update_where)
    show ?thesis
    proof (cases "warrant_of db w = Some ''ISSUED''")
      case True
      then have "warrant_of db' = (warrant_of db)(w \<mapsto> ''EXECUTED'')" by (auto simp: eq fun_eq_iff)
      with True keeps(2) show ?thesis by (auto simp: warrant_ok_def intro!: warrant_step.serve)
    next
      case False
      then have "warrant_of db' = warrant_of db" by (auto simp: eq fun_eq_iff)
      with keeps(2) show ?thesis by (simp add: warrant_ok_def)
    qed
  qed (simp add: warrant_ok_def)
qed

section \<open>The operations\<close>

lemma recordArrest_ok:
  assumes "recordArrest run_sql now session case_id cnic loc w out db = (ok, i, rc, db')"
  shows "custody_ok db db'" and "warrant_ok db db'"
proof -
  obtain ex db1 where p: "personExists run_sql cnic db = (ex, db1)" by fastforce
  obtain sok db2 where s:
    "setSessionVars run_sql (sc_officerId session) (sc_belt_number session) db1 = (sok, db2)" by fastforce
  define ps where "ps = [Some (arrest_number now session), cnic, int_param case_id,
    if 0 < w then int_param w else None, int_param (sc_officerId session), loc]"
  obtain res db3 where q: "run_sql db2 SQL_INSERT_ARREST ps = (res, db3)" by fastforce
  define db4 where "db4 = mark_warrant_executed run_sql session w db3"
  have db': "db' = db1 \<or> db' = db2 \<or> db' = db3 \<or> db' = db4"
    using assms p s q
    by (auto simp: recordArrest_def Let_def ps_def db4_def
        split: if_splits pg_result.splits list.splits)
  have same: "same_states db db1" "same_states db db2"
    using person_same [OF p] session_same [OF s] same_states_trans by blast+
  have ins: "custody_ok db db3"
    using ok_trans(1) [OF same(2) insert_arrest_ok(1) [OF q]] .
  have w3: "warrant_of db3 = warrant_of db" "wf_db db \<longrightarrow> wf_db db3"
    using run_sql_keeps(1,3) [OF q] same(2) by (auto simp: same_states_def)
  have w4: "warrant_ok db3 db4 \<and> custody_of db4 = custody_of db3 \<and> (wf_db db3 \<longrightarrow> wf_db db4)"
  proof (cases "0 < w")
    case True
    obtain res' where
      "run_sql db3 SQL_EXECUTE_WARRANT_ON_ARREST [int_param (sc_officerId session), int_param w] = (res', db4)"
      using True unfolding db4_def mark_warrant_executed_def by (metis prod.collapse)
    from serve_on_arrest_ok [OF this] show ?thesis by blast
  qed (simp add: db4_def mark_warrant_executed_def warrant_ok_def)
  show "custody_ok db db'"
    using db' same_ok(1) [OF same(1)] same_ok(1) [OF same(2)] ins w4 by (auto simp: custody_ok_def)
  show "warrant_ok db db'"
    using db' same_ok(2) [OF same(1)] same_ok(2) [OF same(2)] w3 w4 by (auto simp: warrant_ok_def)
qed

lemma update_custody_ok:
  assumes "updateCustodyStatus run_sql Inr session i st reason rc db = Inr (ok, rc', db')" and "wf_db db"
  shows "custody_ok db db'"
proof -
  note c = custody_db.update_cases [OF assms(2,1)]
  show ?thesis
  proof (cases ok)
    case True
    with c show ?thesis by (auto simp: custody_ok_def intro!: custody_step.move)
  next
    case False
    with c show ?thesis by (simp add: custody_ok_def)
  qed
qed

lemma validateTransition_same:
  assumes "validateTransition run_sql freed i target cur rc db = Inr (legal, cur', rc', db')"
  shows "same_states db db'"
proof -
  obtain res db1 where q: "run_sql db SQL_GET_STATUS [int_param i] = (res, db1)" by fastforce
  have "db' = db1"
    using assms q
    by (auto simp: validateTransition_def Let_def and_then_Inr_iff split: pg_result.splits list.splits if_splits)
  with run_sql_same [OF q] show ?thesis by simp
qed

text \<open>With \<open>reads_old\<close> a run that ends is one that reads the text as it was.\<close>

lemma validateTransition_old:
  assumes "validateTransition run_sql freed i target cur rc db = Inr r" "reads_old freed"
  shows "validateTransition run_sql Inr i target cur rc db = Inr r"
proof -
  have old: "freed s = Inr t \<Longrightarrow> t = s" for s t using assms(2) by (simp add: reads_old_def)
  from assms(1) show ?thesis
    by (auto simp: validateTransition_def Let_def and_then_Inr_iff dest!: old split: prod.splits pg_result.splits list.splits)
qed

lemma updateCustodyStatus_old:
  assumes "updateCustodyStatus run_sql freed session i st reason rc db = Inr r" "reads_old freed"
  shows "updateCustodyStatus run_sql Inr session i st reason rc db = Inr r"
proof (cases "(st = RELEASED \<or> st = ESCAPED) \<and> null_or_empty reason")
  case True
  with assms(1) show ?thesis by (simp add: updateCustodyStatus_def)
next
  case False
  with assms(1) obtain v where v: "validateTransition run_sql freed i (custodyStr st) [] rc db = Inr v"
    by (auto simp: updateCustodyStatus_def Let_def and_then_Inr_iff)
  with validateTransition_old [OF v assms(2)] assms(1) False show ?thesis
    by (auto simp: updateCustodyStatus_def Let_def)
qed

lemma update_custody_warrants:
  assumes "updateCustodyStatus run_sql freed session i st reason rc db = Inr (ok, rc', db')"
  shows "warrant_ok db db'"
proof (cases "(st = RELEASED \<or> st = ESCAPED) \<and> null_or_empty reason")
  case True
  with assms show ?thesis by (simp add: updateCustodyStatus_def warrant_ok_def)
next
  case False
  with assms obtain legal cur rc1 db1
    where v: "validateTransition run_sql freed i (custodyStr st) [] rc db = Inr (legal, cur, rc1, db1)"
    by (auto simp: updateCustodyStatus_def Let_def and_then_Inr_iff)
  obtain sok db2 where s:
    "setSessionVars run_sql (sc_officerId session) (sc_belt_number session) db1 = (sok, db2)" by fastforce
  obtain res db3 where q: "run_sql db2 SQL_UPDATE_STATUS
      [Some (custodyStr st), Some (or_empty reason), int_param i] = (res, db3)" by fastforce
  have db': "db' = db1 \<or> db' = db2 \<or> db' = db3"
    using assms False v s q
    by (auto simp: updateCustodyStatus_def Let_def split: if_splits pg_result.splits)
  note same = validateTransition_same [OF v] session_same [OF s]
  from run_sql_keeps(1,3) [OF q] have "warrant_ok db2 db3" by (simp add: warrant_ok_def)
  with db' same show ?thesis by (auto simp: warrant_ok_def same_states_def)
qed

lemma dispute_same:
  assumes "markAsDisputed run_sql session i reason db = (ok, rc, db')"
  shows "same_states db db'"
proof -
  obtain sok db1 where s:
    "setSessionVars run_sql (sc_officerId session) (sc_belt_number session) db = (sok, db1)" by fastforce
  obtain res db2 where q: "run_sql db1 SQL_SET_DISPUTED [reason, int_param i] = (res, db2)" by fastforce
  have "db' = db \<or> db' = db1 \<or> db' = db2"
    using assms s q by (auto simp: markAsDisputed_def Let_def split: if_splits pg_result.splits)
  with session_same [OF s] run_sql_same [OF q] same_states_trans show ?thesis by auto
qed

lemma enforcement_step_ok:
  assumes "enforcement_step freed db db'"
  shows "wf_db db \<Longrightarrow> reads_old freed \<Longrightarrow> custody_ok db db'" and "warrant_ok db db'"
proof -
  have one: "same_states db db' \<Longrightarrow> (wf_db db \<and> reads_old freed \<longrightarrow> custody_ok db db') \<and> warrant_ok db db'" for db db'
    by (simp add: same_ok)
  from assms have "(wf_db db \<and> reads_old freed \<longrightarrow> custody_ok db db') \<and> warrant_ok db db'"
  proof cases
    case arrest
    show ?thesis using recordArrest_ok [OF arrest] by simp
  next
    case custody
    show ?thesis
      using update_custody_ok [OF updateCustodyStatus_old [OF custody]] update_custody_warrants [OF custody] by simp
  next
    case dispute
    show ?thesis using one [OF dispute_same [OF dispute]] .
  next
    case arrests
    then show ?thesis
      by (intro one) (auto simp: getArrestsByCase_def split: prod.splits pg_result.splits if_splits
          dest: run_sql_same)
  next
    case warrants
    then show ?thesis
      by (intro one) (auto simp: getWarrantsByCase_def split: prod.splits pg_result.splits if_splits
          dest: run_sql_same)
  next
    case active
    then show ?thesis
      by (intro one) (auto simp: getActiveWarrants_def split: prod.splits pg_result.splits if_splits
          dest: run_sql_same)
  next
    case bails
    then show ?thesis
      by (intro one) (auto simp: getBailByArrest_def split: prod.splits pg_result.splits list.splits
          dest: run_sql_same)
  next
    case clock
    then show ?thesis
      by (intro one) (simp add: same_states_def custody_of_def warrant_of_def wf_db_def fun_eq_iff)
  qed (auto simp: requestWarrant_def executeWarrant_def cancelWarrant_def recordBail_def revokeBail_def
        split: if_splits intro!: one)
  then show "wf_db db \<Longrightarrow> reads_old freed \<Longrightarrow> custody_ok db db'" "warrant_ok db db'" by simp_all
qed

interpretation custody_run: simulation wf_db "\<lambda>db db'. \<exists>freed. reads_old freed \<and> enforcement_step freed db db'"
    custody_of custody_step
  by unfold_locales (use enforcement_step_ok(1) in \<open>auto simp: custody_ok_def\<close>)

lemma validateState_same:
  assumes "warrant_validateState run_sql now i ''ISSUED'' chk rc db = (valid, rc', db')" and "wf_db db"
  shows "same_states db db'" "valid \<Longrightarrow> warrant_of db i = Some ''ISSUED''"
proof -
  obtain res db1 where q: "run_sql db SQL_GET_STATUS_EXPIRY [int_param i] = (res, db1)" by fastforce
  have "db' = db1"
    using assms q by (auto simp: warrant_validateState_def Let_def split: pg_result.splits list.splits if_splits)
  with run_sql_same [OF q] show "same_states db db'" by simp
  assume valid
  from q show "warrant_of db i = Some ''ISSUED''"
  proof (cases rule: run_sql_cases)
    case 1
    with \<open>valid\<close> assms(1) q show ?thesis by (simp add: warrant_validateState_def)
  next
    case 2
    have w: "wf_map (db_warrants (db\<lparr>db_count := Suc (db_count db)\<rparr>))" using assms(2) by (simp add: wf_db_def)
    from 2 warrant_query [OF w, of i] have res: "res = TuplesOk (case map_of (db_warrants db) i of None \<Rightarrow> []
        | Some r \<Rightarrow> [[wr_warrant_status r, cell (wr_valid_until r)]])" by simp
    with \<open>valid\<close> assms(1) q show ?thesis
      by (cases "map_of (db_warrants db) i")
         (auto simp: warrant_validateState_def warrant_of_def Let_def split: if_splits)
  qed
qed

lemma served_ok:
  assumes v: "warrant_validateState run_sql now i ''ISSUED'' chk rc db = (True, rc1, db1)" and "wf_db db"
    and s: "setSessionVars run_sql officer belt db1 = (ok, db2)" and q: "run_sql db2 stmt ps = (res, db3)"
    and "stmt = SQL_EXECUTE \<and> ps ! 1 = int_param i \<or> stmt = SQL_CANCEL \<and> ps ! 2 = int_param i"
  shows "warrant_ok db db2" "warrant_ok db db3"
proof -
  have same: "same_states db db2"
    using validateState_same(1) [OF v assms(2)] session_same [OF s] same_states_trans by blast
  then show "warrant_ok db db2" by (rule same_ok)
  have "warrant_of db2 i = Some ''ISSUED''"
    using validateState_same(2) [OF v assms(2)] same by (simp add: same_states_def)
  from ok_trans(2) [OF same serve_ok [OF q this assms(5)]] show "warrant_ok db db3" .
qed

lemma execute_ok:
  assumes "executeWarrant_authorized run_sql now session i rc db = (ok, rc', db')" and "wf_db db"
  shows "warrant_ok db db'"
proof -
  obtain valid rc1 db1 where
    v: "warrant_validateState run_sql now i ''ISSUED'' True rc db = (valid, rc1, db1)"
    using prod_cases3 by blast
  obtain sok db2 where s:
    "setSessionVars run_sql (sc_officerId session) (sc_belt_number session) db1 = (sok, db2)" by fastforce
  obtain res db3 where
    q: "run_sql db2 SQL_EXECUTE [int_param (sc_officerId session), int_param i] = (res, db3)" by fastforce
  show ?thesis
  proof (cases valid)
    case False
    with assms(1) v have "db' = db1" by (simp add: executeWarrant_authorized_def)
    with validateState_same(1) [OF v assms(2)] show ?thesis by (simp add: same_ok)
  next
    case True
    from assms(1) True v s q have "db' = db2 \<or> db' = db3"
      by (auto simp: executeWarrant_authorized_def split: if_splits pg_result.splits)
    from v True have "warrant_validateState run_sql now i ''ISSUED'' True rc db = (True, rc1, db1)" by simp
    from served_ok [OF this assms(2) s q] \<open>db' = db2 \<or> db' = db3\<close> show ?thesis by auto
  qed
qed

lemma cancel_ok:
  assumes "cancelWarrant_authorized run_sql now session i reason rc db = (ok, rc', db')" and "wf_db db"
  shows "warrant_ok db db'"
proof -
  obtain valid rc1 db1 where
    v: "warrant_validateState run_sql now i ''ISSUED'' False rc db = (valid, rc1, db1)"
    using prod_cases3 by blast
  obtain sok db2 where s:
    "setSessionVars run_sql (sc_officerId session) (sc_belt_number session) db1 = (sok, db2)" by fastforce
  obtain res db3 where
    q: "run_sql db2 SQL_CANCEL [int_param (sc_officerId session), reason, int_param i] = (res, db3)"
    by fastforce
  show ?thesis
  proof (cases valid)
    case False
    with assms(1) v have "db' = db1" by (simp add: cancelWarrant_authorized_def)
    with validateState_same(1) [OF v assms(2)] show ?thesis by (simp add: same_ok)
  next
    case True
    from assms(1) True v s q have "db' = db2 \<or> db' = db3"
      by (auto simp: cancelWarrant_authorized_def split: if_splits pg_result.splits)
    from v True have "warrant_validateState run_sql now i ''ISSUED'' False rc db = (True, rc1, db1)" by simp
    from served_ok [OF this assms(2) s q] \<open>db' = db2 \<or> db' = db3\<close> show ?thesis by auto
  qed
qed

lemma request_ok:
  assumes "requestWarrant_authorized run_sql now session case_id cnic wt judge court valid addr out db
    = (ok, i, rc, db')"
  shows "warrant_ok db db'"
proof -
  obtain res db1 where c: "run_sql db SQL_CASE_STATUS [int_param case_id] = (res, db1)" by fastforce
  obtain sok db2 where s:
    "setSessionVars run_sql (sc_officerId session) (sc_belt_number session) db1 = (sok, db2)" by fastforce
  define ps where "ps = [Some (warrant_number now session), int_param case_id, cnic,
    Some (warrantTypeStr wt), court, judge, Some (or_empty addr), valid, int_param (sc_officerId session)]"
  obtain res3 db3 where q: "run_sql db2 SQL_INSERT ps = (res3, db3)" by fastforce
  have db': "db' = db1 \<or> db' = db2 \<or> db' = db3"
    using assms c s q by (auto simp: requestWarrant_authorized_def Let_def ps_def
        split: if_splits pg_result.splits list.splits)
  have same: "same_states db db1" "same_states db db2"
    using run_sql_same [OF c] session_same [OF s] same_states_trans by auto
  with db' ok_trans(2) [OF same(2) insert_warrant_ok [OF q]] show ?thesis
    using same_ok(2) by blast
qed

lemma only_bail_tables:
  assumes "run_sql db stmt ps = (res, db')"
    and "stmt \<in> {SQL_INSERT_BAIL, SQL_UPDATE_ARREST_BAIL_GRANTED, SQL_REVOKE_BAIL, SQL_RESTORE_CUSTODY}"
  shows "warrant_of db' = warrant_of db" "wf_db db \<Longrightarrow> wf_db db'"
  using run_sql_keeps(1,3) [OF assms(1)] assms(2) by auto

lemma bail_keeps_warrants:
  assumes "recordBail_authorized run_sql now session i bt amount court judge valid sn sc sk out db
    = (ok, b, rc, db')"
  shows "warrant_ok db db'"
proof -
  obtain cust db1 where c: "arrestIsInCustody run_sql i db = (cust, db1)" by fastforce
  obtain sok db2 where s:
    "setSessionVars run_sql (sc_officerId session) (sc_belt_number session) db1 = (sok, db2)" by fastforce
  define ps where "ps = [Some (bail_number now session), int_param i, Some (bailTypeStr bt),
    Some (show_int (uint amount)), court, judge, Some (or_empty valid), Some (or_empty sn),
    Some (or_empty sc), Some (or_empty sk), int_param (sc_officerId session)]"
  obtain res3 db3 where q: "run_sql db2 SQL_INSERT_BAIL ps = (res3, db3)" by fastforce
  obtain res4 db4 where g: "run_sql db3 SQL_UPDATE_ARREST_BAIL_GRANTED [int_param i] = (res4, db4)"
    by fastforce
  have db': "db' = db1 \<or> db' = db2 \<or> db' = db3 \<or> db' = db4"
    using assms c s q g by (auto simp: recordBail_authorized_def Let_def ps_def
        split: if_splits pg_result.splits list.splits)
  have "same_states db db1"
    using c by (auto simp: arrestIsInCustody_def dest: run_sql_same split: prod.splits pg_result.splits)
  then have same: "same_states db db1" "same_states db db2"
    using session_same [OF s] same_states_trans by auto
  from db' same only_bail_tables [OF q] only_bail_tables [OF g] show ?thesis
    by (auto simp: warrant_ok_def same_states_def)
qed

lemma revoke_keeps_warrants:
  assumes "revokeBail_authorized run_sql freed session b reason rc db = Inr (ok, rc', db')"
  shows "warrant_ok db db'"
proof -
  obtain res db1 where q: "run_sql db SQL_GET_BAIL_STATUS [int_param b] = (res, db1)" by fastforce
  obtain valid a rc1 db0 where v: "bail_validateState run_sql freed b 0 rc db = Inr (valid, a, rc1, db0)"
    using assms by (auto simp: revokeBail_authorized_def and_then_Inr_iff)
  with q have "db0 = db1"
    by (auto simp: bail_validateState_def and_then_Inr_iff split: pg_result.splits list.splits if_splits)
  note v = v [unfolded this]
  obtain sok db2 where s:
    "setSessionVars run_sql (sc_officerId session) (sc_belt_number session) db1 = (sok, db2)" by fastforce
  obtain res3 db3 where r: "run_sql db2 SQL_REVOKE_BAIL
      [int_param (sc_officerId session), reason, int_param b] = (res3, db3)" by fastforce
  obtain res4 db4 where g: "run_sql db3 SQL_RESTORE_CUSTODY [int_param a] = (res4, db4)" by fastforce
  have db': "db' = db1 \<or> db' = db2 \<or> db' = db3 \<or> db' = db4"
    using assms v s r g by (auto simp: revokeBail_authorized_def Let_def
        split: if_splits pg_result.splits)
  have "same_states db db1" using run_sql_same [OF q] by simp
  then have same: "same_states db db1" "same_states db db2"
    using session_same [OF s] same_states_trans by auto
  from db' same only_bail_tables [OF r] only_bail_tables [OF g] show ?thesis
    by (auto simp: warrant_ok_def same_states_def)
qed

lemma authorized_step_ok:
  assumes "authorized_step freed db db'" and "wf_db db"
  shows "warrant_ok db db'"
  using assms(1)
proof cases
  case coded
  then show ?thesis by (rule enforcement_step_ok(2))
next
  case request
  then show ?thesis by (rule request_ok)
next
  case execute
  then show ?thesis using assms(2) by (rule execute_ok)
next
  case cancel
  then show ?thesis using assms(2) by (rule cancel_ok)
next
  case bail
  then show ?thesis by (rule bail_keeps_warrants)
next
  case revoke
  then show ?thesis by (rule revoke_keeps_warrants)
qed

interpretation warrant_run: simulation wf_db "authorized_step freed" warrant_of warrant_step for freed
  by unfold_locales (use authorized_step_ok in \<open>auto simp: warrant_ok_def\<close>)

section \<open>Properties of the managers together\<close>

text \<open>C16 The operations of the three managers that come to an end, in any order, by any sessions and with any
  statements failing, refine the custody state machine of \<open>arrest_manager.h\<close>, provided that the text of the state
  that \<open>_validateTransition\<close> reads after \<open>PQclear\<close> has freed it is still the old one (what the read gives is
  undefined): a new arrest starts in custody, a state only changes along the table, an arrest that was released or
  has escaped stays so, and one on bail stays so or is released. The return of an arrest to custody when its bail is
  revoked, which \<open>bail_manager.h\<close> and the README promise, does not happen: the rank check refuses every session, so
  bail plays no part.\<close>

theorem custody_machine_refined:
  assumes "wf_db db" and "reads_old freed" and "(enforcement_step freed)\<^sup>*\<^sup>* db db'"
  shows "custody_step\<^sup>*\<^sup>* (custody_of db) (custody_of db')
    \<and> (\<forall>i s. custody_of db i = Some s \<and> s \<in> {''RELEASED'', ''ESCAPED''} \<longrightarrow> custody_of db' i = Some s)
    \<and> (\<forall>i. custody_of db i = Some ''BAIL_GRANTED'' \<longrightarrow> custody_of db' i \<in> {Some ''BAIL_GRANTED'', Some ''RELEASED''})"
proof -
  have "(\<lambda>db db'. \<exists>freed. reads_old freed \<and> enforcement_step freed db db')\<^sup>*\<^sup>* db db'"
    by (rule rtranclp_mono [THEN predicate2D, OF _ assms(3)]) (use assms(2) in blast)
  from custody_run.runs [OF this assms(1)] have run: "custody_step\<^sup>*\<^sup>* (custody_of db) (custody_of db')" by simp
  with custody_terminal [OF run] custody_bailed [OF run] show ?thesis by blast
qed

theorem custody_machine_refined_witness:
  "\<exists>db1 db2. enforcement_step Inr demo_db db1 \<and> enforcement_step Inr db1 db2
     \<and> custody_of db2 2 = Some ''RELEASED''"
proof -
  obtain ok rc db1 where 1: "markAsDisputed run_sql demo_officer 2 (Some ''no warrant'') demo_db = (ok, rc, db1)"
    using prod_cases3 by blast
  obtain ok' rc' db2 where 2: "markAsDisputed run_sql demo_officer 2 (Some ''no warrant'') db1 = (ok', rc', db2)"
    using prod_cases3 by blast
  have s: "enforcement_step Inr demo_db db1" "enforcement_step Inr db1 db2"
    using 1 2 by (auto intro: enforcement_step.dispute)
  have "wf_db demo_db" using demo_db_live by (simp add: no_failures_def)
  moreover have "reads_old Inr" by (simp add: reads_old_def)
  moreover from s have "(enforcement_step Inr)\<^sup>*\<^sup>* demo_db db2" by auto
  ultimately have "custody_of db2 2 = Some ''RELEASED''"
    using custody_machine_refined [of demo_db Inr db2] demo_custody(2) by simp
  with s show ?thesis by blast
qed

text \<open>The condition is needed: were the freed text to read as the state of an arrest in custody, a released
  arrest would leave its final state.\<close>

lemma reused_bytes_break_the_machine:
  "\<exists>freed db'. \<not> reads_old freed \<and> enforcement_step freed demo_db db' \<and> custody_of demo_db 2 = Some ''RELEASED''
     \<and> custody_of db' 2 = Some ''REMANDED''"
proof -
  let ?freed = "\<lambda>s. Inr ''IN_CUSTODY'' :: string run"
  have "case updateCustodyStatus run_sql ?freed demo_officer 2 REMANDED None OK demo_db of
      Inl f \<Rightarrow> False | Inr (ok, rc, db') \<Rightarrow> custody_of db' 2 = Some ''REMANDED''" by code_simp
  then obtain ok rc db' where "updateCustodyStatus run_sql ?freed demo_officer 2 REMANDED None OK demo_db = Inr (ok, rc, db')"
    "custody_of db' 2 = Some ''REMANDED''" by (auto split: sum.splits)
  moreover have "\<not> reads_old ?freed" by (auto simp: reads_old_def intro!: exI [of _ "[]"])
  ultimately show ?thesis using demo_custody(2) by (blast intro: enforcement_step.custody)
qed

text \<open>C17 Also with the rank check out of the way, and whatever a read of a freed text gives, every sequence of
  operations that come to an end refines the warrant state machine of \<open>warrant_manager.h\<close>: warrants begin issued,
  an issued warrant is executed or cancelled, and a warrant that is not issued keeps its state. So an executed
  warrant is never cancelled, which the README of the subsystem gives as the transition that \<open>cancelWarrant\<close>
  makes. (The nightly SQL job that expires warrants is no operation of the managers.)\<close>

theorem warrant_machine_refined:
  assumes "wf_db db" and "(authorized_step freed)\<^sup>*\<^sup>* db db'"
  shows "warrant_step\<^sup>*\<^sup>* (warrant_of db) (warrant_of db')
    \<and> (\<forall>i s. warrant_of db i = Some s \<and> s \<noteq> ''ISSUED'' \<longrightarrow> warrant_of db' i = Some s)"
proof -
  have run: "warrant_step\<^sup>*\<^sup>* (warrant_of db) (warrant_of db')"
    using warrant_run.runs [OF assms(2,1)] by simp
  with warrant_terminal [OF run] show ?thesis by blast
qed

theorem warrant_machine_refined_witness:
  "\<exists>db1 db2. authorized_step Inr demo_db db1 \<and> authorized_step Inr db1 db2
     \<and> warrant_step\<^sup>*\<^sup>* (warrant_of demo_db) (warrant_of db2)"
proof -
  obtain ok rc db1 where 1: "executeWarrant_authorized run_sql 100 demo_officer 5 OK demo_db = (ok, rc, db1)"
    using prod_cases3 by blast
  obtain ok' rc' db2 where
    2: "cancelWarrant_authorized run_sql 100 demo_officer 5 (Some ''moot'') OK db1 = (ok', rc', db2)"
    using prod_cases3 by blast
  have s: "authorized_step Inr demo_db db1" "authorized_step Inr db1 db2"
    using 1 2 by (auto intro: authorized_step.intros)
  have "wf_db demo_db" using demo_db_live by (simp add: no_failures_def)
  moreover from s have "(authorized_step Inr)\<^sup>*\<^sup>* demo_db db2" by auto
  ultimately have "warrant_step\<^sup>*\<^sup>* (warrant_of demo_db) (warrant_of db2)"
    using warrant_machine_refined [of demo_db Inr db2] by simp
  with s show ?thesis by blast
qed

text \<open>No session can request, execute or cancel a warrant, nor record or revoke bail: each operation
  returns before it asks the database anything.\<close>

theorem rank_gate_closes_operations:
  "requestWarrant pq now session case_id cnic wt judge court valid addr out db
     = (False, out, RANK_INSUFFICIENT, db)
   \<and> executeWarrant pq now session i rc db = (False, RANK_INSUFFICIENT, db)
   \<and> cancelWarrant pq now session i reason rc db
     = (False, if null_or_empty reason then INVALID_INPUT else RANK_INSUFFICIENT, db)
   \<and> recordBail pq now session i bt amount court judge valid sn sc sk out db
     = (False, out, RANK_INSUFFICIENT, db)
   \<and> revokeBail pq freed session i reason rc db
     = Inr (False, if null_or_empty reason then INVALID_INPUT else RANK_INSUFFICIENT, db)"
  by (simp add: requestWarrant_def executeWarrant_def cancelWarrant_def recordBail_def revokeBail_def)

end
