(* ===== verification/Json_Codec.thy ===== *)
theory Json_Codec
  imports Auth
begin

text \<open>
  The request and response texts of the dashboard gateway: \<open>src/os_layer/ipc/src/socket_request.cpp\<close>
  with the types of \<open>include/socket_request.h\<close>. A position in the text is the rest of the text from
  there; the exceptions the parser throws are \<^const>\<open>ThrowsException\<close>, and \<open>fromJson\<close> catches them.
\<close>

section \<open>Types\<close>

datatype command_type =
    PING
  | GET_AGENT_STATUS
  | GET_AGENT_STATUS_BY_INDEX
  | GET_ACTIVE_SESSIONS
  | GET_CASE_LIST
  | GET_CASE_BY_ID
  | GET_HOTSPOT_DATA
  | GET_PRIORITY_CASES
  | GET_OFFICER_WORKLOAD
  | UNKNOWN

type_synonym json_object = "(string \<times> string) list"

record socket_request =
  rq_request_id :: "32 word"
  rq_command :: command_type
  rq_params :: json_object

record socket_response =
  rs_request_id :: "32 word"
  rs_status :: result_code
  rs_message :: string
  rs_payload :: string

definition empty_request :: socket_request where
  "empty_request = \<lparr>rq_request_id = 0, rq_command = UNKNOWN, rq_params = []\<rparr>"

section \<open>Parsing\<close>

definition skipWs :: "string \<Rightarrow> string" where
  "skipWs s = dropWhile is_space s"

definition expect :: "char \<Rightarrow> string \<Rightarrow> string run" where
  "expect ch s =
     (case skipWs s of
        [] \<Rightarrow> Inl ThrowsException
      | c # cs \<Rightarrow> if c \<noteq> ch then Inl ThrowsException else Inr cs)"

definition unescape :: "char \<Rightarrow> char" where
  "unescape c =
     (if c = CHR ''n'' then CHR 0x0A else if c = CHR ''r'' then CHR 0x0D
      else if c = CHR ''t'' then CHR 0x09 else c)"

text \<open>The loop of \<open>parseString\<close>: the characters up to a quote or the end, and the rest.\<close>

fun string_body :: "string \<Rightarrow> string \<times> string" where
  "string_body [] = ([], [])"
| "string_body [c] = (if c = CHR 0x22 then ([], [c]) else ([c], []))"
| "string_body (c # d # cs) =
     (if c = CHR 0x22 then ([], c # d # cs)
      else if c = CHR 0x5C then (let (r, rest) = string_body cs in (unescape d # r, rest))
      else (let (r, rest) = string_body (d # cs) in (c # r, rest)))"

definition parseString :: "string \<Rightarrow> (string \<times> string) run" where
  "parseString s =
     and_then (expect (CHR 0x22) (skipWs s)) (\<lambda>s.
       let (result, rest) = string_body s
       in and_then (expect (CHR 0x22) rest) (\<lambda>rest. Inr (result, rest)))"

definition in_primitive :: "char \<Rightarrow> bool" where
  "in_primitive c \<longleftrightarrow> c \<noteq> CHR '','' \<and> c \<noteq> CHR ''}'' \<and> c \<noteq> CHR '']'' \<and> \<not> is_space c"

definition parsePrimitive :: "string \<Rightarrow> string \<times> string" where
  "parsePrimitive s = (takeWhile in_primitive (skipWs s), dropWhile in_primitive (skipWs s))"

text \<open>One pass of the loop of \<open>parseObject\<close> up to the assignment: a key, a colon, a value.\<close>

definition parse_member :: "string \<Rightarrow> ((string \<times> string) \<times> string) run" where
  "parse_member s =
     and_then (parseString s) (\<lambda>(key, s).
       and_then (expect (CHR '':'') (skipWs s)) (\<lambda>s.
         let s = skipWs s
         in if s \<noteq> [] \<and> hd s = CHR 0x22
            then and_then (parseString s) (\<lambda>(val, s). Inr ((key, val), s))
            else (let (val, s) = parsePrimitive s in Inr ((key, val), s))))"

lemma length_skipWs: "length (skipWs s) \<le> length s"
  by (simp add: skipWs_def length_dropWhile_le)

lemma expect_length: "expect ch s = Inr r \<Longrightarrow> length r < length s"
  using length_skipWs [of s] by (auto simp: expect_def split: list.splits if_splits)

lemma string_body_length: "string_body s = (r, rest) \<Longrightarrow> length rest \<le> length s"
  by (induction s arbitrary: r rest rule: string_body.induct)
     (fastforce split: if_splits prod.splits)+

lemma parseString_Inr:
  "parseString s = Inr (r, rest) \<longleftrightarrow>
     (\<exists>x rest'. expect (CHR 0x22) (skipWs s) = Inr x \<and> string_body x = (r, rest')
        \<and> expect (CHR 0x22) rest' = Inr rest)"
  by (auto simp: parseString_def and_then_Inr_iff case_prod_beta prod_eq_iff)

lemma parseString_length: "parseString s = Inr (r, rest) \<Longrightarrow> length rest < length s"
  using length_skipWs [of s] by (fastforce simp: parseString_Inr dest: expect_length string_body_length)

lemma parsePrimitive_length: "parsePrimitive s = (r, rest) \<Longrightarrow> length rest \<le> length s"
  using length_skipWs [of s] length_dropWhile_le [of in_primitive "skipWs s"]
  by (auto simp: parsePrimitive_def)

lemma parse_member_length:
  assumes "parse_member s = Inr (m, rest)"
  shows "length rest < length s"
proof -
  from assms obtain key s1 s2 where k: "parseString s = Inr (key, s1)"
    and c: "expect (CHR '':'') (skipWs s1) = Inr s2"
    and v: "(if skipWs s2 \<noteq> [] \<and> hd (skipWs s2) = CHR 0x22
             then and_then (parseString (skipWs s2)) (\<lambda>(val, s). Inr ((key, val), s))
             else (let (val, s) = parsePrimitive (skipWs s2) in Inr ((key, val), s))) = Inr (m, rest)"
    by (auto simp: parse_member_def and_then_Inr_iff Let_def)
  from v have "length rest \<le> length (skipWs s2)"
    by (cases "parsePrimitive (skipWs s2)")
       (auto simp: and_then_Inr_iff split: if_splits dest!: parseString_length parsePrimitive_length)
  with parseString_length [OF k] expect_length [OF c] length_skipWs [of s1] length_skipWs [of s2]
  show ?thesis by simp
qed

text \<open>The loop of \<open>parseObject\<close> over its members; it stops at the end of the text.\<close>

function parse_members :: "json_object \<Rightarrow> string \<Rightarrow> (json_object \<times> string) run" where
  "parse_members obj s =
     (if s = [] then Inr (obj, s)
      else
        (case parse_member s of
           Inl e \<Rightarrow> Inl e
         | Inr ((key, val), s1) \<Rightarrow>
             let obj = AList.update key val obj; s2 = skipWs s1
             in if s2 \<noteq> [] \<and> hd s2 = CHR '','' then parse_members obj (skipWs (tl s2))
                else Inr (obj, s2)))"
  by pat_completeness auto
termination
proof (relation "measure (\<lambda>(obj, s). length s)")
  fix obj :: json_object and s mr m s1 key val obj' s2
  assume "s \<noteq> []" and "parse_member s = Inr mr" "(m, s1) = mr" "(key, val) = m"
    "obj' = AList.update key val obj" "s2 = skipWs s1" "s2 \<noteq> [] \<and> hd s2 = CHR '',''"
  then have "parse_member s = Inr ((key, val), s1)" by simp
  from parse_member_length [OF this] \<open>s2 = skipWs s1\<close> length_skipWs [of s1] length_skipWs [of "tl s2"]
  show "((obj', skipWs (tl s2)), obj, s) \<in> measure (\<lambda>(obj, s). length s)" by simp
qed simp

declare parse_members.simps [simp del]

definition parseObject :: "string \<Rightarrow> (json_object \<times> string) run" where
  "parseObject s =
     and_then (expect (CHR ''{'') (skipWs s)) (\<lambda>s.
       let s = skipWs s
       in if s \<noteq> [] \<and> hd s = CHR ''}'' then Inr ([], tl s)
          else and_then (parse_members [] s) (\<lambda>(obj, s).
                 and_then (expect (CHR ''}'') s) (\<lambda>s. Inr (obj, s))))"

definition toCommandType :: "string \<Rightarrow> command_type" where
  "toCommandType cmd =
     (if cmd = ''PING'' then PING
      else if cmd = ''GET_AGENT_STATUS'' then GET_AGENT_STATUS
      else if cmd = ''GET_AGENT_STATUS_BY_INDEX'' then GET_AGENT_STATUS_BY_INDEX
      else if cmd = ''GET_ACTIVE_SESSIONS'' then GET_ACTIVE_SESSIONS
      else if cmd = ''GET_CASE_LIST'' then GET_CASE_LIST
      else if cmd = ''GET_CASE_BY_ID'' then GET_CASE_BY_ID
      else if cmd = ''GET_HOTSPOT_DATA'' then GET_HOTSPOT_DATA
      else if cmd = ''GET_PRIORITY_CASES'' then GET_PRIORITY_CASES
      else if cmd = ''GET_OFFICER_WORKLOAD'' then GET_OFFICER_WORKLOAD
      else UNKNOWN)"

text \<open>
  \<open>std::stoul\<close>: as \<open>stoi\<close>, but a sign negates modulo \<open>2 ^ 64\<close>, and it throws without digits or
  when the digits do not fit 64 bits (\<^const>\<open>None\<close>).
\<close>

definition stoul :: "string \<Rightarrow> 64 word option" where
  "stoul s =
     (let (neg, ds) = signed_digits s
      in if ds = [] \<or> (2 ^ 64 :: int) \<le> int (read_digits ds) then None
         else Some (if neg then - word_of_nat (read_digits ds) else word_of_nat (read_digits ds)))"

definition needle_params :: string where
  "needle_params = [CHR 0x22] @ ''params'' @ [CHR 0x22]"

text \<open>
  The part of \<open>fromJson\<close> that looks for the text \<open>"params"\<close> and parses the object after the next
  colon; \<^const>\<open>None\<close> when there is none.
\<close>

definition params_of :: "string \<Rightarrow> json_object option run" where
  "params_of json_str =
     (case str_find needle_params json_str of
        None \<Rightarrow> Inr None
      | Some ppos \<Rightarrow>
          (case dropWhile (\<lambda>c. c \<noteq> CHR '':'') (drop (ppos + length needle_params) json_str) of
             [] \<Rightarrow> Inr None
           | colon # rest \<Rightarrow>
               let obj_start = skipWs rest
               in if obj_start \<noteq> [] \<and> hd obj_start = CHR ''{''
                  then and_then (parseObject obj_start) (\<lambda>(params, s). Inr (Some params))
                  else Inr None))"

text \<open>\<open>request_id\<close>, when it is there: \<^const>\<open>None\<close> when \<open>stoul\<close> throws.\<close>

definition read_request_id :: "json_object \<Rightarrow> socket_request \<Rightarrow> socket_request option" where
  "read_request_id obj out =
     (case map_of obj ''request_id'' of
        None \<Rightarrow> Some out
      | Some v \<Rightarrow> map_option (\<lambda>n. out\<lparr>rq_request_id := ucast n\<rparr>) (stoul v))"

definition fromJson :: "string \<Rightarrow> socket_request \<Rightarrow> result_code \<times> socket_request" where
  "fromJson json_str out =
     (case parseObject json_str of
        Inl e \<Rightarrow> (INVALID_INPUT, out)
      | Inr (obj, s) \<Rightarrow>
          (case read_request_id obj out of
             None \<Rightarrow> (INVALID_INPUT, out)
           | Some out \<Rightarrow>
               let out = out\<lparr>rq_command :=
                 (case map_of obj ''command'' of Some c \<Rightarrow> toCommandType c | None \<Rightarrow> UNKNOWN)\<rparr>
               in (case params_of json_str of
                     Inl e \<Rightarrow> (INVALID_INPUT, out)
                   | Inr None \<Rightarrow> (OK, out)
                   | Inr (Some params) \<Rightarrow> (OK, out\<lparr>rq_params := params\<rparr>))))"

definition param :: "socket_request \<Rightarrow> string \<Rightarrow> string \<Rightarrow> string" where
  "param req key default_val =
     (case map_of (rq_params req) key of None \<Rightarrow> default_val | Some v \<Rightarrow> v)"

definition intParam :: "socket_request \<Rightarrow> string \<Rightarrow> int \<Rightarrow> int" where
  "intParam req key default_val =
     (case map_of (rq_params req) key of
        None \<Rightarrow> default_val
      | Some v \<Rightarrow> (case stoi v of None \<Rightarrow> default_val | Some i \<Rightarrow> i))"

section \<open>Responses\<close>

definition hex_digit :: "nat \<Rightarrow> char" where
  "hex_digit n = (if n < 10 then char_of (48 + n) else char_of (87 + n))"

definition escape_char :: "char \<Rightarrow> string" where
  "escape_char c =
     (if c = CHR 0x22 then [CHR 0x5C, CHR 0x22]
      else if c = CHR 0x5C then [CHR 0x5C, CHR 0x5C]
      else if c = CHR 0x0A then [CHR 0x5C, CHR ''n'']
      else if c = CHR 0x0D then [CHR 0x5C, CHR ''r'']
      else if c = CHR 0x09 then [CHR 0x5C, CHR ''t'']
      else if (of_char c :: nat) < 0x20
      then [CHR 0x5C, CHR ''u'', CHR ''0'', CHR ''0'', hex_digit (of_char c div 16), hex_digit (of_char c mod 16)]
      else [c])"

definition jsonEscape :: "string \<Rightarrow> string" where
  "jsonEscape s = concat (map escape_char s)"

fun looksLikeJson :: "string \<Rightarrow> bool" where
  "looksLikeJson [] = False"
| "looksLikeJson (c # cs) =
     (if is_space c then looksLikeJson cs else c = CHR ''{'' \<or> c = CHR ''['')"

definition quoted :: "string \<Rightarrow> string" where
  "quoted s = CHR 0x22 # s @ [CHR 0x22]"

definition toJson :: "socket_response \<Rightarrow> string" where
  "toJson r =
     ''{'' @ quoted ''request_id'' @ '':'' @ show_nat (unat (rs_request_id r)) @ '',''
     @ quoted ''status'' @ '':'' @ show_int (rc_value (rs_status r)) @ '',''
     @ quoted ''message'' @ '':'' @ quoted (jsonEscape (rs_message r)) @ '',''
     @ quoted ''data'' @ '':''
     @ (if rs_payload r = [] then ''null''
        else if looksLikeJson (rs_payload r) then rs_payload r
        else quoted (jsonEscape (rs_payload r)))
     @ ''}''"

definition response_ok :: "32 word \<Rightarrow> string \<Rightarrow> socket_response" where
  "response_ok req_id payload =
     \<lparr>rs_request_id = req_id, rs_status = OK, rs_message = ''OK'', rs_payload = payload\<rparr>"

definition response_error :: "32 word \<Rightarrow> result_code \<Rightarrow> string \<Rightarrow> socket_response" where
  "response_error req_id code msg =
     \<lparr>rs_request_id = req_id, rs_status = code, rs_message = msg, rs_payload = []\<rparr>"

primrec resultCodeToString :: "result_code \<Rightarrow> string" where
  "resultCodeToString OK = ''OK''"
| "resultCodeToString AUTH_FAILED = ''AUTH_FAILED''"
| "resultCodeToString RANK_INSUFFICIENT = ''RANK_INSUFFICIENT''"
| "resultCodeToString SESSION_EXPIRED = ''SESSION_EXPIRED''"
| "resultCodeToString JURISDICTION_DENIED = ''JURISDICTION_DENIED''"
| "resultCodeToString NOT_FOUND = ''NOT_FOUND''"
| "resultCodeToString ALREADY_EXISTS = ''ALREADY_EXISTS''"
| "resultCodeToString INVALID_INPUT = ''INVALID_INPUT''"
| "resultCodeToString INVALID_ARGUMENT = ''INVALID_ARGUMENT''"
| "resultCodeToString DB_ERROR = ''DB_ERROR''"
| "resultCodeToString FOREIGN_KEY_VIOLATION = ''FOREIGN_KEY_VIOLATION''"
| "resultCodeToString FILE_SYSTEM_ERROR = ''FILE_SYSTEM_ERROR''"
| "resultCodeToString INVALID_STATE = ''INVALID_STATE''"
| "resultCodeToString DUTY_INACTIVE = ''DUTY_INACTIVE''"
| "resultCodeToString RECORD_LOCKED = ''RECORD_LOCKED''"
| "resultCodeToString ANALYSIS_FAILED = ''ANALYSIS_FAILED''"
| "resultCodeToString THRESHOLD_NOT_MET = ''THRESHOLD_NOT_MET''"

section \<open>String literals\<close>

definition printable :: "string \<Rightarrow> bool" where
  "printable s \<longleftrightarrow> (\<forall>c \<in> set s. 0x20 \<le> (of_char c :: nat) \<or> c \<in> {CHR 0x0A, CHR 0x0D, CHR 0x09})"

lemma jsonEscape_simps [simp]:
  "jsonEscape [] = []" "jsonEscape (c # s) = escape_char c @ jsonEscape s"
  by (simp_all add: jsonEscape_def)

lemma string_body_plain:
  "c \<noteq> CHR 0x22 \<Longrightarrow> c \<noteq> CHR 0x5C \<Longrightarrow> s \<noteq> [] \<Longrightarrow>
   string_body (c # s) = (c # fst (string_body s), snd (string_body s))"
  by (cases s) (simp_all add: case_prod_beta)

lemma string_body_escape:
  "printable s \<Longrightarrow> string_body (jsonEscape s @ CHR 0x22 # rest) = (s, CHR 0x22 # rest)"
proof (induction s)
  case Nil
  show ?case by (cases rest) simp_all
next
  case (Cons c s)
  then have ih: "string_body (jsonEscape s @ CHR 0x22 # rest) = (s, CHR 0x22 # rest)"
    by (simp add: printable_def)
  from Cons.prems have c: "0x20 \<le> (of_char c :: nat) \<or> c \<in> {CHR 0x0A, CHR 0x0D, CHR 0x09}"
    by (simp add: printable_def)
  show ?case
  proof (cases "c \<in> {CHR 0x22, CHR 0x5C, CHR 0x0A, CHR 0x0D, CHR 0x09}")
    case True
    then show ?thesis by (auto simp: escape_char_def unescape_def ih)
  next
    case False
    with c have "escape_char c = [c]" by (auto simp: escape_char_def)
    with False ih show ?thesis by (simp add: string_body_plain)
  qed
qed

lemma expect_here [simp]: "\<not> is_space c \<Longrightarrow> expect c (c # s) = Inr s"
  by (simp add: expect_def skipWs_def)

lemma quote_not_space [simp]: "\<not> is_space (CHR 0x22)"
  by (simp add: is_space_def)

lemma skipWs_here [simp]: "\<not> is_space c \<Longrightarrow> skipWs (c # s) = c # s"
  by (simp add: skipWs_def)

lemma parseString_escape:
  "printable s \<Longrightarrow> parseString (quoted (jsonEscape s) @ rest) = Inr (s, rest)"
  by (simp add: parseString_def quoted_def string_body_escape)

text \<open>A text in a string literal survives the trip: what \<open>jsonEscape\<close> writes, \<open>parseString\<close> reads back
  and stops after the closing quote, for every text without control characters other than line feed,
  carriage return and tabulator.\<close>

theorem json_string_roundtrip:
  assumes "printable s"
  shows "parseString (quoted (jsonEscape s) @ rest) = Inr (s, rest)"
  using assms by (rule parseString_escape)

theorem json_string_roundtrip_witness:
  "parseString (quoted (jsonEscape (''say '' @ [CHR 0x22] @ ''no'' @ [CHR 0x22, CHR 0x0A])) @ '', rest'')
    = Inr (''say '' @ [CHR 0x22] @ ''no'' @ [CHR 0x22, CHR 0x0A], '', rest'')"
  by (rule json_string_roundtrip) (simp add: printable_def)

section \<open>Responses are JSON\<close>

text \<open>The grammar, without white space between the tokens; \<open>json_chars\<close> is the inside of a literal.\<close>

inductive json_chars :: "string \<Rightarrow> bool" where
  none: "json_chars []"
| plain: "c \<notin> {CHR 0x22, CHR 0x5C} \<Longrightarrow> 0x20 \<le> (of_char c :: nat) \<Longrightarrow> json_chars s \<Longrightarrow>
    json_chars (c # s)"
| escaped: "d \<in> set ([CHR 0x22, CHR 0x5C] @ ''/bfnrt'') \<Longrightarrow> json_chars s \<Longrightarrow>
    json_chars (CHR 0x5C # d # s)"
| unicode: "length hs = 4 \<Longrightarrow> set hs \<subseteq> set ''0123456789abcdefABCDEF'' \<Longrightarrow> json_chars s \<Longrightarrow>
    json_chars (CHR 0x5C # CHR ''u'' # hs @ s)"

inductive json :: "string \<Rightarrow> bool"
  and json_members :: "string \<Rightarrow> bool"
  and json_elements :: "string \<Rightarrow> bool" where
  literal: "json_chars s \<Longrightarrow> json (quoted s)"
| number: "json (show_int i)"
| null: "json ''null''"
| true: "json ''true''"
| empty_object: "json ''{}''"
| object: "json_members s \<Longrightarrow> json (''{'' @ s @ ''}'')"
| empty_array: "json ''[]''"
| array: "json_elements s \<Longrightarrow> json (''['' @ s @ '']'')"
| member: "json_chars k \<Longrightarrow> json v \<Longrightarrow> json_members (quoted k @ '':'' @ v)"
| more_members: "json_chars k \<Longrightarrow> json v \<Longrightarrow> json_members s \<Longrightarrow>
    json_members (quoted k @ '':'' @ v @ '','' @ s)"
| element: "json v \<Longrightarrow> json_elements v"
| more_elements: "json v \<Longrightarrow> json_elements s \<Longrightarrow> json_elements (v @ '','' @ s)"

lemma json_chars_append: "json_chars s \<Longrightarrow> json_chars t \<Longrightarrow> json_chars (s @ t)"
proof (induction rule: json_chars.induct)
  case (unicode hs s)
  then show ?case using json_chars.unicode [of hs "s @ t"] by simp
qed (auto intro: json_chars.intros)

definition json_escapes :: string where
  "json_escapes = [CHR 0x22, CHR 0x5C] @ ''/bfnrt''"

definition json_hex :: string where
  "json_hex = ''0123456789abcdefABCDEF''"

lemma hex_digits: "map hex_digit [0..<16] = ''0123456789abcdef''"
  by code_simp

lemma json_hex_digit: "n < 16 \<Longrightarrow> hex_digit n \<in> set json_hex"
proof -
  assume "n < 16"
  then have "hex_digit n \<in> set (map hex_digit [0..<16])" by simp
  then show ?thesis unfolding hex_digits json_hex_def by auto
qed

lemma json_chars_escape_char: "json_chars (escape_char c)"
proof -
  have two: "json_chars [CHR 0x5C, d]" if "d \<in> set json_escapes" for d
    using that json_chars.escaped [OF _ json_chars.none] by (simp add: json_escapes_def)
  have esc: "CHR 0x22 \<in> set json_escapes" "CHR 0x5C \<in> set json_escapes"
    "CHR ''n'' \<in> set json_escapes" "CHR ''r'' \<in> set json_escapes" "CHR ''t'' \<in> set json_escapes"
    by (simp_all add: json_escapes_def)
  let ?named = "{CHR 0x22, CHR 0x5C, CHR 0x0A, CHR 0x0D, CHR 0x09}"
  consider (named) "c \<in> ?named" | (control) "c \<notin> ?named" "(of_char c :: nat) < 0x20"
    | (itself) "c \<notin> ?named" "\<not> (of_char c :: nat) < 0x20" by blast
  then show ?thesis
  proof cases
    case named
    then show ?thesis
      by (elim insertE emptyE) (simp_all add: escape_char_def two esc)
  next
    case control
    have "hex_digit (of_char c div 16) \<in> set json_hex" "hex_digit (of_char c mod 16) \<in> set json_hex"
      using control(2) by (intro json_hex_digit; simp)+
    then have "set [CHR ''0'', CHR ''0'', hex_digit (of_char c div 16), hex_digit (of_char c mod 16)]
        \<subseteq> set json_hex" by (simp add: json_hex_def)
    from json_chars.unicode [OF _ this [unfolded json_hex_def] json_chars.none] control
    show ?thesis by (simp add: escape_char_def)
  next
    case itself
    then show ?thesis using json_chars.plain [OF _ _ json_chars.none, of c] by (simp add: escape_char_def)
  qed
qed

lemma json_chars_jsonEscape: "json_chars (jsonEscape s)"
  by (induction s) (auto intro: json_chars.none json_chars_append json_chars_escape_char)

lemma show_nat_int: "show_nat n = show_int (int n)"
  by (simp add: show_int_def)

lemma json_show_nat: "json (show_nat n)"
  unfolding show_nat_int by (rule json_json_members_json_elements.number)

lemma plain_key: "list_all (\<lambda>c. c \<notin> {CHR 0x22, CHR 0x5C} \<and> 0x20 \<le> (of_char c :: nat)) s \<Longrightarrow> json_chars s"
  by (induction s) (auto intro: json_chars.intros)

lemmas json_intros = json_json_members_json_elements.intros

lemma toJson_json:
  assumes "looksLikeJson (rs_payload r) \<Longrightarrow> json (rs_payload r)"
  shows "json (toJson r)"
proof -
  let ?data = "if rs_payload r = [] then ''null''
     else if looksLikeJson (rs_payload r) then rs_payload r
     else quoted (jsonEscape (rs_payload r))"
  have data: "json ?data"
    using assms by (auto intro: json_intros json_chars_jsonEscape)
  have keys: "json_chars ''request_id''" "json_chars ''status''" "json_chars ''message''" "json_chars ''data''"
    by (rule plain_key, simp)+
  have "json_members (quoted ''request_id'' @ '':'' @ show_nat (unat (rs_request_id r)) @ '',''
     @ quoted ''status'' @ '':'' @ show_int (rc_value (rs_status r)) @ '',''
     @ quoted ''message'' @ '':'' @ quoted (jsonEscape (rs_message r)) @ '',''
     @ quoted ''data'' @ '':'' @ ?data)"
    by (intro json_intros(9,10) keys data json_show_nat json_intros(1,2) json_chars_jsonEscape)
  from json_intros(6) [OF this] show ?thesis by (simp add: toJson_def)
qed

section \<open>Requests\<close>

definition no_escape :: "string \<Rightarrow> bool" where
  "no_escape s \<longleftrightarrow> CHR 0x22 \<notin> set s \<and> CHR 0x5C \<notin> set s"

lemma string_body_no_escape:
  "no_escape s \<Longrightarrow> string_body (s @ CHR 0x22 # rest) = (s, CHR 0x22 # rest)"
proof (induction s)
  case Nil
  show ?case by (cases rest) simp_all
qed (auto simp: no_escape_def string_body_plain)

lemma parseString_no_escape: "no_escape s \<Longrightarrow> parseString (quoted s @ rest) = Inr (s, rest)"
  by (simp add: parseString_def quoted_def string_body_no_escape)

lemma colon_not_space [simp]: "\<not> is_space (CHR '':'')" "\<not> is_space (CHR ''{'')"
  "\<not> is_space (CHR '','')" "\<not> is_space (CHR ''}'')"
  by (simp_all add: is_space_def)

lemma skipWs_spaces [simp]: "list_all is_space w \<Longrightarrow> skipWs (w @ s) = skipWs s"
  by (simp add: skipWs_def list_all_iff dropWhile_append2)

lemma skipWs_quoted [simp]: "skipWs (quoted s @ t) = quoted s @ t"
  by (simp add: quoted_def)

lemma quoted_start [simp]: "quoted s \<noteq> []" "hd (quoted s @ t) = CHR 0x22"
  by (simp_all add: quoted_def)

lemma parse_member_text:
  assumes "no_escape k" "no_escape v" "list_all is_space w"
  shows "parse_member (quoted k @ '':'' @ w @ quoted v @ rest) = Inr ((k, v), rest)"
  using assms parseString_no_escape [of k "CHR '':'' # w @ quoted v @ rest"]
  by (simp add: parse_member_def parseString_no_escape Let_def)

lemma parse_member_primitive:
  assumes "no_escape k" "list_all is_space w" "list_all in_primitive p" "p \<noteq> []" "hd p \<noteq> CHR 0x22"
    "\<not> in_primitive c"
  shows "parse_member (quoted k @ '':'' @ w @ p @ c # rest) = Inr ((k, p), c # rest)"
proof -
  have "\<not> is_space (hd p)" using assms(3,4) by (cases p) (auto simp: in_primitive_def)
  then have s: "skipWs (p @ c # rest) = p @ c # rest" using assms(4) by (cases p) simp_all
  have "parsePrimitive (p @ c # rest) = (p, c # rest)"
    using assms(3,6) by (simp add: parsePrimitive_def s list_all_iff)
  then show ?thesis
    using assms parseString_no_escape [of k "CHR '':'' # w @ p @ c # rest"]
    by (simp add: parse_member_def s Let_def)
qed

lemma parse_members_more:
  assumes "parse_member s = Inr ((k, v), s1)" "skipWs s1 = CHR '','' # s2"
  shows "parse_members obj s = parse_members (AList.update k v obj) (skipWs s2)"
proof -
  have "s \<noteq> []" using parse_member_length [OF assms(1)] by auto
  with assms show ?thesis by (subst parse_members.simps) simp
qed

lemma parse_members_stop:
  assumes "parse_member s = Inr ((k, v), s1)" "skipWs s1 = [] \<or> hd (skipWs s1) \<noteq> CHR '',''"
  shows "parse_members obj s = Inr (AList.update k v obj, skipWs s1)"
proof -
  have "s \<noteq> []" using parse_member_length [OF assms(1)] by auto
  with assms show ?thesis by (subst parse_members.simps) auto
qed

text \<open>The parameters in compact form.\<close>

fun write_pairs :: "json_object \<Rightarrow> string" where
  "write_pairs [] = []"
| "write_pairs [(k, v)] = quoted k @ '':'' @ quoted v"
| "write_pairs ((k, v) # p # ps) = quoted k @ '':'' @ quoted v @ '','' @ write_pairs (p # ps)"

lemma write_pairs_start [simp]: "ps \<noteq> [] \<Longrightarrow> skipWs (write_pairs ps @ t) = write_pairs ps @ t"
  by (cases ps rule: write_pairs.cases) simp_all

lemma parse_pairs:
  assumes "ps \<noteq> []" "\<forall>(k, v) \<in> set ps. no_escape k \<and> no_escape v"
  shows "parse_members obj (write_pairs ps @ CHR ''}'' # rest)
    = Inr (fold (\<lambda>(k, v). AList.update k v) ps obj, CHR ''}'' # rest)"
  using assms
proof (induction ps arbitrary: obj rule: write_pairs.induct)
  case (2 k v)
  then have "parse_member (write_pairs [(k, v)] @ CHR ''}'' # rest) = Inr ((k, v), CHR ''}'' # rest)"
    using parse_member_text [of k v "[]"] by simp
  from parse_members_stop [OF this] show ?case by simp
next
  case (3 k v p ps)
  then have "parse_member (write_pairs ((k, v) # p # ps) @ CHR ''}'' # rest)
      = Inr ((k, v), CHR '','' # write_pairs (p # ps) @ CHR ''}'' # rest)"
    using parse_member_text [of k v "[]"] by simp
  from parse_members_more [OF this] 3 show ?case by simp
qed simp

lemma fold_update_distinct:
  "distinct (map fst (obj @ ps)) \<Longrightarrow> fold (\<lambda>(k, v). AList.update k v) ps obj = obj @ ps"
proof (induction ps arbitrary: obj)
  case (Cons p ps)
  obtain k v where p: "p = (k, v)" by (cases p)
  have "k \<notin> fst ` set obj" using Cons.prems by (auto simp: p)
  then have "AList.update k v obj = obj @ [(k, v)]" by (induction obj) auto
  with Cons.IH [of "obj @ [(k, v)]"] Cons.prems show ?case by (simp add: p)
qed simp

lemma map_of_fold_update:
  "key \<notin> fst ` set ps \<Longrightarrow> map_of (fold (\<lambda>(k, v). AList.update k v) ps obj) key = map_of obj key"
  by (induction ps arbitrary: obj) (auto simp: update_conv)

lemma parseObject_pairs:
  assumes "ps \<noteq> []" "\<forall>(k, v) \<in> set ps. no_escape k \<and> no_escape v" "distinct (map fst ps)"
  shows "parseObject (CHR ''{'' # write_pairs ps @ CHR ''}'' # rest) = Inr (ps, rest)"
proof -
  have h: "write_pairs ps @ t \<noteq> []" "hd (write_pairs ps @ t) = CHR 0x22" for t
    using assms(1) by (cases ps rule: write_pairs.cases; simp add: quoted_def)+
  show ?thesis
    using h assms parse_pairs [OF assms(1,2), of "[]" rest] fold_update_distinct [of "[]" ps]
    by (simp add: parseObject_def Let_def)
qed


primrec command_name :: "command_type \<Rightarrow> string" where
  "command_name PING = ''PING''"
| "command_name GET_AGENT_STATUS = ''GET_AGENT_STATUS''"
| "command_name GET_AGENT_STATUS_BY_INDEX = ''GET_AGENT_STATUS_BY_INDEX''"
| "command_name GET_ACTIVE_SESSIONS = ''GET_ACTIVE_SESSIONS''"
| "command_name GET_CASE_LIST = ''GET_CASE_LIST''"
| "command_name GET_CASE_BY_ID = ''GET_CASE_BY_ID''"
| "command_name GET_HOTSPOT_DATA = ''GET_HOTSPOT_DATA''"
| "command_name GET_PRIORITY_CASES = ''GET_PRIORITY_CASES''"
| "command_name GET_OFFICER_WORKLOAD = ''GET_OFFICER_WORKLOAD''"
| "command_name UNKNOWN = ''UNKNOWN''"

lemma toCommandType_name [simp]: "toCommandType (command_name c) = c"
  by (cases c) (simp_all add: toCommandType_def)

lemma command_name_plain: "no_escape (command_name c)" "command_name c \<noteq> ''params''"
  by (cases c; simp add: no_escape_def)+

text \<open>
  A request as a client writes it, with \<open>sp\<close> after each colon and comma: the empty text for a compact
  encoder, one blank for \<open>json.dumps\<close> of Python.
\<close>

definition request_head :: "string \<Rightarrow> 32 word \<Rightarrow> command_type \<Rightarrow> string" where
  "request_head sp i c = ''{'' @ quoted ''request_id'' @ '':'' @ sp @ show_nat (unat i) @ '','' @ sp
     @ quoted ''command'' @ '':'' @ sp @ quoted (command_name c) @ '','' @ sp"

definition compact_request :: "32 word \<Rightarrow> command_type \<Rightarrow> json_object \<Rightarrow> string" where
  "compact_request i c ps =
     request_head [] i c @ needle_params @ '':'' @ ''{'' @ write_pairs ps @ ''}'' @ ''}''"

definition plain_text :: "string \<Rightarrow> bool" where
  "plain_text s \<longleftrightarrow> no_escape s \<and> list_all in_primitive s"

lemma digit_in_primitive: "is_digit c \<Longrightarrow> in_primitive c" "is_digit c \<Longrightarrow> c \<noteq> CHR 0x22"
  by (auto simp: is_digit_def in_primitive_def is_space_def)

lemma show_nat_primitive:
  "list_all in_primitive (show_nat n)" "hd (show_nat n) \<noteq> CHR 0x22" "CHR 0x22 \<notin> set (show_nat n)"
  using show_nat_digits [of n] show_nat_hd_digit [of n] digit_in_primitive
  by (auto simp: list_all_iff)

lemma key_plain:
  "no_escape ''request_id''" "no_escape ''command''" "no_escape ''params''"
  by (simp_all add: no_escape_def)

lemma needle_quoted: "needle_params = quoted ''params''"
  by (simp add: needle_params_def quoted_def)

lemma comma_not_primitive: "\<not> in_primitive (CHR '','')" "\<not> in_primitive (CHR ''}'')" "\<not> in_primitive (CHR '' '')"
  by (simp_all add: in_primitive_def is_space_def)

lemma punctuation_primitive:
  "in_primitive (CHR ''{'')" "in_primitive (CHR '':'')" "in_primitive (CHR 0x22)"
  by (simp_all add: in_primitive_def is_space_def)

text \<open>Identifier and command are read from the head, whatever follows.\<close>

lemma head_members:
  assumes "list_all is_space sp"
  shows "parseObject (request_head sp i c @ quoted k @ rest)
    = and_then (parse_members [(''request_id'', show_nat (unat i)), (''command'', command_name c)]
        (quoted k @ rest)) (\<lambda>(obj, s). and_then (expect (CHR ''}'') s) (\<lambda>s. Inr (obj, s)))"
proof -
  let ?t2 = "quoted ''command'' @ '':'' @ sp @ quoted (command_name c) @ CHR '','' # sp @ quoted k @ rest"
  let ?t1 = "quoted ''request_id'' @ '':'' @ sp @ show_nat (unat i) @ CHR '','' # sp @ ?t2"
  have m1: "parse_member ?t1 = Inr ((''request_id'', show_nat (unat i)), CHR '','' # sp @ ?t2)"
    using assms key_plain(1) show_nat_primitive comma_not_primitive
    by (intro parse_member_primitive) simp_all
  have m2: "parse_member ?t2 = Inr ((''command'', command_name c), CHR '','' # sp @ quoted k @ rest)"
    using assms key_plain(2) command_name_plain by (intro parse_member_text)
  have "parse_members [] ?t1 = parse_members [(''request_id'', show_nat (unat i)), (''command'', command_name c)]
      (quoted k @ rest)"
    using parse_members_more [OF m1, of "sp @ ?t2" "[]"] assms
      parse_members_more [OF m2, of "sp @ quoted k @ rest" "[(''request_id'', show_nat (unat i))]"]
    by simp
  then show ?thesis
    by (simp add: parseObject_def request_head_def Let_def)
qed

text \<open>The rest of the text from where \<open>"params"\<close> is found.\<close>

definition from_params :: "string \<Rightarrow> string option" where
  "from_params s = map_option (\<lambda>n. drop n s) (str_find needle_params s)"

lemma from_params_Cons:
  "from_params (c # s) = (if starts_with needle_params (c # s) then Some (c # s) else from_params s)"
  by (simp add: from_params_def option.map_comp comp_def)

lemma from_params_other [simp]: "c \<noteq> CHR 0x22 \<Longrightarrow> from_params (c # s) = from_params s"
  by (simp add: from_params_Cons needle_params_def)

lemma from_params_skip: "CHR 0x22 \<notin> set xs \<Longrightarrow> from_params (xs @ s) = from_params s"
  by (induction xs) auto

lemma from_params_quoted:
  assumes "CHR 0x22 \<notin> set k" "k \<noteq> ''params''" "hd t \<noteq> CHR ''p''" "t \<noteq> []"
  shows "from_params (quoted k @ t) = from_params t"
proof -
  have "\<not> starts_with needle_params (CHR 0x22 # k @ CHR 0x22 # t)"
  proof
    assume "starts_with needle_params (CHR 0x22 # k @ CHR 0x22 # t)"
    then obtain u where u: "''params'' @ CHR 0x22 # u = k @ CHR 0x22 # t"
      unfolding starts_with_iff needle_params_def by auto
    have "takeWhile (\<lambda>c. c \<noteq> CHR 0x22) (''params'' @ CHR 0x22 # u) = ''params''" by simp
    moreover have "takeWhile (\<lambda>c. c \<noteq> CHR 0x22) (k @ CHR 0x22 # t) = k"
      using assms(1) by (simp add: takeWhile_tail) (metis takeWhile_eq_all_conv)
    ultimately have "k = ''params''" using u by metis
    with assms(2) show False ..
  qed
  moreover have "\<not> starts_with needle_params (CHR 0x22 # t)"
    using assms(3,4) by (cases t) (simp_all add: needle_params_def)
  ultimately show ?thesis
    using from_params_skip [OF assms(1), of "CHR 0x22 # t"]
    by (simp add: quoted_def from_params_Cons)
qed

lemma from_params_head:
  "from_params (request_head [] i c @ needle_params @ rest) = Some (needle_params @ rest)"
proof -
  have "from_params (needle_params @ rest) = Some (needle_params @ rest)"
    by (simp add: needle_params_def from_params_Cons starts_with_iff)
  then show ?thesis
    using from_params_skip [of "show_nat (unat i)"] show_nat_primitive(3) command_name_plain
    by (simp add: request_head_def no_escape_def from_params_quoted)
qed

lemma params_of_from:
  "params_of s =
     (case from_params s of
        None \<Rightarrow> Inr None
      | Some r \<Rightarrow>
          (case dropWhile (\<lambda>c. c \<noteq> CHR '':'') (drop (length needle_params) r) of
             [] \<Rightarrow> Inr None
           | colon # rest \<Rightarrow>
               let obj_start = skipWs rest
               in if obj_start \<noteq> [] \<and> hd obj_start = CHR ''{''
                  then and_then (parseObject obj_start) (\<lambda>(params, s). Inr (Some params))
                  else Inr None))"
  by (simp add: params_of_def from_params_def add.commute split: option.splits)

lemma params_compact:
  assumes "ps \<noteq> []" "\<forall>(k, v) \<in> set ps. no_escape k \<and> no_escape v" "distinct (map fst ps)"
  shows "params_of (compact_request i c ps) = Inr (Some ps)"
proof -
  from parseObject_pairs [OF assms, of "''}''"] show ?thesis
    using from_params_head [of i c "'':{'' @ write_pairs ps @ ''}}''"]
    by (simp add: params_of_from compact_request_def)
qed

text \<open>The top level sees the parameters object as a value up to the first comma or brace.\<close>

lemma top_compact:
  assumes "ps \<noteq> []" "plain_text (fst (hd ps)) \<and> plain_text (snd (hd ps))"
    and escapes: "\<forall>(k, v) \<in> set ps. no_escape k \<and> no_escape v"
    and "\<forall>k \<in> fst ` set (tl ps). k \<noteq> ''request_id'' \<and> k \<noteq> ''command''"
  shows "\<exists>obj s. parseObject (compact_request i c ps) = Inr (obj, s)
    \<and> map_of obj ''request_id'' = Some (show_nat (unat i))
    \<and> map_of obj ''command'' = Some (command_name c)"
proof -
  obtain k v qs where ps: "ps = (k, v) # qs" using assms(1) by (cases ps) auto
  let ?obj = "[(''request_id'', show_nat (unat i)), (''command'', command_name c)]"
  let ?first = "CHR ''{'' # quoted k @ '':'' @ quoted v"
  have prim: "list_all in_primitive ?first"
    using assms(2) punctuation_primitive by (auto simp: ps plain_text_def quoted_def)
  have member: "parse_member (quoted ''params'' @ '':'' @ ?first @ d # rest) = Inr ((''params'', ?first), d # rest)"
    if "\<not> in_primitive d" for d rest
    using parse_member_primitive [OF key_plain(3), of "[]" ?first d rest] prim that by simp
  have "\<exists>obj. parse_members ?obj (quoted ''params'' @ '':'' @ ''{'' @ write_pairs ps @ ''}}'') = Inr (obj, ''}}'')
    \<and> map_of obj ''request_id'' = Some (show_nat (unat i)) \<and> map_of obj ''command'' = Some (command_name c)"
  proof (cases "qs = []")
    case True
    with parse_members_stop [OF member [OF comma_not_primitive(2)], of "''}''"] show ?thesis
      by (simp add: ps)
  next
    case False
    then obtain q rs where qs: "qs = q # rs" by (cases qs) auto
    have ne: "\<forall>(k, v) \<in> set qs. no_escape k \<and> no_escape v" using escapes by (auto simp: ps)
    have keys: "''request_id'' \<notin> fst ` set qs" "''command'' \<notin> fst ` set qs" using assms(4) by (auto simp: ps)
    have "parse_members ?obj (quoted ''params'' @ '':'' @ ''{'' @ write_pairs ps @ ''}}'')
        = Inr (fold (\<lambda>(k, v). AList.update k v) qs (AList.update ''params'' ?first ?obj), ''}}'')"
      using parse_members_more [OF member [OF comma_not_primitive(1)], where obj = ?obj] False
        parse_pairs [OF False ne, of "AList.update ''params'' ?first ?obj" "''}''"]
      by (simp add: ps qs)
    then show ?thesis using map_of_fold_update [OF keys(1)] map_of_fold_update [OF keys(2)] False by simp
  qed
  then obtain obj where o: "parse_members ?obj (quoted ''params'' @ '':'' @ ''{'' @ write_pairs ps @ ''}}'') = Inr (obj, ''}}'')"
    "map_of obj ''request_id'' = Some (show_nat (unat i))" "map_of obj ''command'' = Some (command_name c)"
    by auto
  have "parseObject (compact_request i c ps) = Inr (obj, ''}'')"
    using head_members [of "[]" i c "''params''" "'':{'' @ write_pairs ps @ ''}}''"] o(1)
    by (simp add: compact_request_def needle_quoted)
  with o(2,3) show ?thesis by blast
qed


lemma stoul_show: "stoul (show_nat (unat (i :: 32 word))) = Some (ucast i)"
proof -
  have "unat i < 2 ^ 32" using unsigned_less [of i, where ?'a = nat] by simp
  then show ?thesis
    by (simp add: stoul_def signed_digits_show_nat read_digits_show_nat unsigned_ucast_eq)
qed

text \<open>A blank in the first value ends what the top level takes for the value of \<open>params\<close>.\<close>

lemma blank_in_first_value:
  assumes "plain_text k" "plain_text a" "b \<noteq> []" "\<not> is_space (hd b)" "hd b \<noteq> CHR '',''" "hd b \<noteq> CHR ''}''"
  shows "fromJson (compact_request i c ((k, a @ CHR '' '' # b) # qs)) out = (INVALID_INPUT, out)"
proof -
  let ?first = "CHR ''{'' # quoted k @ '':'' @ CHR 0x22 # a"
  let ?obj = "[(''request_id'', show_nat (unat i)), (''command'', command_name c)]"
  obtain t where t: "write_pairs ((k, a @ CHR '' '' # b) # qs) = quoted k @ '':'' @ CHR 0x22 # a @ CHR '' '' # b @ t"
    by (cases qs) (auto simp: quoted_def)
  let ?rest = "b @ t @ ''}}''"
  obtain d b' where b: "b = d # b'" using assms(3) by (cases b) auto
  have blank: "is_space (CHR '' '')" by (simp add: is_space_def)
  have prim: "list_all in_primitive ?first"
    using assms(1,2) punctuation_primitive by (auto simp: plain_text_def quoted_def)
  have "parse_member (quoted ''params'' @ '':'' @ [] @ ?first @ CHR '' '' # ?rest)
      = Inr ((''params'', ?first), CHR '' '' # ?rest)"
    using prim comma_not_primitive(3) by (intro parse_member_primitive key_plain) simp_all
  moreover have "skipWs (CHR '' '' # ?rest) = ?rest"
    using assms(4) blank by (simp add: skipWs_def b)
  ultimately have m: "parse_members ?obj (quoted ''params'' @ '':'' @ [] @ ?first @ CHR '' '' # ?rest)
      = Inr (AList.update ''params'' ?first ?obj, ?rest)"
    using parse_members_stop [of _ "''params''" ?first "CHR '' '' # ?rest"] assms(5) by (simp add: b)
  have "expect (CHR ''}'') ?rest = Inl ThrowsException" using assms(4,6) by (simp add: expect_def skipWs_def b)
  with m head_members [of "[]" i c "''params''" "'':'' @ [] @ ?first @ CHR '' '' # ?rest"]
  have "parseObject (compact_request i c ((k, a @ CHR '' '' # b) # qs)) = Inl ThrowsException"
    by (simp add: compact_request_def needle_quoted t)
  then show ?thesis by (simp add: fromJson_def)
qed

text \<open>C39 A request in compact form is understood, identifier, command and parameters being what the client
  wrote, if it has at least one parameter, no name of a parameter occurs twice, no name or value holds a quote or a
  backslash, no parameter but the first is called \<open>request_id\<close> or \<open>command\<close> (it would replace the request's own),
  and the name and the value of the first hold no white space, comma, brace or bracket that closes. The last
  condition is the parser's: a request whose first value has a blank followed by more text is refused as malformed,
  and its identifier is not read.\<close>

theorem request_roundtrip:
  assumes "ps \<noteq> []" and "\<forall>(k, v) \<in> set ps. no_escape k \<and> no_escape v" and "distinct (map fst ps)"
    and "\<forall>k \<in> fst ` set (tl ps). k \<noteq> ''request_id'' \<and> k \<noteq> ''command''"
    and "plain_text (fst (hd ps))"
  shows "(plain_text (snd (hd ps)) \<longrightarrow> fromJson (compact_request i c ps) out
      = (OK, \<lparr>rq_request_id = i, rq_command = c, rq_params = ps\<rparr>))
    \<and> (\<forall>a b. snd (hd ps) = a @ CHR '' '' # b \<and> plain_text a \<and> b \<noteq> [] \<and> \<not> is_space (hd b) \<and> hd b \<notin> {CHR '','', CHR ''}''}
        \<longrightarrow> fromJson (compact_request i c ps) out = (INVALID_INPUT, out))"
proof (intro conjI impI allI)
  assume p: "plain_text (snd (hd ps))"
  obtain obj s where "parseObject (compact_request i c ps) = Inr (obj, s)"
    "map_of obj ''request_id'' = Some (show_nat (unat i))" "map_of obj ''command'' = Some (command_name c)"
    using top_compact [OF assms(1) _ assms(2,4), of i c] assms(5) p by blast
  then show "fromJson (compact_request i c ps) out = (OK, \<lparr>rq_request_id = i, rq_command = c, rq_params = ps\<rparr>)"
    using params_compact [OF assms(1-3), of i c]
    by (cases out) (simp add: fromJson_def read_request_id_def stoul_show ucast_up_ucast_id is_up_def
      source_size_def target_size_def word_size)
next
  fix a b assume h: "snd (hd ps) = a @ CHR '' '' # b \<and> plain_text a \<and> b \<noteq> [] \<and> \<not> is_space (hd b) \<and> hd b \<notin> {CHR '','', CHR ''}''}"
  then have "ps = (fst (hd ps), a @ CHR '' '' # b) # tl ps" using assms(1) by (cases ps) auto
  with blank_in_first_value [OF assms(5), of a b i c "tl ps" out] h
  show "fromJson (compact_request i c ps) out = (INVALID_INPUT, out)" by simp
qed

theorem request_roundtrip_witness:
  "fromJson (compact_request 7 GET_CASE_LIST [(''limit'', ''20''), (''note'', ''a, b {c}'')]) empty_request
    = (OK, \<lparr>rq_request_id = 7, rq_command = GET_CASE_LIST,
            rq_params = [(''limit'', ''20''), (''note'', ''a, b {c}'')]\<rparr>)
   \<and> fromJson (compact_request 7 GET_CASE_LIST [(''status'', ''a b'')]) empty_request = (INVALID_INPUT, empty_request)"
proof
  show "fromJson (compact_request 7 GET_CASE_LIST [(''limit'', ''20''), (''note'', ''a, b {c}'')]) empty_request
    = (OK, \<lparr>rq_request_id = 7, rq_command = GET_CASE_LIST, rq_params = [(''limit'', ''20''), (''note'', ''a, b {c}'')]\<rparr>)"
    by (rule request_roundtrip [THEN conjunct1, rule_format])
       (auto simp: plain_text_def no_escape_def in_primitive_def is_space_def)
  show "fromJson (compact_request 7 GET_CASE_LIST [(''status'', ''a b'')]) empty_request = (INVALID_INPUT, empty_request)"
    by (rule request_roundtrip [THEN conjunct2, rule_format, of _ "''a''" "''b''"])
       (auto simp: plain_text_def no_escape_def in_primitive_def is_space_def)
qed

text \<open>A request as \<open>json.dumps\<close> of Python writes it, with a blank after each colon, is rejected as
  malformed as soon as it has a parameter, and its identifier is not read. The client of the dashboard
  writes its requests this way.\<close>

theorem spaced_params_rejected:
  assumes "plain_text k"
  shows "fromJson (request_head '' '' i c @ quoted ''params'' @ '': {'' @ quoted k @ '': '' @ quoted v @ rest) out
    = (INVALID_INPUT, out)"
proof -
  let ?first = "CHR ''{'' # quoted k @ '':''"
  let ?obj = "[(''request_id'', show_nat (unat i)), (''command'', command_name c)]"
  let ?rest = "quoted v @ rest"
  have sp: "list_all is_space '' ''" "is_space (CHR '' '')" by (simp_all add: is_space_def)
  have prim: "list_all in_primitive ?first"
    using assms punctuation_primitive by (auto simp: plain_text_def quoted_def)
  have "parse_member (quoted ''params'' @ '':'' @ '' '' @ ?first @ CHR '' '' # ?rest)
      = Inr ((''params'', ?first), CHR '' '' # ?rest)"
    using prim sp comma_not_primitive(3) by (intro parse_member_primitive key_plain) simp_all
  moreover have s: "skipWs (CHR '' '' # ?rest) = ?rest" using sp(2) by (simp add: skipWs_def quoted_def)
  ultimately have m: "parse_members ?obj (quoted ''params'' @ '':'' @ '' '' @ ?first @ CHR '' '' # ?rest)
      = Inr (AList.update ''params'' ?first ?obj, ?rest)"
    using parse_members_stop [of _ "''params''" ?first "CHR '' '' # ?rest"] by simp
  have "expect (CHR ''}'') ?rest = Inl ThrowsException" by (simp add: expect_def quoted_def)
  with m head_members [OF sp(1), of i c "''params''" "'':'' @ '' '' @ ?first @ CHR '' '' # ?rest"]
  have "parseObject (request_head '' '' i c @ quoted ''params'' @ '': {'' @ quoted k @ '': '' @ ?rest)
      = Inl ThrowsException" by simp
  then show ?thesis by (simp add: fromJson_def)
qed

theorem spaced_params_rejected_witness:
  "fromJson (request_head '' '' 7 GET_CASE_BY_ID @ quoted ''params'' @ '': {'' @ quoted ''case_id''
      @ '': '' @ quoted ''5'' @ ''}}'') empty_request = (INVALID_INPUT, empty_request)"
  by (rule spaced_params_rejected) (simp add: plain_text_def no_escape_def in_primitive_def is_space_def)

end
