(* ===== verification/Gateway.thy ===== *)
theory Gateway
  imports Json_Codec Worker
begin

text \<open>
  The API gateway of the dashboard: \<open>src/os_layer/ipc/src/domain_socket.cpp\<close>, the server on the Unix
  domain socket. A client connection is the \<open>conn\<close> of \<open>Worker\<close>, so its bytes arrive in pieces cut in
  any way. \<open>exec\<close> is \<open>IpcManager::executeQuery\<close>, \<open>now\<close> the clock, and the shared table of the agents is
  an argument, absent when no segment is attached. A retry after \<open>EINTR\<close> is not visible in the model.
  An exception that no handler catches is \<^const>\<open>ThrowsException\<close>: it ends the process.
\<close>

section \<open>Building JSON\<close>

definition je :: "string \<Rightarrow> string" where
  "je s = concat (map (\<lambda>c.
     if c = CHR 0x22 then [CHR 0x5C, CHR 0x22]
     else if c = CHR 0x5C then [CHR 0x5C, CHR 0x5C]
     else if c = CHR 0x0A then [CHR 0x5C, CHR ''n'']
     else if c = CHR 0x0D then [CHR 0x5C, CHR ''r'']
     else if c = CHR 0x09 then [CHR 0x5C, CHR ''t'']
     else if (of_char c :: nat) < 0x20
     then [CHR 0x5C, CHR ''u'', CHR ''0'', CHR ''0'', hex_digit (of_char c div 16), hex_digit (of_char c mod 16)]
     else [c]) s)"

definition jq :: "string \<Rightarrow> string" where
  "jq s = CHR 0x22 # je s @ [CHR 0x22]"

definition isAllDigits :: "string \<Rightarrow> bool" where
  "isAllDigits s \<longleftrightarrow> s \<noteq> [] \<and> list_all is_digit s"

definition is_hex :: "char \<Rightarrow> bool" where
  "is_hex c \<longleftrightarrow> c \<in> set json_hex"

definition isValidUuid :: "string \<Rightarrow> bool" where
  "isValidUuid s \<longleftrightarrow>
     length s = 36
     \<and> list_all (\<lambda>i. if i = 8 \<or> i = 13 \<or> i = 18 \<or> i = 23 then s ! i = CHR ''-'' else is_hex (s ! i)) [0..<36]"

text \<open>The elements of an array or object with a comma between them.\<close>

fun comma_separated :: "string list \<Rightarrow> string" where
  "comma_separated [] = []"
| "comma_separated [x] = x"
| "comma_separated (x # y # xs) = x @ '','' @ comma_separated (y # xs)"

text \<open>\<open>zip\<close> stops with the shorter of the column names and the cells, as the loop does.\<close>

definition row_object :: "string list \<Rightarrow> string list \<Rightarrow> string" where
  "row_object colNames row =
     ''{'' @ comma_separated (map (\<lambda>(name, cell). jq name @ '':'' @ jq cell) (zip colNames row)) @ ''}''"

definition rowsToJsonArray :: "string list \<Rightarrow> string list list \<Rightarrow> string" where
  "rowsToJsonArray colNames rows =
     ''['' @ comma_separated (map (row_object colNames) rows) @ '']''"

text \<open>\<open>stoi\<close> throws when the number does not fit an \<open>int\<close>.\<close>

definition stoi_run :: "string \<Rightarrow> int run" where
  "stoi_run s = (case stoi s of None \<Rightarrow> Inl ThrowsException | Some i \<Rightarrow> Inr i)"

definition safeIntStr :: "string \<Rightarrow> int \<Rightarrow> int \<Rightarrow> int \<Rightarrow> string run" where
  "safeIntStr raw default_val min_val max_val =
     (if raw \<noteq> [] \<and> isAllDigits raw
      then and_then (stoi_run raw) (\<lambda>v. Inr (show_int (max min_val (min max_val v))))
      else Inr (show_int default_val))"

section \<open>The shared table\<close>

definition MAX_AGENTS :: nat where "MAX_AGENTS = 3"

record agent_status =
  as_agent_name :: string
  as_current_status :: int
  as_error_detail :: string
  as_last_updated :: int

record status_table =
  st_active_sessions :: int
  st_agents :: "agent_status list"

section \<open>Handlers\<close>

type_synonym 's handled = "(socket_response \<times> 's) run"

definition handlePing :: "int \<Rightarrow> int \<Rightarrow> socket_request \<Rightarrow> socket_response" where
  "handlePing g_start_time now req =
     response_ok (rq_request_id req)
       (''{'' @ jq ''pong'' @ '':true,'' @ jq ''uptime_seconds'' @ '':'' @ show_int (now - g_start_time) @ ''}'')"

definition agent_object :: "nat \<Rightarrow> agent_status \<Rightarrow> string" where
  "agent_object i a =
     ''{'' @ jq ''index'' @ '':'' @ show_int (int i) @ '',''
     @ jq ''name'' @ '':'' @ jq (as_agent_name a) @ '',''
     @ jq ''status_code'' @ '':'' @ show_int (as_current_status a) @ '',''
     @ jq ''error_detail'' @ '':'' @ jq (as_error_detail a) @ '',''
     @ jq ''last_updated'' @ '':'' @ show_int (as_last_updated a) @ ''}''"

definition no_table :: "socket_request \<Rightarrow> socket_response" where
  "no_table req = response_error (rq_request_id req) INVALID_STATE ''Shared memory not attached''"

definition handleGetAgentStatus :: "status_table option \<Rightarrow> socket_request \<Rightarrow> socket_response" where
  "handleGetAgentStatus table req =
     (case table of
        None \<Rightarrow> no_table req
      | Some t \<Rightarrow>
          response_ok (rq_request_id req)
            (''{'' @ jq ''agents'' @ '':['' @ comma_separated (map (\<lambda>i. agent_object i (st_agents t ! i)) [0..<MAX_AGENTS])
             @ '']}''))"

definition handleGetAgentStatusByIndex :: "status_table option \<Rightarrow> socket_request \<Rightarrow> socket_response run" where
  "handleGetAgentStatusByIndex table req =
     (let idx_str = param req ''index'' []
      in if \<not> isAllDigits idx_str
         then Inr (response_error (rq_request_id req) INVALID_INPUT
                ''Param 'index' must be 0, 1, or 2'')
         else
           and_then (stoi_run idx_str) (\<lambda>idx.
             if idx < 0 \<or> int MAX_AGENTS \<le> idx
             then Inr (response_error (rq_request_id req) INVALID_INPUT
                    ''Param 'index' out of range [0, 2]'')
             else
               (case table of
                  None \<Rightarrow> Inr (no_table req)
                | Some t \<Rightarrow>
                    Inr (response_ok (rq_request_id req) (agent_object (nat idx) (st_agents t ! nat idx))))))"

definition handleGetActiveSessions :: "status_table option \<Rightarrow> socket_request \<Rightarrow> socket_response" where
  "handleGetActiveSessions table req =
     (case table of
        None \<Rightarrow> no_table req
      | Some t \<Rightarrow>
          response_ok (rq_request_id req)
            (''{'' @ jq ''active_sessions'' @ '':'' @ show_int (st_active_sessions t) @ ''}''))"

text \<open>What the list handlers share: run the query, and wrap the rows under \<open>name\<close>.\<close>

definition list_response ::
  "'s query_fun \<Rightarrow> socket_request \<Rightarrow> string \<Rightarrow> string \<Rightarrow> string list \<Rightarrow> string \<Rightarrow> 's \<Rightarrow> 's handled" where
  "list_response exec req query name cols failure ipc =
     and_then (exec query ipc) (\<lambda>(rc, rows, ipc).
       if rc \<noteq> OK then Inr (response_error (rq_request_id req) rc failure, ipc)
       else Inr (response_ok (rq_request_id req)
              (''{'' @ jq name @ '':'' @ rowsToJsonArray cols rows @ ''}''), ipc))"

definition MAX_SQL_OFFSET :: int where "MAX_SQL_OFFSET = 100000"

definition case_list_query :: "string \<Rightarrow> string \<Rightarrow> string" where
  "case_list_query limit offset =
     ''SELECT case_id, case_type, status, registered_at '' @ ''FROM cases ''
     @ ''ORDER BY registered_at DESC '' @ ''LIMIT '' @ limit @ '' OFFSET '' @ offset @ '';''"

definition handleGetCaseList :: "'s query_fun \<Rightarrow> socket_request \<Rightarrow> 's \<Rightarrow> 's handled" where
  "handleGetCaseList exec req ipc =
     and_then (safeIntStr (param req ''limit'' ''100'') 100 1 500) (\<lambda>limit.
       and_then (safeIntStr (param req ''offset'' ''0'') 0 0 MAX_SQL_OFFSET) (\<lambda>offset.
         list_response exec req (case_list_query limit offset) ''cases''
           [''case_id'', ''case_type'', ''status'', ''registered_at''] ''Database query failed'' ipc))"

definition case_by_id_query :: "string \<Rightarrow> string" where
  "case_by_id_query case_id =
     ''SELECT case_id, case_type, status, registered_at, '' @ ''       station_id, lead_officer_id ''
     @ ''FROM cases '' @ ''WHERE case_id = '' @ [CHR 0x27] @ case_id @ [CHR 0x27] @ '' '' @ ''LIMIT 1;''"

definition handleGetCaseById :: "'s query_fun \<Rightarrow> socket_request \<Rightarrow> 's \<Rightarrow> 's handled" where
  "handleGetCaseById exec req ipc =
     (let case_id = param req ''case_id'' []
      in if \<not> isValidUuid case_id
         then Inr (response_error (rq_request_id req) INVALID_INPUT
                (''Invalid or missing 'case_id' (expected UUID)''), ipc)
         else
           and_then (exec (case_by_id_query case_id) ipc) (\<lambda>(rc, rows, ipc).
             if rc \<noteq> OK then Inr (response_error (rq_request_id req) rc ''Database query failed'', ipc)
             else if rows = [] then Inr (response_error (rq_request_id req) NOT_FOUND ''Case not found'', ipc)
             else Inr (response_ok (rq_request_id req)
                    (row_object [''case_id'', ''case_type'', ''status'', ''registered_at'', ''station_id'',
                       ''lead_officer_id''] (hd rows)), ipc)))"

definition hotspot_query :: "string \<Rightarrow> string" where
  "hotspot_query limit =
     ''SELECT zone_id, zone_name, risk_level, incident_count, updated_at ''
     @ ''FROM analytics.crime_hotspots '' @ ''ORDER BY incident_count DESC '' @ ''LIMIT '' @ limit @ '';''"

definition handleGetHotspotData :: "'s query_fun \<Rightarrow> socket_request \<Rightarrow> 's \<Rightarrow> 's handled" where
  "handleGetHotspotData exec req ipc =
     and_then (safeIntStr (param req ''limit'' ''50'') 50 1 200) (\<lambda>limit.
       list_response exec req (hotspot_query limit) ''hotspots''
         [''zone_id'', ''zone_name'', ''risk_level'', ''incident_count'', ''updated_at'']
         ''Hotspot query failed'' ipc)"

definition VALID_PRIORITIES :: "string list" where
  "VALID_PRIORITIES = [''LOW'', ''MEDIUM'', ''HIGH'', ''CRITICAL'']"

definition priority_query :: "string \<Rightarrow> string \<Rightarrow> string" where
  "priority_query p limit =
     (let q = \<lambda>s. [CHR 0x27] @ s @ [CHR 0x27]
      in ''SELECT c.case_id, c.case_type, c.status, ''
         @ ''       ca.priority_level, ca.assignment_status, ca.assigned_at ''
         @ ''FROM cases c '' @ ''JOIN analytics.case_assignments ca ON ca.case_id = c.case_id ''
         @ ''WHERE ca.priority_level IN ( '' @ ''    SELECT unnest(ARRAY[''
         @ ''        CASE WHEN '' @ q p @ '' = '' @ q ''LOW'' @ ''      THEN '' @ q ''LOW'' @ ''      ELSE NULL END,''
         @ ''        CASE WHEN '' @ q p @ '' IN ('' @ q ''LOW'' @ '','' @ q ''MEDIUM'' @ '') THEN '' @ q ''MEDIUM''
         @ '' ELSE NULL END,''
         @ ''        CASE WHEN '' @ q p @ '' IN ('' @ q ''LOW'' @ '','' @ q ''MEDIUM'' @ '','' @ q ''HIGH'' @ '') THEN ''
         @ q ''HIGH'' @ '' ELSE NULL END,''
         @ ''        '' @ q ''CRITICAL'' @ ''    ]::text[]) '' @ '') ''
         @ ''ORDER BY ca.priority_level DESC, ca.assigned_at ASC '' @ ''LIMIT '' @ limit @ '';'')"

definition handleGetPriorityCases :: "'s query_fun \<Rightarrow> socket_request \<Rightarrow> 's \<Rightarrow> 's handled" where
  "handleGetPriorityCases exec req ipc =
     (let min_priority = param req ''min_priority'' ''HIGH''
      in if \<not> list_ex (\<lambda>p. p = min_priority) VALID_PRIORITIES
         then Inr (response_error (rq_request_id req) INVALID_INPUT
                (''Invalid 'min_priority': must be LOW|MEDIUM|HIGH|CRITICAL''), ipc)
         else
           and_then (safeIntStr (param req ''limit'' ''50'') 50 1 200) (\<lambda>limit.
             list_response exec req (priority_query min_priority limit) ''cases''
               [''case_id'', ''case_type'', ''status'', ''priority_level'', ''assignment_status'',
                ''assigned_at''] ''Priority cases query failed'' ipc))"

definition workload_query :: "string \<Rightarrow> string" where
  "workload_query limit =
     ''SELECT o.officer_id, o.name, o.rank, o.status, '' @ ''       COUNT(co.case_id) AS active_cases, ''
     @ ''       d.duty_status '' @ ''FROM officers o '' @ ''LEFT JOIN case_officers co ''
     @ ''       ON co.officer_id = o.officer_id '' @ ''       AND co.removed_at IS NULL ''
     @ ''LEFT JOIN duty_roster d '' @ ''       ON d.officer_id = o.officer_id ''
     @ ''       AND d.duty_status = '' @ [CHR 0x27] @ ''ON_DUTY'' @ [CHR 0x27] @ '' ''
     @ ''WHERE o.status = '' @ [CHR 0x27] @ ''ACTIVE'' @ [CHR 0x27] @ '' ''
     @ ''GROUP BY o.officer_id, o.name, o.rank, o.status, d.duty_status ''
     @ ''ORDER BY active_cases DESC '' @ ''LIMIT '' @ limit @ '';''"

definition handleGetOfficerWorkload :: "'s query_fun \<Rightarrow> socket_request \<Rightarrow> 's \<Rightarrow> 's handled" where
  "handleGetOfficerWorkload exec req ipc =
     and_then (safeIntStr (param req ''limit'' ''50'') 50 1 200) (\<lambda>limit.
       list_response exec req (workload_query limit) ''officers''
         [''officer_id'', ''name'', ''rank'', ''status'', ''active_cases'', ''duty_status'']
         ''Officer workload query failed'' ipc)"

text \<open>What the server knows besides the connection; table and clock may change from request to request.\<close>

record 's gateway_env =
  gw_exec :: "'s query_fun"
  gw_table :: "nat \<Rightarrow> status_table option"
  gw_start_time :: int
  gw_now :: "nat \<Rightarrow> int"

definition dispatch :: "'s gateway_env \<Rightarrow> nat \<Rightarrow> socket_request \<Rightarrow> 's \<Rightarrow> 's handled" where
  "dispatch env k req ipc =
     (case rq_command req of
        PING \<Rightarrow> Inr (handlePing (gw_start_time env) (gw_now env k) req, ipc)
      | GET_AGENT_STATUS \<Rightarrow> Inr (handleGetAgentStatus (gw_table env k) req, ipc)
      | GET_AGENT_STATUS_BY_INDEX \<Rightarrow>
          and_then (handleGetAgentStatusByIndex (gw_table env k) req) (\<lambda>r. Inr (r, ipc))
      | GET_ACTIVE_SESSIONS \<Rightarrow> Inr (handleGetActiveSessions (gw_table env k) req, ipc)
      | GET_CASE_LIST \<Rightarrow> handleGetCaseList (gw_exec env) req ipc
      | GET_CASE_BY_ID \<Rightarrow> handleGetCaseById (gw_exec env) req ipc
      | GET_HOTSPOT_DATA \<Rightarrow> handleGetHotspotData (gw_exec env) req ipc
      | GET_PRIORITY_CASES \<Rightarrow> handleGetPriorityCases (gw_exec env) req ipc
      | GET_OFFICER_WORKLOAD \<Rightarrow> handleGetOfficerWorkload (gw_exec env) req ipc
      | UNKNOWN \<Rightarrow> Inr (response_error (rq_request_id req) INVALID_INPUT ''Unknown command'', ipc))"

section \<open>Frames\<close>

definition DOMAIN_SOCKET_MAX_MSG_BYTES :: nat where "DOMAIN_SOCKET_MAX_MSG_BYTES = 65536"

text \<open>
  The receive loop: until \<open>n\<close> bytes are there, end of file or an error. \<open>got\<close> is what has been read.
\<close>

function recv_all :: "nat \<Rightarrow> string \<Rightarrow> conn \<Rightarrow> ((result_code + string) \<times> conn) run" where
  "recv_all n got c =
     (if n \<le> length got then Inr (Inr got, c)
      else
        (case sock_read (n - length got) c of
           Inl f \<Rightarrow> Inl f
         | Inr (None, c') \<Rightarrow> Inr (Inl FILE_SYSTEM_ERROR, c')
         | Inr (Some [], c') \<Rightarrow> Inr (Inl NOT_FOUND, c')
         | Inr (Some (x # xs), c') \<Rightarrow> recv_all n (got @ x # xs) c'))"
  by pat_completeness auto
termination
  by (relation "measure (\<lambda>(n, got, c). n - length got)") auto

declare recv_all.simps [simp del]

definition recvFrame :: "conn \<Rightarrow> ((result_code + string) \<times> conn) run" where
  "recvFrame c =
     (case recv_all 4 [] c of
        Inl f \<Rightarrow> Inl f
      | Inr (Inl rc, c) \<Rightarrow> Inr (Inl rc, c)
      | Inr (Inr len_buf, c) \<Rightarrow>
          let payload_len = unat (get32 len_buf)
          in if payload_len = 0 \<or> DOMAIN_SOCKET_MAX_MSG_BYTES < payload_len
             then Inr (Inl INVALID_INPUT, c)
             else recv_all payload_len [] c)"

text \<open>
  A write sends what the peer accepts and goes on with the rest; when the peer accepts no more, \<open>send\<close>
  fails. The length is cast to 32 bits.
\<close>

definition gw_sendFrame :: "string \<Rightarrow> conn \<Rightarrow> result_code \<times> conn" where
  "gw_sendFrame text c =
     (let payload_len = (word_of_nat (length text) :: 32 word);
          (n, c) = sock_write (put32 payload_len) c
      in if n < 4 then (FILE_SYSTEM_ERROR, c)
         else
           let (n, c) = sock_write (take (unat payload_len) text) c
           in if n < unat payload_len then (FILE_SYSTEM_ERROR, c) else (OK, c))"

section \<open>The client thread\<close>

text \<open>The answer to one received text.\<close>

definition answer :: "'s gateway_env \<Rightarrow> nat \<Rightarrow> string \<Rightarrow> 's \<Rightarrow> 's handled" where
  "answer env k json_in ipc =
     (case fromJson json_in empty_request of
        (rc, req) \<Rightarrow>
          if rc \<noteq> OK
          then Inr (response_error (rq_request_id req) INVALID_INPUT ''Malformed JSON request'', ipc)
          else dispatch env k req ipc)"

lemma recv_all_size:
  "recv_all n got c = Inr (Inr s, c') \<Longrightarrow> length got \<le> n \<Longrightarrow>
     length s = n \<and> input_size c' + n = input_size c + length got"
proof (induction n got c rule: recv_all.induct)
  case (1 n got c)
  show ?case
  proof (cases "n \<le> length got")
    case True
    with 1(2,3) show ?thesis by (simp add: recv_all.simps)
  next
    case False
    with 1(2) obtain x xs c1 where r: "sock_read (n - length got) c = Inr (Some (x # xs), c1)"
      and s: "recv_all n (got @ x # xs) c1 = Inr (Inr s, c')"
      by (subst (asm) recv_all.simps)
        (auto simp del: sock_read.simps split: sum.splits prod.splits option.splits list.splits)
    from sock_read_size [OF r] 1(1) [OF False r refl refl refl s] False show ?thesis by auto
  qed
qed

lemma recvFrame_size:
  assumes "recvFrame c = Inr (Inr s, c')"
  shows "s \<noteq> [] \<and> length s \<le> DOMAIN_SOCKET_MAX_MSG_BYTES \<and> input_size c' + 4 + length s = input_size c"
proof -
  from assms obtain len_buf c1 where h: "recv_all 4 [] c = Inr (Inr len_buf, c1)"
    and n: "unat (get32 len_buf) \<noteq> 0" "unat (get32 len_buf) \<le> DOMAIN_SOCKET_MAX_MSG_BYTES"
    and b: "recv_all (unat (get32 len_buf)) [] c1 = Inr (Inr s, c')"
    by (auto simp: recvFrame_def Let_def split: prod.splits sum.splits if_splits)
  from recv_all_size [OF h] recv_all_size [OF b] n show ?thesis by auto
qed

lemma gw_sendFrame_input [simp]: "cn_input (snd (gw_sendFrame text c)) = cn_input c"
  by (simp add: gw_sendFrame_def sock_write_def Let_def)

text \<open>The loop of \<open>clientHandler\<close>; \<open>k\<close> counts the requests.\<close>

function clientHandler :: "'s gateway_env \<Rightarrow> nat \<Rightarrow> conn \<Rightarrow> 's \<Rightarrow> (conn \<times> 's) run" where
  "clientHandler env k c ipc =
     (case recvFrame c of
        Inl f \<Rightarrow> Inl f
      | Inr (Inl rc, c1) \<Rightarrow> Inr (c1\<lparr>cn_closed := True\<rparr>, ipc)
      | Inr (Inr json_in, c1) \<Rightarrow>
          (case answer env k json_in ipc of
             Inl e \<Rightarrow> Inl e
           | Inr (resp, ipc') \<Rightarrow>
               (case gw_sendFrame (toJson resp) c1 of
                  (rc, c2) \<Rightarrow>
                    if rc \<noteq> OK then Inr (c2\<lparr>cn_closed := True\<rparr>, ipc')
                    else clientHandler env (k + 1) c2 ipc')))"
  by pat_completeness auto
termination
proof (relation "measure (\<lambda>(env, k, c, ipc). input_size c)", goal_cases)
  case 2
  then obtain json_in c1 resp c2 c where "recvFrame c = Inr (Inr json_in, c1)"
    "gw_sendFrame (toJson resp) c1 = (OK, c2)" "?case \<longleftrightarrow> input_size c2 < input_size c"
    by (auto simp: eq_commute)
  with recvFrame_size [of c json_in c1] gw_sendFrame_input [of "toJson resp" c1] show ?case
    by (simp add: input_size_def)
qed simp

declare clientHandler.simps [simp del]

section \<open>Starting and stopping\<close>

record gateway =
  gs_path :: string
  gs_server_fd :: int
  gs_running :: bool
  gs_accept_thread :: bool
  gs_file :: bool   \<comment> \<open>whether the socket file exists\<close>

definition sun_path_size :: nat where "sun_path_size = 108"

text \<open>
  The outcomes of the system calls of \<open>start\<close>: \<open>socket\<close> gives a descriptor or fails, the others
  succeed or fail.
\<close>

record start_calls =
  sys_socket :: "int option"
  sys_bind :: bool
  sys_listen :: bool
  sys_pthread_create :: bool

definition gateway_init :: "string \<Rightarrow> gateway" where
  "gateway_init path = \<lparr>gs_path = path, gs_server_fd = -1, gs_running = False,
     gs_accept_thread = False, gs_file = False\<rparr>"

definition gateway_start :: "start_calls \<Rightarrow> gateway \<Rightarrow> result_code \<times> gateway" where
  "gateway_start sys ds =
     (if gs_running ds then (INVALID_STATE, ds)
      else
        let ds = ds\<lparr>gs_file := False\<rparr>
        in (case sys_socket sys of
              None \<Rightarrow> (FILE_SYSTEM_ERROR, ds\<lparr>gs_server_fd := -1\<rparr>)
            | Some fd \<Rightarrow>
                if sun_path_size \<le> length (gs_path ds) then (INVALID_INPUT, ds\<lparr>gs_server_fd := -1\<rparr>)
                else if \<not> sys_bind sys then (FILE_SYSTEM_ERROR, ds\<lparr>gs_server_fd := -1\<rparr>)
                else
                  let ds = ds\<lparr>gs_file := True\<rparr>
                  in if \<not> sys_listen sys
                     then (FILE_SYSTEM_ERROR, ds\<lparr>gs_server_fd := -1, gs_file := False\<rparr>)
                     else if \<not> sys_pthread_create sys
                     then (FILE_SYSTEM_ERROR,
                           ds\<lparr>gs_running := False, gs_server_fd := -1, gs_file := False\<rparr>)
                     else (OK, ds\<lparr>gs_server_fd := fd, gs_running := True, gs_accept_thread := True\<rparr>)))"

text \<open>\<open>accept_ends\<close>: whether the accept thread, once the socket is closed, comes to its end, so that
  \<open>pthread_join\<close> returns; \<open>Accept_Loop\<close> shows when it does.\<close>

definition gateway_stop :: "bool \<Rightarrow> gateway \<Rightarrow> gateway run" where
  "gateway_stop accept_ends ds =
     (if \<not> gs_running ds then Inr ds
      else if gs_accept_thread ds \<and> \<not> accept_ends then Inl BlocksForever
      else Inr (ds\<lparr>gs_running := False, gs_server_fd := (if 0 \<le> gs_server_fd ds then -1 else gs_server_fd ds),
              gs_accept_thread := False, gs_file := False\<rparr>))"

section \<open>Every response is JSON\<close>

lemma je_jsonEscape: "je s = jsonEscape s"
  by (simp add: je_def jsonEscape_def escape_char_def [abs_def])

lemma jq_quoted: "jq s = quoted (jsonEscape s)"
  by (simp add: jq_def quoted_def je_jsonEscape)

lemma json_jq: "json (jq s)"
  unfolding jq_quoted by (intro json_intros json_chars_jsonEscape)

lemma json_member: "json v \<Longrightarrow> json_members (jq k @ '':'' @ v)"
  unfolding jq_quoted by (intro json_intros json_chars_jsonEscape)

lemma json_more: "json v \<Longrightarrow> json_members s \<Longrightarrow> json_members (jq k @ '':'' @ v @ '','' @ s)"
  unfolding jq_quoted by (intro json_intros(10) json_chars_jsonEscape)

lemma json_elements_comma:
  "xs \<noteq> [] \<Longrightarrow> \<forall>x \<in> set xs. json x \<Longrightarrow> json_elements (comma_separated xs)"
proof (induction xs rule: comma_separated.induct)
  case (3 x y xs)
  then show ?case using json_intros(12) [of x "comma_separated (y # xs)"] by simp
qed (auto intro: json_intros)

lemma json_array: "\<forall>x \<in> set xs. json x \<Longrightarrow> json (''['' @ comma_separated xs @ '']'')"
  using json_elements_comma [of xs] json_intros(7,8) by (cases "xs = []") auto

lemma json_members_comma:
  "ms \<noteq> [] \<Longrightarrow> json_members (comma_separated (map (\<lambda>(name, cell). jq name @ '':'' @ jq cell) ms))"
proof (induction ms rule: induct_list012)
  case (2 m)
  then show ?case using json_member [OF json_jq] by (cases m) simp
next
  case (3 m m' ms)
  then show ?case using json_more [OF json_jq] by (cases m) simp
qed simp

lemma json_row: "json (row_object names cells)"
proof (cases "zip names cells = []")
  case True
  then show ?thesis using json_intros(5) by (auto simp: row_object_def)
next
  case False
  from json_intros(6) [OF json_members_comma [OF this]] show ?thesis by (simp add: row_object_def)
qed

lemma json_rows: "json (rowsToJsonArray names rows)"
  unfolding rowsToJsonArray_def by (intro json_array) (auto intro: json_row)

lemma json_object_member: "json v \<Longrightarrow> json (''{'' @ jq k @ '':'' @ v @ ''}'')"
  using json_intros(6) [OF json_member] by fastforce

lemma json_agent: "json (agent_object i a)"
proof -
  have "json_members (jq ''index'' @ '':'' @ show_int (int i) @ '','' @ jq ''name'' @ '':'' @ jq (as_agent_name a)
     @ '','' @ jq ''status_code'' @ '':'' @ show_int (as_current_status a) @ '',''
     @ jq ''error_detail'' @ '':'' @ jq (as_error_detail a) @ '',''
     @ jq ''last_updated'' @ '':'' @ show_int (as_last_updated a))"
    by (intro json_more json_member json_jq json_intros(2))
  from json_intros(6) [OF this] show ?thesis by (simp add: agent_object_def)
qed

text \<open>A good response: its payload is empty or JSON.\<close>

definition good_response :: "socket_response \<Rightarrow> bool" where
  "good_response r \<longleftrightarrow> rs_payload r = [] \<or> json (rs_payload r)"

lemma good_error [simp]: "good_response (response_error i rc msg)"
  by (simp add: good_response_def response_error_def)

lemma good_ok: "json p \<Longrightarrow> good_response (response_ok i p)"
  by (simp add: good_response_def response_ok_def)

lemma good_toJson: "good_response r \<Longrightarrow> json (toJson r)"
  by (rule toJson_json) (auto simp: good_response_def)

lemma good_ping: "good_response (handlePing t now req)"
proof -
  have "json_members (jq ''pong'' @ '':'' @ ''true'' @ '','' @ jq ''uptime_seconds'' @ '':'' @ show_int (now - t))"
    by (intro json_more json_member json_intros(2,4))
  from json_intros(6) [OF this] show ?thesis
    by (simp add: handlePing_def good_ok)
qed

lemma good_agents: "good_response (handleGetAgentStatus table req)"
proof (cases table)
  case (Some t)
  have "json (''['' @ comma_separated (map (\<lambda>i. agent_object i (st_agents t ! i)) [0..<MAX_AGENTS]) @ '']'')"
    by (rule json_array) (auto intro: json_agent)
  from json_object_member [OF this, of "''agents''"] Some show ?thesis
    by (simp add: handleGetAgentStatus_def good_ok)
qed (simp add: handleGetAgentStatus_def no_table_def)

lemma good_sessions: "good_response (handleGetActiveSessions table req)"
  using json_object_member [OF json_intros(2), of "''active_sessions''"]
  by (auto simp: handleGetActiveSessions_def no_table_def intro!: good_ok split: option.split)

lemma good_agent:
  "handleGetAgentStatusByIndex table req = Inr r \<Longrightarrow> good_response r"
  by (auto simp: handleGetAgentStatusByIndex_def no_table_def Let_def and_then_Inr_iff good_ok json_agent
      split: if_splits option.splits)

lemma good_list:
  "list_response exec req query name cols failure ipc = Inr (r, ipc') \<Longrightarrow> good_response r"
  using json_object_member [OF json_rows, of name]
  by (auto simp: list_response_def and_then_Inr_iff good_ok split: if_splits)

lemma good_case:
  "handleGetCaseById exec req ipc = Inr (r, ipc') \<Longrightarrow> good_response r"
  by (auto simp: handleGetCaseById_def Let_def and_then_Inr_iff json_row intro!: good_ok split: if_splits)

lemma good_dispatch: "dispatch env k req ipc = Inr (r, ipc') \<Longrightarrow> good_response r"
  by (cases "rq_command req")
     (auto simp: dispatch_def and_then_Inr_iff handleGetCaseList_def handleGetHotspotData_def
        handleGetPriorityCases_def handleGetOfficerWorkload_def Let_def good_ping good_agents good_sessions
        split: if_splits dest: good_agent good_list good_case)

text \<open>C12 Whatever a client sends, whatever the tables hold and whatever the agents wrote into their
  fields: the text that goes back is one well-formed JSON object.\<close>

theorem gateway_responses_are_json:
  assumes "answer env k text ipc = Inr (resp, ipc')"
  shows "json (toJson resp)"
  using assms good_dispatch
  by (intro good_toJson) (auto simp: answer_def split: if_splits prod.splits)

definition demo_gateway :: "'s query_fun \<Rightarrow> 's gateway_env" where
  "demo_gateway exec = \<lparr>gw_exec = exec, gw_table = (\<lambda>k. None),
     gw_start_time = 100, gw_now = (\<lambda>k. 160 + int k)\<rparr>"

definition no_query :: "unit query_fun" where
  "no_query q u = Inr (DB_ERROR, [], u)"

lemma demo_answer: "\<exists>resp. answer (demo_gateway no_query) k ''hello'' () = Inr (resp, ())"
  by (simp add: answer_def fromJson_def parseObject_def expect_def skipWs_def is_space_def)

theorem gateway_responses_are_json_witness:
  "\<exists>resp. answer (demo_gateway no_query) 0 ''hello'' () = Inr (resp, ()) \<and> json (toJson resp)"
  using demo_answer [of 0] gateway_responses_are_json by metis

section \<open>What the gateway asks the database\<close>

text \<open>An \<open>exec\<close> that only notes the queries.\<close>

definition recording :: "(string \<Rightarrow> result_code \<times> string list list) \<Rightarrow> string list query_fun" where
  "recording ans q log = Inr (fst (ans q), snd (ans q), log @ [q])"

text \<open>One statement that reads: its only semicolon is at the end, and its literals are closed.\<close>

definition safe_query :: "string \<Rightarrow> bool" where
  "safe_query q \<longleftrightarrow> take 7 q = ''SELECT '' \<and> count_list q (CHR '';'') = 1 \<and> last q = CHR '';''
     \<and> even (count_list q (CHR 0x27))"

definition harmless :: "string \<Rightarrow> bool" where
  "harmless s \<longleftrightarrow> CHR '';'' \<notin> set s \<and> CHR 0x27 \<notin> set s"

lemma count_list_append [simp]: "count_list (xs @ ys) c = count_list xs c + count_list ys c"
  by (induction xs) simp_all

lemma harmless_count: "harmless s \<Longrightarrow> count_list s (CHR '';'') = 0 \<and> count_list s (CHR 0x27) = 0"
  by (simp add: harmless_def count_list_0_iff)

lemma harmless_show_int: "harmless (show_int i)"
proof -
  have "CHR '';'' \<notin> set (show_nat n)" "CHR 0x27 \<notin> set (show_nat n)" for n
    using show_nat_digits [of n] by (auto simp: is_digit_def)
  then show ?thesis by (auto simp: harmless_def show_int_def)
qed

lemma harmless_safeIntStr: "safeIntStr raw d lo hi = Inr s \<Longrightarrow> harmless s"
  by (auto simp: safeIntStr_def and_then_Inr_iff harmless_show_int split: if_splits)

lemma uuid_chars:
  assumes "isValidUuid s" and "c \<in> set s"
  shows "c = CHR ''-'' \<or> is_hex c"
proof -
  from assms(2) obtain i where "i < length s" "c = s ! i" by (auto simp: in_set_conv_nth)
  moreover from assms(1) have "length s = 36" by (simp add: isValidUuid_def)
  ultimately have "i \<in> set [0..<36]" by simp
  with assms(1) \<open>c = s ! i\<close> show ?thesis
    unfolding isValidUuid_def list_all_iff by metis
qed

lemma harmless_uuid: "isValidUuid s \<Longrightarrow> harmless s"
  using uuid_chars [of s] by (auto simp: harmless_def is_hex_def json_hex_def)

lemma harmless_priority: "list_ex (\<lambda>p. p = s) VALID_PRIORITIES \<Longrightarrow> harmless s"
  by (auto simp: VALID_PRIORITIES_def harmless_def)

lemma query_counts:
  assumes "harmless a" "harmless b" "x \<in> {CHR '';'', CHR 0x27}"
  shows "count_list (case_list_query a b) x = count_list (case_list_query [] []) x"
    "count_list (case_by_id_query a) x = count_list (case_by_id_query []) x"
    "count_list (hotspot_query a) x = count_list (hotspot_query []) x"
    "count_list (priority_query a b) x = count_list (priority_query [] []) x"
    "count_list (workload_query a) x = count_list (workload_query []) x"
proof -
  have c: "count_list a x = 0" "count_list b x = 0"
    using assms harmless_count by auto
  show "count_list (case_list_query a b) x = count_list (case_list_query [] []) x"
    "count_list (case_by_id_query a) x = count_list (case_by_id_query []) x"
    "count_list (hotspot_query a) x = count_list (hotspot_query []) x"
    "count_list (priority_query a b) x = count_list (priority_query [] []) x"
    "count_list (workload_query a) x = count_list (workload_query []) x"
    by (simp_all only: case_list_query_def case_by_id_query_def hotspot_query_def priority_query_def
        workload_query_def Let_def count_list_append c count_list.simps(1) add_0_left)
qed

lemma template_counts:
  "map (\<lambda>q. count_list q (CHR '';''))
     [case_list_query [] [], case_by_id_query [], hotspot_query [], priority_query [] [], workload_query []]
     = [1, 1, 1, 1, 1]"
  "map (\<lambda>q. even (count_list q (CHR 0x27)))
     [case_list_query [] [], case_by_id_query [], hotspot_query [], priority_query [] [], workload_query []]
     = [True, True, True, True, True]"
  by code_simp+

lemma take7: "take 7 (c1 # c2 # c3 # c4 # c5 # c6 # c7 # s) = [c1, c2, c3, c4, c5, c6, c7]"
  by simp

lemma query_starts:
  "take 7 (case_list_query a b) = ''SELECT ''" "take 7 (case_by_id_query a) = ''SELECT ''"
  "take 7 (hotspot_query a) = ''SELECT ''" "take 7 (priority_query a b) = ''SELECT ''"
  "take 7 (workload_query a) = ''SELECT ''"
  unfolding case_list_query_def case_by_id_query_def hotspot_query_def priority_query_def
      workload_query_def Let_def append_Cons by (rule take7)+

lemma query_ends:
  "last (case_list_query a b) = CHR '';''" "last (case_by_id_query a) = CHR '';''"
  "last (hotspot_query a) = CHR '';''" "last (priority_query a b) = CHR '';''"
  "last (workload_query a) = CHR '';''"
  by (simp_all only: case_list_query_def case_by_id_query_def hotspot_query_def priority_query_def
      workload_query_def Let_def last_append append_is_Nil_conv list.distinct last.simps simp_thms if_False
      if_True)

lemma safe_queries:
  assumes "harmless a"
  shows "harmless b \<Longrightarrow> safe_query (case_list_query a b)" "safe_query (case_by_id_query a)"
    "safe_query (hotspot_query a)" "harmless b \<Longrightarrow> safe_query (priority_query a b)"
    "safe_query (workload_query a)"
  using template_counts query_counts [OF assms] query_counts [OF assms, of a] assms
  by (simp_all add: safe_query_def query_starts query_ends)

lemma list_response_log:
  "list_response (recording ans) req q name cols failure log = Inr (r, log') \<Longrightarrow> log' = log @ [q]"
  by (auto simp: list_response_def recording_def split: if_splits)

text \<open>C11 The gateway only reads: a request makes it run at most one query, which is a single SELECT
  statement with closed literals, whatever the request's parameters are.\<close>

theorem gateway_queries_safe:
  assumes "gw_exec env = recording ans" and "dispatch env k req log = Inr (resp, log')"
  shows "log' = log \<or> (\<exists>q. log' = log @ [q] \<and> safe_query q)"
proof (cases "rq_command req")
  case GET_CASE_LIST
  with assms show ?thesis
    by (auto simp: dispatch_def handleGetCaseList_def and_then_Inr_iff
        dest!: harmless_safeIntStr list_response_log intro!: safe_queries)
next
  case GET_CASE_BY_ID
  with assms show ?thesis
    by (auto simp: dispatch_def handleGetCaseById_def Let_def recording_def
        dest!: harmless_uuid intro!: safe_queries split: if_splits)
next
  case GET_HOTSPOT_DATA
  with assms show ?thesis
    by (auto simp: dispatch_def handleGetHotspotData_def and_then_Inr_iff
        dest!: harmless_safeIntStr list_response_log intro!: safe_queries)
next
  case GET_PRIORITY_CASES
  with assms show ?thesis
    by (auto simp: dispatch_def handleGetPriorityCases_def Let_def and_then_Inr_iff
        dest!: harmless_safeIntStr harmless_priority list_response_log intro!: safe_queries split: if_splits)
next
  case GET_OFFICER_WORKLOAD
  with assms show ?thesis
    by (auto simp: dispatch_def handleGetOfficerWorkload_def and_then_Inr_iff
        dest!: harmless_safeIntStr list_response_log intro!: safe_queries)
qed (use assms in \<open>auto simp: dispatch_def and_then_Inr_iff\<close>)

theorem gateway_queries_safe_witness:
  "\<exists>resp q. dispatch (demo_gateway (recording (\<lambda>q. (OK, [])))) 0
      \<lparr>rq_request_id = 1, rq_command = GET_CASE_LIST, rq_params = []\<rparr> [] = Inr (resp, [q]) \<and> safe_query q"
proof -
  have n: "stoi ''100'' = Some 100" "stoi ''0'' = Some 0" by code_simp+
  then obtain resp q where "dispatch (demo_gateway (recording (\<lambda>q. (OK, [])))) 0
      \<lparr>rq_request_id = 1, rq_command = GET_CASE_LIST, rq_params = []\<rparr> [] = Inr (resp, [q])"
    by (simp add: dispatch_def handleGetCaseList_def param_def safeIntStr_def stoi_run_def isAllDigits_def
        is_digit_def demo_gateway_def list_response_def recording_def)
  with gateway_queries_safe [of "demo_gateway (recording (\<lambda>q. (OK, [])))"] show ?thesis
    by (fastforce simp: demo_gateway_def)
qed

section \<open>Numbers that do not fit\<close>

definition big_number :: "string \<Rightarrow> bool" where
  "big_number s \<longleftrightarrow> isAllDigits s \<and> 2 ^ 31 \<le> int (read_digits s)"

lemma stoi_digits:
  assumes "isAllDigits s"
  shows "stoi s = (if big_number s then None else Some (int (read_digits s)))"
proof -
  from assms obtain c cs where s: "s = c # cs" "is_digit c" "\<forall>d \<in> set cs. is_digit d"
    by (cases s) (auto simp: isAllDigits_def list_all_iff)
  then have "\<not> is_space c" "c \<noteq> CHR ''-''" "c \<noteq> CHR ''+''"
    by (auto simp: is_digit_def is_space_def)
  with s have "signed_digits s = (False, s)" by (simp add: signed_digits_def takeWhile_eq_all_conv)
  with assms show ?thesis by (auto simp: stoi_def atoi_def big_number_def s(1))
qed

lemma stoi_run_digits:
  "isAllDigits s \<Longrightarrow> stoi_run s = (if big_number s then Inl ThrowsException else Inr (int (read_digits s)))"
  by (simp add: stoi_run_def stoi_digits)

lemma safeIntStr_cases:
  "safeIntStr raw d lo hi = (if big_number raw then Inl ThrowsException
     else Inr (show_int (if isAllDigits raw then max lo (min hi (int (read_digits raw))) else d)))"
  by (auto simp: safeIntStr_def stoi_run_digits isAllDigits_def big_number_def)

text \<open>The parameters that are converted with \<open>stoi\<close>, command by command.\<close>

definition number_params :: "socket_request \<Rightarrow> string list" where
  "number_params req =
     (case rq_command req of
        GET_AGENT_STATUS_BY_INDEX \<Rightarrow> [param req ''index'' []]
      | GET_CASE_LIST \<Rightarrow> [param req ''limit'' ''100'', param req ''offset'' ''0'']
      | GET_HOTSPOT_DATA \<Rightarrow> [param req ''limit'' ''50'']
      | GET_OFFICER_WORKLOAD \<Rightarrow> [param req ''limit'' ''50'']
      | GET_PRIORITY_CASES \<Rightarrow>
          if param req ''min_priority'' ''HIGH'' \<in> set VALID_PRIORITIES then [param req ''limit'' ''50''] else []
      | _ \<Rightarrow> [])"

text \<open>A number that does not fit an \<open>int\<close> ends the whole process: the handlers convert every text of
  digits with \<open>stoi\<close>, nothing on the client's thread catches \<open>out_of_range\<close>, and this is the only way
  in which a request can make the gateway throw or block.\<close>

theorem gateway_fails_on_big_numbers:
  assumes "gw_exec env = executeQuery lib" and "\<not> us_held us"
  shows "dispatch env k req us = Inl e \<longleftrightarrow>
    e = ThrowsException \<and> (\<exists>s \<in> set (number_params req). big_number s)"
proof -
  have ex: "executeQuery lib q us \<noteq> Inl e'" for q e'
    using ipc.exec_returns [OF assms(2), of lib q] by auto
  have list: "list_response (executeQuery lib) req q name cols failure us \<noteq> Inl e" for q name cols failure
    using ex [of q] by (auto simp: list_response_def and_then_Inl_iff split: if_splits)
  have prio: "list_ex (\<lambda>p. p = s) VALID_PRIORITIES \<longleftrightarrow> s \<in> set VALID_PRIORITIES" for s
    by (auto simp: list_ex_iff)
  show ?thesis
  proof (cases "rq_command req")
    case GET_AGENT_STATUS_BY_INDEX
    then show ?thesis
      by (auto simp: dispatch_def handleGetAgentStatusByIndex_def number_params_def Let_def
          and_then_Inl_iff stoi_run_digits big_number_def split: if_splits option.splits)
  next
    case GET_CASE_LIST
    then show ?thesis
      using list by (auto simp: dispatch_def handleGetCaseList_def number_params_def safeIntStr_cases
          assms(1) and_then_Inl_iff)
  next
    case GET_CASE_BY_ID
    then show ?thesis
      using ex by (auto simp: dispatch_def handleGetCaseById_def number_params_def assms(1) Let_def
          and_then_Inl_iff split: if_splits)
  next
    case GET_HOTSPOT_DATA
    then show ?thesis
      using list by (auto simp: dispatch_def handleGetHotspotData_def number_params_def safeIntStr_cases
          assms(1) and_then_Inl_iff)
  next
    case GET_PRIORITY_CASES
    then show ?thesis
      using list by (auto simp: dispatch_def handleGetPriorityCases_def number_params_def safeIntStr_cases
          assms(1) and_then_Inl_iff prio Let_def)
  next
    case GET_OFFICER_WORKLOAD
    then show ?thesis
      using list by (auto simp: dispatch_def handleGetOfficerWorkload_def number_params_def safeIntStr_cases
          assms(1) and_then_Inl_iff)
  qed (simp_all add: dispatch_def number_params_def)
qed

theorem gateway_fails_on_big_numbers_witness:
  "dispatch (demo_gateway (executeQuery demo_lib)) 0
      \<lparr>rq_request_id = 1, rq_command = GET_CASE_LIST, rq_params = [(''limit'', ''3000000000'')]\<rparr> demo_socket
    = Inl ThrowsException"
proof -
  let ?env = "demo_gateway (executeQuery demo_lib)"
  let ?req = "\<lparr>rq_request_id = 1, rq_command = GET_CASE_LIST, rq_params = [(''limit'', ''3000000000'')]\<rparr>"
  have env: "gw_exec ?env = executeQuery demo_lib" by (simp add: demo_gateway_def)
  have free: "\<not> us_held demo_socket" by (simp add: demo_socket_def)
  have p: "param ?req ''limit'' ''100'' \<in> set (number_params ?req)" by (simp add: number_params_def)
  have v: "param ?req ''limit'' ''100'' = ''3000000000''" by (simp add: param_def)
  have b: "big_number ''3000000000''"
    by (simp add: big_number_def isAllDigits_def is_digit_def read_digits_def digit_value_def)
  have big: "\<exists>s \<in> set (number_params ?req). big_number s"
    by (rule bexI [OF _ p]) (simp only: v b)
  show ?thesis
    by (rule gateway_fails_on_big_numbers [OF env free, THEN iffD2]) (intro conjI refl big)
qed

section \<open>Answers in order\<close>

text \<open>The bytes still to come, when the peer neither closes early nor fails: every piece has bytes.\<close>

definition flowing :: "conn \<Rightarrow> bool" where
  "flowing c \<longleftrightarrow> (\<forall>a \<in> set (cn_input c). \<exists>x xs. a = Bytes (x # xs))"

fun arrival_bytes :: "arrival \<Rightarrow> string" where
  "arrival_bytes (Bytes s) = s"
| "arrival_bytes ReadFails = []"
| "arrival_bytes Silence = []"

definition stream :: "conn \<Rightarrow> string" where
  "stream c = concat (map arrival_bytes (cn_input c))"

definition same_output :: "conn \<Rightarrow> conn \<Rightarrow> bool" where
  "same_output c c' \<longleftrightarrow> cn_output c' = cn_output c \<and> cn_write_limit c' = cn_write_limit c
     \<and> cn_closed c' = cn_closed c"

lemma sock_read_flowing:
  assumes "flowing c" "stream c \<noteq> []" "0 < n"
  obtains x xs c' where "sock_read n c = Inr (Some (x # xs), c')" "length (x # xs) \<le> n"
    "stream c = x # xs @ stream c'" "flowing c'" "same_output c c'"
proof -
  from assms(1,2) obtain y ys rest where i: "cn_input c = Bytes (y # ys) # rest"
    by (cases "cn_input c") (auto simp: flowing_def stream_def)
  obtain m where n: "n = Suc m" using assms(3) by (cases n) auto
  define c' where "c' = c\<lparr>cn_input := (if length (y # ys) \<le> n then rest else Bytes (drop n (y # ys)) # rest)\<rparr>"
  have "sock_read n c = Inr (Some (y # take m ys), c')" by (simp add: i n c'_def)
  moreover have "stream c = y # take m ys @ stream c'"
    by (simp add: stream_def i c'_def n)
  moreover have "flowing c'"
    using assms(1) by (cases "drop m ys") (auto simp: flowing_def i c'_def n)
  moreover have "same_output c c'" by (simp add: same_output_def c'_def)
  moreover have "length (y # take m ys) \<le> n" by (simp add: n)
  ultimately show thesis using that by blast
qed

lemma common_prefix:
  assumes "xs @ rest = p @ s" "length p \<le> length xs"
  shows "xs = p @ drop (length p) xs" "s = drop (length p) xs @ rest"
  using assms by (auto simp: append_eq_append_conv2)

lemma recv_all_flowing:
  assumes "flowing c" "stream c = xs @ rest" "length xs = n - length got" "length got \<le> n"
  shows "\<exists>c'. recv_all n got c = Inr (Inr (got @ xs), c') \<and> stream c' = rest \<and> flowing c' \<and> same_output c c'"
  using assms
proof (induction n got c arbitrary: xs rule: recv_all.induct)
  case (1 n got c)
  show ?case
  proof (cases "n \<le> length got")
    case True
    with 1(2-) show ?thesis by (auto simp: recv_all.simps same_output_def)
  next
    case False
    then have "stream c \<noteq> []" using 1(3,4) by auto
    with False obtain y ys c1 where r: "sock_read (n - length got) c = Inr (Some (y # ys), c1)"
      "length (y # ys) \<le> n - length got" "stream c = y # ys @ stream c1" "flowing c1" "same_output c c1"
      using sock_read_flowing [OF 1(2), of "n - length got"] by auto
    have s: "xs @ rest = (y # ys) @ stream c1" using 1(3) r(3) by simp
    have l: "length (y # ys) \<le> length xs" using 1(4) r(2) by simp
    have xs: "xs = (y # ys) @ drop (length (y # ys)) xs" "stream c1 = drop (length (y # ys)) xs @ rest"
      by (rule common_prefix [OF s l])+
    have "length (drop (length (y # ys)) xs) = n - length (got @ y # ys)" using 1(4) by simp
    moreover have "length (got @ y # ys) \<le> n" using r(2) False by simp
    ultimately obtain c2 where
      "recv_all n (got @ y # ys) c1 = Inr (Inr ((got @ y # ys) @ drop (length (y # ys)) xs), c2)"
      "stream c2 = rest" "flowing c2" "same_output c1 c2"
      using 1(1) [OF False r(1) refl refl refl r(4) xs(2)] by metis
    moreover have "recv_all n got c = recv_all n (got @ y # ys) c1"
      using False r(1) by (subst recv_all.simps) simp
    ultimately show ?thesis using xs(1) r(5) by (auto simp: same_output_def)
  qed
qed

definition gw_frame :: "string \<Rightarrow> string" where
  "gw_frame s = put32 (word_of_nat (length s)) @ s"

lemma recvFrame_flowing:
  assumes "flowing c" "stream c = gw_frame s @ rest" "s \<noteq> []" "length s \<le> DOMAIN_SOCKET_MAX_MSG_BYTES"
  shows "\<exists>c'. recvFrame c = Inr (Inr s, c') \<and> stream c' = rest \<and> flowing c' \<and> same_output c c'"
proof -
  have len: "length (put32 w) = 4" for w by (simp add: put32_def)
  obtain c1 where h: "recv_all 4 [] c = Inr (Inr (put32 (word_of_nat (length s))), c1)" "stream c1 = s @ rest"
    "flowing c1" "same_output c c1"
    using recv_all_flowing [OF assms(1), of "put32 (word_of_nat (length s))" "s @ rest" 4 "[]"] assms(2)
    by (auto simp: gw_frame_def len)
  have n: "unat (get32 (put32 (word_of_nat (length s)))) = length s"
    using assms(4) by (simp add: get32_put32 unsigned_of_nat take_bit_nat_eq_self DOMAIN_SOCKET_MAX_MSG_BYTES_def)
  from recv_all_flowing [OF h(3,2), of "length s" "[]"] obtain c2 where
    "recv_all (length s) [] c1 = Inr (Inr s, c2)" "stream c2 = rest" "flowing c2" "same_output c1 c2" by auto
  with h n assms(3,4) show ?thesis
    by (auto simp: recvFrame_def Let_def same_output_def)
qed

lemma recvFrame_end:
  assumes "flowing c" "stream c = []"
  shows "recvFrame c = Inr (Inl NOT_FOUND, c)"
proof -
  from assms have "cn_input c = []"
    by (cases "cn_input c") (auto simp: flowing_def stream_def)
  then show ?thesis by (simp add: recvFrame_def recv_all.simps)
qed

lemma gw_sendFrame_enough:
  assumes "length s < 2 ^ 32" "length (gw_frame s) \<le> cn_write_limit c"
  shows "gw_sendFrame s c = (OK, c\<lparr>cn_output := cn_output c @ gw_frame s,
    cn_write_limit := cn_write_limit c - length (gw_frame s)\<rparr>)"
proof -
  have "unat (word_of_nat (length s) :: 32 word) = length s"
    using assms(1) by (simp add: unsigned_of_nat take_bit_nat_eq_self)
  with assms(2) show ?thesis
    by (simp add: gw_sendFrame_def sock_write_def gw_frame_def Let_def)
qed

text \<open>The specification of a conversation: the responses to a sequence of texts up to the first that makes the
  handler fail, and how it ends.\<close>

fun conversation :: "'s gateway_env \<Rightarrow> nat \<Rightarrow> string list \<Rightarrow> 's \<Rightarrow> socket_response list \<times> 's run" where
  "conversation env k [] ipc = ([], Inr ipc)"
| "conversation env k (t # ts) ipc =
     (case answer env k t ipc of
        Inl f \<Rightarrow> ([], Inl f)
      | Inr (r, ipc) \<Rightarrow> (case conversation env (k + 1) ts ipc of (rs, fin) \<Rightarrow> (r # rs, fin)))"

definition wire :: "string list \<Rightarrow> string" where
  "wire ts = concat (map gw_frame ts)"

definition good_request_text :: "string \<Rightarrow> bool" where
  "good_request_text t \<longleftrightarrow> t \<noteq> [] \<and> length t \<le> DOMAIN_SOCKET_MAX_MSG_BYTES"

lemma wire_simps: "wire [] = []" "wire (t # ts) = gw_frame t @ wire ts"
  by (simp_all add: wire_def)

text \<open>C2 A connection carries a conversation: a client that sends its requests as frames, goes on reading and
  closes its side gets the answer to each of them, in the order of the requests and nothing else, however the
  bytes are cut into pieces on the way, and then the connection is closed, unless a request makes its handler
  fail. That request gets no answer, nor do those after it, and the failure is that of the client's thread: when
  it is the exception that \<open>stoi\<close> throws on a number that does not fit (\<open>gateway_fails_on_big_numbers\<close>) it ends
  the daemon. \<open>domain_socket.h\<close> describes the handler otherwise: one request, one response, close.\<close>

theorem gateway_answers_in_order:
  assumes "flowing c" "stream c = wire texts" "list_all good_request_text texts"
    and "conversation env k texts ipc = (rs, fin)"
    and "list_all (\<lambda>r. length (toJson r) < 2 ^ 32) rs"
    and "length (wire (map toJson rs)) \<le> cn_write_limit c"
  shows "case fin of
      Inl f \<Rightarrow> clientHandler env k c ipc = Inl f
    | Inr ipc' \<Rightarrow> length rs = length texts \<and> (\<exists>c'. clientHandler env k c ipc = Inr (c', ipc')
        \<and> cn_output c' = cn_output c @ wire (map toJson rs) \<and> cn_closed c')"
  using assms
proof (induction texts arbitrary: k c ipc rs)
  case Nil
  from recvFrame_end [OF Nil(1)] Nil(2,4) show ?case
    by (subst clientHandler.simps) (auto simp: wire_simps)
next
  case (Cons t ts)
  from Cons.prems(2,3) obtain c1 where f: "recvFrame c = Inr (Inr t, c1)" "stream c1 = wire ts"
    "flowing c1" "same_output c c1"
    using recvFrame_flowing [OF Cons.prems(1), of t "wire ts"]
    by (auto simp: wire_simps good_request_text_def)
  show ?case
  proof (cases "answer env k t ipc")
    case (Inl e)
    then have "clientHandler env k c ipc = Inl e"
      by (subst clientHandler.simps) (simp add: f(1))
    with Inl Cons.prems(4) show ?thesis by auto
  next
    case (Inr ri)
    obtain r ipc1 where ri: "ri = (r, ipc1)" by (cases ri)
    obtain rs1 where rs: "conversation env (k + 1) ts ipc1 = (rs1, fin)" "rs = r # rs1"
      using Inr Cons.prems(4) by (auto simp: ri split: prod.splits)
    define c2 where "c2 = c1\<lparr>cn_output := cn_output c1 @ gw_frame (toJson r),
      cn_write_limit := cn_write_limit c1 - length (gw_frame (toJson r))\<rparr>"
    have s: "gw_sendFrame (toJson r) c1 = (OK, c2)"
      unfolding c2_def using Cons.prems(5,6) f(4) rs(2)
      by (intro gw_sendFrame_enough) (auto simp: wire_simps same_output_def)
    have "flowing c2" "stream c2 = wire ts" and out: "cn_output c2 = cn_output c @ gw_frame (toJson r)"
      and "length (wire (map toJson rs1)) \<le> cn_write_limit c2"
      using f(2,3,4) Cons.prems(6) rs(2) by (auto simp: c2_def flowing_def stream_def same_output_def wire_simps)
    with Cons.IH [of c2 "k + 1" ipc1 rs1] Cons.prems(3,5) rs have
      "case fin of Inl f \<Rightarrow> clientHandler env (k + 1) c2 ipc1 = Inl f
       | Inr ipc' \<Rightarrow> length rs1 = length ts \<and> (\<exists>c'. clientHandler env (k + 1) c2 ipc1 = Inr (c', ipc')
           \<and> cn_output c' = cn_output c2 @ wire (map toJson rs1) \<and> cn_closed c')" by auto
    moreover have "clientHandler env k c ipc = clientHandler env (k + 1) c2 ipc1"
      by (subst clientHandler.simps) (simp add: f(1) Inr ri s)
    ultimately show ?thesis by (cases fin) (auto simp: rs(2) wire_simps out)
  qed
qed

definition demo_refusal :: socket_response where
  "demo_refusal = response_error 0 INVALID_INPUT ''Malformed JSON request''"

definition demo_client :: conn where
  "demo_client = \<lparr>cn_input = [Bytes (take 3 (wire [''x'', ''y''])), Bytes (drop 3 (wire [''x'', ''y'']))],
     cn_output = [], cn_write_limit = 1000, cn_closed = False\<rparr>"

lemma demo_conversation:
  "conversation (demo_gateway no_query) 0 [''x'', ''y''] () = ([demo_refusal, demo_refusal], Inr ())"
  by (simp add: answer_def fromJson_def parseObject_def expect_def skipWs_def is_space_def demo_refusal_def
      empty_request_def)

lemma demo_length: "length (toJson demo_refusal) = 75"
  by code_simp

theorem gateway_answers_in_order_witness:
  "\<exists>c'. clientHandler (demo_gateway no_query) 0 demo_client () = Inr (c', ())
    \<and> cn_output c' = wire [toJson demo_refusal, toJson demo_refusal] \<and> cn_closed c'"
proof -
  have w: "\<exists>a b d s. wire [''x'', ''y''] = a # b # d # s" "drop 3 (wire [''x'', ''y'']) \<noteq> []"
    by (simp_all add: wire_def gw_frame_def put32_def)
  have "flowing demo_client" using w by (cases "drop 3 (wire [''x'', ''y''])") (auto simp: flowing_def demo_client_def)
  moreover have "stream demo_client = wire [''x'', ''y'']" by (simp add: stream_def demo_client_def)
  moreover have "list_all good_request_text [''x'', ''y'']"
    by (simp add: good_request_text_def DOMAIN_SOCKET_MAX_MSG_BYTES_def)
  moreover have "length (wire (map toJson [demo_refusal, demo_refusal])) \<le> cn_write_limit demo_client"
    by (simp add: wire_def gw_frame_def demo_length demo_client_def)
  ultimately show ?thesis
    using gateway_answers_in_order [OF _ _ _ demo_conversation, of demo_client]
    by (simp add: demo_length) (simp add: demo_client_def)
qed

end
