(* ===== verification/Cxx_Numbers.thy ===== *)
theory Cxx_Numbers
  imports Complex_Main Prelude_JF
begin

text \<open>
  The conversions of the C++ library that the case layer uses beside those of \<open>Prelude_JF\<close>:
  \<open>std::stoll\<close> and \<open>std::stod\<close>, which throw, and \<open>std::to_string(double)\<close>, that is \<open>printf\<close> with
  \<open>%f\<close>. A finite double is its sign and its exact magnitude; reading rounds to 53 bits, halves to
  even. \<open>stod\<close> reads the decimal forms and \<open>inf\<close> and \<open>nan\<close>; the hexadecimal form, which
  PostgreSQL does not print, is left out.
\<close>

section \<open>64-bit integers\<close>

text \<open>\<open>std::stoll\<close>: \<^const>\<open>None\<close> when it throws.\<close>

definition stoll :: "string \<Rightarrow> int option" where
  "stoll s = (let ds = snd (signed_digits s); i = atoi s
              in if ds = [] \<or> i < - (2 ^ 63) \<or> 2 ^ 63 \<le> i then None else Some i)"

lemma stoll_show_int [text_simps]:
  "- (2 ^ 63) \<le> i \<Longrightarrow> i < 2 ^ 63 \<Longrightarrow> stoll (show_int i) = Some i"
  using atoi_show_int [of i]
  by (simp add: stoll_def show_int_def signed_digits_show_nat signed_digits_show_neg Let_def)

lemma stoll_empty [simp]: "stoll [] = None"
  by (simp add: stoll_def signed_digits_def Let_def)

section \<open>Doubles\<close>

datatype double = Finite bool rat | Infinite bool | Not_a_number bool
  \<comment> \<open>the flag is the sign bit\<close>

definition half_even :: "rat \<Rightarrow> int" where
  "half_even q =
     (let n = floor q; r = q - of_int n
      in if r < 1 / 2 then n else if 1 / 2 < r then n + 1 else if even n then n else n + 1)"

definition pad6 :: "string \<Rightarrow> string" where
  "pad6 s = replicate (6 - length s) (CHR ''0'') @ s"

definition sign_text :: "bool \<Rightarrow> string" where
  "sign_text neg = (if neg then ''-'' else [])"

fun show_double :: "double \<Rightarrow> string" where
  "show_double (Finite neg q) =
     (let n = nat (half_even (q * 1000000))
      in sign_text neg @ show_nat (n div 1000000) @ ''.'' @ pad6 (show_nat (n mod 1000000)))"
| "show_double (Infinite neg) = sign_text neg @ ''inf''"
| "show_double (Not_a_number neg) = sign_text neg @ ''nan''"

text \<open>The number of bits of \<open>n\<close>.\<close>

fun bit_count :: "nat \<Rightarrow> nat" where
  "bit_count n = (if n = 0 then 0 else Suc (bit_count (n div 2)))"

declare bit_count.simps [simp del]

definition pow2 :: "int \<Rightarrow> rat" where
  "pow2 e = (if 0 \<le> e then 2 ^ nat e else 1 / 2 ^ nat (- e))"

text \<open>
  The double next to \<open>n / d\<close>. The quotient has \<open>bit_count n - bit_count d\<close> bits or one more; the
  exponent of the last place is at least -1074.
\<close>

definition nearest :: "nat \<Rightarrow> nat \<Rightarrow> rat" where
  "nearest n d =
     (let q = of_nat n / of_nat d;
          e = int (bit_count n) - int (bit_count d) - 53;
          e = max (-1074) (if q < pow2 (e + 53) then e else e + 1)
      in of_int (half_even (q / pow2 e)) * pow2 e)"

definition lower_char :: "char \<Rightarrow> char" where
  "lower_char c = (if 65 \<le> (of_char c :: nat) \<and> (of_char c :: nat) \<le> 90 then char_of (of_char c + 32 :: nat) else c)"

text \<open>The exponent part, when it is there and has digits.\<close>

definition exponent_part :: "string \<Rightarrow> int" where
  "exponent_part s =
     (case s of
        [] \<Rightarrow> 0
      | c # cs \<Rightarrow>
          if lower_char c \<noteq> CHR ''e'' then 0
          else (case cs of
                  [] \<Rightarrow> 0
                | d # ds \<Rightarrow>
                    if d = CHR ''-'' then - int (read_digits (takeWhile is_digit ds))
                    else if d = CHR ''+'' then int (read_digits (takeWhile is_digit ds))
                    else int (read_digits (takeWhile is_digit cs))))"

text \<open>A decimal number: its digits before and after the point, and its exponent.\<close>

definition decimal_parts :: "string \<Rightarrow> string \<times> string \<times> int" where
  "decimal_parts s =
     (let whole = takeWhile is_digit s; rest = dropWhile is_digit s;
          (places, rest) = (case rest of
             [] \<Rightarrow> ([], [])
           | c # cs \<Rightarrow> if c = CHR ''.'' then (takeWhile is_digit cs, dropWhile is_digit cs) else ([], c # cs))
      in (whole, places, exponent_part rest))"

definition stod_unsigned :: "bool \<Rightarrow> string \<Rightarrow> double option" where
  "stod_unsigned neg s =
     (let low = map lower_char s
      in if starts_with ''inf'' low then Some (Infinite neg)
         else if starts_with ''nan'' low then Some (Not_a_number neg)
         else
           (case decimal_parts s of
              (whole, places, e) \<Rightarrow>
                if whole @ places = [] then None
                else
                  let m = read_digits (whole @ places); x = e - int (length places);
                      n = m * 10 ^ nat x; d = 10 ^ nat (- x); q = nearest n d
                  in if pow2 1024 \<le> q \<or> (q < pow2 (-1022) \<and> q * of_nat d \<noteq> of_nat n) then None
                     else Some (Finite neg q)))"

text \<open>\<open>std::stod\<close>: \<^const>\<open>None\<close> when it throws, without a number or when the result is out of range.\<close>

definition stod :: "string \<Rightarrow> double option" where
  "stod s =
     (case dropWhile is_space s of
        [] \<Rightarrow> None
      | c # cs \<Rightarrow>
          if c = CHR ''-'' then stod_unsigned True cs
          else if c = CHR ''+'' then stod_unsigned False cs
          else stod_unsigned False (c # cs))"

lemma stod_empty [simp]: "stod [] = None"
  by (simp add: stod_def)

end
