(* ===== verification/Case_Types.thy ===== *)
theory Case_Types
  imports Types_JF Cxx_Numbers
begin

text \<open>
  The enumerations of the case layer (\<open>src/common/constants.h\<close>) and the functions of
  \<open>system_layer::detail\<close> (\<open>src/system/system.cpp\<close>) that print them for the database: each looks the
  number of the enumerator up in a table of names. An enumerator that two enums use takes a prefix.
\<close>

datatype case_type =
    MURDER | ATTEMPTED_MURDER | MANSLAUGHTER | KIDNAPPING | HUMAN_TRAFFICKING
  | ROBBERY | ARMED_ROBBERY | ASSAULT | AGGRAVATED_ASSAULT | RAPE
  | SEXUAL_ASSAULT | BURGLARY | HOME_INVASION | ARSON | VANDALISM
  | DRUG_TRAFFICKING | DRUG_POSSESSION | TERRORISM | EXTORTION | GANG_ACTIVITY
  | THEFT | FRAUD | CYBERCRIME | HIT_AND_RUN | VEHICLE_THEFT
  | DOMESTIC_VIOLENCE | HARASSMENT | BRIBERY | FORGERY | PUBLIC_DISTURBANCE

datatype case_status =
  REGISTERED | UNDER_INVESTIGATION | EVIDENCE_COLLECTED | PENDING_TRIAL | CLOSED | REOPENED

datatype approval_status = NOT_REQUIRED | PENDING_APPROVAL | APPROVED | REJECTED

datatype injury_severity = INJURY_NONE | INJURY_MINOR | MODERATE | SEVERE | FATAL

datatype vulnerability_category =
  VULNERABILITY_NONE | VULNERABILITY_MINOR | ELDERLY | DIFFERENTLY_ABLED | FEMALE_ALONE

datatype witness_protection = PROTECTION_NONE | MONITORED | PROTECTED | RELOCATED

datatype involvement_type = SUSPECT | ACCUSED | CONVICTED | ACQUITTED

datatype association_type = CO_ACCUSED | GANG_MEMBER | ACCOMPLICE | FAMILY | KNOWN_ASSOCIATE

datatype vehicle_role =
  STOLEN | USED_IN_CRIME | ABANDONED | ROLE_EVIDENCE | SUSPECTS_VEHICLE | VICTIMS_VEHICLE

section \<open>The numbers of the enumerators\<close>

definition position :: "'a list \<Rightarrow> 'a \<Rightarrow> nat" where
  "position xs x = length (takeWhile (\<lambda>y. y \<noteq> x) xs)"

definition case_types :: "case_type list" where
  "case_types =
     [MURDER, ATTEMPTED_MURDER, MANSLAUGHTER, KIDNAPPING, HUMAN_TRAFFICKING,
      ROBBERY, ARMED_ROBBERY, ASSAULT, AGGRAVATED_ASSAULT, RAPE,
      SEXUAL_ASSAULT, BURGLARY, HOME_INVASION, ARSON, VANDALISM,
      DRUG_TRAFFICKING, DRUG_POSSESSION, TERRORISM, EXTORTION, GANG_ACTIVITY,
      THEFT, FRAUD, CYBERCRIME, HIT_AND_RUN, VEHICLE_THEFT,
      DOMESTIC_VIOLENCE, HARASSMENT, BRIBERY, FORGERY, PUBLIC_DISTURBANCE]"

definition case_statuses :: "case_status list" where
  "case_statuses =
     [REGISTERED, UNDER_INVESTIGATION, EVIDENCE_COLLECTED, PENDING_TRIAL, CLOSED, REOPENED]"

definition injury_severities :: "injury_severity list" where
  "injury_severities = [INJURY_NONE, INJURY_MINOR, MODERATE, SEVERE, FATAL]"

definition vulnerability_categories :: "vulnerability_category list" where
  "vulnerability_categories =
     [VULNERABILITY_NONE, VULNERABILITY_MINOR, ELDERLY, DIFFERENTLY_ABLED, FEMALE_ALONE]"

definition witness_protections :: "witness_protection list" where
  "witness_protections = [PROTECTION_NONE, MONITORED, PROTECTED, RELOCATED]"

definition involvement_types :: "involvement_type list" where
  "involvement_types = [SUSPECT, ACCUSED, CONVICTED, ACQUITTED]"

definition association_types :: "association_type list" where
  "association_types = [CO_ACCUSED, GANG_MEMBER, ACCOMPLICE, FAMILY, KNOWN_ASSOCIATE]"

definition vehicle_roles :: "vehicle_role list" where
  "vehicle_roles =
     [STOLEN, USED_IN_CRIME, ABANDONED, ROLE_EVIDENCE, SUSPECTS_VEHICLE, VICTIMS_VEHICLE]"

section \<open>Their names in the database\<close>

text \<open>The guard of the lookups: \<open>idx >= 0 && idx < n\<close>, with a default.\<close>

definition name_at :: "string list \<Rightarrow> string \<Rightarrow> nat \<Rightarrow> string" where
  "name_at names fallback idx = (if idx < length names then names ! idx else fallback)"

definition toCaseTypeEnum :: "case_type \<Rightarrow> string" where
  "toCaseTypeEnum t = name_at
     [''MURDER'', ''ATTEMPTED_MURDER'', ''MANSLAUGHTER'', ''KIDNAPPING'', ''HUMAN_TRAFFICKING'',
      ''ROBBERY'', ''ARMED_ROBBERY'', ''ASSAULT'', ''AGGRAVATED_ASSAULT'', ''RAPE'',
      ''SEXUAL_ASSAULT'', ''BURGLARY'', ''HOME_INVASION'', ''ARSON'', ''VANDALISM'',
      ''DRUG_TRAFFICKING'', ''DRUG_POSSESSION'', ''TERRORISM'', ''EXTORTION'', ''GANG_ACTIVITY'',
      ''THEFT'', ''FRAUD'', ''CYBERCRIME'', ''HIT_AND_RUN'', ''VEHICLE_THEFT'',
      ''DOMESTIC_VIOLENCE'', ''HARASSMENT'', ''BRIBERY'', ''FORGERY'', ''PUBLIC_DISTURBANCE'']
     ''MURDER'' (position case_types t)"

definition toCaseStatusEnum :: "case_status \<Rightarrow> string" where
  "toCaseStatusEnum s = name_at
     [''REGISTERED'', ''UNDER_INVESTIGATION'', ''EVIDENCE_COLLECTED'', ''PENDING_TRIAL'', ''CLOSED'',
      ''REOPENED''] ''REGISTERED'' (position case_statuses s)"

definition toInjurySeverityEnum :: "injury_severity \<Rightarrow> string" where
  "toInjurySeverityEnum s = name_at [''NONE'', ''MINOR'', ''MODERATE'', ''SEVERE'', ''FATAL''] ''NONE''
     (position injury_severities s)"

definition toVulnerabilityEnum :: "vulnerability_category \<Rightarrow> string" where
  "toVulnerabilityEnum s = name_at
     [''NONE'', ''MINOR'', ''ELDERLY'', ''DIFFERENTLY_ABLED'', ''FEMALE_ALONE''] ''NONE''
     (position vulnerability_categories s)"

definition toWitnessProtectionEnum :: "witness_protection \<Rightarrow> string" where
  "toWitnessProtectionEnum s = name_at [''NONE'', ''MONITORED'', ''PROTECTED'', ''RELOCATED''] ''NONE''
     (position witness_protections s)"

definition toInvolvementTypeEnum :: "involvement_type \<Rightarrow> string" where
  "toInvolvementTypeEnum s = name_at [''SUSPECT'', ''ACCUSED'', ''CONVICTED'', ''ACQUITTED''] ''SUSPECT''
     (position involvement_types s)"

definition toAssociationTypeEnum :: "association_type \<Rightarrow> string" where
  "toAssociationTypeEnum s = name_at
     [''CO_ACCUSED'', ''GANG_MEMBER'', ''ACCOMPLICE'', ''FAMILY'', ''KNOWN_ASSOCIATE'']
     ''KNOWN_ASSOCIATE'' (position association_types s)"

definition toVehicleRoleEnum :: "vehicle_role \<Rightarrow> string" where
  "toVehicleRoleEnum s = name_at
     [''STOLEN'', ''USED_IN_CRIME'', ''ABANDONED'', ''EVIDENCE'', ''SUSPECTS_VEHICLE'', ''VICTIMS_VEHICLE'']
     ''EVIDENCE'' (position vehicle_roles s)"

text \<open>Every enumerator is in its list, so the defaults are never used and no two names agree.\<close>

lemma all_enumerators:
  "t \<in> set case_types" "s \<in> set case_statuses"
  by (cases t; simp add: case_types_def) (cases s; simp add: case_statuses_def)

lemma toCaseTypeEnum_inj: "toCaseTypeEnum t = toCaseTypeEnum u \<Longrightarrow> t = u"
proof -
  have "distinct (map toCaseTypeEnum case_types)" by code_simp
  then show "toCaseTypeEnum t = toCaseTypeEnum u \<Longrightarrow> t = u"
    using all_enumerators(1) by (auto simp: distinct_map inj_on_def)
qed

lemma toCaseStatusEnum_inj: "toCaseStatusEnum t = toCaseStatusEnum u \<Longrightarrow> t = u"
proof -
  have "distinct (map toCaseStatusEnum case_statuses)" by code_simp
  then show "toCaseStatusEnum t = toCaseStatusEnum u \<Longrightarrow> t = u"
    using all_enumerators(2) by (auto simp: distinct_map inj_on_def)
qed

end
