(* ===== verification/Memory.thy ===== *)
theory Memory
  imports Types_JF
begin

text \<open>
  Mapped files: \<open>memory::MmapHandler\<close> (\<open>src/os_layer/memory/src/mmap_handler.cpp\<close>). The kernel is a
  record: the mappings of this handler that are alive, and the answers it will give to \<open>mmap\<close>,
  \<open>munmap\<close> and \<open>msync\<close>, by the number of the call. A mapping of size 0 is refused, as documented.
\<close>

record kernel =
  kn_live :: "(int \<times> nat) list"        \<comment> \<open>address and size\<close>
  kn_mmap :: "nat \<Rightarrow> int option"
  kn_munmap :: "nat \<Rightarrow> bool"
  kn_msync :: "nat \<Rightarrow> bool"
  kn_calls :: nat

definition sys_mmap :: "nat \<Rightarrow> kernel \<Rightarrow> int option \<times> kernel" where
  "sys_mmap len k =
     (let k' = k\<lparr>kn_calls := kn_calls k + 1\<rparr>
      in case kn_mmap k (kn_calls k) of
           None \<Rightarrow> (None, k')
         | Some a \<Rightarrow> if len = 0 then (None, k') else (Some a, k'\<lparr>kn_live := (a, len) # kn_live k\<rparr>))"

definition sys_munmap :: "int \<Rightarrow> nat \<Rightarrow> kernel \<Rightarrow> bool \<times> kernel" where
  "sys_munmap a len k =
     (let k' = k\<lparr>kn_calls := kn_calls k + 1\<rparr>
      in if kn_munmap k (kn_calls k) then (True, k'\<lparr>kn_live := remove1 (a, len) (kn_live k)\<rparr>)
         else (False, k'))"

definition sys_msync :: "kernel \<Rightarrow> bool \<times> kernel" where
  "sys_msync k = (kn_msync k (kn_calls k), k\<lparr>kn_calls := kn_calls k + 1\<rparr>)"

section \<open>The handler\<close>

text \<open>\<open>MAP_FAILED\<close> is \<^const>\<open>None\<close>.\<close>

record mmap_handler =
  mapped_address :: "int option"
  mapping_size :: nat
  file_descriptor :: int
  is_mapped :: bool

definition new_handler :: mmap_handler where
  "new_handler = \<lparr>mapped_address = None, mapping_size = 0, file_descriptor = -1, is_mapped = False\<rparr>"

definition map_file :: "int \<Rightarrow> nat \<Rightarrow> mmap_handler \<Rightarrow> kernel \<Rightarrow> result_code \<times> mmap_handler \<times> kernel" where
  "map_file fd len h k =
     (if is_mapped h then (INVALID_STATE, h, k)
      else
        let h = h\<lparr>file_descriptor := fd, mapping_size := len\<rparr>;
            (address, k) = sys_mmap len k;
            h = h\<lparr>mapped_address := address\<rparr>
        in if address = None then (FILE_SYSTEM_ERROR, h, k) else (OK, h\<lparr>is_mapped := True\<rparr>, k))"

definition unmap :: "mmap_handler \<Rightarrow> kernel \<Rightarrow> result_code \<times> mmap_handler \<times> kernel" where
  "unmap h k =
     (case mapped_address h of
        None \<Rightarrow> (INVALID_STATE, h, k)
      | Some a \<Rightarrow>
          if \<not> is_mapped h then (INVALID_STATE, h, k)
          else
            let (done, k) = sys_munmap a (mapping_size h) k
            in if \<not> done then (FILE_SYSTEM_ERROR, h, k)
               else (OK, h\<lparr>mapped_address := None, mapping_size := 0, is_mapped := False\<rparr>, k))"

definition sync :: "mmap_handler \<Rightarrow> kernel \<Rightarrow> result_code \<times> kernel" where
  "sync h k =
     (if \<not> is_mapped h \<or> mapped_address h = None then (INVALID_STATE, k)
      else let (done, k) = sys_msync k in (if done then OK else FILE_SYSTEM_ERROR, k))"

definition getPointer :: "mmap_handler \<Rightarrow> int option" where
  "getPointer h = (if is_mapped h then mapped_address h else None)"

definition isValid :: "mmap_handler \<Rightarrow> bool" where
  "isValid h = is_mapped h"

definition destroy_handler :: "mmap_handler \<Rightarrow> kernel \<Rightarrow> kernel" where
  "destroy_handler h k = (if is_mapped h then snd (snd (unmap h k)) else k)"

lemmas handler_defs = map_file_def unmap_def sync_def getPointer_def isValid_def destroy_handler_def
  sys_mmap_def sys_munmap_def sys_msync_def

section \<open>Ownership\<close>

text \<open>The handler owns what is mapped: one mapping, the one it points to, or none.\<close>

definition owns :: "mmap_handler \<Rightarrow> kernel \<Rightarrow> bool" where
  "owns h k \<longleftrightarrow>
     kn_live k = (case getPointer h of None \<Rightarrow> [] | Some a \<Rightarrow> [(a, mapping_size h)])
     \<and> (is_mapped h \<longrightarrow> mapped_address h \<noteq> None)"

inductive handler_step :: "mmap_handler \<times> kernel \<Rightarrow> mmap_handler \<times> kernel \<Rightarrow> bool" where
  step_map: "map_file fd len h k = (rc, h', k') \<Longrightarrow> handler_step (h, k) (h', k')"
| step_unmap: "unmap h k = (rc, h', k') \<Longrightarrow> handler_step (h, k) (h', k')"
| step_sync: "sync h k = (rc, k') \<Longrightarrow> handler_step (h, k) (h, k')"

inductive_cases handler_stepE: "handler_step (h, k) hk"

lemma owns_map: "owns h k \<Longrightarrow> map_file fd len h k = (rc, h', k') \<Longrightarrow> owns h' k'"
  by (auto simp: owns_def handler_defs Let_def split: if_splits option.splits)

lemma owns_unmap: "owns h k \<Longrightarrow> unmap h k = (rc, h', k') \<Longrightarrow> owns h' k'"
  by (auto simp: owns_def handler_defs Let_def split: if_splits option.splits)

lemma owns_sync: "owns h k \<Longrightarrow> sync h k = (rc, k') \<Longrightarrow> owns h k'"
  by (auto simp: owns_def handler_defs Let_def split: if_splits option.splits)

lemma owns_step: "owns h k \<Longrightarrow> handler_step (h, k) (h', k') \<Longrightarrow> owns h' k'"
  by (erule handler_stepE) (auto dest: owns_map owns_unmap owns_sync)

interpretation handler: invariant_system
  "\<lambda>(h, k). h = new_handler \<and> kn_live k = []" handler_step "\<lambda>(h, k). owns h k"
proof (unfold_locales, goal_cases)
  case (1 s)
  then show ?case by (auto simp: owns_def new_handler_def getPointer_def)
next
  case (2 s t)
  then show ?case using owns_step by (cases s; cases t) simp
qed

text \<open>A handler never leaks a mapping: after any sequence of its operations at most the mapping it
  points to is alive, and its destructor removes that one unless the kernel refuses.\<close>

theorem handler_never_leaks:
  assumes "handler_step\<^sup>*\<^sup>* (new_handler, k0) (h, k)" and "kn_live k0 = []"
  shows "length (kn_live k) \<le> 1 \<and> (kn_munmap k (kn_calls k) \<longrightarrow> kn_live (destroy_handler h k) = [])"
proof -
  from handler.reachable_inv [OF _ assms(1)] assms(2) have "owns h k" by simp
  then show ?thesis
    by (auto simp: owns_def handler_defs Let_def split: option.splits)
qed

definition demo_kernel :: kernel where
  "demo_kernel = \<lparr>kn_live = [], kn_mmap = (\<lambda>n. Some (4096 * int (n + 1))), kn_munmap = (\<lambda>n. True),
     kn_msync = (\<lambda>n. True), kn_calls = 0\<rparr>"

theorem handler_never_leaks_witness:
  "\<exists>h k. map_file 3 100 new_handler demo_kernel = (OK, h, k) \<and> kn_live k = [(4096, 100)]
     \<and> length (kn_live k) \<le> 1 \<and> kn_live (destroy_handler h k) = []"
proof -
  obtain h k where m: "map_file 3 100 new_handler demo_kernel = (OK, h, k)"
    by (simp add: handler_defs new_handler_def demo_kernel_def)
  then have "handler_step\<^sup>*\<^sup>* (new_handler, demo_kernel) (h, k)" by (blast intro: step_map)
  with handler_never_leaks [of demo_kernel h k] m show ?thesis
    by (auto simp: handler_defs new_handler_def demo_kernel_def)
qed

end
