(* ===== verification/Investigation.thy ===== *)
theory Investigation
  imports Auth Case_Types Memory
begin

text \<open>
  Subsystem 2, the investigation (\<open>src/system/subsystem2\<close>): the entities \<open>Case\<close>, \<open>Evidence\<close> and
  \<open>ChargeSheet\<close> (\<open>src/models\<close>), the controllers \<open>CaseManager\<close>, \<open>EvidenceManager\<close> and
  \<open>InvestigationManager\<close> (\<open>src/controllers\<close>) and the facade \<open>Subsystem2\<close>.

  The SQL statements are texts, as in the source, for \<open>exec\<close>, which is \<open>IpcManager::executeQuery\<close>.
  An out parameter that a failure leaves alone is \<^const>\<open>None\<close>. A field that the code does not set
  keeps its value of the parameter \<open>junk\<close>, the memory before: only its texts are empty.
  \<open>now\<close> is \<open>time(nullptr)\<close>. An exception that leaves an operation is \<^const>\<open>ThrowsException\<close>.
\<close>

section \<open>Data\<close>

record case_dto =
  cd_case_id :: int
  cd_fir_number :: string
  cd_case_type :: case_type
  cd_case_status :: case_status
  cd_incident_date :: int
  cd_incident_address :: string
  cd_incident_description :: string
  cd_incident_lat :: double
  cd_incident_lon :: double
  cd_station_id :: int
  cd_primary_complainant_cnic :: string
  cd_filed_by :: int
  cd_filed_at :: int
  cd_updated_at :: int
  cd_lead_officer_id :: int
  cd_parent_case_id :: int
  cd_closed_at :: int
  cd_closure_reason :: string
  cd_approval_status :: approval_status
  cd_approved_by :: int
  cd_approved_at :: int
  cd_reopened_by :: int
  cd_reopened_at :: int
  cd_reopen_reason :: string

record evidence_dto =
  ed_evidence_id :: int
  ed_evidence_number :: string
  ed_case_id :: int
  ed_evidence_type :: evidence_type
  ed_evidence_status :: evidence_status
  ed_description :: string
  ed_quantity :: int
  ed_file_path :: string
  ed_collected_by :: int
  ed_collected_at :: int
  ed_collection_location :: string
  ed_is_deleted :: bool
  ed_deleted_at :: int
  ed_deleted_by :: int
  ed_deletion_reason :: string
  ed_created_at :: int
  ed_updated_at :: int

record charge_sheet_dto =
  cs_charge_sheet_id :: int
  cs_charge_sheet_number :: string
  cs_case_id :: int
  cs_parent_charge_sheet_id :: int
  cs_sheet_type :: sheet_type
  cs_charge_sheet_status :: charge_sheet_status
  cs_court_name :: string
  cs_magistrate_name :: string
  cs_laws_invoked :: "string list"
  cs_filed_by :: int
  cs_filing_date :: int
  cs_submitted_to_court_at :: int
  cs_submitted_by :: int
  cs_court_response_date :: int
  cs_court_remarks :: string
  cs_is_locked :: bool
  cs_locked_at :: int
  cs_locked_by :: int
  cs_created_at :: int
  cs_updated_at :: int

record fir_request =
  fr_filed_by_officer_id :: int
  fr_station_id :: int
  fr_complainant_cnic :: string
  fr_type :: case_type
  fr_incident_address :: string
  fr_description :: string
  fr_lat :: double
  fr_lon :: double
  fr_incident_date :: int

text \<open>Default initialisation: the texts and lists are empty, the rest is what was there.\<close>

definition fresh_case :: "case_dto \<Rightarrow> case_dto" where
  "fresh_case junk = junk\<lparr>cd_fir_number := [], cd_incident_address := [], cd_incident_description := [],
     cd_primary_complainant_cnic := [], cd_closure_reason := [], cd_reopen_reason := []\<rparr>"

definition fresh_evidence :: "evidence_dto \<Rightarrow> evidence_dto" where
  "fresh_evidence junk = junk\<lparr>ed_evidence_number := [], ed_description := [], ed_file_path := [],
     ed_collection_location := [], ed_deletion_reason := []\<rparr>"

definition fresh_charge_sheet :: "charge_sheet_dto \<Rightarrow> charge_sheet_dto" where
  "fresh_charge_sheet junk = junk\<lparr>cs_charge_sheet_number := [], cs_court_name := [],
     cs_magistrate_name := [], cs_laws_invoked := [], cs_court_remarks := []\<rparr>"

section \<open>The entity Case\<close>

text \<open>
  A strategy is an object of a class that the sources only declare; \<open>process\<close> is its virtual member.
  Evidence and strategies are pointers, named by numbers.
\<close>

record case_entity =
  ce_data :: case_dto
  ce_strategy :: "nat option"
  ce_evidence_list :: "nat list"

definition new_case :: "case_dto \<Rightarrow> case_entity" where
  "new_case init_data = \<lparr>ce_data = init_data, ce_strategy = None, ce_evidence_list = []\<rparr>"

definition case_addEvidence :: "nat option \<Rightarrow> case_entity \<Rightarrow> case_entity" where
  "case_addEvidence ev c =
     (case ev of None \<Rightarrow> c | Some e \<Rightarrow> c\<lparr>ce_evidence_list := ce_evidence_list c @ [e]\<rparr>)"

definition setLeadOfficer :: "int \<Rightarrow> int \<Rightarrow> case_entity \<Rightarrow> case_entity" where
  "setLeadOfficer now officer_id c =
     c\<lparr>ce_data := (ce_data c)\<lparr>cd_lead_officer_id := officer_id, cd_updated_at := now\<rparr>\<rparr>"

definition setStatusEnum :: "int \<Rightarrow> case_status \<Rightarrow> case_entity \<Rightarrow> case_entity" where
  "setStatusEnum now new_status c =
     c\<lparr>ce_data := (ce_data c)\<lparr>cd_case_status := new_status, cd_updated_at := now\<rparr>\<rparr>"

definition setStatusStrategy :: "nat option \<Rightarrow> case_entity \<Rightarrow> case_entity" where
  "setStatusStrategy new_strategy c = c\<lparr>ce_strategy := new_strategy\<rparr>"

definition transitionStatus ::
  "(nat \<Rightarrow> session_context \<Rightarrow> case_entity \<Rightarrow> result_code \<times> case_entity) \<Rightarrow> session_context
     \<Rightarrow> case_entity \<Rightarrow> result_code \<times> case_entity" where
  "transitionStatus process session c =
     (case ce_strategy c of None \<Rightarrow> (INVALID_STATE, c) | Some s \<Rightarrow> process s session c)"

section \<open>The entity Evidence\<close>

record evidence_entity =
  ee_data :: evidence_dto
  ee_observers :: "nat list"

definition new_evidence :: "evidence_dto \<Rightarrow> evidence_entity" where
  "new_evidence db_data = \<lparr>ee_data = db_data, ee_observers = []\<rparr>"

definition markDeleted :: "int \<Rightarrow> int \<Rightarrow> string \<Rightarrow> evidence_entity \<Rightarrow> evidence_entity" where
  "markDeleted now officer_id reason e =
     e\<lparr>ee_data := (ee_data e)\<lparr>ed_is_deleted := True, ed_deleted_by := officer_id,
                           ed_deletion_reason := reason, ed_deleted_at := now\<rparr>\<rparr>"

definition evidence_updateStatus :: "int \<Rightarrow> evidence_status \<Rightarrow> evidence_entity \<Rightarrow> evidence_entity" where
  "evidence_updateStatus now new_status e =
     e\<lparr>ee_data := (ee_data e)\<lparr>ed_evidence_status := new_status, ed_updated_at := now\<rparr>\<rparr>"

definition addObserver :: "nat option \<Rightarrow> evidence_entity \<Rightarrow> evidence_entity" where
  "addObserver observer e =
     (case observer of None \<Rightarrow> e | Some obs \<Rightarrow> e\<lparr>ee_observers := ee_observers e @ [obs]\<rparr>)"

definition removeObserver :: "nat option \<Rightarrow> evidence_entity \<Rightarrow> evidence_entity" where
  "removeObserver observer e =
     e\<lparr>ee_observers := filter (\<lambda>obs. Some obs \<noteq> observer) (ee_observers e)\<rparr>"

text \<open>The calls of \<open>onEvidenceSecured\<close>, in order.\<close>

definition notifyObservers :: "evidence_entity \<Rightarrow> nat list" where
  "notifyObservers e = ee_observers e"

section \<open>The entity ChargeSheet\<close>

definition isLocked :: "charge_sheet_dto \<Rightarrow> bool" where
  "isLocked sheet = cs_is_locked sheet"

definition addLawInvoked :: "int \<Rightarrow> string \<Rightarrow> charge_sheet_dto \<Rightarrow> result_code \<times> charge_sheet_dto" where
  "addLawInvoked now law sheet =
     (if cs_is_locked sheet then (RECORD_LOCKED, sheet)
      else if law = [] then (INVALID_INPUT, sheet)
      else (OK, sheet\<lparr>cs_laws_invoked := cs_laws_invoked sheet @ [law], cs_updated_at := now\<rparr>))"

text \<open>The clock is read three times: \<open>clock i\<close> is what the reading after \<open>i\<close> others gives.\<close>

definition submitToMagistrate :: "(nat \<Rightarrow> int) \<Rightarrow> int \<Rightarrow> charge_sheet_dto \<Rightarrow> result_code \<times> charge_sheet_dto" where
  "submitToMagistrate clock officer_id sheet =
     (if cs_is_locked sheet then (RECORD_LOCKED, sheet)
      else if cs_laws_invoked sheet = [] then (INVALID_STATE, sheet)
      else (OK, sheet\<lparr>cs_charge_sheet_status := SUBMITTED_TO_COURT, cs_submitted_to_court_at := clock 0,
                     cs_submitted_by := officer_id, cs_updated_at := clock 1,
                     cs_is_locked := True, cs_locked_at := clock 2, cs_locked_by := officer_id\<rparr>))"

section \<open>Reading results\<close>

text \<open>\<open>row[i]\<close> of a vector, and the conversions, which throw.\<close>

definition at_index :: "'a list \<Rightarrow> nat \<Rightarrow> 'a run" where
  "at_index xs i = (if i < length xs then Inr (xs ! i) else Inl UndefinedBehaviour)"

definition or_throw :: "'a option \<Rightarrow> 'a run" where
  "or_throw v = (case v of None \<Rightarrow> Inl ThrowsException | Some x \<Rightarrow> Inr x)"

definition int_col :: "string list \<Rightarrow> nat \<Rightarrow> int run" where
  "int_col row i = and_then (at_index row i) (\<lambda>s. or_throw (stoll s))"

definition double_col :: "string list \<Rightarrow> nat \<Rightarrow> double run" where
  "double_col row i = and_then (at_index row i) (\<lambda>s. or_throw (stod s))"

text \<open>\<open>row[col] != unset ? std::stoll(row[col]) : 0\<close>\<close>

definition int_col_unless :: "string \<Rightarrow> string list \<Rightarrow> nat \<Rightarrow> int run" where
  "int_col_unless unset row i =
     and_then (at_index row i) (\<lambda>s. if s \<noteq> unset then or_throw (stoll s) else Inr 0)"

definition read_case_type :: "string \<Rightarrow> case_type" where
  "read_case_type s =
     (if s = ''MURDER'' then MURDER else if s = ''THEFT'' then THEFT else PUBLIC_DISTURBANCE)"

definition read_case_status :: "string \<Rightarrow> case_status" where
  "read_case_status s =
     (if s = ''REGISTERED'' then REGISTERED
      else if s = ''UNDER_INVESTIGATION'' then UNDER_INVESTIGATION
      else if s = ''CLOSED'' then CLOSED else REGISTERED)"

definition parseCaseRow :: "string list \<Rightarrow> case_dto run" where
  "parseCaseRow row =
     and_then (int_col row 0) (\<lambda>case_id.
     and_then (at_index row 1) (\<lambda>fir_number.
     and_then (at_index row 2) (\<lambda>case_type_str.
     and_then (at_index row 3) (\<lambda>case_status_str.
     and_then (int_col row 4) (\<lambda>incident_date.
     and_then (at_index row 5) (\<lambda>incident_address.
     and_then (at_index row 6) (\<lambda>incident_description.
     and_then (double_col row 7) (\<lambda>incident_lat.
     and_then (double_col row 8) (\<lambda>incident_lon.
     and_then (int_col row 9) (\<lambda>station_id.
     and_then (at_index row 10) (\<lambda>primary_complainant_cnic.
     and_then (int_col row 11) (\<lambda>filed_by.
     and_then (int_col row 12) (\<lambda>filed_at.
     and_then (int_col row 13) (\<lambda>updated_at.
     and_then (int_col_unless ''0'' row 14) (\<lambda>lead_officer_id.
     and_then (int_col_unless ''0'' row 15) (\<lambda>parent_case_id.
     and_then (int_col_unless [] row 16) (\<lambda>closed_at.
     and_then (at_index row 17) (\<lambda>closure_reason.
     and_then (at_index row 18) (\<lambda>approval_str.
     and_then (int_col_unless ''0'' row 19) (\<lambda>approved_by.
     and_then (int_col_unless [] row 20) (\<lambda>approved_at.
     and_then (int_col_unless ''0'' row 21) (\<lambda>reopened_by.
     and_then (int_col_unless [] row 22) (\<lambda>reopened_at.
     and_then (at_index row 23) (\<lambda>reopen_reason.
       Inr \<lparr>cd_case_id = case_id, cd_fir_number = fir_number,
            cd_case_type = read_case_type case_type_str,
            cd_case_status = read_case_status case_status_str,
            cd_incident_date = incident_date, cd_incident_address = incident_address,
            cd_incident_description = incident_description, cd_incident_lat = incident_lat,
            cd_incident_lon = incident_lon, cd_station_id = station_id,
            cd_primary_complainant_cnic = primary_complainant_cnic, cd_filed_by = filed_by,
            cd_filed_at = filed_at, cd_updated_at = updated_at, cd_lead_officer_id = lead_officer_id,
            cd_parent_case_id = parent_case_id, cd_closed_at = closed_at,
            cd_closure_reason = closure_reason,
            cd_approval_status = (if approval_str = ''APPROVED'' then APPROVED else NOT_REQUIRED),
            cd_approved_by = approved_by, cd_approved_at = approved_at, cd_reopened_by = reopened_by,
            cd_reopened_at = reopened_at, cd_reopen_reason = reopen_reason\<rparr>))))))))))))))))))))))))"

section \<open>CaseManager\<close>

definition sql_quote :: "string \<Rightarrow> string" where
  "sql_quote s = CHR 0x27 # s @ [CHR 0x27]"

definition fir_type_str :: "case_type \<Rightarrow> string" where
  "fir_type_str t = (if t = MURDER then ''MURDER'' else if t = THEFT then ''THEFT'' else ''OTHER'')"

definition fir_query :: "fir_request \<Rightarrow> string" where
  "fir_query r =
     ''INSERT INTO public.cases (case_type, case_status, incident_date, incident_address, ''
     @ ''incident_description, incident_lat, incident_lon, station_id, ''
     @ ''primary_complainant_cnic, filed_by) VALUES (''
     @ sql_quote (fir_type_str (fr_type r)) @ '', '' @ sql_quote ''REGISTERED'' @ '', ''
     @ ''to_timestamp('' @ show_int (fr_incident_date r) @ ''), ''
     @ sql_quote (fr_incident_address r) @ '', '' @ sql_quote (fr_description r) @ '', ''
     @ show_double (fr_lat r) @ '', '' @ show_double (fr_lon r) @ '', '' @ show_int (fr_station_id r) @ '', ''
     @ sql_quote (fr_complainant_cnic r) @ '', '' @ show_int (fr_filed_by_officer_id r)
     @ '') RETURNING case_id, fir_number;''"

definition registerFIR ::
  "'s query_fun \<Rightarrow> case_dto \<Rightarrow> fir_request \<Rightarrow> session_context \<Rightarrow> 's
     \<Rightarrow> (result_code \<times> case_entity option \<times> 's) run" where
  "registerFIR exec junk request session db =
     (if \<not> sc_isValid session then Inr (AUTH_FAILED, None, db)
      else if sc_rank session \<noteq> ASI \<and> sc_rank session \<noteq> SI \<and> sc_rank session \<noteq> INSPECTOR
      then Inr (RANK_INSUFFICIENT, None, db)
      else
        and_then (exec (fir_query request) db) (\<lambda>(db_res, results, db).
          if db_res \<noteq> OK \<or> results = [] then Inr (DB_ERROR, None, db)
          else
            and_then (int_col (hd results) 0) (\<lambda>case_id.
            and_then (at_index (hd results) 1) (\<lambda>fir_number.
              Inr (OK, Some (new_case ((fresh_case junk)
                \<lparr>cd_case_id := case_id, cd_fir_number := fir_number, cd_case_type := fr_type request,
                 cd_case_status := REGISTERED, cd_incident_address := fr_incident_address request,
                 cd_station_id := fr_station_id request,
                 cd_filed_by := fr_filed_by_officer_id request\<rparr>)), db)))))"

definition case_columns :: string where
  "case_columns =
     ''SELECT case_id, fir_number, case_type, case_status, incident_date, ''
     @ ''       incident_address, incident_description, incident_lat, incident_lon, ''
     @ ''       station_id, primary_complainant_cnic, filed_by, filed_at, updated_at, ''
     @ ''       lead_officer_id, parent_case_id, closed_at, closure_reason, ''
     @ ''       approval_status, approved_by, approved_at, reopened_by, ''
     @ ''       reopened_at, reopen_reason ''"

definition fetch_query :: "int \<Rightarrow> string" where
  "fetch_query case_id = case_columns @ ''FROM public.cases WHERE case_id = '' @ show_int case_id @ '';''"

definition fetchCase ::
  "'s query_fun \<Rightarrow> int \<Rightarrow> 's \<Rightarrow> (result_code \<times> case_entity option \<times> 's) run" where
  "fetchCase exec case_id db =
     and_then (exec (fetch_query case_id) db) (\<lambda>(db_res, results, db).
       if db_res \<noteq> OK \<or> results = [] then Inr (NOT_FOUND, None, db)
       else and_then (parseCaseRow (hd results)) (\<lambda>data. Inr (OK, Some (new_case data), db)))"

text \<open>The loop of the two listings: each row becomes an entity at the end of \<open>out_cases\<close>.\<close>

fun push_cases :: "string list list \<Rightarrow> case_entity list \<Rightarrow> case_entity list run" where
  "push_cases [] out_cases = Inr out_cases"
| "push_cases (row # rows) out_cases =
     and_then (parseCaseRow row) (\<lambda>data. push_cases rows (out_cases @ [new_case data]))"

definition list_cases ::
  "'s query_fun \<Rightarrow> string \<Rightarrow> case_entity list \<Rightarrow> 's \<Rightarrow> (result_code \<times> case_entity list \<times> 's) run" where
  "list_cases exec query out_cases db =
     and_then (exec query db) (\<lambda>(db_res, results, db).
       if db_res \<noteq> OK then Inr (DB_ERROR, out_cases, db)
       else if results = [] then Inr (NOT_FOUND, out_cases, db)
       else and_then (push_cases results out_cases) (\<lambda>out_cases. Inr (OK, out_cases, db)))"

definition s2_getCasesByStation ::
  "'s query_fun \<Rightarrow> int \<Rightarrow> case_entity list \<Rightarrow> 's \<Rightarrow> (result_code \<times> case_entity list \<times> 's) run" where
  "s2_getCasesByStation exec station_id out_cases db =
     list_cases exec
       (case_columns @ ''FROM public.cases WHERE station_id = '' @ show_int station_id
        @ '' ORDER BY filed_at DESC;'') out_cases db"

definition status_str :: "case_status \<Rightarrow> string" where
  "status_str status =
     (case status of REGISTERED \<Rightarrow> ''REGISTERED'' | UNDER_INVESTIGATION \<Rightarrow> ''UNDER_INVESTIGATION''
      | CLOSED \<Rightarrow> ''CLOSED'' | _ \<Rightarrow> ''REGISTERED'')"

definition s2_getCasesByStatus ::
  "'s query_fun \<Rightarrow> case_status \<Rightarrow> case_entity list \<Rightarrow> 's \<Rightarrow> (result_code \<times> case_entity list \<times> 's) run" where
  "s2_getCasesByStatus exec status out_cases db =
     list_cases exec
       (case_columns @ ''FROM public.cases WHERE case_status = '' @ sql_quote (status_str status)
        @ '' ORDER BY filed_at DESC;'') out_cases db"

section \<open>EvidenceManager\<close>

text \<open>The file system: what \<open>open\<close> for reading and \<open>fstat\<close> give for a path.\<close>

record files =
  fs_open :: "string \<Rightarrow> int option"
  fs_size :: "string \<Rightarrow> nat option"

text \<open>The manager is a member of the singleton \<open>Subsystem2\<close>; \<open>mem_handler\<close> is its only field.\<close>

definition mapFileToMemory ::
  "files \<Rightarrow> string \<Rightarrow> mmap_handler \<times> kernel \<Rightarrow> result_code \<times> mmap_handler \<times> kernel" where
  "mapFileToMemory fs file_path mem =
     (case fs_open fs file_path of
        None \<Rightarrow> (FILE_SYSTEM_ERROR, mem)
      | Some fd \<Rightarrow>
          (case fs_size fs file_path of
             None \<Rightarrow> (FILE_SYSTEM_ERROR, mem)
           | Some n \<Rightarrow> map_file fd n (fst mem) (snd mem)))"

definition evidence_query :: "int \<Rightarrow> evidence_type \<Rightarrow> string \<Rightarrow> string \<Rightarrow> session_context \<Rightarrow> string" where
  "evidence_query case_id type description file_path session =
     ''INSERT INTO public.evidence (case_id, evidence_type, evidence_status, ''
     @ ''description, file_path, collected_by) VALUES ('' @ show_int case_id @ '', ''
     @ sql_quote (if type = DIGITAL then ''DIGITAL'' else ''PHYSICAL'') @ '', ''
     @ sql_quote ''RECEIVED'' @ '', '' @ sql_quote description @ '', '' @ sql_quote file_path @ '', ''
     @ show_int (sc_officerId session) @ '') RETURNING evidence_id, evidence_number;''"

definition insert_evidence ::
  "'s query_fun \<Rightarrow> evidence_dto \<Rightarrow> int \<Rightarrow> evidence_type \<Rightarrow> string \<Rightarrow> string \<Rightarrow> session_context \<Rightarrow> 's
     \<Rightarrow> (result_code \<times> evidence_entity option \<times> nat list \<times> 's) run" where
  "insert_evidence exec junk case_id type description file_path session db =
     and_then (exec (evidence_query case_id type description file_path session) db)
       (\<lambda>(db_res, results, db).
          if db_res \<noteq> OK \<or> results = [] then Inr (DB_ERROR, None, [], db)
          else
            and_then (int_col (hd results) 0) (\<lambda>evidence_id.
            and_then (at_index (hd results) 1) (\<lambda>evidence_number.
              let e = new_evidence ((fresh_evidence junk)
                \<lparr>ed_evidence_id := evidence_id, ed_evidence_number := evidence_number,
                 ed_case_id := case_id, ed_evidence_type := type, ed_description := description,
                 ed_file_path := file_path, ed_collected_by := sc_officerId session\<rparr>)
              in Inr (OK, Some e, notifyObservers e, db))))"

definition logAndSecureEvidence ::
  "'s query_fun \<Rightarrow> files \<Rightarrow> evidence_dto \<Rightarrow> int \<Rightarrow> evidence_type \<Rightarrow> string \<Rightarrow> string \<Rightarrow> session_context
     \<Rightarrow> mmap_handler \<times> kernel \<Rightarrow> 's
     \<Rightarrow> (result_code \<times> evidence_entity option \<times> nat list \<times> (mmap_handler \<times> kernel) \<times> 's) run" where
  "logAndSecureEvidence exec fs junk case_id type description file_path session mem db =
     (if \<not> sc_isValid session then Inr (AUTH_FAILED, None, [], mem, db)
      else
        let (mem_res, mem) = (if file_path \<noteq> [] then mapFileToMemory fs file_path mem else (OK, mem))
        in if mem_res \<noteq> OK then Inr (mem_res, None, [], mem, db)
           else
             and_then (insert_evidence exec junk case_id type description file_path session db)
               (\<lambda>(rc, out_evidence, notified, db). Inr (rc, out_evidence, notified, mem, db)))"

section \<open>InvestigationManager\<close>

definition draft_query :: "int \<Rightarrow> session_context \<Rightarrow> string" where
  "draft_query case_id session =
     ''INSERT INTO public.charge_sheets (case_id, filed_by) VALUES ('' @ show_int case_id @ '', ''
     @ show_int (sc_officerId session) @ '') RETURNING charge_sheet_id, charge_sheet_number;''"

definition draftChargeSheet ::
  "'s query_fun \<Rightarrow> charge_sheet_dto \<Rightarrow> int \<Rightarrow> session_context \<Rightarrow> 's
     \<Rightarrow> (result_code \<times> charge_sheet_dto option \<times> 's) run" where
  "draftChargeSheet exec junk case_id session db =
     (if \<not> sc_isValid session then Inr (AUTH_FAILED, None, db)
      else
        and_then (exec (draft_query case_id session) db) (\<lambda>(db_res, results, db).
          if db_res \<noteq> OK \<or> results = [] then Inr (DB_ERROR, None, db)
          else
            and_then (int_col (hd results) 0) (\<lambda>charge_sheet_id.
            and_then (at_index (hd results) 1) (\<lambda>charge_sheet_number.
              Inr (OK, Some ((fresh_charge_sheet junk)
                \<lparr>cs_charge_sheet_id := charge_sheet_id, cs_charge_sheet_number := charge_sheet_number,
                 cs_case_id := case_id, cs_charge_sheet_status := DRAFT, cs_sheet_type := ORIGINAL,
                 cs_filed_by := sc_officerId session, cs_is_locked := False\<rparr>), db)))))"

definition submit_query :: "session_context \<Rightarrow> charge_sheet_dto \<Rightarrow> string" where
  "submit_query session sheet =
     ''UPDATE public.charge_sheets SET charge_sheet_status = '' @ sql_quote ''SUBMITTED_TO_COURT'' @ '', ''
     @ ''is_locked = true, submitted_to_court_at = now(), submitted_by = ''
     @ show_int (sc_officerId session) @ '', locked_at = now(), locked_by = ''
     @ show_int (sc_officerId session) @ '' WHERE charge_sheet_id = ''
     @ show_int (cs_charge_sheet_id sheet) @ '';''"

text \<open>The sheet is a pointer: \<^const>\<open>None\<close> is null, and the object is changed in place.\<close>

definition submitChargeSheet ::
  "'s query_fun \<Rightarrow> (nat \<Rightarrow> int) \<Rightarrow> charge_sheet_dto option \<Rightarrow> session_context \<Rightarrow> 's
     \<Rightarrow> (result_code \<times> charge_sheet_dto option \<times> 's) run" where
  "submitChargeSheet exec clock sheet session db =
     (if \<not> sc_isValid session then Inr (AUTH_FAILED, sheet, db)
      else
        (case sheet of
           None \<Rightarrow> Inr (INVALID_INPUT, None, db)
         | Some data \<Rightarrow>
             (case submitToMagistrate clock (sc_officerId session) data of
                (domain_res, data) \<Rightarrow>
                  if domain_res \<noteq> OK then Inr (domain_res, Some data, db)
                  else
                    and_then (exec (submit_query session data) db) (\<lambda>(db_res, results, db).
                      Inr (if db_res \<noteq> OK then DB_ERROR else OK, Some data, db)))))"

text \<open>The facade checks the pointer first; its other members only log and delegate.\<close>

definition facade_submitChargeSheet ::
  "'s query_fun \<Rightarrow> (nat \<Rightarrow> int) \<Rightarrow> charge_sheet_dto option \<Rightarrow> session_context \<Rightarrow> 's
     \<Rightarrow> (result_code \<times> charge_sheet_dto option \<times> 's) run" where
  "facade_submitChargeSheet exec clock sheet session db =
     (if sheet = None then Inr (INVALID_INPUT, None, db)
      else submitChargeSheet exec clock sheet session db)"

section \<open>Which cases can be read\<close>

text \<open>The columns of a case that are converted to numbers, and what they have to hold.\<close>

definition readable_row :: "string list \<Rightarrow> bool" where
  "readable_row row \<longleftrightarrow>
     list_all (\<lambda>i. stoll (row ! i) \<noteq> None) [0, 4, 9, 11, 12, 13]
     \<and> list_all (\<lambda>i. stod (row ! i) \<noteq> None) [7, 8]
     \<and> list_all (\<lambda>i. row ! i = ''0'' \<or> stoll (row ! i) \<noteq> None) [14, 15, 19, 21]
     \<and> list_all (\<lambda>i. row ! i = [] \<or> stoll (row ! i) \<noteq> None) [16, 20, 22]"

definition reads_or_throws :: "bool \<Rightarrow> 'a run \<Rightarrow> bool" where
  "reads_or_throws b m \<longleftrightarrow> (if b then \<exists>x. m = Inr x else m = Inl ThrowsException)"

lemma reads_then:
  "reads_or_throws b m \<Longrightarrow> (\<And>x. reads_or_throws c (k x)) \<Longrightarrow> reads_or_throws (b \<and> c) (and_then m k)"
  by (auto simp: reads_or_throws_def split: if_splits)

lemma reads_done: "reads_or_throws True (Inr x)"
  by (simp add: reads_or_throws_def)

lemma columns_read:
  assumes "i < length row"
  shows "reads_or_throws True (at_index row i)"
    "reads_or_throws (stoll (row ! i) \<noteq> None) (int_col row i)"
    "reads_or_throws (stod (row ! i) \<noteq> None) (double_col row i)"
    "reads_or_throws (row ! i = u \<or> stoll (row ! i) \<noteq> None) (int_col_unless u row i)"
  using assms
  by (auto simp: reads_or_throws_def at_index_def int_col_def double_col_def int_col_unless_def or_throw_def
      split: option.split)

lemma parse_complete_row:
  assumes "length row = 24"
  shows "reads_or_throws (readable_row row) (parseCaseRow row)"
proof -
  have eq: "b = c \<Longrightarrow> reads_or_throws b m \<Longrightarrow> reads_or_throws c m" for b c and m :: "'a run" by simp
  show ?thesis
    unfolding parseCaseRow_def
    by (rule eq [rotated], (rule reads_then columns_read reads_done | simp add: assms)+)
      (simp only: readable_row_def list.pred_inject not_None_eq simp_thms conj_ac)
qed

text \<open>A case can be read exactly when each of its numeric columns holds a number. The exceptions
  for a missing value are 0 for the officers and the parent case and the empty text for the times, but
  the database sends the empty text for every NULL: a case without a lead officer, without a parent
  case, not approved or not reopened ends the call with an exception.\<close>

theorem fetchCase_decides:
  assumes "exec (fetch_query case_id) db = Inr (OK, row # rows, db')" and "length row = 24"
  shows "if readable_row row then \<exists>c. fetchCase exec case_id db = Inr (OK, Some c, db')
         else fetchCase exec case_id db = Inl ThrowsException"
  using parse_complete_row [OF assms(2)] assms(1)
  by (auto simp: fetchCase_def reads_or_throws_def split: if_splits)

lemma unset_column_unreadable: "row ! 14 = [] \<or> row ! 15 = [] \<or> row ! 19 = [] \<or> row ! 21 = [] \<Longrightarrow> \<not> readable_row row"
  by (auto simp: readable_row_def)

text \<open>A case as the database returns it right after \<open>registerFIR\<close>.\<close>

definition registered_row :: "string list" where
  "registered_row =
     [''7'', ''FIR-2026-KHD-0007'', ''THEFT'', ''REGISTERED'', ''2026-01-05 10:00:00+05'', ''Mall Road'', ''stolen bag'',
      ''31.520400'', ''74.358700'', ''3'', ''35202-1234567-1'', ''12'', ''2026-01-05 11:00:00+05'',
      ''2026-01-05 11:00:00+05'', [], [], [], [], ''NOT_REQUIRED'', [], [], [], [], []]"

theorem fetchCase_decides_witness:
  "length registered_row = 24 \<and> \<not> readable_row registered_row
   \<and> fetchCase (\<lambda>q db. Inr (OK, [registered_row], db)) 7 () = Inl ThrowsException"
proof -
  have l: "length registered_row = 24" by (simp add: registered_row_def)
  have n: "\<not> readable_row registered_row"
    by (rule unset_column_unreadable) (simp add: registered_row_def)
  show ?thesis
    using fetchCase_decides [of "\<lambda>q db. Inr (OK, [registered_row], db)" 7 "()" registered_row "[]" "()", OF refl l] l n
    by simp
qed

section \<open>Charge sheets\<close>

text \<open>The life of a charge sheet: laws are added, and it is submitted.\<close>

datatype sheet_op = AddLaw int string | Submit "nat \<Rightarrow> int" session_context

definition run_sheet_op :: "sheet_op \<Rightarrow> charge_sheet_dto \<Rightarrow> result_code \<times> charge_sheet_dto" where
  "run_sheet_op oper sheet =
     (case oper of AddLaw now law \<Rightarrow> addLawInvoked now law sheet
      | Submit clock session \<Rightarrow> submitToMagistrate clock (sc_officerId session) sheet)"

definition sheet_step :: "charge_sheet_dto \<Rightarrow> charge_sheet_dto \<Rightarrow> bool" where
  "sheet_step s t \<longleftrightarrow> (\<exists>oper. t = snd (run_sheet_op oper s))"

text \<open>What a sheet promises: an open one is a draft, and a locked one was submitted with its laws.\<close>

definition sheet_ok :: "charge_sheet_dto \<Rightarrow> bool" where
  "sheet_ok s \<longleftrightarrow>
     (if cs_is_locked s
      then cs_charge_sheet_status s = SUBMITTED_TO_COURT \<and> cs_laws_invoked s \<noteq> []
           \<and> cs_locked_by s = cs_submitted_by s
      else cs_charge_sheet_status s = DRAFT)
     \<and> [] \<notin> set (cs_laws_invoked s)"

text \<open>The abstract sheet: its laws, and whether it is closed.\<close>

definition sheet_abs :: "charge_sheet_dto \<Rightarrow> string list \<times> bool" where
  "sheet_abs s = (cs_laws_invoked s, cs_is_locked s)"

inductive abs_sheet_step :: "string list \<times> bool \<Rightarrow> string list \<times> bool \<Rightarrow> bool" where
  abs_add: "law \<noteq> [] \<Longrightarrow> abs_sheet_step (laws, False) (laws @ [law], False)"
| abs_close: "laws \<noteq> [] \<Longrightarrow> abs_sheet_step (laws, False) (laws, True)"

inductive_simps abs_sheet_step_iff: "abs_sheet_step (laws, shut) t"

lemma sheet_op_ok:
  "sheet_ok s \<Longrightarrow> sheet_ok (snd (run_sheet_op oper s))
     \<and> abs_sheet_step\<^sup>=\<^sup>= (sheet_abs s) (sheet_abs (snd (run_sheet_op oper s)))"
  by (cases oper) (auto simp: run_sheet_op_def addLawInvoked_def submitToMagistrate_def sheet_ok_def
      sheet_abs_def abs_sheet_step_iff)

interpretation sheet: simulation sheet_ok sheet_step sheet_abs abs_sheet_step
proof (unfold_locales, goal_cases)
  case (1 s t)
  then show ?case using sheet_op_ok unfolding sheet_step_def by metis
next
  case (2 s t)
  then show ?case using sheet_op_ok unfolding sheet_step_def by metis
qed

lemma abs_closed_fixed: "abs_sheet_step\<^sup>*\<^sup>* (laws, True) t \<Longrightarrow> t = (laws, True)"
  by (induction rule: rtranclp_induct) (auto simp: abs_sheet_step_iff)

lemma locked_op_fixed: "cs_is_locked s \<Longrightarrow> run_sheet_op oper s = (RECORD_LOCKED, s)"
  by (cases oper) (auto simp: run_sheet_op_def addLawInvoked_def submitToMagistrate_def)

lemma locked_fixed: "sheet_step\<^sup>*\<^sup>* s t \<Longrightarrow> cs_is_locked s \<Longrightarrow> t = s"
  by (induction rule: rtranclp_induct) (auto simp: sheet_step_def locked_op_fixed)

text \<open>C19 The life of a charge sheet refines a two-state machine. From a fresh draft, whatever
  operations are tried, an open sheet is a draft whose laws only grow, a locked sheet was submitted with
  at least one law and by the officer who locked it, and from then on no operation changes it. (The clock is read
  once for each of the three times it gets, so they may differ.)\<close>

theorem charge_sheet_machine:
  assumes "sheet_step\<^sup>*\<^sup>* s t" and "cs_charge_sheet_status s = DRAFT" "\<not> cs_is_locked s"
    "cs_laws_invoked s = []"
  shows "sheet_ok t \<and> abs_sheet_step\<^sup>*\<^sup>* ([], False) (sheet_abs t)
     \<and> (cs_is_locked t \<longrightarrow> (\<forall>u. sheet_step\<^sup>*\<^sup>* t u \<longrightarrow> u = t))"
proof -
  have "sheet_ok s" "sheet_abs s = ([], False)" using assms by (auto simp: sheet_ok_def sheet_abs_def)
  with sheet.runs [OF assms(1)] locked_fixed [of t] show ?thesis by auto
qed

definition blank_sheet :: charge_sheet_dto where
  "blank_sheet = \<lparr>cs_charge_sheet_id = 5, cs_charge_sheet_number = ''CS-5'', cs_case_id = 7,
     cs_parent_charge_sheet_id = 0, cs_sheet_type = ORIGINAL, cs_charge_sheet_status = DRAFT,
     cs_court_name = [], cs_magistrate_name = [], cs_laws_invoked = [], cs_filed_by = 12,
     cs_filing_date = 0, cs_submitted_to_court_at = 0, cs_submitted_by = 0, cs_court_response_date = 0,
     cs_court_remarks = [], cs_is_locked = False, cs_locked_at = 0, cs_locked_by = 0,
     cs_created_at = 0, cs_updated_at = 0\<rparr>"

theorem charge_sheet_machine_witness:
  "let s1 = snd (addLawInvoked 10 ''PPC 302'' blank_sheet); s2 = snd (submitToMagistrate (\<lambda>i. 20 + int i) 12 s1)
   in cs_is_locked s2 \<and> sheet_ok s2 \<and> abs_sheet_step\<^sup>*\<^sup>* ([], False) ([''PPC 302''], True)"
proof -
  define s1 where "s1 = snd (addLawInvoked 10 ''PPC 302'' blank_sheet)"
  define s2 where "s2 = snd (submitToMagistrate (\<lambda>i. 20 + int i) 12 s1)"
  have "sheet_step blank_sheet s1"
    unfolding sheet_step_def s1_def by (rule exI [of _ "AddLaw 10 ''PPC 302''"]) (simp add: run_sheet_op_def)
  moreover have "sheet_step s1 s2"
    unfolding sheet_step_def s2_def
    by (rule exI [of _ "Submit (\<lambda>i. 20 + int i) (empty_session\<lparr>sc_officerId := 12\<rparr>)"]) (simp add: run_sheet_op_def)
  ultimately have "sheet_step\<^sup>*\<^sup>* blank_sheet s2" by simp
  from charge_sheet_machine [OF this] show ?thesis
    unfolding s1_def [symmetric] s2_def [symmetric] Let_def
    by (simp add: blank_sheet_def s1_def s2_def addLawInvoked_def submitToMagistrate_def sheet_abs_def)
qed

text \<open>A submission locks the sheet in memory before it is written: when the database refuses the
  write, the sheet stays locked as submitted although nothing was recorded, and no later call submits
  it: each is refused without a query.\<close>

theorem failed_submission_is_final:
  assumes "sc_isValid session" and "\<not> cs_is_locked sheet" and "cs_laws_invoked sheet \<noteq> []"
    and "\<And>q. exec q db = Inr (rc, rows, db')" and "rc \<noteq> OK"
  shows "\<exists>sheet'. submitChargeSheet exec now (Some sheet) session db = Inr (DB_ERROR, Some sheet', db')
    \<and> cs_charge_sheet_status sheet' = SUBMITTED_TO_COURT
    \<and> (\<forall>exec2 now2 session2 db2. submitChargeSheet exec2 now2 (Some sheet') session2 db2
         = Inr (if sc_isValid session2 then RECORD_LOCKED else AUTH_FAILED, Some sheet', db2))"
  using assms by (simp add: submitChargeSheet_def submitToMagistrate_def)

theorem failed_submission_is_final_witness:
  "\<exists>sheet'. submitChargeSheet (\<lambda>q db. Inr (DB_ERROR, [], db)) (\<lambda>i. 20)
      (Some (blank_sheet\<lparr>cs_laws_invoked := [''PPC 302'']\<rparr>)) (empty_session\<lparr>sc_isValid := True\<rparr>) ()
      = Inr (DB_ERROR, Some sheet', ())"
  using failed_submission_is_final [of "empty_session\<lparr>sc_isValid := True\<rparr>"
      "blank_sheet\<lparr>cs_laws_invoked := [''PPC 302'']\<rparr>" "\<lambda>q db. Inr (DB_ERROR, [], db)" "()" DB_ERROR "[]" "()" "\<lambda>i. 20"]
  by (auto simp: blank_sheet_def)

section \<open>Evidence files\<close>

lemma evidence_outcome:
  assumes "logAndSecureEvidence exec fs junk i ty d path session (h, k) db = Inr (rc, e, n, (h', k'), db')"
    and "path \<noteq> []" "rc = OK \<or> rc = DB_ERROR"
  shows "is_mapped h'"
  using assms
  by (auto simp: logAndSecureEvidence_def mapFileToMemory_def map_file_def Let_def and_then_Inr_iff
      split: if_splits option.splits prod.splits)

text \<open>Only one evidence file can be logged in the life of the process: the manager keeps the file
  mapped, also when the database has refused the record, and never unmaps it, so every later piece of
  evidence with a file is refused before it reaches the database.\<close>

theorem second_evidence_file_refused:
  assumes "logAndSecureEvidence exec fs junk i ty d path session mem db = Inr (rc, e, n, mem', db')"
    and "path \<noteq> []" "rc = OK \<or> rc = DB_ERROR"
    and "sc_isValid session2" "path2 \<noteq> []" "fs_open fs2 path2 = Some fd" "fs_size fs2 path2 = Some sz"
  shows "logAndSecureEvidence exec2 fs2 junk2 i2 ty2 d2 path2 session2 mem' db2
    = Inr (INVALID_STATE, None, [], mem', db2)"
proof -
  obtain h k h' k' where m: "mem = (h, k)" "mem' = (h', k')" by (cases mem; cases mem') auto
  from evidence_outcome [OF assms(1) [unfolded m] assms(2,3)] have "is_mapped h'" .
  then show ?thesis
    using assms(4-) by (simp add: m logAndSecureEvidence_def mapFileToMemory_def map_file_def Let_def)
qed

definition demo_files :: files where
  "demo_files = \<lparr>fs_open = (\<lambda>p. Some 3), fs_size = (\<lambda>p. Some 100)\<rparr>"

definition blank_evidence :: evidence_dto where
  "blank_evidence = \<lparr>ed_evidence_id = 0, ed_evidence_number = [], ed_case_id = 0,
     ed_evidence_type = PHYSICAL, ed_evidence_status = RECEIVED, ed_description = [], ed_quantity = 0,
     ed_file_path = [], ed_collected_by = 0, ed_collected_at = 0, ed_collection_location = [],
     ed_is_deleted = False, ed_deleted_at = 0, ed_deleted_by = 0, ed_deletion_reason = [],
     ed_created_at = 0, ed_updated_at = 0\<rparr>"

theorem second_evidence_file_refused_witness:
  "\<exists>mem. logAndSecureEvidence (\<lambda>q db. Inr (DB_ERROR, [], db)) demo_files blank_evidence 7 DIGITAL ''cctv''
      ''/a.mp4'' (empty_session\<lparr>sc_isValid := True\<rparr>) (new_handler, demo_kernel) ()
      = Inr (DB_ERROR, None, [], mem, ())
    \<and> logAndSecureEvidence (\<lambda>q db. Inr (OK, [[''1'', ''E-1'']], db)) demo_files blank_evidence 7 DIGITAL ''cctv''
      ''/b.mp4'' (empty_session\<lparr>sc_isValid := True\<rparr>) mem () = Inr (INVALID_STATE, None, [], mem, ())"
proof -
  obtain mem where m: "logAndSecureEvidence (\<lambda>q db. Inr (DB_ERROR, [], db)) demo_files blank_evidence 7 DIGITAL ''cctv''
      ''/a.mp4'' (empty_session\<lparr>sc_isValid := True\<rparr>) (new_handler, demo_kernel) ()
      = Inr (DB_ERROR, None, [], mem, ())"
    by (simp add: logAndSecureEvidence_def insert_evidence_def mapFileToMemory_def handler_defs demo_files_def
        new_handler_def demo_kernel_def)
  have "fs_open demo_files ''/b.mp4'' = Some 3" "fs_size demo_files ''/b.mp4'' = Some 100"
    by (simp_all add: demo_files_def)
  note refused = second_evidence_file_refused [OF m _ _ _ _ this]
  show ?thesis by (intro exI conjI, rule m, rule refused) simp_all
qed

section \<open>Texts inside statements\<close>

text \<open>
  How the database cuts a text into statements: at the semicolons that stand neither in a literal nor in
  a comment, which reaches from two dashes to the end of the line.
\<close>

datatype sql_mode = Plain | Quoted | Comment

fun sql_split :: "sql_mode \<Rightarrow> string \<Rightarrow> string \<Rightarrow> string list" where
  "sql_split m [] acc = (if acc = [] then [] else [acc])"
| "sql_split Plain (c # cs) acc =
     (if c = CHR '';'' then acc # sql_split Plain cs []
      else if c = CHR 0x27 then sql_split Quoted cs (acc @ [c])
      else if c = CHR ''-'' \<and> cs \<noteq> [] \<and> hd cs = CHR ''-'' then sql_split Comment cs acc
      else sql_split Plain cs (acc @ [c]))"
| "sql_split Quoted (c # cs) acc =
     (if c = CHR 0x27 then sql_split Plain cs (acc @ [c]) else sql_split Quoted cs (acc @ [c]))"
| "sql_split Comment (c # cs) acc =
     (if c = CHR 0x0A then sql_split Plain cs acc else sql_split Comment cs acc)"

definition plain_sql :: "string \<Rightarrow> bool" where
  "plain_sql s \<longleftrightarrow> list_all (\<lambda>c. c \<noteq> CHR '';'' \<and> c \<noteq> CHR 0x27 \<and> c \<noteq> CHR ''-'' \<and> c \<noteq> CHR 0x0A) s"

lemma split_plain: "plain_sql s \<Longrightarrow> sql_split Plain (s @ t) acc = sql_split Plain t (acc @ s)"
  by (induction s arbitrary: acc) (auto simp: plain_sql_def)

lemma split_in_quotes: "CHR 0x27 \<notin> set s \<Longrightarrow> sql_split Quoted (s @ t) acc = sql_split Quoted t (acc @ s)"
  by (induction s arbitrary: acc) auto

lemma split_quoted:
  "CHR 0x27 \<notin> set s \<Longrightarrow> sql_split Plain (sql_quote s @ t) acc = sql_split Plain t (acc @ sql_quote s)"
  by (simp add: sql_quote_def split_in_quotes)

lemma split_comment: "CHR 0x0A \<notin> set s \<Longrightarrow> sql_split Comment s acc = (if acc = [] then [] else [acc])"
  by (induction s arbitrary: acc) auto

text \<open>A report whose address closes the statement and hides the rest of it.\<close>

definition evil_address :: "string \<Rightarrow> string" where
  "evil_address p = ''x'' @ [CHR 0x27] @ '', '' @ sql_quote ''d'' @ '', 0, 0, 1, '' @ sql_quote ''c'' @ '', 1)'' @ '';''
     @ p @ '';'' @ ''--''"

definition evil_request :: "string \<Rightarrow> fir_request" where
  "evil_request p = \<lparr>fr_filed_by_officer_id = 1, fr_station_id = 1, fr_complainant_cnic = ''c'',
     fr_type = THEFT, fr_incident_address = evil_address p, fr_description = [],
     fr_lat = Finite False 0, fr_lon = Finite False 0, fr_incident_date = 0\<rparr>"

definition fir_head :: string where
  "fir_head =
     ''INSERT INTO public.cases (case_type, case_status, incident_date, incident_address, ''
     @ ''incident_description, incident_lat, incident_lon, station_id, ''
     @ ''primary_complainant_cnic, filed_by) VALUES (''"

definition fir_tail :: string where
  "fir_tail = [CHR 0x27] @ '', '' @ sql_quote [] @ '', 0.000000, 0.000000, 1, '' @ sql_quote ''c'' @ '', 1''
     @ '') RETURNING case_id, fir_number;''"

lemma demo_numbers:
  "show_double (Finite False 0) = ''0.000000''" "show_int 0 = ''0''" "show_int 1 = ''1''"
  "fir_type_str THEFT = ''THEFT''"
proof -
  have c: "show_nat 0 = ''0''" "pad6 ''0'' = ''000000''"
    by code_simp+
  then show "show_double (Finite False 0) = ''0.000000''"
    by (simp add: half_even_def sign_text_def)
  show "show_int 0 = ''0''" "show_int 1 = ''1''" "fir_type_str THEFT = ''THEFT''" by code_simp+
qed

lemma evil_query:
  "fir_query (evil_request p) = fir_head @ sql_quote ''THEFT'' @ '', '' @ sql_quote ''REGISTERED''
     @ '', to_timestamp('' @ ''0'' @ ''), '' @ sql_quote ''x'' @ '', '' @ sql_quote ''d'' @ '', 0, 0, 1, '' @ sql_quote ''c''
     @ '', 1)'' @ '';'' @ p @ '';'' @ ''--'' @ fir_tail"
  by (simp only: fir_query_def evil_request_def evil_address_def fir_head_def fir_tail_def sql_quote_def
      fir_request.select_convs demo_numbers append_assoc append_Cons append_Nil)

lemma plain_parts:
  "plain_sql fir_head" "plain_sql '', ''" "plain_sql '', to_timestamp(''" "plain_sql ''0''" "plain_sql ''), ''" "plain_sql '', 0, 0, 1, ''"
  "plain_sql '', 1)''" "CHR 0x0A \<notin> set fir_tail"
  "CHR 0x27 \<notin> set ''THEFT''" "CHR 0x27 \<notin> set ''REGISTERED''" "CHR 0x27 \<notin> set ''x''" "CHR 0x27 \<notin> set ''d''"
  "CHR 0x27 \<notin> set ''c''"
  by code_simp+

lemma split_marks:
  "sql_split Plain ('';'' @ t) acc = acc # sql_split Plain t []"
  "sql_split Plain (''--'' @ t) acc = sql_split Comment t acc"
  by simp_all

text \<open>The texts of a report become part of the statement as they are: for every statement \<open>p\<close> there
  is a report, made of a complainant's address alone, for which an officer's registration runs a complete
  INSERT and then \<open>p\<close>.\<close>

theorem fir_injection:
  assumes "plain_sql p" and "sc_isValid session" "sc_rank session = ASI"
  shows "\<exists>request q first.
    registerFIR (\<lambda>q log. Inr (DB_ERROR, [], log @ [q])) junk request session [] = Inr (DB_ERROR, None, [q])
    \<and> sql_split Plain q [] = [first, p]"
proof -
  have "sql_split Plain (fir_query (evil_request p)) [] =
     [fir_head @ sql_quote ''THEFT'' @ '', '' @ sql_quote ''REGISTERED''
     @ '', to_timestamp('' @ ''0'' @ ''), '' @ sql_quote ''x'' @ '', '' @ sql_quote ''d'' @ '', 0, 0, 1, '' @ sql_quote ''c''
     @ '', 1)'', p]"
    unfolding evil_query
    by (simp only: split_plain split_quoted split_marks split_comment plain_parts assms(1) append_Nil
        append_assoc if_True simp_thms)
  then obtain first where s: "sql_split Plain (fir_query (evil_request p)) [] = [first, p]"
    by (rule that)
  have r: "registerFIR (\<lambda>q log. Inr (DB_ERROR, [], log @ [q])) junk (evil_request p) session []
      = Inr (DB_ERROR, None, [fir_query (evil_request p)])"
    using assms(2,3) by (simp add: registerFIR_def)
  show ?thesis by (intro exI conjI, rule r, rule s)
qed

theorem fir_injection_witness:
  "\<exists>junk request q first.
    registerFIR (\<lambda>q log. Inr (DB_ERROR, [], log @ [q])) junk request
      (empty_session\<lparr>sc_isValid := True, sc_rank := ASI\<rparr>) [] = Inr (DB_ERROR, None, [q])
    \<and> sql_split Plain q [] = [first, ''DROP TABLE cases'']"
proof -
  have "plain_sql ''DROP TABLE cases''" by code_simp
  note inject = fir_injection [OF this, of "empty_session\<lparr>sc_isValid := True, sc_rank := ASI\<rparr>"]
  show ?thesis by (rule exI, rule inject) simp_all
qed

end
