(* ===== verification/Case_Db.thy ===== *)
theory Case_Db
  imports Enforcement_Db Case_Types "HOL-Library.Multiset"
begin

text \<open>
  The tables behind \<open>system_layer::CaseFacade\<close> and the statements of \<open>src/system/system.cpp\<close> on them.
  As in \<open>Enforcement_Db\<close> the columns are those the SQL texts name, and a statement that fails
  changes nothing; here a failure has an SQLSTATE, because the code looks at it.

  From the schema (\<open>src/db/schema\<close>) the model takes what decides about the records of a case: the
  references (\<open>23503\<close>), the unique FIR number, association and vehicle role (\<open>23505\<close>), that nobody is
  associated with himself (\<open>23514\<close>), and the triggers
  that check the rank of the officer who files or closes a case (\<open>P0001\<close>). For every other reason,
  the types, the lengths and the other checks among them, \<open>rg_fails n\<close> says whether the \<open>n\<close>-th
  statement fails, and with which state.
\<close>

section \<open>Tables\<close>

record case_row =
  cr_fir_number :: cstr
  cr_case_type :: cstr
  cr_case_status :: string
  cr_incident_date :: int
  cr_incident_address :: cstr
  cr_incident_description :: cstr
  cr_incident_lat :: cstr
  cr_incident_lon :: cstr
  cr_station_id :: int
  cr_primary_complainant_cnic :: cstr
  cr_filed_by :: int
  cr_filed_at :: int
  cr_closed_at :: "int option"
  cr_closure_reason :: cstr
  cr_approved_by :: "int option"
  cr_updated_at :: int

record victim_row =
  vr_case_id :: int
  vr_person_cnic :: cstr
  vr_injury_type :: cstr
  vr_injury_severity :: cstr
  vr_vulnerability_category :: cstr
  vr_medical_report_ref :: cstr
  vr_added_by :: int

record witness_row =
  wt_case_id :: int
  wt_person_cnic :: cstr
  wt_statement_text :: cstr
  wt_statement_file_path :: cstr
  wt_statement_recorded_at :: int
  wt_recorded_by :: int
  wt_protection_status :: cstr
  wt_is_identity_concealed :: bool
  wt_added_by :: int
  wt_updated_at :: int

record accused_row =
  ac_row_case_id :: int
  ac_row_person_cnic :: cstr
  ac_row_master_cnic :: cstr
  ac_row_involvement_type :: cstr
  ac_row_added_by :: int

record vehicle_case_row =
  vc_vehicle_id :: int
  vc_case_id :: int
  vc_vehicle_role :: cstr
  vc_condition_notes :: cstr
  vc_added_by :: int

record registry =
  rg_cases :: "case_row table"
  rg_victims :: "victim_row table"
  rg_witnesses :: "witness_row table"
  rg_accused :: "accused_row table"
  rg_associations :: "(int \<times> int \<times> cstr) list"
  rg_vehicle_cases :: "vehicle_case_row table"
  rg_stations :: "int list"
  rg_officers :: "(int \<times> officer_rank) list"
  rg_persons :: "string list"
  rg_vehicles :: "int list"
  rg_now :: int
  rg_fails :: "nat \<Rightarrow> string option option"
  rg_count :: nat

section \<open>Statements\<close>

datatype case_stmt =
    INSERT_CASE | SELECT_CASE | SELECT_CASES_BY_STATION | SELECT_CASES_BY_STATUS | CLOSE_CASE
  | INSERT_VICTIM | SELECT_VICTIMS | INSERT_WITNESS | UPDATE_WITNESS | SELECT_WITNESSES
  | INSERT_ACCUSED | INSERT_ASSOCIATION | SELECT_ACCUSED | INSERT_VEHICLE_CASE | SELECT_VEHICLE_CASES

text \<open>
  The outcome of \<open>PQexecParams\<close>: rows, a number of changed rows, or a failure with its SQLSTATE
  (\<^const>\<open>None\<close> when there is no result object or no such field).
\<close>

datatype outcome_pg = Rows "string list list" | Changed nat | Failed "string option"

type_synonym case_statement = "cstr list \<Rightarrow> registry \<Rightarrow> outcome_pg \<times> registry"

text \<open>A failure when the condition does not hold; the first one counts.\<close>

definition unless_holds :: "bool \<Rightarrow> string \<Rightarrow> registry \<Rightarrow> outcome_pg \<times> registry \<Rightarrow> outcome_pg \<times> registry" where
  "unless_holds b state rg result = (if b then result else (Failed (Some state), rg))"

definition has_case :: "registry \<Rightarrow> int \<Rightarrow> bool" where
  "has_case rg k \<longleftrightarrow> map_of (rg_cases rg) k \<noteq> None"

definition has_officer :: "registry \<Rightarrow> int \<Rightarrow> bool" where
  "has_officer rg k \<longleftrightarrow> map_of (rg_officers rg) k \<noteq> None"

definition has_person :: "registry \<Rightarrow> cstr \<Rightarrow> bool" where
  "has_person rg p \<longleftrightarrow> list_ex (\<lambda>c. p = Some c) (rg_persons rg)"

definition has_accused :: "registry \<Rightarrow> int \<Rightarrow> bool" where
  "has_accused rg k \<longleftrightarrow> map_of (rg_accused rg) k \<noteq> None"

text \<open>The rank triggers: an unknown officer passes them, since NULL is not in any list.\<close>

definition may_file :: "registry \<Rightarrow> int \<Rightarrow> bool" where
  "may_file rg k = (case map_of (rg_officers rg) k of None \<Rightarrow> True | Some r \<Rightarrow> r = SI \<or> r = ASI \<or> r = INSPECTOR)"

definition may_close :: "registry \<Rightarrow> int \<Rightarrow> bool" where
  "may_close rg k = (case map_of (rg_officers rg) k of None \<Rightarrow> True | Some r \<Rightarrow> INSPECTOR \<le> r)"

definition new_case_row :: "cstr list \<Rightarrow> int \<Rightarrow> case_row" where
  "new_case_row ps now =
     \<lparr>cr_fir_number = ps ! 0, cr_case_type = ps ! 1, cr_case_status = ''REGISTERED'',
      cr_incident_date = sql_int0 (ps ! 2), cr_incident_address = ps ! 3,
      cr_incident_description = ps ! 4, cr_incident_lat = ps ! 5, cr_incident_lon = ps ! 6,
      cr_station_id = sql_int0 (ps ! 7), cr_primary_complainant_cnic = ps ! 8,
      cr_filed_by = sql_int0 (ps ! 9), cr_filed_at = sql_int0 (ps ! 10), cr_closed_at = None,
      cr_closure_reason = None, cr_approved_by = None, cr_updated_at = now\<rparr>"

definition insert_case :: case_statement where
  "insert_case ps rg =
     unless_holds (may_file rg (sql_int0 (ps ! 9))) ''P0001'' rg
       (unless_holds (\<not> list_ex (\<lambda>(k, r). cr_fir_number r = ps ! 0) (rg_cases rg)) ''23505'' rg
         (unless_holds (sql_int0 (ps ! 7) \<in> set (rg_stations rg) \<and> has_person rg (ps ! 8)
             \<and> has_officer rg (sql_int0 (ps ! 9))) ''23503'' rg
           (let k = next_id (rg_cases rg)
            in (Rows [[show_int k]],
                rg\<lparr>rg_cases := rg_cases rg @ [(k, new_case_row ps (rg_now rg))]\<rparr>))))"

definition case_cells :: "int \<Rightarrow> case_row \<Rightarrow> string list" where
  "case_cells k r = [show_int k, cell (cr_fir_number r), show_int (cr_station_id r), show_int (cr_filed_by r)]"

definition rows_where :: "(int \<Rightarrow> 'r \<Rightarrow> bool) \<Rightarrow> (int \<Rightarrow> 'r \<Rightarrow> string list) \<Rightarrow> 'r table \<Rightarrow> outcome_pg" where
  "rows_where P row t = Rows (map (\<lambda>(k, r). row k r) (filter (\<lambda>(k, r). P k r) (sort_key fst t)))"

definition select_case :: case_statement where
  "select_case ps rg = (rows_where (\<lambda>k r. Some k = sql_int (ps ! 0)) case_cells (rg_cases rg), rg)"

definition select_cases_by_station :: case_statement where
  "select_cases_by_station ps rg =
     (rows_where (\<lambda>k r. Some (cr_station_id r) = sql_int (ps ! 0)) case_cells (rg_cases rg), rg)"

definition select_cases_by_status :: case_statement where
  "select_cases_by_status ps rg =
     (rows_where (\<lambda>k r. Some (cr_station_id r) = sql_int (ps ! 0) \<and> Some (cr_case_status r) = ps ! 1)
        case_cells (rg_cases rg), rg)"

definition close_row :: "cstr list \<Rightarrow> int \<Rightarrow> case_row \<Rightarrow> case_row" where
  "close_row ps now r =
     r\<lparr>cr_case_status := ''CLOSED'', cr_closed_at := Some now, cr_closure_reason := ps ! 1,
       cr_approved_by := sql_int (ps ! 2), cr_updated_at := now\<rparr>"

text \<open>The trigger looks at a row that is not closed yet.\<close>

definition close_case :: case_statement where
  "close_case ps rg =
     (case map_of (rg_cases rg) (sql_int0 (ps ! 0)) of
        None \<Rightarrow> (Changed 0, rg)
      | Some r \<Rightarrow>
          unless_holds (cr_case_status r = ''CLOSED'' \<or> may_close rg (sql_int0 (ps ! 2))) ''P0001'' rg
            (unless_holds (has_officer rg (sql_int0 (ps ! 2))) ''23503'' rg
              (Changed 1,
               rg\<lparr>rg_cases := update_where (\<lambda>k r. k = sql_int0 (ps ! 0)) (close_row ps (rg_now rg)) (rg_cases rg)\<rparr>)))"

definition insert_victim :: case_statement where
  "insert_victim ps rg =
     unless_holds (has_case rg (sql_int0 (ps ! 0)) \<and> has_person rg (ps ! 1) \<and> has_officer rg (sql_int0 (ps ! 6)))
       ''23503'' rg
       (let k = next_id (rg_victims rg);
            r = \<lparr>vr_case_id = sql_int0 (ps ! 0), vr_person_cnic = ps ! 1, vr_injury_type = ps ! 2,
                 vr_injury_severity = ps ! 3, vr_vulnerability_category = ps ! 4,
                 vr_medical_report_ref = ps ! 5, vr_added_by = sql_int0 (ps ! 6)\<rparr>
        in (Rows [[show_int k]], rg\<lparr>rg_victims := rg_victims rg @ [(k, r)]\<rparr>))"

definition victim_cells :: "int \<Rightarrow> victim_row \<Rightarrow> string list" where
  "victim_cells k r = [show_int k, show_int (vr_case_id r), cell (vr_person_cnic r), cell (vr_injury_type r),
     cell (vr_medical_report_ref r), show_int (vr_added_by r)]"

definition select_victims :: case_statement where
  "select_victims ps rg =
     (rows_where (\<lambda>k r. Some (vr_case_id r) = sql_int (ps ! 0)) victim_cells (rg_victims rg), rg)"

definition null_if_empty :: "cstr \<Rightarrow> cstr" where
  "null_if_empty p = (if p = Some [] then None else p)"

definition insert_witness :: case_statement where
  "insert_witness ps rg =
     unless_holds (has_case rg (sql_int0 (ps ! 0)) \<and> has_person rg (ps ! 1) \<and> has_officer rg (sql_int0 (ps ! 6)))
       ''23503'' rg
       (let k = next_id (rg_witnesses rg);
            r = \<lparr>wt_case_id = sql_int0 (ps ! 0), wt_person_cnic = ps ! 1,
                 wt_statement_text = null_if_empty (ps ! 2),
                 wt_statement_file_path = null_if_empty (ps ! 3), wt_statement_recorded_at = rg_now rg,
                 wt_recorded_by = sql_int0 (ps ! 6), wt_protection_status = ps ! 4,
                 wt_is_identity_concealed = (sql_int (ps ! 5) = Some 1),
                 wt_added_by = sql_int0 (ps ! 6), wt_updated_at = rg_now rg\<rparr>
        in (Rows [[show_int k]], rg\<lparr>rg_witnesses := rg_witnesses rg @ [(k, r)]\<rparr>))"

definition update_witness :: case_statement where
  "update_witness ps rg =
     unless_holds (count_where (\<lambda>k r. Some k = sql_int (ps ! 2)) (rg_witnesses rg) = 0
         \<or> has_officer rg (sql_int0 (ps ! 1))) ''23503'' rg
       (Changed (count_where (\<lambda>k r. Some k = sql_int (ps ! 2)) (rg_witnesses rg)),
        rg\<lparr>rg_witnesses := update_where (\<lambda>k r. Some k = sql_int (ps ! 2))
             (\<lambda>r. r\<lparr>wt_protection_status := ps ! 0, wt_recorded_by := sql_int0 (ps ! 1),
                    wt_updated_at := rg_now rg\<rparr>) (rg_witnesses rg)\<rparr>)"

definition witness_cells :: "int \<Rightarrow> witness_row \<Rightarrow> string list" where
  "witness_cells k r = [show_int k, show_int (wt_case_id r), cell (wt_person_cnic r),
     cell (wt_statement_text r), cell (wt_statement_file_path r), show_int (wt_recorded_by r),
     (if wt_is_identity_concealed r then ''t'' else ''f''), show_int (wt_added_by r)]"

definition select_witnesses :: case_statement where
  "select_witnesses ps rg =
     (rows_where (\<lambda>k r. Some (wt_case_id r) = sql_int (ps ! 0)) witness_cells (rg_witnesses rg), rg)"

definition insert_accused :: case_statement where
  "insert_accused ps rg =
     unless_holds (has_case rg (sql_int0 (ps ! 0)) \<and> has_person rg (ps ! 1) \<and> has_officer rg (sql_int0 (ps ! 3)))
       ''23503'' rg
       (let k = next_id (rg_accused rg);
            r = \<lparr>ac_row_case_id = sql_int0 (ps ! 0), ac_row_person_cnic = ps ! 1, ac_row_master_cnic = None,
                 ac_row_involvement_type = ps ! 2, ac_row_added_by = sql_int0 (ps ! 3)\<rparr>
        in (Rows [[show_int k]], rg\<lparr>rg_accused := rg_accused rg @ [(k, r)]\<rparr>))"

definition insert_association :: case_statement where
  "insert_association ps rg =
     (let a = sql_int0 (ps ! 0); b = sql_int0 (ps ! 1)
      in unless_holds (a \<noteq> b) ''23514'' rg
           (unless_holds (\<not> list_ex (\<lambda>(x, y, t). x = a \<and> y = b) (rg_associations rg)) ''23505'' rg
             (unless_holds (has_accused rg a \<and> has_accused rg b) ''23503'' rg
               (Changed 1, rg\<lparr>rg_associations := rg_associations rg @ [(a, b, ps ! 2)]\<rparr>))))"

definition accused_cells :: "int \<Rightarrow> accused_row \<Rightarrow> string list" where
  "accused_cells k r = [show_int k, show_int (ac_row_case_id r), cell (ac_row_person_cnic r),
     cell (ac_row_master_cnic r), show_int (ac_row_added_by r)]"

definition select_accused :: case_statement where
  "select_accused ps rg =
     (rows_where (\<lambda>k r. Some (ac_row_case_id r) = sql_int (ps ! 0)) accused_cells (rg_accused rg), rg)"

definition insert_vehicle_case :: case_statement where
  "insert_vehicle_case ps rg =
     (let v = sql_int0 (ps ! 0); c = sql_int0 (ps ! 1)
      in unless_holds (\<not> list_ex (\<lambda>(k, r). vc_vehicle_id r = v \<and> vc_case_id r = c \<and> vc_vehicle_role r = ps ! 2)
             (rg_vehicle_cases rg)) ''23505'' rg
           (unless_holds (v \<in> set (rg_vehicles rg) \<and> has_case rg c \<and> has_officer rg (sql_int0 (ps ! 4)))
              ''23503'' rg
             (let k = next_id (rg_vehicle_cases rg);
                  r = \<lparr>vc_vehicle_id = v, vc_case_id = c, vc_vehicle_role = ps ! 2,
                       vc_condition_notes = ps ! 3, vc_added_by = sql_int0 (ps ! 4)\<rparr>
              in (Changed 1, rg\<lparr>rg_vehicle_cases := rg_vehicle_cases rg @ [(k, r)]\<rparr>))))"

definition vehicle_cells :: "int \<Rightarrow> vehicle_case_row \<Rightarrow> string list" where
  "vehicle_cells k r = [show_int k, show_int (vc_vehicle_id r), show_int (vc_case_id r),
     cell (vc_condition_notes r), show_int (vc_added_by r)]"

definition select_vehicle_cases :: case_statement where
  "select_vehicle_cases ps rg =
     (rows_where (\<lambda>k r. Some (vc_case_id r) = sql_int (ps ! 0)) vehicle_cells (rg_vehicle_cases rg), rg)"

fun exec_case :: "case_stmt \<Rightarrow> case_statement" where
  "exec_case INSERT_CASE ps rg = insert_case ps rg"
| "exec_case SELECT_CASE ps rg = select_case ps rg"
| "exec_case SELECT_CASES_BY_STATION ps rg = select_cases_by_station ps rg"
| "exec_case SELECT_CASES_BY_STATUS ps rg = select_cases_by_status ps rg"
| "exec_case CLOSE_CASE ps rg = close_case ps rg"
| "exec_case INSERT_VICTIM ps rg = insert_victim ps rg"
| "exec_case SELECT_VICTIMS ps rg = select_victims ps rg"
| "exec_case INSERT_WITNESS ps rg = insert_witness ps rg"
| "exec_case UPDATE_WITNESS ps rg = update_witness ps rg"
| "exec_case SELECT_WITNESSES ps rg = select_witnesses ps rg"
| "exec_case INSERT_ACCUSED ps rg = insert_accused ps rg"
| "exec_case INSERT_ASSOCIATION ps rg = insert_association ps rg"
| "exec_case SELECT_ACCUSED ps rg = select_accused ps rg"
| "exec_case INSERT_VEHICLE_CASE ps rg = insert_vehicle_case ps rg"
| "exec_case SELECT_VEHICLE_CASES ps rg = select_vehicle_cases ps rg"

definition run_case :: "registry \<Rightarrow> case_stmt \<Rightarrow> cstr list \<Rightarrow> outcome_pg \<times> registry" where
  "run_case rg stmt ps =
     (let rg' = rg\<lparr>rg_count := rg_count rg + 1\<rparr>
      in case rg_fails rg (rg_count rg) of
           Some state \<Rightarrow> (Failed state, rg')
         | None \<Rightarrow> exec_case stmt ps rg')"

end
