(* ===== verification/Case_Facade.thy ===== *)
theory Case_Facade
  imports Case_Db Investigation "HOL-Library.Multiset"
begin

text \<open>
  The cases and their parties: \<open>system_layer::CaseFacade\<close> (\<open>src/system/system.cpp\<close>, section 5), with
  \<open>detail::mapPgFailure\<close>. A \<open>SystemResult\<close> is its code and its value; a failure has the default value.
  \<open>pq\<close> is \<open>PQexecParams\<close> on the connection, \<open>conn\<close> says what the pointer is: null, or a connection
  that is in the state \<open>CONNECTION_OK\<close> or not. The properties are stated on the tables of \<open>Case_Db\<close>.
\<close>

section \<open>Results\<close>

type_synonym 'a system_result = "result_code \<times> 'a"

definition success :: "'a \<Rightarrow> 'a system_result" where
  "success v = (OK, v)"

definition failure :: "'a \<Rightarrow> result_code \<Rightarrow> 'a system_result" where
  "failure dflt rc = (rc, dflt)"

type_synonym 'd case_backend = "'d \<Rightarrow> case_stmt \<Rightarrow> cstr list \<Rightarrow> outcome_pg \<times> 'd"

definition conn_ok :: "bool option \<Rightarrow> bool" where
  "conn_ok conn \<longleftrightarrow> conn = Some True"

text \<open>\<open>PQresultErrorField(res, PG_DIAG_SQLSTATE)\<close> is null for a result without an error.\<close>

definition mapPgFailure :: "outcome_pg \<Rightarrow> result_code" where
  "mapPgFailure res =
     (case res of
        Failed (Some state) \<Rightarrow>
          if state = ''23505'' then ALREADY_EXISTS
          else if state = ''23503'' then FOREIGN_KEY_VIOLATION
          else if state = ''22000'' \<or> state = ''22P02'' then INVALID_INPUT
          else DB_ERROR
      | _ \<Rightarrow> DB_ERROR)"

section \<open>Records\<close>

text \<open>The fields of \<open>JusticeFlow::Case\<close> and of the parties that this layer reads; the others keep the
  zero of \<open>T v{}\<close>, and of those the enumerations are kept here.\<close>

record case_out =
  co_case_id :: int
  co_fir_number :: string
  co_station_id :: int
  co_filed_by :: int
  co_case_type :: case_type
  co_case_status :: case_status
  co_filed_at :: int
  co_incident_address :: string

record victim_out =
  vo_victim_id :: int
  vo_case_id :: int
  vo_person_cnic :: string
  vo_injury_type :: string
  vo_injury_severity :: injury_severity
  vo_vulnerability_category :: vulnerability_category
  vo_medical_report_ref :: string
  vo_added_by :: int

record witness_out =
  wo_witness_id :: int
  wo_case_id :: int
  wo_person_cnic :: string
  wo_statement_text :: string
  wo_statement_file_path :: string
  wo_recorded_by :: int
  wo_protection_status :: witness_protection
  wo_is_identity_concealed :: bool
  wo_added_by :: int

record accused_out =
  ao_accused_id :: int
  ao_master_accused_cnic :: string
  ao_case_id :: int
  ao_person_cnic :: string
  ao_involvement_type :: involvement_type
  ao_added_by :: int

record vehicle_case_out =
  vco_vehicle_case_id :: int
  vco_vehicle_id :: int
  vco_case_id :: int
  vco_vehicle_role :: vehicle_role
  vco_condition_notes :: string
  vco_added_by :: int

definition empty_case :: case_out where
  "empty_case = \<lparr>co_case_id = 0, co_fir_number = [], co_station_id = 0, co_filed_by = 0,
     co_case_type = MURDER, co_case_status = REGISTERED, co_filed_at = 0, co_incident_address = []\<rparr>"

section \<open>What the operations share\<close>

text \<open>\<open>session.officerId > 0 ? session.officerId : 1\<close>\<close>

definition acting_officer :: "session_context \<Rightarrow> int" where
  "acting_officer session = (if 0 < sc_officerId session then sc_officerId session else 1)"

definition text_or :: "string \<Rightarrow> cstr \<Rightarrow> cstr" where
  "text_or fallback p = Some (case p of None \<Rightarrow> fallback | Some s \<Rightarrow> s)"

definition num :: "int \<Rightarrow> cstr" where
  "num i = Some (show_int i)"

text \<open>An INSERT with \<open>RETURNING\<close>: one row with the new number, or a failure.\<close>

definition returning :: "outcome_pg \<times> 'd \<Rightarrow> int system_result \<times> 'd" where
  "returning result =
     (case result of
        (Rows [row], db) \<Rightarrow> (success (atoi (row ! 0)), db)
      | (res, db) \<Rightarrow> (failure 0 (mapPgFailure res), db))"

text \<open>An INSERT without it.\<close>

definition command_only :: "outcome_pg \<times> 'd \<Rightarrow> unit system_result \<times> 'd" where
  "command_only result =
     (case result of
        (Changed n, db) \<Rightarrow> (success (), db)
      | (res, db) \<Rightarrow> (failure () (mapPgFailure res), db))"

text \<open>An UPDATE: found when \<open>PQcmdTuples\<close> is positive.\<close>

definition found_only :: "outcome_pg \<times> 'd \<Rightarrow> unit system_result \<times> 'd" where
  "found_only result =
     (case result of
        (Changed n, db) \<Rightarrow> ((if 0 < n then success () else failure () NOT_FOUND), db)
      | (res, db) \<Rightarrow> (failure () (mapPgFailure res), db))"

text \<open>A SELECT: the records of its rows.\<close>

definition listing :: "(string list \<Rightarrow> 'r) \<Rightarrow> outcome_pg \<times> 'd \<Rightarrow> 'r list system_result \<times> 'd" where
  "listing read result =
     (case result of
        (Rows rows, db) \<Rightarrow> (success (map read rows), db)
      | (res, db) \<Rightarrow> (failure [] (mapPgFailure res), db))"

section \<open>Cases\<close>

text \<open>\<open>seq\<close> is the static counter of the process, a 64-bit word.\<close>

definition fir_text :: "int \<Rightarrow> 64 word \<Rightarrow> string" where
  "fir_text filed_time seq =
     in_buffer 64 (''FIR-'' @ show_int filed_time @ ''-'' @ pad6 (show_nat (unat seq)))"

definition registerCase ::
  "'d case_backend \<Rightarrow> bool option \<Rightarrow> session_context \<Rightarrow> case_type \<Rightarrow> int \<Rightarrow> cstr \<Rightarrow> cstr
     \<Rightarrow> double \<Rightarrow> double \<Rightarrow> int \<Rightarrow> cstr \<Rightarrow> 64 word \<Rightarrow> 'd \<Rightarrow> int system_result \<times> 64 word \<times> 'd" where
  "registerCase pq conn session type filed_time address desc lat lon station_id cnic fir_seq db =
     (if \<not> conn_ok conn \<or> null_or_empty cnic then (failure 0 INVALID_INPUT, fir_seq, db)
      else
        let seq = fir_seq + 1;
            (res, db) = returning (pq db INSERT_CASE
              [Some (fir_text filed_time seq), Some (toCaseTypeEnum type), num filed_time,
               text_or [] address, text_or [] desc,
               Some (in_buffer 32 (show_double lat)), Some (in_buffer 32 (show_double lon)),
               num station_id, cnic, num (acting_officer session), num filed_time])
        in (res, seq, db))"

definition read_case :: "string list \<Rightarrow> case_out" where
  "read_case row = empty_case\<lparr>co_case_id := atoi (row ! 0), co_fir_number := row ! 1,
     co_station_id := atoi (row ! 2), co_filed_by := atoi (row ! 3)\<rparr>"

text \<open>\<open>DefaultSubsystem2Adapter::fetchCase\<close>\<close>

definition adapter_fetchCase ::
  "'s query_fun \<Rightarrow> int \<Rightarrow> 's \<Rightarrow> (case_entity option system_result \<times> 's) run" where
  "adapter_fetchCase exec case_id s =
     and_then (fetchCase exec case_id s) (\<lambda>(rc, raw, s).
       Inr (if rc = OK \<and> raw \<noteq> None then success raw else failure None rc, s))"

text \<open>Without a connection the case comes from subsystem 2, with nothing but its number. \<open>s2\<close> is the
  adapter the pointer \<open>s2_\<close> names; calling it through a null pointer is undefined.\<close>

definition getCaseById ::
  "'d case_backend \<Rightarrow> 's query_fun option \<Rightarrow> bool option \<Rightarrow> int \<Rightarrow> 'd \<Rightarrow> 's
     \<Rightarrow> (case_out system_result \<times> 'd \<times> 's) run" where
  "getCaseById pq s2 conn case_id db s =
     (if \<not> conn_ok conn
      then
        (case s2 of
           None \<Rightarrow> Inl UndefinedBehaviour
         | Some exec \<Rightarrow>
             and_then (adapter_fetchCase exec case_id s) (\<lambda>((rc, v), s).
               Inr ((case v of
                       Some c \<Rightarrow> if rc = OK then success (empty_case\<lparr>co_case_id := cd_case_id (ce_data c)\<rparr>)
                                 else failure empty_case rc
                     | None \<Rightarrow> failure empty_case rc), db, s)))
      else
        (case pq db SELECT_CASE [num case_id] of
           (Rows [], db) \<Rightarrow> Inr (failure empty_case NOT_FOUND, db, s)
         | (Rows (row # rows), db) \<Rightarrow> Inr (success (read_case row), db, s)
         | (res, db) \<Rightarrow> Inr (failure empty_case (mapPgFailure res), db, s)))"

definition getCasesByStation ::
  "'d case_backend \<Rightarrow> bool option \<Rightarrow> int \<Rightarrow> 'd \<Rightarrow> case_out list system_result \<times> 'd" where
  "getCasesByStation pq conn station_id db =
     (if \<not> conn_ok conn then (failure [] DB_ERROR, db)
      else listing read_case (pq db SELECT_CASES_BY_STATION [num station_id]))"

definition getCasesByStatus ::
  "'d case_backend \<Rightarrow> bool option \<Rightarrow> int \<Rightarrow> case_status \<Rightarrow> 'd \<Rightarrow> case_out list system_result \<times> 'd" where
  "getCasesByStatus pq conn station_id status db =
     (if \<not> conn_ok conn then (failure [] DB_ERROR, db)
      else listing read_case (pq db SELECT_CASES_BY_STATUS [num station_id, Some (toCaseStatusEnum status)]))"

definition closeCase ::
  "'d case_backend \<Rightarrow> bool option \<Rightarrow> session_context \<Rightarrow> int \<Rightarrow> cstr \<Rightarrow> 'd \<Rightarrow> unit system_result \<times> 'd" where
  "closeCase pq conn session case_id reason db =
     (if \<not> conn_ok conn then (failure () DB_ERROR, db)
      else found_only (pq db CLOSE_CASE
             [num case_id, text_or ''Closed'' reason, num (acting_officer session)]))"

text \<open>Ten operations of the facade are not written yet: each answers \<open>NOT_FOUND\<close> without looking at its
  arguments.\<close>

definition updateCaseStatus :: "unit system_result" where "updateCaseStatus = failure () NOT_FOUND"
definition reopenCase :: "unit system_result" where "reopenCase = failure () NOT_FOUND"
definition transferCase :: "unit system_result" where "transferCase = failure () NOT_FOUND"
definition getCaseStatusLog :: "unit list system_result" where "getCaseStatusLog = failure [] NOT_FOUND"
definition assignOfficerToCase :: "unit system_result" where "assignOfficerToCase = failure () NOT_FOUND"
definition relieveOfficerFromCase :: "unit system_result" where "relieveOfficerFromCase = failure () NOT_FOUND"
definition getAssignedOfficers :: "unit list system_result" where "getAssignedOfficers = failure [] NOT_FOUND"
definition addComplainant :: "int system_result" where "addComplainant = failure 0 NOT_FOUND"
definition updateComplainantStatus :: "unit system_result" where "updateComplainantStatus = failure () NOT_FOUND"
definition getComplainantsByCase :: "unit list system_result" where "getComplainantsByCase = failure [] NOT_FOUND"

section \<open>Parties\<close>

definition addVictim ::
  "'d case_backend \<Rightarrow> bool option \<Rightarrow> session_context \<Rightarrow> int \<Rightarrow> cstr \<Rightarrow> cstr \<Rightarrow> injury_severity
     \<Rightarrow> vulnerability_category \<Rightarrow> cstr \<Rightarrow> 'd \<Rightarrow> int system_result \<times> 'd" where
  "addVictim pq conn session case_id cnic injury_type sev vuln medical_ref db =
     (if \<not> conn_ok conn \<or> null_or_empty cnic then (failure 0 INVALID_INPUT, db)
      else returning (pq db INSERT_VICTIM
             [num case_id, cnic, text_or [] injury_type, Some (toInjurySeverityEnum sev),
              Some (toVulnerabilityEnum vuln), text_or [] medical_ref, num (acting_officer session)]))"

definition read_victim :: "string list \<Rightarrow> victim_out" where
  "read_victim row =
     \<lparr>vo_victim_id = atoi (row ! 0), vo_case_id = atoi (row ! 1), vo_person_cnic = row ! 2,
      vo_injury_type = row ! 3, vo_injury_severity = INJURY_NONE,
      vo_vulnerability_category = VULNERABILITY_NONE, vo_medical_report_ref = row ! 4,
      vo_added_by = atoi (row ! 5)\<rparr>"

definition getVictimsByCase ::
  "'d case_backend \<Rightarrow> bool option \<Rightarrow> int \<Rightarrow> 'd \<Rightarrow> victim_out list system_result \<times> 'd" where
  "getVictimsByCase pq conn case_id db =
     (if \<not> conn_ok conn then (failure [] DB_ERROR, db)
      else listing read_victim (pq db SELECT_VICTIMS [num case_id]))"

definition addWitness ::
  "'d case_backend \<Rightarrow> bool option \<Rightarrow> session_context \<Rightarrow> int \<Rightarrow> cstr \<Rightarrow> cstr \<Rightarrow> cstr
     \<Rightarrow> witness_protection \<Rightarrow> bool \<Rightarrow> 'd \<Rightarrow> int system_result \<times> 'd" where
  "addWitness pq conn session case_id cnic statement file_path prot conceal db =
     (if \<not> conn_ok conn \<or> null_or_empty cnic then (failure 0 INVALID_INPUT, db)
      else returning (pq db INSERT_WITNESS
             [num case_id, cnic, text_or [] statement, text_or [] file_path,
              Some (toWitnessProtectionEnum prot), num (if conceal then 1 else 0),
              num (acting_officer session)]))"

definition updateWitnessProtection ::
  "'d case_backend \<Rightarrow> bool option \<Rightarrow> session_context \<Rightarrow> int \<Rightarrow> witness_protection \<Rightarrow> 'd
     \<Rightarrow> unit system_result \<times> 'd" where
  "updateWitnessProtection pq conn session witness_id st db =
     (if \<not> conn_ok conn then (failure () DB_ERROR, db)
      else found_only (pq db UPDATE_WITNESS
             [Some (toWitnessProtectionEnum st), num (acting_officer session), num witness_id]))"

definition read_witness :: "string list \<Rightarrow> witness_out" where
  "read_witness row =
     \<lparr>wo_witness_id = atoi (row ! 0), wo_case_id = atoi (row ! 1), wo_person_cnic = row ! 2,
      wo_statement_text = row ! 3, wo_statement_file_path = row ! 4, wo_recorded_by = atoi (row ! 5),
      wo_protection_status = PROTECTION_NONE, wo_is_identity_concealed = (row ! 6 = ''t''),
      wo_added_by = atoi (row ! 7)\<rparr>"

definition getWitnessesByCase ::
  "'d case_backend \<Rightarrow> bool option \<Rightarrow> int \<Rightarrow> 'd \<Rightarrow> witness_out list system_result \<times> 'd" where
  "getWitnessesByCase pq conn case_id db =
     (if \<not> conn_ok conn then (failure [] DB_ERROR, db)
      else listing read_witness (pq db SELECT_WITNESSES [num case_id]))"

definition addAccused ::
  "'d case_backend \<Rightarrow> bool option \<Rightarrow> session_context \<Rightarrow> int \<Rightarrow> cstr \<Rightarrow> involvement_type \<Rightarrow> 'd
     \<Rightarrow> int system_result \<times> 'd" where
  "addAccused pq conn session case_id cnic involvement db =
     (if \<not> conn_ok conn \<or> null_or_empty cnic then (failure 0 INVALID_INPUT, db)
      else returning (pq db INSERT_ACCUSED
             [num case_id, cnic, Some (toInvolvementTypeEnum involvement), num (acting_officer session)]))"

definition linkAccusedAssociation ::
  "'d case_backend \<Rightarrow> bool option \<Rightarrow> session_context \<Rightarrow> int \<Rightarrow> int \<Rightarrow> association_type \<Rightarrow> 'd
     \<Rightarrow> unit system_result \<times> 'd" where
  "linkAccusedAssociation pq conn session accused_id associated_id atype db =
     (if \<not> conn_ok conn then (failure () DB_ERROR, db)
      else command_only (pq db INSERT_ASSOCIATION
             [num accused_id, num associated_id, Some (toAssociationTypeEnum atype)]))"

definition read_accused :: "string list \<Rightarrow> accused_out" where
  "read_accused row =
     \<lparr>ao_accused_id = atoi (row ! 0), ao_master_accused_cnic = row ! 3, ao_case_id = atoi (row ! 1),
      ao_person_cnic = row ! 2, ao_involvement_type = SUSPECT, ao_added_by = atoi (row ! 4)\<rparr>"

definition getAccusedByCase ::
  "'d case_backend \<Rightarrow> bool option \<Rightarrow> int \<Rightarrow> 'd \<Rightarrow> accused_out list system_result \<times> 'd" where
  "getAccusedByCase pq conn case_id db =
     (if \<not> conn_ok conn then (failure [] DB_ERROR, db)
      else listing read_accused (pq db SELECT_ACCUSED [num case_id]))"

definition linkVehicleToCase ::
  "'d case_backend \<Rightarrow> bool option \<Rightarrow> session_context \<Rightarrow> int \<Rightarrow> int \<Rightarrow> vehicle_role \<Rightarrow> cstr \<Rightarrow> 'd
     \<Rightarrow> unit system_result \<times> 'd" where
  "linkVehicleToCase pq conn session case_id vehicle_id role notes db =
     (if \<not> conn_ok conn then (failure () DB_ERROR, db)
      else command_only (pq db INSERT_VEHICLE_CASE
             [num vehicle_id, num case_id, Some (toVehicleRoleEnum role), text_or [] notes,
              num (acting_officer session)]))"

definition read_vehicle_case :: "string list \<Rightarrow> vehicle_case_out" where
  "read_vehicle_case row =
     \<lparr>vco_vehicle_case_id = atoi (row ! 0), vco_vehicle_id = atoi (row ! 1), vco_case_id = atoi (row ! 2),
      vco_vehicle_role = STOLEN, vco_condition_notes = row ! 3, vco_added_by = atoi (row ! 4)\<rparr>"

definition getVehiclesByCase ::
  "'d case_backend \<Rightarrow> bool option \<Rightarrow> int \<Rightarrow> 'd \<Rightarrow> vehicle_case_out list system_result \<times> 'd" where
  "getVehiclesByCase pq conn case_id db =
     (if \<not> conn_ok conn then (failure [] DB_ERROR, db)
      else listing read_vehicle_case (pq db SELECT_VEHICLE_CASES [num case_id]))"

section \<open>The registry\<close>

text \<open>The operations that write; \<open>step_clock\<close> lets time pass and other failures come.\<close>

inductive facade_step :: "registry \<Rightarrow> registry \<Rightarrow> bool" where
  step_register: "registerCase run_case conn session ty t addr desc lat lon st cnic seq rg = (res, seq', rg')
     \<Longrightarrow> facade_step rg rg'"
| step_close: "closeCase run_case conn session i reason rg = (ures, rg') \<Longrightarrow> facade_step rg rg'"
| step_victim: "addVictim run_case conn session i cnic injury sev vuln ref rg = (res, rg') \<Longrightarrow> facade_step rg rg'"
| step_witness: "addWitness run_case conn session i cnic stm path prot conceal rg = (res, rg') \<Longrightarrow> facade_step rg rg'"
| step_protection: "updateWitnessProtection run_case conn session i prot rg = (ures, rg') \<Longrightarrow> facade_step rg rg'"
| step_accused: "addAccused run_case conn session i cnic invol rg = (res, rg') \<Longrightarrow> facade_step rg rg'"
| step_association: "linkAccusedAssociation run_case conn session a b ty2 rg = (ures, rg') \<Longrightarrow> facade_step rg rg'"
| step_vehicle: "linkVehicleToCase run_case conn session i v role notes rg = (ures, rg') \<Longrightarrow> facade_step rg rg'"
| step_clock: "facade_step rg (rg\<lparr>rg_now := now, rg_fails := fails\<rparr>)"

inductive_cases facade_stepE: "facade_step rg rg'"

lemmas shared_defs = returning_def command_only_def found_only_def listing_def

lemma shared_state [simp]:
  "snd (returning result) = snd result" "snd (command_only result) = snd result"
  "snd (found_only result) = snd result" "snd (listing read result) = snd result"
  by (auto simp: shared_defs split: outcome_pg.splits list.splits prod.splits)

text \<open>An operation runs one statement, or none.\<close>

lemma step_is_statement:
  "facade_step rg rg' \<Longrightarrow> rg' = rg \<or> (\<exists>stmt ps. rg' = snd (run_case rg stmt ps))
     \<or> (\<exists>now fails. rg' = rg\<lparr>rg_now := now, rg_fails := fails\<rparr>)"
proof (induction rule: facade_step.induct)
  case (step_register conn session ty t addr desc lat lon st cnic seq rg res seq' rg')
  then show ?case
    by (auto simp: registerCase_def Let_def split: if_splits prod.splits dest!: arg_cong [where f = snd])
      blast
qed (auto simp: closeCase_def addVictim_def addWitness_def updateWitnessProtection_def addAccused_def
    linkAccusedAssociation_def linkVehicleToCase_def split: if_splits dest!: arg_cong [where f = snd],
    blast+)

text \<open>What the schema guarantees of the tables.\<close>

definition good_registry :: "registry \<Rightarrow> bool" where
  "good_registry rg \<longleftrightarrow>
     wf_map (rg_cases rg) \<and> wf_map (rg_victims rg) \<and> wf_map (rg_witnesses rg) \<and> wf_map (rg_accused rg)
     \<and> wf_map (rg_vehicle_cases rg)
     \<and> distinct (map (\<lambda>(k, r). cr_fir_number r) (rg_cases rg))
     \<and> (\<forall>(k, r) \<in> set (rg_victims rg). has_case rg (vr_case_id r))
     \<and> (\<forall>(k, r) \<in> set (rg_witnesses rg). has_case rg (wt_case_id r))
     \<and> (\<forall>(k, r) \<in> set (rg_accused rg). has_case rg (ac_row_case_id r))
     \<and> (\<forall>(k, r) \<in> set (rg_vehicle_cases rg). has_case rg (vc_case_id r))"

text \<open>A case as the registry sees it: FIR number, station, officer and status.\<close>

type_synonym case_view = "int \<Rightarrow> (cstr \<times> int \<times> int \<times> string) option"

definition view_of :: "registry \<Rightarrow> case_view" where
  "view_of rg k = map_option (\<lambda>r. (cr_fir_number r, cr_station_id r, cr_filed_by r, cr_case_status r))
     (map_of (rg_cases rg) k)"

inductive view_step :: "case_view \<Rightarrow> case_view \<Rightarrow> bool" where
  view_register: "v k = None \<Longrightarrow> 0 < k \<Longrightarrow> (\<And>j c. v j = Some c \<Longrightarrow> fst c \<noteq> fir)
     \<Longrightarrow> view_step v (v(k \<mapsto> (fir, st, officer, ''REGISTERED'')))"
| view_close: "v k = Some (fir, st, officer, status) \<Longrightarrow> view_step v (v(k \<mapsto> (fir, st, officer, ''CLOSED'')))"

lemma snd_unless_holds: "snd (unless_holds b state rg result) = (if b then snd result else rg)"
  by (simp add: unless_holds_def)

text \<open>A statement keeps the schema's guarantees, and is a step of the registry or none.\<close>

definition statement_sound :: "registry \<Rightarrow> registry \<Rightarrow> bool" where
  "statement_sound rg rg' \<longleftrightarrow> good_registry rg' \<and> view_step\<^sup>=\<^sup>= (view_of rg) (view_of rg')"

lemma sound_refl: "good_registry rg \<Longrightarrow> statement_sound rg rg"
  by (simp add: statement_sound_def)

lemma view_same [simp]:
  "view_of (rg\<lparr>rg_victims := vs\<rparr>) = view_of rg" "view_of (rg\<lparr>rg_witnesses := ws\<rparr>) = view_of rg"
  "view_of (rg\<lparr>rg_accused := as\<rparr>) = view_of rg" "view_of (rg\<lparr>rg_vehicle_cases := cs\<rparr>) = view_of rg"
  "view_of (rg\<lparr>rg_associations := ls\<rparr>) = view_of rg" "view_of (rg\<lparr>rg_count := n\<rparr>) = view_of rg"
  "view_of (rg\<lparr>rg_now := now, rg_fails := fails\<rparr>) = view_of rg"
  by (simp_all add: view_of_def fun_eq_iff)

lemma has_case_same [simp]:
  "has_case (rg\<lparr>rg_victims := vs\<rparr>) = has_case rg" "has_case (rg\<lparr>rg_witnesses := ws\<rparr>) = has_case rg"
  "has_case (rg\<lparr>rg_accused := as\<rparr>) = has_case rg" "has_case (rg\<lparr>rg_vehicle_cases := cs\<rparr>) = has_case rg"
  "has_case (rg\<lparr>rg_associations := ls\<rparr>) = has_case rg" "has_case (rg\<lparr>rg_count := n\<rparr>) = has_case rg"
  "has_case (rg\<lparr>rg_now := now, rg_fails := fails\<rparr>) = has_case rg"
  by (simp_all add: has_case_def fun_eq_iff)

lemma case_in_table: "map_of (rg_cases rg) k = Some r \<Longrightarrow> (k, r) \<in> set (rg_cases rg)"
  by (rule map_of_SomeD)

lemma sound_insert_case:
  assumes good: "good_registry rg"
  shows "statement_sound rg (snd (insert_case ps rg))"
proof -
  define k where "k = next_id (rg_cases rg)"
  define rg' where "rg' = rg\<lparr>rg_cases := rg_cases rg @ [(k, new_case_row ps (rg_now rg))]\<rparr>"
  have m: "map_of (rg_cases rg') = (map_of (rg_cases rg))(k \<mapsto> new_case_row ps (rg_now rg))"
    by (simp add: rg'_def k_def map_of_insert del: map_of_append)
  have none: "view_of rg k = None"
    using next_id_fresh [of "rg_cases rg"] by (simp add: view_of_def k_def map_of_eq_None_iff)
  have h: "has_case rg i \<Longrightarrow> has_case rg' i" for i by (auto simp: has_case_def m)
  have "statement_sound rg rg'" if fresh: "\<not> list_ex (\<lambda>(k, r). cr_fir_number r = ps ! 0) (rg_cases rg)"
  proof -
    have "view_of rg' = (view_of rg)(k \<mapsto> (ps ! 0, sql_int0 (ps ! 7), sql_int0 (ps ! 9), ''REGISTERED''))"
      by (auto simp: view_of_def m new_case_row_def fun_eq_iff)
    moreover have "fst c \<noteq> ps ! 0" if "view_of rg j = Some c" for j c
      using that fresh case_in_table by (fastforce simp: view_of_def list_ex_iff)
    ultimately have "view_step (view_of rg) (view_of rg')"
      using view_register [of "view_of rg" k "ps ! 0" "sql_int0 (ps ! 7)" "sql_int0 (ps ! 9)"] none
        next_id_pos [of "rg_cases rg"] by (simp add: k_def)
    moreover have "good_registry rg'"
      using good fresh h wf_insert [of "rg_cases rg"]
      unfolding good_registry_def
      by (auto simp: rg'_def k_def new_case_row_def list_ex_iff)
    ultimately show ?thesis by (simp add: statement_sound_def)
  qed
  with sound_refl [OF good] show ?thesis
    by (simp add: insert_case_def snd_unless_holds Let_def rg'_def k_def)
qed

lemma sound_close_case:
  assumes good: "good_registry rg"
  shows "statement_sound rg (snd (close_case ps rg))"
proof (cases "map_of (rg_cases rg) (sql_int0 (ps ! 0))")
  case None
  then show ?thesis by (simp add: close_case_def sound_refl [OF good])
next
  case (Some r)
  define k where "k = sql_int0 (ps ! 0)"
  define rg' where "rg' = rg\<lparr>rg_cases := update_where (\<lambda>j r. j = k) (close_row ps (rg_now rg)) (rg_cases rg)\<rparr>"
  have m: "map_of (rg_cases rg') = (map_of (rg_cases rg))(k \<mapsto> close_row ps (rg_now rg) r)"
    using Some by (auto simp: rg'_def k_def map_of_update_where fun_eq_iff option.map_ident)
  have h: "has_case rg' i = has_case rg i" for i using Some by (simp add: has_case_def m k_def)
  have firs: "map (\<lambda>(k, r). cr_fir_number r) (rg_cases rg') = map (\<lambda>(k, r). cr_fir_number r) (rg_cases rg)"
    by (auto simp: rg'_def update_where_def close_row_def)
  have "good_registry rg'"
    using good unfolding good_registry_def h firs by (simp add: rg'_def)
  moreover have "view_step (view_of rg) (view_of rg')"
  proof -
    have "view_of rg' = (view_of rg)(k \<mapsto> (cr_fir_number r, cr_station_id r, cr_filed_by r, ''CLOSED''))"
      by (auto simp: view_of_def m close_row_def fun_eq_iff)
    moreover have "view_of rg k = Some (cr_fir_number r, cr_station_id r, cr_filed_by r, cr_case_status r)"
      using Some by (simp add: view_of_def k_def)
    ultimately show ?thesis using view_close by metis
  qed
  ultimately have "statement_sound rg rg'" by (simp add: statement_sound_def)
  with sound_refl [OF good] show ?thesis
    using Some by (simp add: close_case_def snd_unless_holds rg'_def k_def)
qed

text \<open>The statements on the parties leave the cases alone.\<close>

lemma good_tables:
  "good_registry rg \<Longrightarrow> wf_map (rg_victims rg)" "good_registry rg \<Longrightarrow> wf_map (rg_witnesses rg)"
  "good_registry rg \<Longrightarrow> wf_map (rg_accused rg)" "good_registry rg \<Longrightarrow> wf_map (rg_vehicle_cases rg)"
  by (simp_all add: good_registry_def)

lemma good_references:
  "good_registry rg \<Longrightarrow> (k, v) \<in> set (rg_victims rg) \<Longrightarrow> has_case rg (vr_case_id v)"
  "good_registry rg \<Longrightarrow> (k, w) \<in> set (rg_witnesses rg) \<Longrightarrow> has_case rg (wt_case_id w)"
  "good_registry rg \<Longrightarrow> (k, a) \<in> set (rg_accused rg) \<Longrightarrow> has_case rg (ac_row_case_id a)"
  "good_registry rg \<Longrightarrow> (k, c) \<in> set (rg_vehicle_cases rg) \<Longrightarrow> has_case rg (vc_case_id c)"
  by (auto simp: good_registry_def)

lemma sound_tables:
  assumes "good_registry rg"
  shows "wf_map vs \<Longrightarrow> \<forall>(k, r) \<in> set vs. has_case rg (vr_case_id r) \<Longrightarrow> statement_sound rg (rg\<lparr>rg_victims := vs\<rparr>)"
    "wf_map ws \<Longrightarrow> \<forall>(k, r) \<in> set ws. has_case rg (wt_case_id r) \<Longrightarrow> statement_sound rg (rg\<lparr>rg_witnesses := ws\<rparr>)"
    "wf_map as \<Longrightarrow> \<forall>(k, r) \<in> set as. has_case rg (ac_row_case_id r) \<Longrightarrow> statement_sound rg (rg\<lparr>rg_accused := as\<rparr>)"
    "wf_map cs \<Longrightarrow> \<forall>(k, r) \<in> set cs. has_case rg (vc_case_id r)
       \<Longrightarrow> statement_sound rg (rg\<lparr>rg_vehicle_cases := cs\<rparr>)"
    "statement_sound rg (rg\<lparr>rg_associations := ls\<rparr>)"
  using assms by (simp_all add: statement_sound_def good_registry_def)

lemma sound_insert_victim: "good_registry rg \<Longrightarrow> statement_sound rg (snd (insert_victim ps rg))"
  by (auto simp: insert_victim_def snd_unless_holds Let_def
      intro!: sound_tables(1) sound_refl wf_insert good_tables dest: good_references)

lemma sound_insert_witness: "good_registry rg \<Longrightarrow> statement_sound rg (snd (insert_witness ps rg))"
  by (auto simp: insert_witness_def snd_unless_holds Let_def
      intro!: sound_tables(2) sound_refl wf_insert good_tables dest: good_references)

lemma sound_update_witness: "good_registry rg \<Longrightarrow> statement_sound rg (snd (update_witness ps rg))"
proof -
  assume good: "good_registry rg"
  have "\<forall>(k, r) \<in> set (update_where P (\<lambda>r. r\<lparr>wt_protection_status := p, wt_recorded_by := b, wt_updated_at := t\<rparr>)
      (rg_witnesses rg)). has_case rg (wt_case_id r)" for P p b t
    using good_references(2) [OF good] by (auto simp: update_where_def)
  then show ?thesis
    using good by (simp add: update_witness_def snd_unless_holds sound_tables(2) sound_refl good_tables)
qed

lemma sound_insert_accused: "good_registry rg \<Longrightarrow> statement_sound rg (snd (insert_accused ps rg))"
  by (auto simp: insert_accused_def snd_unless_holds Let_def
      intro!: sound_tables(3) sound_refl wf_insert good_tables dest: good_references)

lemma sound_insert_association: "good_registry rg \<Longrightarrow> statement_sound rg (snd (insert_association ps rg))"
  by (simp add: insert_association_def snd_unless_holds Let_def sound_tables(5) sound_refl)

lemma sound_insert_vehicle_case: "good_registry rg \<Longrightarrow> statement_sound rg (snd (insert_vehicle_case ps rg))"
  by (auto simp: insert_vehicle_case_def snd_unless_holds Let_def
      intro!: sound_tables(4) sound_refl wf_insert good_tables dest: good_references)

lemma sound_select:
  "snd (select_case ps rg) = rg" "snd (select_cases_by_station ps rg) = rg"
  "snd (select_cases_by_status ps rg) = rg" "snd (select_victims ps rg) = rg"
  "snd (select_witnesses ps rg) = rg" "snd (select_accused ps rg) = rg"
  "snd (select_vehicle_cases ps rg) = rg"
  by (simp_all add: select_case_def select_cases_by_station_def select_cases_by_status_def
      select_victims_def select_witnesses_def select_accused_def select_vehicle_cases_def)

lemmas sound_statements = sound_insert_case sound_close_case sound_insert_victim sound_insert_witness
  sound_update_witness sound_insert_accused sound_insert_association sound_insert_vehicle_case

lemma sound_exec: "good_registry rg \<Longrightarrow> statement_sound rg (snd (exec_case stmt ps rg))"
  by (cases stmt) (simp_all only: exec_case.simps sound_statements sound_select sound_refl)

lemma sound_other:
  "good_registry (rg\<lparr>rg_count := n\<rparr>) = good_registry rg"
  "good_registry (rg\<lparr>rg_now := now, rg_fails := fails\<rparr>) = good_registry rg"
  by (simp_all add: good_registry_def)

lemma sound_run: "good_registry rg \<Longrightarrow> statement_sound rg (snd (run_case rg stmt ps))"
  using sound_exec [of "rg\<lparr>rg_count := rg_count rg + 1\<rparr>" stmt ps]
  by (auto simp: run_case_def Let_def statement_sound_def sound_other split: option.split)

lemma facade_sound: "good_registry rg \<Longrightarrow> facade_step rg rg' \<Longrightarrow> statement_sound rg rg'"
  using step_is_statement [of rg rg'] sound_run [of rg] sound_refl [of rg]
  by (auto simp: statement_sound_def sound_other)

interpretation registry: simulation good_registry facade_step view_of view_step
  by unfold_locales (auto dest: facade_sound simp: statement_sound_def)

lemma view_step_keeps:
  "view_step v w \<Longrightarrow> v k = Some (fir, st, officer, status) \<Longrightarrow>
     \<exists>status'. w k = Some (fir, st, officer, status') \<and> (status = ''CLOSED'' \<longrightarrow> status' = ''CLOSED'')"
  by (erule view_step.cases) auto

lemma view_steps_keep:
  "view_step\<^sup>*\<^sup>* v w \<Longrightarrow> v k = Some (fir, st, officer, status) \<Longrightarrow>
     \<exists>status'. w k = Some (fir, st, officer, status') \<and> (status = ''CLOSED'' \<longrightarrow> status' = ''CLOSED'')"
proof (induction rule: rtranclp_induct)
  case (step w x)
  then show ?case using view_step_keeps [OF step.hyps(2)] by blast
qed simp

text \<open>C13 The registry of cases: every sequence of operations of the facade refines a machine that only
  registers and closes cases. The tables stay consistent, no case disappears or changes its FIR number,
  its station or the officer who filed it, and a closed case stays closed.\<close>

theorem registry_refined:
  assumes "good_registry rg" and "facade_step\<^sup>*\<^sup>* rg rg'"
  shows "good_registry rg' \<and> view_step\<^sup>*\<^sup>* (view_of rg) (view_of rg')
    \<and> (\<forall>k fir st officer status. view_of rg k = Some (fir, st, officer, status) \<longrightarrow>
         (\<exists>status'. view_of rg' k = Some (fir, st, officer, status')
            \<and> (status = ''CLOSED'' \<longrightarrow> status' = ''CLOSED'')))"
  using registry.runs [OF assms(2,1)] view_steps_keep [of "view_of rg" "view_of rg'"] by blast

definition demo_registry :: registry where
  "demo_registry = \<lparr>rg_cases = [], rg_victims = [], rg_witnesses = [], rg_accused = [],
     rg_associations = [], rg_vehicle_cases = [], rg_stations = [3], rg_officers = [(1, DSP), (12, ASI)],
     rg_persons = [''35202''], rg_vehicles = [4], rg_now = 1000, rg_fails = (\<lambda>n. None), rg_count = 0\<rparr>"

definition demo_officer :: session_context where
  "demo_officer = empty_session\<lparr>sc_officerId := 12, sc_rank := ASI, sc_isValid := True\<rparr>"

definition demo_fir :: "int system_result \<times> 64 word \<times> registry" where
  "demo_fir = registerCase run_case (Some True) demo_officer THEFT 900 (Some ''Mall Road'') None
     (Finite False 31) (Finite False 74) 3 (Some ''35202'') 0 demo_registry"

lemma good_demo: "good_registry demo_registry"
  by (simp add: good_registry_def demo_registry_def)

lemma fir_text_1: "fir_text 900 1 = ''FIR-900-000001''"
  by code_simp

lemma demo_fir_result:
  "\<exists>rg'. demo_fir = ((OK, 1), 1, rg') \<and> rg_count rg' = 1 \<and> rg_fails rg' = (\<lambda>n. None)
     \<and> rg_officers rg' = [(1, DSP), (12, ASI)] \<and> rg_persons rg' = [''35202'']
     \<and> view_of rg' 1 = Some (Some ''FIR-900-000001'', 3, 12, ''REGISTERED'')"
  by (simp add: demo_fir_def demo_registry_def demo_officer_def registerCase_def conn_ok_def returning_def
      run_case_def insert_case_def unless_holds_def may_file_def has_person_def has_officer_def num_def
      acting_officer_def next_id_def success_def text_or_def new_case_row_def view_of_def Let_def
      fir_text_1 text_simps NUL_def)

theorem registry_refined_witness:
  "\<exists>rg'. demo_fir = ((OK, 1), 1, rg') \<and> good_registry rg'
     \<and> view_step\<^sup>*\<^sup>* (view_of demo_registry) (view_of rg')"
proof -
  obtain rg' where r: "demo_fir = ((OK, 1), 1, rg')" using demo_fir_result by blast
  then have "facade_step\<^sup>*\<^sup>* demo_registry rg'"
    by (intro r_into_rtranclp) (rule step_register [OF r [unfolded demo_fir_def]])
  from registry_refined [OF good_demo this] r show ?thesis by blast
qed

section \<open>What the operations do\<close>

lemma selected_one:
  assumes "wf_map t"
  shows "rows_where (\<lambda>k r. k = i) row t
    = Rows (case map_of t i of None \<Rightarrow> [] | Some r \<Rightarrow> [row i r])"
proof -
  have "mset (map fst (sort_key fst t)) = mset (map fst t)" by simp
  then have wf: "wf_map (sort_key fst t)"
    using assms mset_eq_imp_distinct_iff unfolding wf_map_def by blast
  then have "map_of (sort_key fst t) = map_of t"
    using assms by (simp add: wf_map_def map_of_inject_set)
  with wf show ?thesis using filter_key [of "sort_key fst t" i "\<lambda>k r. True"]
    by (auto simp: rows_where_def split: option.splits)
qed

lemma num_text [simp]: "sql_int (num i) = Some i" "sql_int0 (num i) = i"
  by (simp_all add: num_def)

lemma run_ok: "rg_fails rg (rg_count rg) = None \<Longrightarrow>
    run_case rg stmt ps = exec_case stmt ps (rg\<lparr>rg_count := rg_count rg + 1\<rparr>)"
  by (simp add: run_case_def Let_def)

lemma mapPgFailure_not_OK: "mapPgFailure res \<noteq> OK"
  by (simp add: mapPgFailure_def split: outcome_pg.split option.split)

lemma returning_OK:
  assumes "returning result = ((OK, i), db)"
  obtains row where "result = (Rows [row], db)" "i = atoi (row ! 0)"
  using assms mapPgFailure_not_OK [of "fst result"]
  by (auto simp: returning_def success_def failure_def split: prod.splits outcome_pg.splits list.splits)

lemma unless_holds_Rows:
  "unless_holds b state rg result = (Rows rows, rg') \<longleftrightarrow> b \<and> result = (Rows rows, rg')"
  by (simp add: unless_holds_def)

lemma inserted_case:
  assumes "run_case rg INSERT_CASE ps = (Rows [row], rg')"
  shows "row = [show_int (next_id (rg_cases rg))]"
    "rg_cases rg' = rg_cases rg @ [(next_id (rg_cases rg), new_case_row ps (rg_now rg))]"
  using assms by (auto simp: run_case_def Let_def insert_case_def unless_holds_Rows split: option.splits)

text \<open>A case that has been registered can be read back by its number: with the FIR number made of the
  time and the counter of the process, its station, and the officer of the session.\<close>

theorem registered_case_is_read:
  assumes "good_registry rg"
    and "registerCase run_case conn session ty t addr desc lat lon st cnic seq rg = ((OK, i), seq', rg')"
    and "rg_fails rg' (rg_count rg') = None"
  shows "\<exists>c rg''. getCaseById run_case s2 conn i rg' s = Inr ((OK, c), rg'', s)
    \<and> co_case_id c = i \<and> co_fir_number c = fir_text t (seq + 1) \<and> co_station_id c = st
    \<and> co_filed_by c = acting_officer session"
proof -
  define ps where "ps = [Some (fir_text t (seq + 1)), Some (toCaseTypeEnum ty), num t,
    text_or [] addr, text_or [] desc, Some (in_buffer 32 (show_double lat)),
    Some (in_buffer 32 (show_double lon)), num st, cnic, num (acting_officer session), num t]"
  define k where "k = next_id (rg_cases rg)"
  from assms(2) have conn: "conn_ok conn" and ran: "returning (run_case rg INSERT_CASE ps) = ((OK, i), rg')"
    by (auto simp: registerCase_def Let_def ps_def failure_def split: if_splits prod.splits)
  from ran obtain row where ins: "run_case rg INSERT_CASE ps = (Rows [row], rg')" and row: "i = atoi (row ! 0)"
    by (rule returning_OK)
  have cases: "rg_cases rg' = rg_cases rg @ [(k, new_case_row ps (rg_now rg))]" and i: "i = k"
    using inserted_case [OF ins] row by (simp_all add: k_def text_simps)
  have "wf_map (rg_cases rg')"
    using assms(1) wf_insert [of "rg_cases rg"] by (simp add: cases k_def good_registry_def)
  moreover have "map_of (rg_cases rg') i = Some (new_case_row ps (rg_now rg))"
    by (simp add: cases i k_def map_of_insert del: map_of_append)
  ultimately show ?thesis
    using conn assms(3)
    by (simp add: getCaseById_def run_ok select_case_def selected_one case_cells_def success_def read_case_def
        new_case_row_def ps_def cell_def text_simps)
qed

theorem registered_case_is_read_witness:
  "\<exists>rg' c rg''. demo_fir = ((OK, 1), 1, rg') \<and> getCaseById run_case None (Some True) 1 rg' () = Inr ((OK, c), rg'', ())
     \<and> co_fir_number c = ''FIR-900-000001''"
proof -
  obtain rg' where r: "demo_fir = ((OK, 1), 1, rg')" "rg_fails rg' = (\<lambda>n. None)" using demo_fir_result by blast
  from registered_case_is_read [OF good_demo r(1) [unfolded demo_fir_def], of None "()"] r fir_text_1
  show ?thesis by auto
qed

lemma close_row_sent:
  "close_row [p, reason, num officer] now = (\<lambda>r. r\<lparr>cr_case_status := ''CLOSED'', cr_closed_at := Some now,
     cr_closure_reason := reason, cr_approved_by := Some officer, cr_updated_at := now\<rparr>)"
  by (simp add: close_row_def fun_eq_iff)

text \<open>C15 What closing a case does on every branch. The only guard is a trigger of the database on the rank
  of the officer whose number is sent, and a session without an officer sends number 1; the session's
  validity and its rank are never looked at, and a closed case is closed again with the new reason.\<close>

theorem closeCase_decides:
  assumes "good_registry rg" and "rg_fails rg (rg_count rg) = None"
  shows "closeCase run_case (Some True) session i reason rg =
    (let rg1 = rg\<lparr>rg_count := rg_count rg + 1\<rparr>; officer = acting_officer session
     in case map_of (rg_cases rg) i of
          None \<Rightarrow> ((NOT_FOUND, ()), rg1)
        | Some r \<Rightarrow>
            (case map_of (rg_officers rg) officer of
               None \<Rightarrow> ((FOREIGN_KEY_VIOLATION, ()), rg1)
             | Some rank \<Rightarrow>
                 if cr_case_status r \<noteq> ''CLOSED'' \<and> rank < INSPECTOR then ((DB_ERROR, ()), rg1)
                 else ((OK, ()), rg1\<lparr>rg_cases := update_where (\<lambda>k r. k = i)
                        (\<lambda>r. r\<lparr>cr_case_status := ''CLOSED'', cr_closed_at := Some (rg_now rg),
                               cr_closure_reason := text_or ''Closed'' reason,
                               cr_approved_by := Some officer, cr_updated_at := rg_now rg\<rparr>)
                        (rg_cases rg)\<rparr>)))"
proof -
  note defs = closeCase_def conn_ok_def run_ok [OF assms(2)] close_case_def Let_def unless_holds_def
    found_only_def success_def failure_def mapPgFailure_def may_close_def has_officer_def close_row_sent
  show ?thesis
  proof (cases "map_of (rg_cases rg) i")
    case (Some r)
    then show ?thesis
      by (cases "map_of (rg_officers rg) (acting_officer session)") (auto simp: defs dest: leD)
  qed (simp add: defs)
qed

theorem closeCase_decides_witness:
  "\<exists>rg' rg''. demo_fir = ((OK, 1), 1, rg')
     \<and> closeCase run_case (Some True) empty_session 1 None rg' = ((OK, ()), rg'')
     \<and> map_option cr_approved_by (map_of (rg_cases rg'') 1) = Some (Some 1)"
proof -
  obtain rg' where r: "demo_fir = ((OK, 1), 1, rg')" "rg_fails rg' = (\<lambda>n. None)"
    "rg_officers rg' = [(1, DSP), (12, ASI)]" "view_of rg' 1 = Some (Some ''FIR-900-000001'', 3, 12, ''REGISTERED'')"
    using demo_fir_result by blast
  have "facade_step demo_registry rg'" by (rule step_register [OF r(1) [unfolded demo_fir_def]])
  then have g: "good_registry rg'" using facade_sound [OF good_demo] by (simp add: statement_sound_def)
  from r(4) obtain c where c: "map_of (rg_cases rg') 1 = Some c" by (auto simp: view_of_def)
  show ?thesis
    using closeCase_decides [OF g, of empty_session 1 None] r c
    by (auto simp: acting_officer_def empty_session_def Let_def map_of_update_where less_officer_rank_def)
qed

section \<open>Listings\<close>

definition of_case :: "('r \<Rightarrow> int) \<Rightarrow> int \<Rightarrow> 'r table \<Rightarrow> 'r table" where
  "of_case case_of i t = filter (\<lambda>(k, r). case_of r = i) (sort_key fst t)"

lemma listing_rows:
  "(\<And>k r. read (row k r) = out k r) \<Longrightarrow>
   listing read (rows_where (\<lambda>k r. case_of r = i) row t, db) = ((OK, map (\<lambda>(k, r). out k r) (of_case case_of i t)), db)"
  by (simp add: listing_def rows_where_def of_case_def success_def comp_def split_def)

text \<open>The parties of a case are listed completely, once each, in the order of their numbers, with the
  values of their rows; but how badly a victim was hurt and how vulnerable it is, how a witness is
  protected, how an accused is involved and what a vehicle was used for are not read: every entry shows
  the first value of the enumeration.\<close>

theorem parties_listed:
  assumes "rg_fails rg (rg_count rg) = None"
  shows "let rg1 = rg\<lparr>rg_count := rg_count rg + 1\<rparr> in
    getVictimsByCase run_case (Some True) i rg = ((OK, map (\<lambda>(k, r).
      \<lparr>vo_victim_id = k, vo_case_id = i, vo_person_cnic = cell (vr_person_cnic r),
       vo_injury_type = cell (vr_injury_type r), vo_injury_severity = INJURY_NONE,
       vo_vulnerability_category = VULNERABILITY_NONE,
       vo_medical_report_ref = cell (vr_medical_report_ref r), vo_added_by = vr_added_by r\<rparr>)
      (of_case vr_case_id i (rg_victims rg))), rg1)
    \<and> getWitnessesByCase run_case (Some True) i rg = ((OK, map (\<lambda>(k, r).
      \<lparr>wo_witness_id = k, wo_case_id = i, wo_person_cnic = cell (wt_person_cnic r),
       wo_statement_text = cell (wt_statement_text r),
       wo_statement_file_path = cell (wt_statement_file_path r), wo_recorded_by = wt_recorded_by r,
       wo_protection_status = PROTECTION_NONE, wo_is_identity_concealed = wt_is_identity_concealed r,
       wo_added_by = wt_added_by r\<rparr>) (of_case wt_case_id i (rg_witnesses rg))), rg1)
    \<and> getAccusedByCase run_case (Some True) i rg = ((OK, map (\<lambda>(k, r).
      \<lparr>ao_accused_id = k, ao_master_accused_cnic = cell (ac_row_master_cnic r), ao_case_id = i,
       ao_person_cnic = cell (ac_row_person_cnic r), ao_involvement_type = SUSPECT,
       ao_added_by = ac_row_added_by r\<rparr>) (of_case ac_row_case_id i (rg_accused rg))), rg1)
    \<and> getVehiclesByCase run_case (Some True) i rg = ((OK, map (\<lambda>(k, r).
      \<lparr>vco_vehicle_case_id = k, vco_vehicle_id = vc_vehicle_id r, vco_case_id = i,
       vco_vehicle_role = STOLEN, vco_condition_notes = cell (vc_condition_notes r),
       vco_added_by = vc_added_by r\<rparr>) (of_case vc_case_id i (rg_vehicle_cases rg))), rg1)"
proof -
  note defs = getVictimsByCase_def getWitnessesByCase_def getAccusedByCase_def getVehiclesByCase_def
    conn_ok_def run_ok [OF assms] select_victims_def select_witnesses_def select_accused_def
    select_vehicle_cases_def Let_def
  note reads = read_victim_def victim_cells_def read_witness_def witness_cells_def read_accused_def
    accused_cells_def read_vehicle_case_def vehicle_cells_def
  show ?thesis
    unfolding Let_def
    by (intro conjI; simp add: defs, subst listing_rows, rule refl,
        simp add: of_case_def reads text_simps split_def)
qed

definition demo_victims :: registry where
  "demo_victims = demo_registry\<lparr>rg_victims :=
     [(1, \<lparr>vr_case_id = 7, vr_person_cnic = Some ''35202'', vr_injury_type = Some ''burn'',
           vr_injury_severity = Some (toInjurySeverityEnum FATAL),
           vr_vulnerability_category = Some (toVulnerabilityEnum ELDERLY),
           vr_medical_report_ref = None, vr_added_by = 12\<rparr>)]\<rparr>"

theorem parties_listed_witness:
  "getVictimsByCase run_case (Some True) 7 demo_victims = ((OK,
     [\<lparr>vo_victim_id = 1, vo_case_id = 7, vo_person_cnic = ''35202'', vo_injury_type = ''burn'',
       vo_injury_severity = INJURY_NONE, vo_vulnerability_category = VULNERABILITY_NONE,
       vo_medical_report_ref = [], vo_added_by = 12\<rparr>]), demo_victims\<lparr>rg_count := 1\<rparr>)"
proof -
  have ok: "rg_fails demo_victims (rg_count demo_victims) = None"
    by (simp add: demo_victims_def demo_registry_def)
  show ?thesis
    using parties_listed [OF ok, of 7, unfolded Let_def, THEN conjunct1]
    by (simp add: demo_victims_def demo_registry_def of_case_def cell_def)
qed

end
