(* ===== verification/System_Manager.thy ===== *)
theory System_Manager
  imports Case_Facade
begin

text \<open>
  \<open>system_layer::SystemManager\<close> (\<open>src/system/system.cpp\<close>, \<open>system.h\<close>): its life cycle, and the
  authentication as the interface sees it, \<open>DefaultAuthAdapter\<close> and \<open>AuthFacade\<close> on top of \<open>Auth\<close>.
  An adapter is named by a number, a raw pointer to it by the same number. Whether \<open>initAudit\<close>
  succeeds, fails or throws makes no difference to \<open>init\<close>.
\<close>

section \<open>Life cycle\<close>

type_synonym pointer = "nat option"

record adapters =
  ad_auth :: pointer
  ad_s1 :: pointer
  ad_s2 :: pointer
  ad_s3 :: pointer

record facades =
  fc_auth :: pointer
  fc_case :: pointer
  fc_inv :: pointer
  fc_personnel :: pointer
  fc_duty :: pointer
  fc_enforcement :: pointer
  fc_audit :: pointer
  fc_forensic :: pointer

record system_manager =
  sm_initialized :: bool
  sm_adapters :: adapters
  sm_facades :: facades

definition no_adapters :: adapters where
  "no_adapters = \<lparr>ad_auth = None, ad_s1 = None, ad_s2 = None, ad_s3 = None\<rparr>"

definition no_facades :: facades where
  "no_facades = \<lparr>fc_auth = None, fc_case = None, fc_inv = None, fc_personnel = None, fc_duty = None,
     fc_enforcement = None, fc_audit = None, fc_forensic = None\<rparr>"

definition new_manager :: system_manager where
  "new_manager = \<lparr>sm_initialized = False, sm_adapters = no_adapters, sm_facades = no_facades\<rparr>"

definition assertNotInitialized :: "system_manager \<Rightarrow> unit run" where
  "assertNotInitialized sm = (if sm_initialized sm then Inl ThrowsException else Inr ())"

definition injectAuth :: "pointer \<Rightarrow> system_manager \<Rightarrow> system_manager run" where
  "injectAuth a sm = and_then (assertNotInitialized sm) (\<lambda>u.
     Inr (sm\<lparr>sm_adapters := (sm_adapters sm)\<lparr>ad_auth := a\<rparr>\<rparr>))"

definition injectS1 :: "pointer \<Rightarrow> system_manager \<Rightarrow> system_manager run" where
  "injectS1 a sm = and_then (assertNotInitialized sm) (\<lambda>u.
     Inr (sm\<lparr>sm_adapters := (sm_adapters sm)\<lparr>ad_s1 := a\<rparr>\<rparr>))"

definition injectS2 :: "pointer \<Rightarrow> system_manager \<Rightarrow> system_manager run" where
  "injectS2 a sm = and_then (assertNotInitialized sm) (\<lambda>u.
     Inr (sm\<lparr>sm_adapters := (sm_adapters sm)\<lparr>ad_s2 := a\<rparr>\<rparr>))"

definition injectS3 :: "pointer \<Rightarrow> system_manager \<Rightarrow> system_manager run" where
  "injectS3 a sm = and_then (assertNotInitialized sm) (\<lambda>u.
     Inr (sm\<lparr>sm_adapters := (sm_adapters sm)\<lparr>ad_s3 := a\<rparr>\<rparr>))"

text \<open>\<open>fresh i\<close> is the adapter that \<open>make_unique\<close> creates for the \<open>i\<close>-th slot.\<close>

definition fill :: "(nat \<Rightarrow> nat) \<Rightarrow> nat \<Rightarrow> pointer \<Rightarrow> pointer" where
  "fill fresh i a = (case a of None \<Rightarrow> Some (fresh i) | Some x \<Rightarrow> Some x)"

definition system_init :: "(nat \<Rightarrow> nat) \<Rightarrow> system_manager \<Rightarrow> unit system_result \<times> system_manager" where
  "system_init fresh sm =
     (if sm_initialized sm then (success (), sm)
      else
        let a = sm_adapters sm;
            a = \<lparr>ad_auth = fill fresh 0 (ad_auth a), ad_s1 = fill fresh 1 (ad_s1 a),
                 ad_s2 = fill fresh 2 (ad_s2 a), ad_s3 = fill fresh 3 (ad_s3 a)\<rparr>
        in (success (),
            \<lparr>sm_initialized = True, sm_adapters = a,
             sm_facades = \<lparr>fc_auth = ad_auth a, fc_case = ad_s2 a, fc_inv = ad_s2 a,
               fc_personnel = ad_s1 a, fc_duty = ad_s1 a, fc_enforcement = ad_s3 a,
               fc_audit = ad_s3 a, fc_forensic = ad_s3 a\<rparr>\<rparr>))"

definition system_shutdown :: "system_manager \<Rightarrow> system_manager" where
  "system_shutdown sm =
     (if \<not> sm_initialized sm then sm
      else \<lparr>sm_initialized = False, sm_adapters = no_adapters, sm_facades = no_facades\<rparr>)"

text \<open>A call of \<open>inject\<close> that throws leaves the manager as it is.\<close>

inductive manager_step :: "system_manager \<Rightarrow> system_manager \<Rightarrow> bool" where
  "injectAuth a sm = Inr sm' \<Longrightarrow> manager_step sm sm'"
| "injectS1 a sm = Inr sm' \<Longrightarrow> manager_step sm sm'"
| "injectS2 a sm = Inr sm' \<Longrightarrow> manager_step sm sm'"
| "injectS3 a sm = Inr sm' \<Longrightarrow> manager_step sm sm'"
| "system_init fresh sm = (r, sm') \<Longrightarrow> manager_step sm sm'"
| "manager_step sm (system_shutdown sm)"

text \<open>The facades are wired to the adapters the manager owns, or not at all.\<close>

definition wired :: "system_manager \<Rightarrow> bool" where
  "wired sm \<longleftrightarrow>
     (let a = sm_adapters sm
      in if sm_initialized sm
         then sm_facades sm = \<lparr>fc_auth = ad_auth a, fc_case = ad_s2 a, fc_inv = ad_s2 a,
                fc_personnel = ad_s1 a, fc_duty = ad_s1 a, fc_enforcement = ad_s3 a,
                fc_audit = ad_s3 a, fc_forensic = ad_s3 a\<rparr>
              \<and> ad_auth a \<noteq> None \<and> ad_s1 a \<noteq> None \<and> ad_s2 a \<noteq> None \<and> ad_s3 a \<noteq> None
         else sm_facades sm = no_facades)"

interpretation manager: invariant_system "\<lambda>sm. sm = new_manager" manager_step wired
proof (unfold_locales, goal_cases)
  case (1 s)
  then show ?case by (simp add: wired_def new_manager_def)
next
  case (2 s t)
  from 2(2,1) show ?case
    by cases (auto simp: wired_def injectAuth_def injectS1_def injectS2_def injectS3_def
        assertNotInitialized_def system_init_def system_shutdown_def Let_def and_then_Inr_iff fill_def
        split: if_splits option.splits)
qed

text \<open>C35 No facade ever points to an adapter that is gone: after any sequence of injections, starts and
  stops, every facade of an initialised manager points to the adapter of its subsystem, which exists,
  and every facade of any other manager is null.\<close>

theorem facades_wired:
  assumes "manager_step\<^sup>*\<^sup>* new_manager sm"
  shows "wired sm"
  using manager.reachable_inv [OF refl assms] .

theorem facades_wired_witness:
  "\<exists>sm. snd (system_init (\<lambda>i. i) new_manager) = sm \<and> fc_case (sm_facades sm) = Some 2 \<and> wired sm
     \<and> wired (system_shutdown sm)"
proof -
  obtain r sm where i: "system_init (\<lambda>i. i) new_manager = (r, sm)" by (cases "system_init (\<lambda>i. i) new_manager")
  then have "manager_step\<^sup>*\<^sup>* new_manager sm" by (blast intro: manager_step.intros)
  moreover from this have "manager_step\<^sup>*\<^sup>* new_manager (system_shutdown sm)"
    by (rule rtranclp.rtrancl_into_rtrancl) (rule manager_step.intros(6))
  ultimately show ?thesis
    using i facades_wired [of sm] facades_wired [of "system_shutdown sm"]
    by (auto simp: system_init_def new_manager_def fill_def Let_def no_adapters_def)
qed

section \<open>Authentication\<close>

text \<open>A \<open>const char *\<close> becomes a \<open>std::string\<close>; from a null pointer that is undefined.\<close>

definition to_string :: "cstr \<Rightarrow> string run" where
  "to_string p = (case p of None \<Rightarrow> Inl UndefinedBehaviour | Some s \<Rightarrow> Inr s)"

text \<open>The password buffer that \<open>login\<close> clears is that of the temporary string.\<close>

definition adapter_login ::
  "'c libpq \<Rightarrow> 's query_fun \<Rightarrow> cstr \<Rightarrow> 8 word list option \<Rightarrow> int \<Rightarrow> cstr \<Rightarrow> cstr \<Rightarrow> ('s, 'c) auth_manager
     \<Rightarrow> (string system_result \<times> ('s, 'c) auth_manager) run" where
  "adapter_login lib exec env urandom now cnic password am =
     and_then (to_string cnic) (\<lambda>cnic.
     and_then (to_string password) (\<lambda>password.
     and_then (login lib exec env urandom now cnic password empty_session am) (\<lambda>(rc, session, buffer, am).
       Inr (if rc = OK then success (sc_sessionToken session) else failure [] rc, am))))"

definition adapter_validateToken ::
  "int \<Rightarrow> cstr \<Rightarrow> ('s, 'c) auth_manager \<Rightarrow> session_context system_result run" where
  "adapter_validateToken now token am =
     and_then (to_string token) (\<lambda>token.
       case validateToken now token empty_session am of
         (rc, session) \<Rightarrow> Inr (if rc = OK then success session else failure empty_session rc))"

definition adapter_isDutyActive ::
  "'s query_fun \<Rightarrow> int \<Rightarrow> int \<Rightarrow> ('s, 'c) auth_manager \<Rightarrow> (bool \<times> ('s, 'c) auth_manager) run" where
  "adapter_isDutyActive exec now officer_id am =
     and_then (isDutyActive exec now officer_id False am) (\<lambda>(rc, active, am). Inr (active, am))"

definition adapter_refreshSession ::
  "'s query_fun \<Rightarrow> int \<Rightarrow> cstr \<Rightarrow> ('s, 'c) auth_manager \<Rightarrow> (unit system_result \<times> ('s, 'c) auth_manager) run" where
  "adapter_refreshSession exec now token am =
     and_then (refreshSession exec now (empty_session\<lparr>sc_sessionToken := (case token of None \<Rightarrow> [] | Some t \<Rightarrow> t)\<rparr>) am)
       (\<lambda>(rc, am). Inr (if rc = OK then success () else failure () rc, am))"

definition adapter_logout ::
  "'s query_fun \<Rightarrow> int \<Rightarrow> cstr \<Rightarrow> ('s, 'c) auth_manager \<Rightarrow> (unit system_result \<times> ('s, 'c) auth_manager) run" where
  "adapter_logout exec now token am =
     (if null_or_empty token then Inr (failure () INVALID_ARGUMENT, am)
      else and_then (logout exec now (empty_session\<lparr>sc_sessionToken := the token\<rparr>) am)
             (\<lambda>(rc, am). Inr (if rc = OK then success () else failure () rc, am)))"

definition facade_validateRank :: "session_context \<Rightarrow> officer_rank \<Rightarrow> unit system_result" where
  "facade_validateRank session required =
     (if sc_rank session < required then failure () RANK_INSUFFICIENT else success ())"

section \<open>The life of a token\<close>

lemma adapter_login_OK:
  assumes "adapter_login lib exec env u now (Some cnic) (Some pw) am = Inr ((OK, tok), am')"
  obtains s where "sc_cnic s = cnic" "tok = sc_sessionToken s" "tok \<noteq> []" "sc_expiresAt s = now + 8 * 3600"
    "map_of (am_session_store am') tok = Some s"
proof -
  from assms obtain s buffer where l: "login lib exec env u now cnic pw empty_session am = Inr (OK, s, buffer, am')"
    and t: "tok = sc_sessionToken s"
    by (auto simp: adapter_login_def to_string_def run_simps success_def failure_def split: if_splits)
  from login_cases [OF l] show thesis
    by (intro that [of s]) (auto simp: t session_ok_def HARD_EXPIRY_SECONDS_def)
qed

text \<open>C4 The token of a login opens the session of that officer for eight hours from the login and no
  longer; refreshing it does not prolong it, and a logout ends it at once. Nothing else ends it: the half hour of
  idleness after which \<open>auth_manager.h\<close> and \<open>session_store.h\<close> promise \<open>SESSION_EXPIRED\<close> is not looked at, the test
  being commented out in \<open>SessionStore::isExpired\<close>.\<close>

theorem token_opens_session:
  assumes "adapter_login lib exec env u now (Some cnic) (Some pw) am = Inr ((OK, tok), am')"
  shows "\<exists>s. sc_cnic s = cnic
    \<and> (\<forall>t. adapter_validateToken t (Some tok) am'
         = Inr (if t < now + 8 * 3600 then (OK, s) else (SESSION_EXPIRED, empty_session)))
    \<and> (\<forall>t1 r am1. adapter_refreshSession exec t1 (Some tok) am' = Inr (r, am1) \<longrightarrow>
         (\<forall>t. adapter_validateToken t (Some tok) am1 = adapter_validateToken t (Some tok) am'))
    \<and> (\<forall>t2 am2. adapter_logout exec t2 (Some tok) am' = Inr ((OK, ()), am2) \<longrightarrow>
         (\<forall>t. adapter_validateToken t (Some tok) am2 = Inr (NOT_FOUND, empty_session)))"
proof -
  from adapter_login_OK [OF assms] obtain s where s: "sc_cnic s = cnic" "tok = sc_sessionToken s" "tok \<noteq> []"
    "sc_expiresAt s = now + 8 * 3600" "map_of (am_session_store am') tok = Some s" by metis
  note validate = adapter_validateToken_def to_string_def validateToken_def store_validate_def
    store_isExpired_def success_def failure_def
  have "adapter_validateToken t (Some tok) am'
      = Inr (if t < now + 8 * 3600 then (OK, s) else (SESSION_EXPIRED, empty_session))" for t
    using s by (simp add: validate)
  moreover have "adapter_validateToken t (Some tok) am1 = adapter_validateToken t (Some tok) am'"
    if "adapter_refreshSession exec t1 (Some tok) am' = Inr (r, am1)" for t t1 r am1
  proof -
    from that have "am_session_store am1 = am_session_store am'"
      by (auto simp: adapter_refreshSession_def refreshSession_def store_refresh_def run_simps
          split: option.splits if_splits)
    then show ?thesis by (simp add: validate)
  qed
  moreover have "adapter_validateToken t (Some tok) am2 = Inr (NOT_FOUND, empty_session)"
    if "adapter_logout exec t2 (Some tok) am' = Inr ((OK, ()), am2)" for t t2 am2
  proof -
    from that have "map_of (am_session_store am2) tok = None"
      by (auto simp: adapter_logout_def logout_def store_remove_def run_simps failure_def Let_def
          split: option.splits if_splits)
    then show ?thesis using s(3) by (simp add: validate)
  qed
  ultimately show ?thesis using s(1) by blast
qed

lemma demo_adapter_login:
  "\<exists>am'. adapter_login demo_lib demo_exec None (Some demo_bytes) 1000 (Some ''35202'') (Some ''pw'') demo_am
     = Inr ((OK, sc_sessionToken demo_session), am')"
  by (simp add: adapter_login_def to_string_def demo_login success_def)

theorem token_opens_session_witness:
  "\<exists>am' s. adapter_login demo_lib demo_exec None (Some demo_bytes) 1000 (Some ''35202'') (Some ''pw'') demo_am
     = Inr ((OK, sc_sessionToken demo_session), am')
   \<and> sc_cnic s = ''35202'' \<and> adapter_validateToken 2000 (Some (sc_sessionToken demo_session)) am' = Inr (OK, s)
   \<and> adapter_validateToken 29800 (Some (sc_sessionToken demo_session)) am' = Inr (SESSION_EXPIRED, empty_session)"
proof -
  obtain am' where l: "adapter_login demo_lib demo_exec None (Some demo_bytes) 1000 (Some ''35202'') (Some ''pw'') demo_am
     = Inr ((OK, sc_sessionToken demo_session), am')" using demo_adapter_login by blast
  from token_opens_session [OF this] obtain s where "sc_cnic s = ''35202''"
    "\<And>t. adapter_validateToken t (Some (sc_sessionToken demo_session)) am'
       = Inr (if t < 1000 + 8 * 3600 then (OK, s) else (SESSION_EXPIRED, empty_session))" by blast
  with l show ?thesis by (intro exI [of _ am'] exI [of _ s]) simp
qed

end
