(* ===== verification/Forensic_Db.thy ===== *)
theory Forensic_Db
  imports Enforcement_Db
begin

text \<open>
  The tables behind the forensic module and its statements, those of
  \<open>src/system/subsystem3/forensic/src/forensic_repository.cpp\<close> and the three that
  \<open>forensic_manager.cpp\<close> sends itself. As in \<open>Enforcement_Db\<close> the columns are those of the SQL texts,
  \<open>fd_fails n\<close> says whether the \<open>n\<close>-th statement fails, and a statement that fails changes nothing.
  The two triggers that the module relies on (\<open>src/db/schema/03_functions.sql\<close>, 5.1 and 5.2) are part
  of the statements that fire them. \<open>fd_date\<close> is the server's reading of a text as a date, as the
  time of its midnight; a text it does not read makes the statement fail.
\<close>

section \<open>Tables\<close>

record lab_request_row =
  fq_request_number :: cstr
  fq_case_id :: int
  fq_status :: string
  fq_examination_purpose :: cstr
  fq_purpose_description :: cstr
  fq_lab_name :: cstr
  fq_examiner_name :: cstr
  fq_authorized_by :: int
  fq_received_by_lab_date :: "int option"
  fq_examination_start_date :: "int option"
  fq_findings :: cstr
  fq_report_file_path :: cstr
  fq_report_ready_date :: "int option"
  fq_report_delivered_date :: "int option"
  fq_is_contested :: bool
  fq_contest_reason :: cstr
  fq_contested_by :: "int option"
  fq_contested_at :: "int option"
  fq_created_at :: int
  fq_updated_at :: int

record lab_evidence_row =
  le_number :: cstr
  le_type :: cstr
  le_status :: string
  le_description :: cstr
  le_case_id :: int
  le_is_deleted :: bool

text \<open>A link is its request, its piece of evidence, its notes and its time.\<close>

type_synonym lab_link = "int \<times> int \<times> cstr \<times> int"

record forensic_db =
  fd_requests :: "lab_request_row table"
  fd_links :: "lab_link list"
  fd_evidence :: "lab_evidence_row table"
  fd_cases :: "(string \<times> int) table"   \<comment> \<open>status and station of a case\<close>
  fd_now :: int
  fd_date :: "cstr \<Rightarrow> int option"
  fd_fails :: "nat \<Rightarrow> bool"
  fd_count :: nat

section \<open>Statements\<close>

datatype forensic_sql =
    F_CASE_STATUS | F_EVIDENCE | F_REQUEST_CASE
  | F_INSERT_REQUEST | F_INSERT_LINK | F_UPDATE_STATUS | F_RECEIVED_DATE | F_EXAMINATION_START
  | F_FINDINGS | F_AMENDMENT | F_CONTEST | F_BY_CASE | F_PENDING | F_EVIDENCE_BY_REQUEST
  | F_CURRENT_STATUS

type_synonym forensic_statement = "cstr list \<Rightarrow> forensic_db \<Rightarrow> pg_result \<times> forensic_db"

definition new_request_row :: "cstr list \<Rightarrow> int \<Rightarrow> lab_request_row" where
  "new_request_row ps now =
     \<lparr>fq_request_number = ps ! 0, fq_case_id = sql_int0 (ps ! 1), fq_status = ''REQUESTED'',
      fq_examination_purpose = ps ! 2, fq_purpose_description = ps ! 3, fq_lab_name = ps ! 4,
      fq_examiner_name = ps ! 5, fq_authorized_by = sql_int0 (ps ! 6),
      fq_received_by_lab_date = None, fq_examination_start_date = None, fq_findings = None,
      fq_report_file_path = None, fq_report_ready_date = None, fq_report_delivered_date = None,
      fq_is_contested = False, fq_contest_reason = None, fq_contested_by = None,
      fq_contested_at = None, fq_created_at = now, fq_updated_at = now\<rparr>"

definition f_insert_request :: forensic_statement where
  "f_insert_request ps db =
     (let k = next_id (fd_requests db)
      in (TuplesOk [[show_int k]],
          db\<lparr>fd_requests := fd_requests db @ [(k, new_request_row ps (fd_now db))]\<rparr>))"

definition on_evidence :: "(int \<Rightarrow> bool) \<Rightarrow> string \<Rightarrow> forensic_db \<Rightarrow> forensic_db" where
  "on_evidence P s db = db\<lparr>fd_evidence := update_where (\<lambda>k r. P k) (\<lambda>r. r\<lparr>le_status := s\<rparr>) (fd_evidence db)\<rparr>"

text \<open>\<open>ON CONFLICT DO NOTHING\<close>: a link that exists fires no trigger.\<close>

definition linked :: "int \<Rightarrow> int \<Rightarrow> forensic_db \<Rightarrow> bool" where
  "linked i e db = list_ex (\<lambda>(i', e', rest). i' = i \<and> e' = e) (fd_links db)"

definition f_insert_link :: forensic_statement where
  "f_insert_link ps db =
     (let i = sql_int0 (ps ! 0); e = sql_int0 (ps ! 1)
      in if linked i e db then (CommandOk 0, db)
         else if map_of (fd_requests db) i = None \<or> map_of (fd_evidence db) e = None
         then (ResultError, db)
         else (CommandOk 1,
               on_evidence (\<lambda>k. k = e) ''SENT_TO_LAB''
                 (db\<lparr>fd_links := fd_links db @ [(i, e, ps ! 2, fd_now db)]\<rparr>)))"

definition on_request ::
  "(int \<Rightarrow> bool) \<Rightarrow> (lab_request_row \<Rightarrow> lab_request_row) \<Rightarrow> forensic_db \<Rightarrow> pg_result \<times> forensic_db" where
  "on_request P f db =
     (CommandOk (count_where (\<lambda>k r. P k) (fd_requests db)),
      db\<lparr>fd_requests :=
           update_where (\<lambda>k r. P k) (\<lambda>r. (f r)\<lparr>fq_updated_at := fd_now db\<rparr>) (fd_requests db)\<rparr>)"

definition f_update_status :: forensic_statement where
  "f_update_status ps db =
     (let new = cell (ps ! 0);
          (res, db') = on_request (\<lambda>k. Some k = sql_int (ps ! 1)) (\<lambda>r. r\<lparr>fq_status := new\<rparr>) db;
          i = sql_int0 (ps ! 1)
      in if new = ''REPORT_DELIVERED''
            \<and> (case map_of (fd_requests db) i of None \<Rightarrow> False | Some r \<Rightarrow> fq_status r \<noteq> new)
         then (res, on_evidence (\<lambda>e. linked i e db) ''RETURNED_FROM_LAB'' db')
         else (res, db'))"

definition f_received_date :: forensic_statement where
  "f_received_date ps db =
     (case fd_date db (ps ! 0) of
        None \<Rightarrow> (ResultError, db)
      | Some d \<Rightarrow> on_request (\<lambda>k. Some k = sql_int (ps ! 1)) (\<lambda>r. r\<lparr>fq_received_by_lab_date := Some d\<rparr>) db)"

definition f_examination_start :: forensic_statement where
  "f_examination_start ps db =
     on_request (\<lambda>k. Some k = sql_int (ps ! 0)) (\<lambda>r. r\<lparr>fq_examination_start_date := Some (fd_now db)\<rparr>) db"

definition f_findings :: forensic_statement where
  "f_findings ps db =
     (case fd_date db (ps ! 2) of
        None \<Rightarrow> (ResultError, db)
      | Some d \<Rightarrow>
          on_request (\<lambda>k. Some k = sql_int (ps ! 3))
            (\<lambda>r. r\<lparr>fq_findings := ps ! 0, fq_report_file_path := ps ! 1,
                   fq_report_ready_date := Some (fd_now db), fq_report_delivered_date := Some d\<rparr>) db)"

definition f_amendment :: forensic_statement where
  "f_amendment ps db =
     on_request (\<lambda>k. Some k = sql_int (ps ! 1)) (\<lambda>r. r\<lparr>fq_findings := ps ! 0\<rparr>) db"

definition f_contest :: forensic_statement where
  "f_contest ps db =
     on_request (\<lambda>k. Some k = sql_int (ps ! 2))
       (\<lambda>r. r\<lparr>fq_is_contested := True, fq_contest_reason := ps ! 0, fq_contested_by := sql_int (ps ! 1),
              fq_contested_at := Some (fd_now db)\<rparr>) db"

text \<open>The columns of \<open>kSelectCols\<close> and of the evidence list; a time that is NULL is the empty text.\<close>

definition time_cell :: "int option \<Rightarrow> string" where
  "time_cell t = (case t of None \<Rightarrow> [] | Some i \<Rightarrow> show_int i)"

definition request_text :: "int \<Rightarrow> lab_request_row \<Rightarrow> string list" where
  "request_text k r =
     [show_int k, show_int (fq_case_id r), cell (fq_request_number r), fq_status r,
      cell (fq_lab_name r), cell (fq_examiner_name r), cell (fq_examination_purpose r),
      cell (fq_purpose_description r), show_int (fq_authorized_by r),
      show_int (fq_created_at r), time_cell (fq_received_by_lab_date r),
      time_cell (fq_examination_start_date r), cell (fq_findings r), cell (fq_report_file_path r),
      time_cell (fq_report_ready_date r), time_cell (fq_report_delivered_date r),
      (if fq_is_contested r then ''1'' else ''0''), cell (fq_contest_reason r),
      coalesce_int 0 (fq_contested_by r), time_cell (fq_contested_at r), show_int (fq_updated_at r)]"

definition f_by_case :: forensic_statement where
  "f_by_case ps db =
     (selected (\<lambda>k r. Some (fq_case_id r) = sql_int (ps ! 0)) request_text
        (sort_key (\<lambda>(k, r). - fq_created_at r) (fd_requests db)), db)"

definition station_of :: "forensic_db \<Rightarrow> int \<Rightarrow> int option" where
  "station_of db c = map_option snd (map_of (fd_cases db) c)"

definition f_pending :: forensic_statement where
  "f_pending ps db =
     (selected (\<lambda>k r. station_of db (fq_case_id r) \<noteq> None \<and> station_of db (fq_case_id r) = sql_int (ps ! 0)
          \<and> fq_status r \<noteq> ''REPORT_DELIVERED'' \<and> fq_status r \<noteq> ''CONTESTED'') request_text
        (sort_key (\<lambda>(k, r). fq_created_at r) (fd_requests db)), db)"

definition link_text :: "forensic_db \<Rightarrow> lab_link \<Rightarrow> string list list" where
  "link_text db link =
     (case link of (i, e, notes, t) \<Rightarrow>
        case map_of (fd_evidence db) e of
          None \<Rightarrow> []
        | Some r \<Rightarrow>
            if le_is_deleted r then []
            else [[show_int e, show_int i, cell (le_number r), cell (le_type r), le_status r,
                   cell (le_description r), cell notes, show_int t]])"

definition f_evidence_by_request :: forensic_statement where
  "f_evidence_by_request ps db =
     (TuplesOk (concat (map (link_text db)
        (filter (\<lambda>(i, rest). Some i = sql_int (ps ! 0)) (sort_key (\<lambda>(i, e, notes, t). t) (fd_links db))))), db)"

definition f_current_status :: forensic_statement where
  "f_current_status ps db =
     (selected (\<lambda>k r. Some k = sql_int (ps ! 0)) (\<lambda>k r. [fq_status r, time_cell (fq_received_by_lab_date r)])
        (fd_requests db), db)"

definition f_case_status :: forensic_statement where
  "f_case_status ps db = (selected (\<lambda>k r. Some k = sql_int (ps ! 0)) (\<lambda>k r. [fst r]) (fd_cases db), db)"

definition f_evidence :: forensic_statement where
  "f_evidence ps db =
     (selected (\<lambda>k r. Some k = sql_int (ps ! 0))
        (\<lambda>k r. [if le_is_deleted r then ''t'' else ''f'', le_status r, show_int (le_case_id r)])
        (fd_evidence db), db)"

definition f_request_case :: forensic_statement where
  "f_request_case ps db =
     (selected (\<lambda>k r. Some k = sql_int (ps ! 0)) (\<lambda>k r. [show_int (fq_case_id r)]) (fd_requests db), db)"

fun exec_forensic :: "forensic_sql \<Rightarrow> forensic_statement" where
  "exec_forensic F_CASE_STATUS ps db = f_case_status ps db"
| "exec_forensic F_EVIDENCE ps db = f_evidence ps db"
| "exec_forensic F_REQUEST_CASE ps db = f_request_case ps db"
| "exec_forensic F_INSERT_REQUEST ps db = f_insert_request ps db"
| "exec_forensic F_INSERT_LINK ps db = f_insert_link ps db"
| "exec_forensic F_UPDATE_STATUS ps db = f_update_status ps db"
| "exec_forensic F_RECEIVED_DATE ps db = f_received_date ps db"
| "exec_forensic F_EXAMINATION_START ps db = f_examination_start ps db"
| "exec_forensic F_FINDINGS ps db = f_findings ps db"
| "exec_forensic F_AMENDMENT ps db = f_amendment ps db"
| "exec_forensic F_CONTEST ps db = f_contest ps db"
| "exec_forensic F_BY_CASE ps db = f_by_case ps db"
| "exec_forensic F_PENDING ps db = f_pending ps db"
| "exec_forensic F_EVIDENCE_BY_REQUEST ps db = f_evidence_by_request ps db"
| "exec_forensic F_CURRENT_STATUS ps db = f_current_status ps db"

definition run_forensic :: "forensic_db \<Rightarrow> forensic_sql \<Rightarrow> cstr list \<Rightarrow> pg_result \<times> forensic_db" where
  "run_forensic db stmt ps =
     (let db' = db\<lparr>fd_count := fd_count db + 1\<rparr>
      in if fd_fails db (fd_count db) then (ResultError, db') else exec_forensic stmt ps db')"

end
