(* ===== verification/Forensic.thy ===== *)
theory Forensic
  imports Auth Forensic_Db Calendar
begin

text \<open>
  The forensic module (\<open>src/system/subsystem3/forensic\<close>: \<open>forensic_repository.cpp\<close>,
  \<open>forensic_manager.cpp\<close>) behind the members of \<open>Subsystem3\<close> that call it. \<open>PQexecParams\<close> on the
  connection is the parameter \<open>pq\<close>, over a connection state of any type; the tables of
  \<open>Forensic_Db\<close> are its instance.

  The module works on the connection of the process itself: it locks the mutex of \<open>Db_Socket\<close>, takes
  the raw connection and asks \<open>Auth\<close>, whose duty check queries through the same mutex. Each operation
  is its gate followed by a body; the body is a definition of its own, on the connection alone.
  \<open>now\<close> is the time, one value for a call. \<open>freed\<close> is what reading a text of a result gives after
  \<open>PQclear\<close>, as in \<open>Arrest\<close>.
\<close>

section \<open>The repository\<close>

type_synonym 'd forensic_backend = "'d \<Rightarrow> forensic_sql \<Rightarrow> cstr list \<Rightarrow> pg_result \<times> 'd"

record forensic_record =
  fr_request_id :: int
  fr_case_id :: int
  fr_request_number :: string
  fr_request_status :: string
  fr_lab_name :: string
  fr_examiner_name :: string
  fr_examination_purpose :: string
  fr_purpose_description :: string
  fr_authorized_by :: int
  fr_created_at :: int
  fr_received_by_lab_date :: int
  fr_examination_start_date :: int
  fr_findings :: string
  fr_report_file_path :: string
  fr_report_ready_date :: int
  fr_report_delivered_date :: int
  fr_is_contested :: int
  fr_contest_reason :: string
  fr_contested_by :: int
  fr_contested_at :: int
  fr_updated_at :: int

record evidence_ref =
  er_evidence_id :: int
  er_request_id :: int
  er_evidence_number :: string
  er_evidence_type :: string
  er_evidence_status :: string
  er_description :: string
  er_notes :: string
  er_linked_at :: int

definition scopy :: "nat \<Rightarrow> string \<Rightarrow> string" where
  "scopy n src = (if null_or_empty (Some src) then [] else in_buffer n src)"

definition epoch :: "string \<Rightarrow> int" where
  "epoch s = (if null_or_empty (Some s) then 0 else atoi s)"

definition mapRecord :: "string list \<Rightarrow> forensic_record" where
  "mapRecord row =
     \<lparr>fr_request_id = atoi (row ! 0), fr_case_id = atoi (row ! 1),
      fr_request_number = scopy 32 (row ! 2), fr_request_status = scopy 24 (row ! 3),
      fr_lab_name = scopy 128 (row ! 4), fr_examiner_name = scopy 64 (row ! 5),
      fr_examination_purpose = scopy 32 (row ! 6), fr_purpose_description = scopy 512 (row ! 7),
      fr_authorized_by = atoi (row ! 8), fr_created_at = epoch (row ! 9),
      fr_received_by_lab_date = epoch (row ! 10), fr_examination_start_date = epoch (row ! 11),
      fr_findings = scopy 4096 (row ! 12), fr_report_file_path = scopy 512 (row ! 13),
      fr_report_ready_date = epoch (row ! 14), fr_report_delivered_date = epoch (row ! 15),
      fr_is_contested = atoi (row ! 16), fr_contest_reason = scopy 512 (row ! 17),
      fr_contested_by = atoi (row ! 18), fr_contested_at = epoch (row ! 19),
      fr_updated_at = epoch (row ! 20)\<rparr>"

definition mapEvidenceRef :: "string list \<Rightarrow> evidence_ref" where
  "mapEvidenceRef row =
     \<lparr>er_evidence_id = atoi (row ! 0), er_request_id = atoi (row ! 1),
      er_evidence_number = scopy 32 (row ! 2), er_evidence_type = scopy 24 (row ! 3),
      er_evidence_status = scopy 32 (row ! 4), er_description = scopy 256 (row ! 5),
      er_notes = scopy 512 (row ! 6), er_linked_at = epoch (row ! 7)\<rparr>"

text \<open>\<open>snprintf\<close> of an \<open>int\<close> into 16 characters: they hold every \<open>int\<close>.\<close>

definition id_param :: "int \<Rightarrow> cstr" where
  "id_param i = Some (show_int i)"

definition request_number :: "int \<Rightarrow> int \<Rightarrow> string" where
  "request_number now case_id = in_buffer 32 (''FR-'' @ show_int now @ ''-'' @ show_int case_id)"

text \<open>A result without a row makes \<open>PQgetvalue\<close> null, and \<open>atoi\<close> of it undefined.\<close>

definition insertRequest ::
  "'d forensic_backend \<Rightarrow> int \<Rightarrow> int \<Rightarrow> cstr \<Rightarrow> cstr \<Rightarrow> cstr \<Rightarrow> cstr \<Rightarrow> int \<Rightarrow> int \<Rightarrow> 'd
     \<Rightarrow> (result_code \<times> int \<times> 'd) run" where
  "insertRequest pq now case_id purpose descr lab examiner authorized_by out_request_id db =
     (case pq db F_INSERT_REQUEST
             [Some (request_number now case_id), id_param case_id, purpose, descr, lab, examiner,
              id_param authorized_by] of
        (TuplesOk (row # rows), db) \<Rightarrow> Inr (OK, atoi (row ! 0), db)
      | (TuplesOk [], db) \<Rightarrow> Inl UndefinedBehaviour
      | (res, db) \<Rightarrow> Inr (DB_ERROR, out_request_id, db))"

text \<open>What the commands without a row share: \<open>DB_ERROR\<close> unless \<open>PGRES_COMMAND_OK\<close>.\<close>

definition command :: "pg_result \<times> 'd \<Rightarrow> result_code \<times> 'd" where
  "command result =
     (case result of (CommandOk n, db) \<Rightarrow> (OK, db) | (res, db) \<Rightarrow> (DB_ERROR, db))"

definition insertEvidenceLink ::
  "'d forensic_backend \<Rightarrow> int \<Rightarrow> int \<Rightarrow> string \<Rightarrow> 'd \<Rightarrow> result_code \<times> 'd" where
  "insertEvidenceLink pq request_id evidence_id notes db =
     command (pq db F_INSERT_LINK [id_param request_id, id_param evidence_id, Some notes])"

definition updateStatus ::
  "'d forensic_backend \<Rightarrow> int \<Rightarrow> string \<Rightarrow> 'd \<Rightarrow> result_code \<times> 'd" where
  "updateStatus pq request_id new_status db =
     (case pq db F_UPDATE_STATUS [Some new_status, id_param request_id] of
        (CommandOk n, db) \<Rightarrow> (if n = 0 then NOT_FOUND else OK, db)
      | (res, db) \<Rightarrow> (DB_ERROR, db))"

definition updateReceivedDate ::
  "'d forensic_backend \<Rightarrow> int \<Rightarrow> cstr \<Rightarrow> 'd \<Rightarrow> result_code \<times> 'd" where
  "updateReceivedDate pq request_id received_date db =
     command (pq db F_RECEIVED_DATE [received_date, id_param request_id])"

definition updateExaminationStartDate ::
  "'d forensic_backend \<Rightarrow> int \<Rightarrow> 'd \<Rightarrow> result_code \<times> 'd" where
  "updateExaminationStartDate pq request_id db =
     command (pq db F_EXAMINATION_START [id_param request_id])"

definition updateFindings ::
  "'d forensic_backend \<Rightarrow> int \<Rightarrow> cstr \<Rightarrow> cstr \<Rightarrow> cstr \<Rightarrow> 'd \<Rightarrow> result_code \<times> 'd" where
  "updateFindings pq request_id findings report_file_path delivery_date db =
     command (pq db F_FINDINGS [findings, report_file_path, delivery_date, id_param request_id])"

definition updateAmendment ::
  "'d forensic_backend \<Rightarrow> int \<Rightarrow> cstr \<Rightarrow> 'd \<Rightarrow> result_code \<times> 'd" where
  "updateAmendment pq request_id amended_findings db =
     command (pq db F_AMENDMENT [amended_findings, id_param request_id])"

definition updateContest ::
  "'d forensic_backend \<Rightarrow> int \<Rightarrow> cstr \<Rightarrow> int \<Rightarrow> 'd \<Rightarrow> result_code \<times> 'd" where
  "updateContest pq request_id contest_reason contested_by db =
     command (pq db F_CONTEST [contest_reason, id_param contested_by, id_param request_id])"

text \<open>The three lists append to what the caller passes, and look at all of it to answer.\<close>

definition append_rows ::
  "(string list \<Rightarrow> 'r) \<Rightarrow> 'r list \<Rightarrow> pg_result \<times> 'd \<Rightarrow> result_code \<times> 'r list \<times> 'd" where
  "append_rows read out result =
     (case result of
        (TuplesOk rows, db) \<Rightarrow>
          let out = out @ map read rows in (if out = [] then NOT_FOUND else OK, out, db)
      | (res, db) \<Rightarrow> (DB_ERROR, out, db))"

definition selectByCase ::
  "'d forensic_backend \<Rightarrow> int \<Rightarrow> forensic_record list \<Rightarrow> 'd \<Rightarrow> result_code \<times> forensic_record list \<times> 'd" where
  "selectByCase pq case_id out db = append_rows mapRecord out (pq db F_BY_CASE [id_param case_id])"

definition selectPending ::
  "'d forensic_backend \<Rightarrow> int \<Rightarrow> forensic_record list \<Rightarrow> 'd \<Rightarrow> result_code \<times> forensic_record list \<times> 'd" where
  "selectPending pq station_id out db = append_rows mapRecord out (pq db F_PENDING [id_param station_id])"

definition selectEvidenceByRequest ::
  "'d forensic_backend \<Rightarrow> int \<Rightarrow> evidence_ref list \<Rightarrow> 'd \<Rightarrow> result_code \<times> evidence_ref list \<times> 'd" where
  "selectEvidenceByRequest pq request_id out db =
     append_rows mapEvidenceRef out (pq db F_EVIDENCE_BY_REQUEST [id_param request_id])"

definition fetchCurrentStatus ::
  "'d forensic_backend \<Rightarrow> int \<Rightarrow> 'd \<Rightarrow> result_code \<times> string \<times> int \<times> 'd" where
  "fetchCurrentStatus pq request_id db =
     (case pq db F_CURRENT_STATUS [id_param request_id] of
        (TuplesOk (row # rows), db) \<Rightarrow> (OK, scopy 24 (row ! 0), epoch (row ! 1), db)
      | (res, db) \<Rightarrow> (NOT_FOUND, [], 0, db))"

section \<open>Checks of the manager\<close>

definition kEdges :: "(string \<times> string) list" where
  "kEdges =
     [(''REQUESTED'', ''RECEIVED_BY_LAB''), (''RECEIVED_BY_LAB'', ''UNDER_EXAMINATION''),
      (''UNDER_EXAMINATION'', ''REPORT_READY''), (''REPORT_READY'', ''REPORT_DELIVERED''),
      (''REPORT_DELIVERED'', ''CONTESTED'')]"

definition legal_edge :: "string \<Rightarrow> string \<Rightarrow> bool" where
  "legal_edge from to = list_ex (\<lambda>(a, b). a = from \<and> b = to) kEdges"

definition knownPurpose :: "string \<Rightarrow> bool" where
  "knownPurpose purpose =
     list_ex (\<lambda>p. purpose = p)
       [''DNA_ANALYSIS'', ''FINGERPRINT_ANALYSIS'', ''TOXICOLOGY'', ''BALLISTICS'',
        ''DIGITAL_FORENSICS'', ''DOCUMENT_EXAMINATION'', ''OTHER'']"

text \<open>
  \<open>strptime\<close> with \<open>%Y-%m-%d\<close>, as the GNU library reads it: white space before a number is skipped, a
  number has at most so many digits, what follows the day is not looked at. \<open>timegm\<close> takes a day that
  the month does not have as one of the next month.
\<close>

fun read_upto :: "nat \<Rightarrow> nat \<Rightarrow> nat \<Rightarrow> string \<Rightarrow> nat \<times> string" where
  "read_upto to n v [] = (v, [])"
| "read_upto to n v (c # cs) =
     (if 0 < n \<and> v * 10 \<le> to \<and> is_digit c then read_upto to (n - 1) (v * 10 + digit_value c) cs
      else (v, c # cs))"

definition get_number :: "nat \<Rightarrow> nat \<Rightarrow> nat \<Rightarrow> string \<Rightarrow> (nat \<times> string) option" where
  "get_number from to n s =
     (case dropWhile is_space s of
        [] \<Rightarrow> None
      | c # cs \<Rightarrow>
          if is_digit c
          then let (v, rest) = read_upto to (n - 1) (digit_value c) cs
               in if from \<le> v \<and> v \<le> to then Some (v, rest) else None
          else None)"

definition expect_char :: "char \<Rightarrow> string \<Rightarrow> string option" where
  "expect_char c s = (case s of [] \<Rightarrow> None | d # ds \<Rightarrow> if d = c then Some ds else None)"

definition strptime_date :: "string \<Rightarrow> (nat \<times> nat \<times> nat) option" where
  "strptime_date s =
     Option.bind (get_number 0 9999 4 s) (\<lambda>(y, s).
     Option.bind (expect_char CHR ''-'' s) (\<lambda>s.
     Option.bind (get_number 1 12 2 s) (\<lambda>(m, s).
     Option.bind (expect_char CHR ''-'' s) (\<lambda>s.
     Option.bind (get_number 1 31 2 s) (\<lambda>(d, s). Some (y, m, d))))))"

definition timegm_date :: "nat \<times> nat \<times> nat \<Rightarrow> int" where
  "timegm_date ymd = (case ymd of (y, m, d) \<Rightarrow> timegm (int y - 1900) (int m - 1) (int d))"

definition parseDate :: "cstr \<Rightarrow> int" where
  "parseDate date_str =
     (if null_or_empty date_str then - 1
      else case strptime_date (the date_str) of None \<Rightarrow> - 1 | Some ymd \<Rightarrow> timegm_date ymd)"

section \<open>The bodies\<close>

definition create_body ::
  "'d forensic_backend \<Rightarrow> int \<Rightarrow> session_context \<Rightarrow> int \<Rightarrow> cstr \<Rightarrow> cstr \<Rightarrow> cstr \<Rightarrow> cstr \<Rightarrow> int \<Rightarrow> 'd
     \<Rightarrow> (result_code \<times> int \<times> 'd) run" where
  "create_body pq now ctx case_id purpose descr lab examiner out_request_id db =
     (case pq db F_CASE_STATUS [id_param case_id] of
        (TuplesOk (row # rows), db) \<Rightarrow>
          if row ! 0 \<noteq> ''REGISTERED'' \<and> row ! 0 \<noteq> ''UNDER_INVESTIGATION'' \<and> row ! 0 \<noteq> ''EVIDENCE_COLLECTED''
          then Inr (INVALID_STATE, out_request_id, db)
          else if purpose = None \<or> \<not> knownPurpose (the purpose) then Inr (INVALID_INPUT, out_request_id, db)
          else if null_or_empty lab \<or> null_or_empty examiner \<or> null_or_empty descr
          then Inr (INVALID_INPUT, out_request_id, db)
          else insertRequest pq now case_id purpose descr lab examiner (sc_officerId ctx) out_request_id db
      | (res, db) \<Rightarrow> Inr (NOT_FOUND, out_request_id, db))"

definition same_case_link ::
  "'d forensic_backend \<Rightarrow> int \<Rightarrow> int \<Rightarrow> int \<Rightarrow> cstr \<Rightarrow> 'd \<Rightarrow> result_code \<times> 'd" where
  "same_case_link pq request_id evidence_id evidence_case notes db =
     (case pq db F_REQUEST_CASE [id_param request_id] of
        (TuplesOk (row # rows), db) \<Rightarrow>
          if evidence_case \<noteq> atoi (row ! 0) then (INVALID_INPUT, db)
          else insertEvidenceLink pq request_id evidence_id (case notes of None \<Rightarrow> [] | Some n \<Rightarrow> n) db
      | (res, db) \<Rightarrow> (NOT_FOUND, db))"

definition link_body ::
  "'d forensic_backend \<Rightarrow> (string \<Rightarrow> string run) \<Rightarrow> int \<Rightarrow> int \<Rightarrow> cstr \<Rightarrow> 'd \<Rightarrow> (result_code \<times> 'd) run" where
  "link_body pq freed request_id evidence_id notes db =
     (let (rc, current, receipt, db) = fetchCurrentStatus pq request_id db
      in if rc \<noteq> OK then Inr (rc, db)
         else if current \<noteq> ''REQUESTED'' \<and> current \<noteq> ''RECEIVED_BY_LAB'' then Inr (INVALID_STATE, db)
         else
           case pq db F_EVIDENCE [id_param evidence_id] of
             (TuplesOk (row # rows), db) \<Rightarrow>
               let evidence_case = atoi (row ! 2)
               in and_then (freed (row ! 0)) (\<lambda>is_deleted.
                  if is_deleted = ''t'' \<or> is_deleted = ''true'' then Inr (INVALID_STATE, db)
                  else and_then (freed (row ! 1)) (\<lambda>status.
                    if status \<noteq> ''RECEIVED'' \<and> status \<noteq> ''SEALED'' \<and> status \<noteq> ''RETURNED_FROM_LAB''
                    then Inr (INVALID_STATE, db)
                    else Inr (same_case_link pq request_id evidence_id evidence_case notes db)))
           | (res, db) \<Rightarrow> Inr (NOT_FOUND, db))"

definition receipt_body ::
  "'d forensic_backend \<Rightarrow> int \<Rightarrow> int \<Rightarrow> cstr \<Rightarrow> 'd \<Rightarrow> result_code \<times> 'd" where
  "receipt_body pq now request_id received_date db =
     (if null_or_empty received_date then (INVALID_INPUT, db)
      else if parseDate received_date = - 1 then (INVALID_INPUT, db)
      else if now < parseDate received_date then (INVALID_INPUT, db)
      else
        let (rc, current, receipt, db) = fetchCurrentStatus pq request_id db
        in if rc \<noteq> OK then (rc, db)
           else if \<not> legal_edge current ''RECEIVED_BY_LAB'' then (INVALID_STATE, db)
           else
             let (rc, db) = updateReceivedDate pq request_id received_date db
             in if rc \<noteq> OK then (rc, db) else updateStatus pq request_id ''RECEIVED_BY_LAB'' db)"

definition start_body :: "'d forensic_backend \<Rightarrow> int \<Rightarrow> 'd \<Rightarrow> result_code \<times> 'd" where
  "start_body pq request_id db =
     (let (rc, current, receipt, db) = fetchCurrentStatus pq request_id db
      in if rc \<noteq> OK then (rc, db)
         else if \<not> legal_edge current ''UNDER_EXAMINATION'' then (INVALID_STATE, db)
         else
           let (rc, db) = updateExaminationStartDate pq request_id db
           in if rc \<noteq> OK then (rc, db) else updateStatus pq request_id ''UNDER_EXAMINATION'' db)"

definition findings_body ::
  "'d forensic_backend \<Rightarrow> int \<Rightarrow> cstr \<Rightarrow> cstr \<Rightarrow> cstr \<Rightarrow> 'd \<Rightarrow> result_code \<times> 'd" where
  "findings_body pq request_id findings report_file_path delivery_date db =
     (if null_or_empty findings then (INVALID_INPUT, db)
      else if null_or_empty report_file_path then (INVALID_INPUT, db)
      else if parseDate delivery_date = - 1 then (INVALID_INPUT, db)
      else
        let (rc, current, receipt, db) = fetchCurrentStatus pq request_id db
        in if rc \<noteq> OK then (rc, db)
           else if \<not> legal_edge current ''REPORT_READY'' then (INVALID_STATE, db)
           else if 0 < receipt \<and> parseDate delivery_date < receipt then (INVALID_INPUT, db)
           else
             let (rc, db) = updateFindings pq request_id findings report_file_path delivery_date db
             in if rc \<noteq> OK then (rc, db)
                else
                  let (rc, db) = updateStatus pq request_id ''REPORT_READY'' db
                  in if rc \<noteq> OK then (rc, db) else updateStatus pq request_id ''REPORT_DELIVERED'' db)"

definition amendment_body :: "'d forensic_backend \<Rightarrow> int \<Rightarrow> cstr \<Rightarrow> 'd \<Rightarrow> result_code \<times> 'd" where
  "amendment_body pq request_id amended_findings db =
     (if null_or_empty amended_findings then (INVALID_INPUT, db)
      else
        let (rc, current, receipt, db) = fetchCurrentStatus pq request_id db
        in if rc \<noteq> OK then (rc, db)
           else if current \<noteq> ''REPORT_DELIVERED'' \<and> current \<noteq> ''CONTESTED'' then (INVALID_STATE, db)
           else updateAmendment pq request_id amended_findings db)"

definition contest_body ::
  "'d forensic_backend \<Rightarrow> session_context \<Rightarrow> int \<Rightarrow> cstr \<Rightarrow> 'd \<Rightarrow> result_code \<times> 'd" where
  "contest_body pq ctx request_id contest_reason db =
     (if null_or_empty contest_reason then (INVALID_INPUT, db)
      else
        let (rc, current, receipt, db) = fetchCurrentStatus pq request_id db
        in if rc \<noteq> OK then (rc, db)
           else if \<not> legal_edge current ''CONTESTED'' then (INVALID_STATE, db)
           else
             let (rc, db) = updateContest pq request_id contest_reason (sc_officerId ctx) db
             in if rc \<noteq> OK then (rc, db) else updateStatus pq request_id ''CONTESTED'' db)"

section \<open>The gates\<close>

type_synonym 'c forensic_state = "('c unix_socket, 'c) auth_manager"

text \<open>\<open>_authAndConn\<close>: when it succeeds it leaves the mutex locked.\<close>

definition authAndConn ::
  "int \<Rightarrow> cstr \<Rightarrow> 'c forensic_state \<Rightarrow> (result_code \<times> session_context \<times> 'c forensic_state) run" where
  "authAndConn now token am =
     and_then (lockDb (am_ipc am)) (\<lambda>(rc, us).
       if getConnection us = None
       then and_then (unlockDb us) (\<lambda>(rc, us). Inr (DB_ERROR, empty_session, am\<lparr>am_ipc := us\<rparr>))
       else
         case token of
           None \<Rightarrow> Inl UndefinedBehaviour
         | Some token \<Rightarrow>
             let (auth_res, ctx) = validateToken now token empty_session am
             in if auth_res \<noteq> OK
                then and_then (unlockDb us) (\<lambda>(rc, us). Inr (auth_res, ctx, am\<lparr>am_ipc := us\<rparr>))
                else Inr (OK, ctx, am\<lparr>am_ipc := us\<rparr>))"

text \<open>The body works on the connection that the socket holds.\<close>

definition on_conn ::
  "('c \<Rightarrow> ('r \<times> 'c) run) \<Rightarrow> 'c forensic_state \<Rightarrow> ('r \<times> 'c forensic_state) run" where
  "on_conn body am =
     (case getConnection (am_ipc am) of
        None \<Rightarrow> Inl UndefinedBehaviour
      | Some c \<Rightarrow> and_then (body c) (\<lambda>(r, c).
          Inr (r, am\<lparr>am_ipc := (am_ipc am)\<lparr>us_conn := Some c\<rparr>\<rparr>)))"

text \<open>\<open>dflt\<close> is what the out parameter holds when the call goes no further.\<close>

definition with_session ::
  "int \<Rightarrow> cstr \<Rightarrow> 'o \<Rightarrow> (session_context \<Rightarrow> 'c forensic_state \<Rightarrow> ((result_code \<times> 'o) \<times> 'c forensic_state) run)
     \<Rightarrow> 'c forensic_state \<Rightarrow> ((result_code \<times> 'o) \<times> 'c forensic_state) run" where
  "with_session now token dflt k am =
     and_then (authAndConn now token am) (\<lambda>(rc, ctx, am).
       if rc \<noteq> OK then Inr ((rc, dflt), am) else k ctx am)"

definition on_duty ::
  "'c libpq \<Rightarrow> int \<Rightarrow> 'o \<Rightarrow> (session_context \<Rightarrow> 'c forensic_state \<Rightarrow> ((result_code \<times> 'o) \<times> 'c forensic_state) run)
     \<Rightarrow> session_context \<Rightarrow> 'c forensic_state \<Rightarrow> ((result_code \<times> 'o) \<times> 'c forensic_state) run" where
  "on_duty lib now dflt k ctx am =
     and_then (isDutyActive (executeQuery lib) now (sc_officerId ctx) False am) (\<lambda>(rc, active, am).
       if rc \<noteq> OK \<or> \<not> active then Inr ((DUTY_INACTIVE, dflt), am) else k ctx am)"

text \<open>The variable \<open>rank_ok\<close> is initialised to false, and nothing assigns it.\<close>

definition inspector_rank ::
  "'o \<Rightarrow> (session_context \<Rightarrow> 'c forensic_state \<Rightarrow> ((result_code \<times> 'o) \<times> 'c forensic_state) run)
     \<Rightarrow> session_context \<Rightarrow> 'c forensic_state \<Rightarrow> ((result_code \<times> 'o) \<times> 'c forensic_state) run" where
  "inspector_rank dflt k ctx am =
     (let rank_ok = False; rc = validateRank ctx (rank_value INSPECTOR)
      in if rc \<noteq> OK \<or> \<not> rank_ok then Inr ((RANK_INSUFFICIENT, dflt), am) else k ctx am)"

section \<open>The operations\<close>

definition no_out :: "result_code \<times> 'd \<Rightarrow> ((result_code \<times> unit) \<times> 'd) run" where
  "no_out result = (case result of (rc, db) \<Rightarrow> Inr ((rc, ()), db))"

definition with_out :: "result_code \<times> 'o \<times> 'd \<Rightarrow> ((result_code \<times> 'o) \<times> 'd) run" where
  "with_out result = (case result of (rc, out, db) \<Rightarrow> Inr ((rc, out), db))"

definition createForensicRequest ::
  "'c libpq \<Rightarrow> 'c forensic_backend \<Rightarrow> int \<Rightarrow> cstr \<Rightarrow> int \<Rightarrow> cstr \<Rightarrow> cstr \<Rightarrow> cstr \<Rightarrow> cstr \<Rightarrow> int
     \<Rightarrow> 'c forensic_state \<Rightarrow> ((result_code \<times> int) \<times> 'c forensic_state) run" where
  "createForensicRequest lib pq now token case_id purpose descr lab examiner out_request_id =
     with_session now token out_request_id
       (on_duty lib now out_request_id
         (inspector_rank out_request_id (\<lambda>ctx. on_conn (\<lambda>c.
            and_then (create_body pq now ctx case_id purpose descr lab examiner out_request_id c) with_out))))"

definition linkEvidence ::
  "'c libpq \<Rightarrow> 'c forensic_backend \<Rightarrow> (string \<Rightarrow> string run) \<Rightarrow> int \<Rightarrow> cstr \<Rightarrow> int \<Rightarrow> int \<Rightarrow> cstr
     \<Rightarrow> 'c forensic_state \<Rightarrow> ((result_code \<times> unit) \<times> 'c forensic_state) run" where
  "linkEvidence lib pq freed now token request_id evidence_id notes =
     with_session now token () (on_duty lib now () (\<lambda>ctx. on_conn (\<lambda>c.
       and_then (link_body pq freed request_id evidence_id notes c) no_out)))"

definition recordLabReceipt ::
  "'c libpq \<Rightarrow> 'c forensic_backend \<Rightarrow> int \<Rightarrow> cstr \<Rightarrow> int \<Rightarrow> cstr
     \<Rightarrow> 'c forensic_state \<Rightarrow> ((result_code \<times> unit) \<times> 'c forensic_state) run" where
  "recordLabReceipt lib pq now token request_id received_date =
     with_session now token () (on_duty lib now () (\<lambda>ctx. on_conn (\<lambda>c.
       no_out (receipt_body pq now request_id received_date c))))"

definition recordExaminationStart ::
  "'c libpq \<Rightarrow> 'c forensic_backend \<Rightarrow> int \<Rightarrow> cstr \<Rightarrow> int
     \<Rightarrow> 'c forensic_state \<Rightarrow> ((result_code \<times> unit) \<times> 'c forensic_state) run" where
  "recordExaminationStart lib pq now token request_id =
     with_session now token () (on_duty lib now () (\<lambda>ctx. on_conn (\<lambda>c.
       no_out (start_body pq request_id c))))"

definition recordFindings ::
  "'c libpq \<Rightarrow> 'c forensic_backend \<Rightarrow> int \<Rightarrow> cstr \<Rightarrow> int \<Rightarrow> cstr \<Rightarrow> cstr \<Rightarrow> cstr
     \<Rightarrow> 'c forensic_state \<Rightarrow> ((result_code \<times> unit) \<times> 'c forensic_state) run" where
  "recordFindings lib pq now token request_id findings report_file_path delivery_date =
     with_session now token () (on_duty lib now () (\<lambda>ctx. on_conn (\<lambda>c.
       no_out (findings_body pq request_id findings report_file_path delivery_date c))))"

definition recordAmendment ::
  "'c libpq \<Rightarrow> 'c forensic_backend \<Rightarrow> int \<Rightarrow> cstr \<Rightarrow> int \<Rightarrow> cstr
     \<Rightarrow> 'c forensic_state \<Rightarrow> ((result_code \<times> unit) \<times> 'c forensic_state) run" where
  "recordAmendment lib pq now token request_id amended_findings =
     with_session now token () (on_duty lib now () (inspector_rank () (\<lambda>ctx. on_conn (\<lambda>c.
       no_out (amendment_body pq request_id amended_findings c)))))"

definition contestReport ::
  "'c libpq \<Rightarrow> 'c forensic_backend \<Rightarrow> int \<Rightarrow> cstr \<Rightarrow> int \<Rightarrow> cstr
     \<Rightarrow> 'c forensic_state \<Rightarrow> ((result_code \<times> unit) \<times> 'c forensic_state) run" where
  "contestReport lib pq now token request_id contest_reason =
     with_session now token () (on_duty lib now () (\<lambda>ctx. on_conn (\<lambda>c.
       no_out (contest_body pq ctx request_id contest_reason c))))"

definition getRequestsByCase ::
  "'c forensic_backend \<Rightarrow> int \<Rightarrow> cstr \<Rightarrow> int \<Rightarrow> forensic_record list
     \<Rightarrow> 'c forensic_state \<Rightarrow> ((result_code \<times> forensic_record list) \<times> 'c forensic_state) run" where
  "getRequestsByCase pq now token case_id out =
     with_session now token out (\<lambda>ctx. on_conn (\<lambda>c. with_out (selectByCase pq case_id out c)))"

definition getPendingRequests ::
  "'c forensic_backend \<Rightarrow> int \<Rightarrow> cstr \<Rightarrow> int \<Rightarrow> forensic_record list
     \<Rightarrow> 'c forensic_state \<Rightarrow> ((result_code \<times> forensic_record list) \<times> 'c forensic_state) run" where
  "getPendingRequests pq now token station_id out =
     with_session now token out (\<lambda>ctx. on_conn (\<lambda>c. with_out (selectPending pq station_id out c)))"

definition getEvidenceByRequest ::
  "'c forensic_backend \<Rightarrow> int \<Rightarrow> cstr \<Rightarrow> int \<Rightarrow> evidence_ref list
     \<Rightarrow> 'c forensic_state \<Rightarrow> ((result_code \<times> evidence_ref list) \<times> 'c forensic_state) run" where
  "getEvidenceByRequest pq now token request_id out =
     with_session now token out (\<lambda>ctx. on_conn (\<lambda>c. with_out (selectEvidenceByRequest pq request_id out c)))"

text \<open>The forensic members of \<open>Subsystem3\<close>, a call as a value.\<close>

datatype forensic_call =
    CreateRequest int cstr cstr cstr cstr int
  | LinkEvidence int int cstr
  | LabReceipt int cstr
  | ExaminationStart int
  | Findings int cstr cstr cstr
  | Amendment int cstr
  | Contest int cstr
  | RequestsByCase int "forensic_record list"
  | PendingRequests int "forensic_record list"
  | EvidenceByRequest int "evidence_ref list"

datatype forensic_out = NoOut | RequestId int | Requests "forensic_record list" | Refs "evidence_ref list"

definition map_out :: "('o \<Rightarrow> forensic_out) \<Rightarrow> ((result_code \<times> 'o) \<times> 's) run
     \<Rightarrow> ((result_code \<times> forensic_out) \<times> 's) run" where
  "map_out f r = and_then r (\<lambda>((rc, out), s). Inr ((rc, f out), s))"

fun forensic_member ::
  "'c libpq \<Rightarrow> 'c forensic_backend \<Rightarrow> (string \<Rightarrow> string run) \<Rightarrow> int \<Rightarrow> cstr \<Rightarrow> forensic_call
     \<Rightarrow> 'c forensic_state \<Rightarrow> ((result_code \<times> forensic_out) \<times> 'c forensic_state) run" where
  "forensic_member lib pq freed now token (CreateRequest c p d l x out) am =
     map_out RequestId (createForensicRequest lib pq now token c p d l x out am)"
| "forensic_member lib pq freed now token (LinkEvidence i e n) am =
     map_out (\<lambda>u. NoOut) (linkEvidence lib pq freed now token i e n am)"
| "forensic_member lib pq freed now token (LabReceipt i d) am =
     map_out (\<lambda>u. NoOut) (recordLabReceipt lib pq now token i d am)"
| "forensic_member lib pq freed now token (ExaminationStart i) am =
     map_out (\<lambda>u. NoOut) (recordExaminationStart lib pq now token i am)"
| "forensic_member lib pq freed now token (Findings i f p d) am =
     map_out (\<lambda>u. NoOut) (recordFindings lib pq now token i f p d am)"
| "forensic_member lib pq freed now token (Amendment i f) am =
     map_out (\<lambda>u. NoOut) (recordAmendment lib pq now token i f am)"
| "forensic_member lib pq freed now token (Contest i r) am =
     map_out (\<lambda>u. NoOut) (contestReport lib pq now token i r am)"
| "forensic_member lib pq freed now token (RequestsByCase c out) am =
     map_out Requests (getRequestsByCase pq now token c out am)"
| "forensic_member lib pq freed now token (PendingRequests s out) am =
     map_out Requests (getPendingRequests pq now token s out am)"
| "forensic_member lib pq freed now token (EvidenceByRequest i out) am =
     map_out Refs (getEvidenceByRequest pq now token i out am)"

section \<open>The mutex\<close>

lemmas gate_defs = with_session_def on_duty_def inspector_rank_def on_conn_def map_out_def

lemma authAndConn_held [run_simps]: "us_held (am_ipc am) \<Longrightarrow> authAndConn now token am = Inl BlocksForever"
  by (simp add: authAndConn_def ipc_db_defs lock_defs)

lemma member_held: "us_held (am_ipc am) \<Longrightarrow> forensic_member lib pq freed now token call am = Inl BlocksForever"
  by (cases call) (simp_all add: createForensicRequest_def linkEvidence_def recordLabReceipt_def
      recordExaminationStart_def recordFindings_def recordAmendment_def contestReport_def
      getRequestsByCase_def getPendingRequests_def getEvidenceByRequest_def with_session_def map_out_def
      authAndConn_held)

text \<open>A session that is valid passes \<open>_authAndConn\<close> with the mutex locked.\<close>

lemma authAndConn_valid:
  "\<not> us_held (am_ipc am) \<Longrightarrow> us_conn (am_ipc am) \<noteq> None \<Longrightarrow>
   validateToken now token empty_session am = (OK, ctx) \<Longrightarrow>
   authAndConn now (Some token) am = Inr (OK, ctx, am\<lparr>am_ipc := (am_ipc am)\<lparr>us_held := True\<rparr>\<rparr>)"
  by (simp add: authAndConn_def ipc_db_defs lock_defs)

text \<open>Behind the gate the duty check answers from its cache or waits for the mutex this thread holds.\<close>

lemma duty_under_lock:
  "us_held (am_ipc am) \<Longrightarrow> isDutyActive (executeQuery lib) now officer out am =
     (case map_of (am_duty_cache am) officer of
        None \<Rightarrow> Inl BlocksForever
      | Some e \<Rightarrow> if now - de_cached_at e < TTL_SECONDS then Inr (OK, de_is_active e, am) else Inl BlocksForever)"
  by (simp add: isDutyActive_def duty_check_def duty_refresh_def queryDutyStatus_def executeQuery_def
      execute_held split: option.split)

text \<open>What a continuation keeps of the mutex.\<close>

definition keeps_lock :: "('c forensic_state \<Rightarrow> ('r \<times> 'c forensic_state) run) \<Rightarrow> bool" where
  "keeps_lock k \<longleftrightarrow> (\<forall>am r am'. us_held (am_ipc am) \<longrightarrow> k am = Inr (r, am') \<longrightarrow> us_held (am_ipc am'))"

lemma keeps_on_conn: "keeps_lock (on_conn body)"
  by (auto simp: keeps_lock_def on_conn_def run_simps split: option.splits)

lemma keeps_on_duty: "keeps_lock (k ctx) \<Longrightarrow> keeps_lock (on_duty lib now dflt k ctx)"
  by (auto simp: keeps_lock_def on_duty_def duty_under_lock run_simps split: option.splits if_splits)

lemma keeps_inspector: "keeps_lock (k ctx) \<Longrightarrow> keeps_lock (inspector_rank dflt k ctx)"
  by (auto simp: keeps_lock_def inspector_rank_def)

lemmas keeps = keeps_on_conn keeps_on_duty keeps_inspector

lemma with_session_locks:
  assumes "\<not> us_held (am_ipc am)" "us_conn (am_ipc am) \<noteq> None"
    "validateToken now token empty_session am = (OK, ctx)" "keeps_lock (k ctx)"
    "with_session now (Some token) dflt k am = Inr (r, am')"
  shows "us_held (am_ipc am')"
proof -
  from assms(5) have "k ctx (am\<lparr>am_ipc := (am_ipc am)\<lparr>us_held := True\<rparr>\<rparr>) = Inr (r, am')"
    by (simp add: with_session_def authAndConn_valid [OF assms(1-3)])
  moreover have "us_held (am_ipc (am\<lparr>am_ipc := (am_ipc am)\<lparr>us_held := True\<rparr>\<rparr>))" by simp
  ultimately show ?thesis using assms(4) unfolding keeps_lock_def by blast
qed

lemma map_out_Inr: "map_out f m = Inr (r, am) \<longleftrightarrow> (\<exists>rc out. m = Inr ((rc, out), am) \<and> r = (rc, f out))"
  by (auto simp: map_out_def run_simps)

lemma member_locks:
  assumes "\<not> us_held (am_ipc am)" "us_conn (am_ipc am) \<noteq> None"
    "validateToken now token empty_session am = (OK, ctx)"
    "forensic_member lib pq freed now (Some token) call am = Inr (r, am')"
  shows "us_held (am_ipc am')"
  using assms(4)
  by (cases call) (auto simp: map_out_Inr createForensicRequest_def linkEvidence_def recordLabReceipt_def
      recordExaminationStart_def recordFindings_def recordAmendment_def contestReport_def
      getRequestsByCase_def getPendingRequests_def getEvidenceByRequest_def
      intro: keeps with_session_locks [OF assms(1-3), rotated])

fun writes :: "forensic_call \<Rightarrow> bool" where
  "writes (RequestsByCase c out) = False"
| "writes (PendingRequests s out) = False"
| "writes (EvidenceByRequest i out) = False"
| "writes call = True"

lemma member_cold_duty:
  assumes "\<not> us_held (am_ipc am)" "us_conn (am_ipc am) \<noteq> None"
    "validateToken now token empty_session am = (OK, ctx)"
    "map_of (am_duty_cache am) (sc_officerId ctx) = None" "writes call"
  shows "forensic_member lib pq freed now (Some token) call am = Inl BlocksForever"
  using assms(5)
  by (cases call) (simp_all add: createForensicRequest_def linkEvidence_def recordLabReceipt_def
      recordExaminationStart_def recordFindings_def recordAmendment_def contestReport_def
      map_out_def with_session_def authAndConn_valid [OF assms(1-3)] on_duty_def duty_under_lock assms(4))

end
