(* ===== verification/Forensic_Lab.thy ===== *)
theory Forensic_Lab
  imports Forensic
begin

text \<open>
  The forensic module on its tables: the life of a request as a machine, the chain of custody of its
  evidence, and what the gates of \<open>Forensic\<close> let through. The bodies of the operations run in any
  order, for any officer, and any statement may fail.
\<close>

section \<open>What a statement keeps\<close>

definition status_of :: "forensic_db \<Rightarrow> int \<Rightarrow> string option" where
  "status_of db i = map_option fq_status (map_of (fd_requests db) i)"

definition request_case :: "forensic_db \<Rightarrow> int \<Rightarrow> int option" where
  "request_case db i = map_option fq_case_id (map_of (fd_requests db) i)"

definition evidence_case :: "forensic_db \<Rightarrow> int \<Rightarrow> int option" where
  "evidence_case db e = map_option le_case_id (map_of (fd_evidence db) e)"

lemmas lab_views = status_of_def request_case_def evidence_case_def

text \<open>The keys are unique, and what is linked to a request belongs to its case.\<close>

definition good_lab :: "forensic_db \<Rightarrow> bool" where
  "good_lab db \<longleftrightarrow> wf_map (fd_requests db) \<and> wf_map (fd_evidence db)
     \<and> (\<forall>(i, e, rest) \<in> set (fd_links db). request_case db i \<noteq> None \<and> request_case db i = evidence_case db e)"

definition quiet :: "forensic_db \<Rightarrow> forensic_db \<Rightarrow> bool" where
  "quiet db db' \<longleftrightarrow> status_of db' = status_of db \<and> request_case db' = request_case db
     \<and> evidence_case db' = evidence_case db \<and> (good_lab db \<longrightarrow> good_lab db')"

lemma quiet_refl [simp]: "quiet db db"
  by (simp add: quiet_def)

lemma quiet_trans [trans]: "quiet a b \<Longrightarrow> quiet b c \<Longrightarrow> quiet a c"
  by (simp add: quiet_def)

lemma quiet_same_tables:
  "fd_requests db' = fd_requests db \<Longrightarrow> fd_evidence db' = fd_evidence db \<Longrightarrow> fd_links db' = fd_links db
   \<Longrightarrow> quiet db db'"
  by (simp add: quiet_def good_lab_def lab_views fun_eq_iff)

lemma on_request_views:
  assumes "on_request P f db = (res, db')" "\<And>r. fq_case_id (f r) = fq_case_id r"
  shows "request_case db' = request_case db" "evidence_case db' = evidence_case db"
    "fd_links db' = fd_links db" "fd_evidence db' = fd_evidence db" "good_lab db \<Longrightarrow> good_lab db'"
    "status_of db' k = map_option (\<lambda>r. fq_status (if P k then f r else r)) (map_of (fd_requests db) k)"
proof -
  have t: "fd_requests db' = update_where (\<lambda>k r. P k) (\<lambda>r. (f r)\<lparr>fq_updated_at := fd_now db\<rparr>) (fd_requests db)"
    and l: "fd_links db' = fd_links db" and e: "fd_evidence db' = fd_evidence db"
    using assms(1) by (auto simp: on_request_def)
  show r: "request_case db' = request_case db"
    by (auto simp: request_case_def t map_of_update_where assms(2) option.map_comp comp_def fun_eq_iff
        intro!: option.map_cong)
  show ev: "evidence_case db' = evidence_case db" by (simp add: evidence_case_def e fun_eq_iff)
  show "fd_links db' = fd_links db" "fd_evidence db' = fd_evidence db" by fact+
  show "good_lab db \<Longrightarrow> good_lab db'" by (simp add: good_lab_def r ev l e t wf_map_def)
  show "status_of db' k = map_option (\<lambda>r. fq_status (if P k then f r else r)) (map_of (fd_requests db) k)"
    by (auto simp: status_of_def t map_of_update_where option.map_comp comp_def intro!: option.map_cong)
qed

lemma on_request_quiet:
  assumes "on_request P f db = (res, db')" "\<And>r. fq_case_id (f r) = fq_case_id r" "\<And>r. fq_status (f r) = fq_status r"
  shows "quiet db db'"
proof -
  have "status_of db' = status_of db"
    using on_request_views(6) [OF assms(1,2)]
    by (simp add: fun_eq_iff status_of_def assms(3) if_distrib [of fq_status] cong: if_cong)
  with on_request_views [OF assms(1,2)] show ?thesis by (simp add: quiet_def)
qed

lemma on_evidence_quiet [simp]: "quiet db (on_evidence P s db)"
proof -
  have "evidence_case (on_evidence P s db) = evidence_case db"
    by (auto simp: evidence_case_def on_evidence_def map_of_update_where option.map_comp comp_def fun_eq_iff
        intro!: option.map_cong)
  moreover have "status_of (on_evidence P s db) = status_of db" "request_case (on_evidence P s db) = request_case db"
    "fd_links (on_evidence P s db) = fd_links db"
    "wf_map (fd_requests (on_evidence P s db)) = wf_map (fd_requests db)"
    "wf_map (fd_evidence (on_evidence P s db)) = wf_map (fd_evidence db)"
    by (simp_all add: status_of_def request_case_def on_evidence_def wf_map_def fun_eq_iff)
  ultimately show ?thesis by (simp add: quiet_def good_lab_def)
qed

lemma run_forensic_cases:
  assumes "run_forensic db stmt ps = (res, db')"
  obtains "fd_fails db (fd_count db)" "res = ResultError" "quiet db db'"
  | db1 where "quiet db db1" "db1 = db\<lparr>fd_count := fd_count db + 1\<rparr>" "\<not> fd_fails db (fd_count db)"
      "exec_forensic stmt ps db1 = (res, db')"
proof (cases "fd_fails db (fd_count db)")
  case True
  with assms have "res = ResultError" "quiet db db'"
    by (auto simp: run_forensic_def intro: quiet_same_tables)
  then show ?thesis using that(1) True by blast
next
  case False
  with assms have "exec_forensic stmt ps (db\<lparr>fd_count := fd_count db + 1\<rparr>) = (res, db')"
    by (simp add: run_forensic_def)
  moreover have "quiet db (db\<lparr>fd_count := fd_count db + 1\<rparr>)" by (simp add: quiet_same_tables)
  ultimately show ?thesis using that(2) False by blast
qed

lemma run_forensic_quiet:
  assumes "run_forensic db stmt ps = (res, db')"
    and "stmt \<noteq> F_INSERT_REQUEST" "stmt \<noteq> F_INSERT_LINK" "stmt \<noteq> F_UPDATE_STATUS"
  shows "quiet db db'"
  using assms(1)
proof (cases rule: run_forensic_cases)
  case (2 db1)
  then have "quiet db1 db'"
    using assms(2-4)
    by (cases stmt) (auto simp: f_case_status_def f_evidence_def f_request_case_def f_received_date_def
        f_examination_start_def f_findings_def f_amendment_def f_contest_def f_by_case_def f_pending_def
        f_evidence_by_request_def f_current_status_def split: option.splits intro: on_request_quiet)
  with 2(1) show ?thesis by (rule quiet_trans)
qed

lemma insert_request_views:
  assumes "run_forensic db F_INSERT_REQUEST ps = (res, db')" "good_lab db"
  shows "good_lab db' \<and> (status_of db' = status_of db
    \<or> (\<exists>k. status_of db k = None \<and> status_of db' = (status_of db)(k \<mapsto> ''REQUESTED'')))"
  using assms(1)
proof (cases rule: run_forensic_cases)
  case 1
  with assms(2) show ?thesis by (simp add: quiet_def)
next
  case (2 db1)
  define k where "k = next_id (fd_requests db1)"
  from 2(4) have db': "db' = db1\<lparr>fd_requests := fd_requests db1 @ [(k, new_request_row ps (fd_now db1))]\<rparr>"
    by (auto simp: f_insert_request_def Let_def k_def)
  have m: "map_of (fd_requests db') = (map_of (fd_requests db1))(k \<mapsto> new_request_row ps (fd_now db1))"
    by (simp add: db' k_def map_of_insert del: map_of_append)
  have k: "map_of (fd_requests db1) k = None" using next_id_fresh [of "fd_requests db1"] by (simp add: k_def map_of_eq_None_iff)
  have g: "good_lab db1" using assms(2) 2(1) by (simp add: quiet_def)
  have e: "evidence_case db' = evidence_case db1" by (simp add: db' evidence_case_def fun_eq_iff)
  have "request_case db' i = request_case db1 i" if "request_case db1 i \<noteq> None" for i
    using that k m by (auto simp: request_case_def)
  then have "good_lab db'"
    using g wf_insert [of "fd_requests db1"] e by (fastforce simp: good_lab_def db' k_def)
  moreover have "status_of db' = (status_of db1)(k \<mapsto> ''REQUESTED'')"
    by (simp add: status_of_def m fun_eq_iff new_request_row_def)
  moreover have "status_of db1 k = None" by (simp add: status_of_def k)
  moreover have "status_of db1 = status_of db" using 2(1) by (simp add: quiet_def)
  ultimately show ?thesis by metis
qed

lemma id_param_int [simp]: "sql_int (id_param i) = Some i" "sql_int0 (id_param i) = i"
  by (simp_all add: id_param_def sql_int_def sql_int0_def text_simps)

lemma update_status_views:
  assumes "updateStatus run_forensic i s db = (rc, db')"
  shows "(good_lab db \<longrightarrow> good_lab db')
    \<and> (status_of db' = status_of db \<or> status_of db i \<noteq> None \<and> status_of db' = (status_of db)(i \<mapsto> s))"
proof -
  obtain res where r: "run_forensic db F_UPDATE_STATUS [Some s, id_param i] = (res, db')"
    using assms by (cases "run_forensic db F_UPDATE_STATUS [Some s, id_param i]")
      (auto simp: updateStatus_def split: pg_result.splits)
  then show ?thesis
  proof (cases rule: run_forensic_cases)
    case 1
    then show ?thesis by (simp add: quiet_def)
  next
    case (2 db1)
    let ?f = "\<lambda>r :: lab_request_row. r\<lparr>fq_status := s\<rparr>"
    obtain res2 db2 where o: "on_request (\<lambda>k. k = i) ?f db1 = (res2, db2)" by fastforce
    have "db' = db2 \<or> (\<exists>P t. db' = on_evidence P t db2)"
      using 2(4) o by (auto simp: f_update_status_def Let_def cell_def split: if_splits)
    then have q: "quiet db2 db'" by auto
    note v = on_request_views [OF o, simplified]
    have "status_of db2 = (if status_of db1 i = None then status_of db1 else (status_of db1)(i \<mapsto> s))"
    proof (rule ext)
      show "status_of db2 k = (if status_of db1 i = None then status_of db1 else (status_of db1)(i \<mapsto> s)) k" for k
        using v(6) [of k] by (cases "map_of (fd_requests db1) k") (auto simp: status_of_def)
    qed
    then show ?thesis using 2(1) q v(5) by (auto simp: quiet_def)
  qed
qed

section \<open>The state of a request\<close>

lemma scopy_iff: "0 < length t \<Longrightarrow> length t < n - 1 \<Longrightarrow> hd t \<noteq> NUL \<Longrightarrow> scopy n s = t \<longleftrightarrow> s = t"
  by (cases s) (auto simp: scopy_def in_buffer_def take_Cons' min_def split: if_splits)

lemma scopy_status:
  "scopy 24 s = ''REQUESTED'' \<longleftrightarrow> s = ''REQUESTED''" "scopy 24 s = ''RECEIVED_BY_LAB'' \<longleftrightarrow> s = ''RECEIVED_BY_LAB''"
  "scopy 24 s = ''UNDER_EXAMINATION'' \<longleftrightarrow> s = ''UNDER_EXAMINATION''"
  "scopy 24 s = ''REPORT_READY'' \<longleftrightarrow> s = ''REPORT_READY''"
  "scopy 24 s = ''REPORT_DELIVERED'' \<longleftrightarrow> s = ''REPORT_DELIVERED''" "scopy 24 s = ''CONTESTED'' \<longleftrightarrow> s = ''CONTESTED''"
  by (rule scopy_iff; simp add: NUL_def)+

lemma legal_edge_iff:
  "legal_edge s ''RECEIVED_BY_LAB'' \<longleftrightarrow> s = ''REQUESTED''"
  "legal_edge s ''UNDER_EXAMINATION'' \<longleftrightarrow> s = ''RECEIVED_BY_LAB''"
  "legal_edge s ''REPORT_READY'' \<longleftrightarrow> s = ''UNDER_EXAMINATION''"
  "legal_edge s ''REPORT_DELIVERED'' \<longleftrightarrow> s = ''REPORT_READY''"
  "legal_edge s ''CONTESTED'' \<longleftrightarrow> s = ''REPORT_DELIVERED''"
  by (auto simp: legal_edge_def kEdges_def)

lemma selected_at:
  "wf_map t \<Longrightarrow> selected (\<lambda>k r. k = i) row t = TuplesOk (case map_of t i of None \<Rightarrow> [] | Some r \<Rightarrow> [row i r])"
  using selected_key [of t i "\<lambda>k r. True" row] by (simp split: option.split)

lemma fetch_views:
  assumes "good_lab db" "fetchCurrentStatus run_forensic i db = (rc, cur, t, db')"
  shows "quiet db db'" "rc = OK \<Longrightarrow> \<exists>s. status_of db i = Some s \<and> cur = scopy 24 s"
proof -
  obtain res where r: "run_forensic db F_CURRENT_STATUS [id_param i] = (res, db')"
    using assms(2) by (cases "run_forensic db F_CURRENT_STATUS [id_param i]")
      (auto simp: fetchCurrentStatus_def split: pg_result.splits list.splits)
  then show "quiet db db'" by (rule run_forensic_quiet) simp_all
  have w: "wf_map (fd_requests db)" using assms(1) by (simp add: good_lab_def)
  from r show "rc = OK \<Longrightarrow> \<exists>s. status_of db i = Some s \<and> cur = scopy 24 s"
  proof (cases rule: run_forensic_cases)
    case 1
    moreover assume "rc = OK"
    ultimately show ?thesis using assms(2) r by (simp add: fetchCurrentStatus_def)
  next
    case (2 db1)
    assume "rc = OK"
    with assms(2) r 2 show ?thesis
      using w by (auto simp: fetchCurrentStatus_def f_current_status_def status_of_def selected_at
          split: option.splits)
  qed
qed

section \<open>The machine of the requests\<close>

text \<open>
  \<open>recordFindings\<close> goes two edges of \<open>kEdges\<close> at once, and stops after the first when the second
  statement fails. Nothing else leads away from a ready report.
\<close>

definition lab_edges :: "(string \<times> string) list" where
  "lab_edges =
     [(''REQUESTED'', ''RECEIVED_BY_LAB''), (''RECEIVED_BY_LAB'', ''UNDER_EXAMINATION''),
      (''UNDER_EXAMINATION'', ''REPORT_READY''), (''UNDER_EXAMINATION'', ''REPORT_DELIVERED''),
      (''REPORT_DELIVERED'', ''CONTESTED'')]"

inductive lab_move :: "(int \<Rightarrow> string option) \<Rightarrow> (int \<Rightarrow> string option) \<Rightarrow> bool" where
  move_request: "v k = None \<Longrightarrow> lab_move v (v(k \<mapsto> ''REQUESTED''))"
| move_edge: "v k = Some s \<Longrightarrow> (s, t) \<in> set lab_edges \<Longrightarrow> lab_move v (v(k \<mapsto> t))"

inductive_cases lab_moveE: "lab_move v w"

text \<open>The body of an operation, for any officer; \<open>lab_clock\<close> lets time pass and other failures come,
  \<open>lab_cases\<close> lets the cases change.\<close>

inductive lab_step :: "forensic_db \<Rightarrow> forensic_db \<Rightarrow> bool" where
  lab_create: "create_body run_forensic now ctx c p d l x out db = Inr (rc, i, db') \<Longrightarrow> lab_step db db'"
| lab_link: "link_body run_forensic freed i e notes db = Inr (rc, db') \<Longrightarrow> lab_step db db'"
| lab_receipt: "receipt_body run_forensic now i date db = (rc, db') \<Longrightarrow> lab_step db db'"
| lab_start: "start_body run_forensic i db = (rc, db') \<Longrightarrow> lab_step db db'"
| lab_findings: "findings_body run_forensic i findings path date db = (rc, db') \<Longrightarrow> lab_step db db'"
| lab_amendment: "amendment_body run_forensic i findings db = (rc, db') \<Longrightarrow> lab_step db db'"
| lab_contest: "contest_body run_forensic ctx i reason db = (rc, db') \<Longrightarrow> lab_step db db'"
| lab_clock: "lab_step db (db\<lparr>fd_now := t, fd_fails := fails\<rparr>)"
| lab_cases: "lab_step db (db\<lparr>fd_cases := cases\<rparr>)"

definition body_sound :: "forensic_db \<Rightarrow> forensic_db \<Rightarrow> bool" where
  "body_sound db db' \<longleftrightarrow> good_lab db' \<and> lab_move\<^sup>=\<^sup>= (status_of db) (status_of db')"

lemma quiet_sound: "good_lab db \<Longrightarrow> quiet db db' \<Longrightarrow> body_sound db db'"
  by (simp add: body_sound_def quiet_def)

lemma quiet_good: "good_lab db \<Longrightarrow> quiet db db' \<Longrightarrow> good_lab db'"
  by (simp add: quiet_def)

lemma quiet_then_sound: "quiet db db1 \<Longrightarrow> body_sound db1 db2 \<Longrightarrow> body_sound db db2"
  by (simp add: body_sound_def quiet_def)

lemma advance_sound:
  assumes "good_lab db" "updateStatus run_forensic i t db = (rc, db')"
    and "status_of db i = Some s" "(s, t) \<in> set lab_edges"
  shows "body_sound db db'"
  using update_status_views [OF assms(2)] assms(1) move_edge [of "status_of db" i s t, OF assms(3,4)]
  by (auto simp: body_sound_def)

lemma command_result: "command (run_forensic db stmt ps) = (rc, db') \<Longrightarrow> \<exists>res. run_forensic db stmt ps = (res, db')"
  by (cases "run_forensic db stmt ps") (auto simp: command_def split: pg_result.splits)

lemma command_quiet:
  "command (run_forensic db stmt ps) = (rc, db') \<Longrightarrow> stmt \<noteq> F_INSERT_REQUEST \<Longrightarrow> stmt \<noteq> F_INSERT_LINK
   \<Longrightarrow> stmt \<noteq> F_UPDATE_STATUS \<Longrightarrow> quiet db db'"
  using command_result run_forensic_quiet by blast

text \<open>A transition of one edge: look at the state, write the fields, advance.\<close>

lemma one_edge_sound:
  assumes g: "good_lab db" and edge: "\<And>s. legal_edge s t \<longleftrightarrow> s = from" "(from, t) \<in> set lab_edges"
    "\<And>s. scopy 24 s = from \<longleftrightarrow> s = from"
    and f: "fetchCurrentStatus run_forensic i db = (rc, cur, r, db1)"
    and w: "command (run_forensic db1 stmt ps) = (rc2, db2)"
    and stmt: "stmt \<noteq> F_INSERT_REQUEST" "stmt \<noteq> F_INSERT_LINK" "stmt \<noteq> F_UPDATE_STATUS"
    and result: "(rc3, db') = (if rc \<noteq> OK then (rc, db1) else if \<not> legal_edge cur t then (INVALID_STATE, db1)
       else if rc2 \<noteq> OK then (rc2, db2) else updateStatus run_forensic i t db2)"
  shows "body_sound db db'"
proof -
  have q1: "quiet db db1" using fetch_views(1) [OF g f] .
  have q2: "quiet db db2" using command_quiet [OF w stmt] q1 quiet_trans by blast
  show ?thesis
  proof (cases "rc = OK \<and> legal_edge cur t \<and> rc2 = OK")
    case True
    then have "status_of db i = Some from" using fetch_views(2) [OF g f] edge(1,3) by metis
    then have "status_of db2 i = Some from" using q2 by (simp add: quiet_def)
    moreover have "updateStatus run_forensic i t db2 = (rc3, db')" using result True by simp
    ultimately have "body_sound db2 db'"
      using advance_sound [OF quiet_good [OF g q2]] edge(2) by blast
    with q2 show ?thesis by (rule quiet_then_sound)
  next
    case False
    then have "db' = db1 \<or> db' = db2" using result by (auto split: if_splits)
    then show ?thesis using quiet_sound [OF g] q1 q2 by blast
  qed
qed

lemma receipt_sound:
  assumes "good_lab db" "receipt_body run_forensic now i date db = (rc, db')"
  shows "body_sound db db'"
proof (cases "null_or_empty date \<or> parseDate date = - 1 \<or> now < parseDate date")
  case True
  with assms show ?thesis by (auto simp: receipt_body_def intro: quiet_sound split: if_splits)
next
  case False
  obtain rc1 cur r db1 where f: "fetchCurrentStatus run_forensic i db = (rc1, cur, r, db1)"
    by (cases "fetchCurrentStatus run_forensic i db")
  obtain rc2 db2 where w: "updateReceivedDate run_forensic i date db1 = (rc2, db2)" by fastforce
  show ?thesis
    by (rule one_edge_sound [OF assms(1) legal_edge_iff(1) _ scopy_status(1) f w [unfolded updateReceivedDate_def]])
      (use False assms(2) f w in \<open>auto simp: receipt_body_def lab_edges_def split: if_splits\<close>)
qed

lemma start_sound:
  assumes "good_lab db" "start_body run_forensic i db = (rc, db')"
  shows "body_sound db db'"
proof -
  obtain rc1 cur r db1 where f: "fetchCurrentStatus run_forensic i db = (rc1, cur, r, db1)"
    by (cases "fetchCurrentStatus run_forensic i db")
  obtain rc2 db2 where w: "updateExaminationStartDate run_forensic i db1 = (rc2, db2)" by fastforce
  show ?thesis
    by (rule one_edge_sound [OF assms(1) legal_edge_iff(2) _ scopy_status(2) f w [unfolded updateExaminationStartDate_def]])
      (use assms(2) f w in \<open>auto simp: start_body_def lab_edges_def split: if_splits\<close>)
qed

lemma contest_sound:
  assumes "good_lab db" "contest_body run_forensic ctx i reason db = (rc, db')"
  shows "body_sound db db'"
proof (cases "null_or_empty reason")
  case True
  with assms show ?thesis by (simp add: contest_body_def quiet_sound)
next
  case False
  obtain rc1 cur r db1 where f: "fetchCurrentStatus run_forensic i db = (rc1, cur, r, db1)"
    by (cases "fetchCurrentStatus run_forensic i db")
  obtain rc2 db2 where w: "updateContest run_forensic i reason (sc_officerId ctx) db1 = (rc2, db2)" by fastforce
  show ?thesis
    by (rule one_edge_sound [OF assms(1) legal_edge_iff(5) _ scopy_status(5) f w [unfolded updateContest_def]])
      (use False assms(2) f w in \<open>auto simp: contest_body_def lab_edges_def split: if_splits\<close>)
qed

lemma findings_sound:
  assumes g: "good_lab db" and b: "findings_body run_forensic i findings path date db = (rc, db')"
  shows "body_sound db db'"
proof (cases "null_or_empty findings \<or> null_or_empty path \<or> parseDate date = - 1")
  case True
  with assms show ?thesis by (auto simp: findings_body_def intro: quiet_sound split: if_splits)
next
  case False
  obtain rc1 cur r db1 where f: "fetchCurrentStatus run_forensic i db = (rc1, cur, r, db1)"
    by (cases "fetchCurrentStatus run_forensic i db")
  obtain rc2 db2 where w: "updateFindings run_forensic i findings path date db1 = (rc2, db2)" by fastforce
  obtain rc3 db3 where u: "updateStatus run_forensic i ''REPORT_READY'' db2 = (rc3, db3)" by fastforce
  obtain rc4 db4 where v: "updateStatus run_forensic i ''REPORT_DELIVERED'' db3 = (rc4, db4)" by fastforce
  have q1: "quiet db db1" using fetch_views(1) [OF g f] .
  have q2: "quiet db db2"
    using command_quiet [OF w [unfolded updateFindings_def]] q1 quiet_trans by simp
  have g2: "good_lab db2" using quiet_good [OF g q2] .
  show ?thesis
  proof (cases "db' = db1 \<or> db' = db2")
    case True
    then show ?thesis using quiet_sound [OF g] q1 q2 by blast
  next
    case stepped: False
    have "findings_body run_forensic i findings path date db
        = (if rc1 \<noteq> OK then (rc1, db1) else if \<not> legal_edge cur ''REPORT_READY'' then (INVALID_STATE, db1)
           else if 0 < r \<and> parseDate date < r then (INVALID_INPUT, db1)
           else if rc2 \<noteq> OK then (rc2, db2) else if rc3 \<noteq> OK then (rc3, db3) else (rc4, db4))"
      using False by (simp add: findings_body_def f w u v)
    with b stepped have "rc1 = OK" and "legal_edge cur ''REPORT_READY''" and d: "db' = db3 \<or> db' = db4"
      by (simp_all split: if_split_asm)
    then have s: "status_of db i = Some ''UNDER_EXAMINATION''"
      using fetch_views(2) [OF g f] legal_edge_iff(3) scopy_status(3) by metis
    have same: "status_of db2 = status_of db" using q2 by (simp add: quiet_def)
    note u' = update_status_views [OF u] and v' = update_status_views [OF v]
    from d u' v' g2 same have "good_lab db' \<and> (status_of db' = status_of db
      \<or> status_of db' = (status_of db)(i \<mapsto> ''REPORT_READY'')
      \<or> status_of db' = (status_of db)(i \<mapsto> ''REPORT_DELIVERED''))" by auto
    moreover have "lab_move (status_of db) ((status_of db)(i \<mapsto> t))" if "t = ''REPORT_READY'' \<or> t = ''REPORT_DELIVERED''" for t
      by (rule move_edge [where v = "status_of db" and k = i, OF s]) (use that in \<open>auto simp: lab_edges_def\<close>)
    ultimately show ?thesis unfolding body_sound_def by (metis sup2I1 sup2I2)
  qed
qed

lemma amendment_sound:
  assumes g: "good_lab db" and b: "amendment_body run_forensic i findings db = (rc, db')"
  shows "body_sound db db'"
proof -
  obtain rc1 cur r db1 where f: "fetchCurrentStatus run_forensic i db = (rc1, cur, r, db1)"
    by (cases "fetchCurrentStatus run_forensic i db")
  obtain rc2 db2 where w: "updateAmendment run_forensic i findings db1 = (rc2, db2)" by fastforce
  have q1: "quiet db db1" using fetch_views(1) [OF g f] .
  have q2: "quiet db db2"
    using command_quiet [OF w [unfolded updateAmendment_def]] q1 quiet_trans by simp
  have "db' = db \<or> db' = db1 \<or> db' = db2" using b f w by (auto simp: amendment_body_def split: if_splits)
  then show ?thesis using quiet_sound [OF g] q1 q2 quiet_refl by blast
qed

lemma create_sound:
  assumes g: "good_lab db" and b: "create_body run_forensic now ctx c p d l x out db = Inr (rc, i, db')"
  shows "body_sound db db'"
proof -
  obtain res db1 where r: "run_forensic db F_CASE_STATUS [id_param c] = (res, db1)" by fastforce
  have q: "quiet db db1" by (rule run_forensic_quiet [OF r]) simp_all
  from b r have "db' = db1 \<or> insertRequest run_forensic now c p d l x (sc_officerId ctx) out db1 = Inr (rc, i, db')"
    by (auto simp: create_body_def split: pg_result.splits list.splits if_splits)
  then show ?thesis
  proof
    assume "db' = db1"
    then show ?thesis using quiet_sound [OF g q] by simp
  next
    assume "insertRequest run_forensic now c p d l x (sc_officerId ctx) out db1 = Inr (rc, i, db')"
    then obtain ps res2 where "run_forensic db1 F_INSERT_REQUEST ps = (res2, db')"
      by (auto simp: insertRequest_def split: prod.splits pg_result.splits list.splits)
    from insert_request_views [OF this quiet_good [OF g q]] have "body_sound db1 db'"
      by (auto simp: body_sound_def intro: move_request)
    with q show ?thesis by (rule quiet_then_sound)
  qed
qed

section \<open>The chain of custody\<close>

lemma insert_link_sound:
  assumes g: "good_lab db" and r: "run_forensic db F_INSERT_LINK [id_param i, id_param e, n] = (res, db')"
    and c: "request_case db i = Some c" "evidence_case db e = Some c"
  shows "good_lab db' \<and> status_of db' = status_of db"
  using r
proof (cases rule: run_forensic_cases)
  case 1
  with g show ?thesis by (simp add: quiet_def)
next
  case (2 db1)
  define db2 where "db2 = db1\<lparr>fd_links := fd_links db1 @ [(i, e, n, fd_now db1)]\<rparr>"
  have "db' = db1 \<or> db' = on_evidence (\<lambda>k. k = e) ''SENT_TO_LAB'' db2"
    using 2(4) by (auto simp: f_insert_link_def Let_def db2_def split: if_splits)
  moreover have g1: "good_lab db1" using quiet_good [OF g 2(1)] .
  moreover have v: "status_of db2 = status_of db1" "request_case db2 = request_case db1"
    "evidence_case db2 = evidence_case db1" "fd_requests db2 = fd_requests db1" "fd_evidence db2 = fd_evidence db1"
    "fd_links db2 = fd_links db1 @ [(i, e, n, fd_now db1)]"
    by (simp_all add: db2_def lab_views fun_eq_iff)
  moreover have "good_lab db2"
    using g1 c 2(1) by (auto simp: good_lab_def v quiet_def)
  ultimately show ?thesis
    using 2(1) on_evidence_quiet [of db2 "\<lambda>k. k = e" "''SENT_TO_LAB''"] by (auto simp: quiet_def)
qed

lemma one_row:
  assumes "run_forensic db stmt ps = (TuplesOk (row # rows), db')"
  shows "exec_forensic stmt ps (db\<lparr>fd_count := fd_count db + 1\<rparr>) = (TuplesOk (row # rows), db')"
  using assms by (auto simp: run_forensic_def Let_def split: if_splits)

lemma request_case_row:
  assumes "good_lab db" "run_forensic db F_REQUEST_CASE [id_param i] = (TuplesOk (row # rows), db')"
  shows "request_case db i = Some (atoi (row ! 0))"
  using assms(1) one_row [OF assms(2)]
  by (auto simp: f_request_case_def good_lab_def selected_at request_case_def text_simps split: option.splits)

lemma evidence_row:
  assumes "good_lab db" "run_forensic db F_EVIDENCE [id_param e] = (TuplesOk (row # rows), db')"
  shows "\<exists>r. map_of (fd_evidence db) e = Some r
    \<and> row = [if le_is_deleted r then ''t'' else ''f'', le_status r, show_int (le_case_id r)]"
  using assms(1) one_row [OF assms(2)]
  by (auto simp: f_evidence_def good_lab_def selected_at split: option.splits)

lemma link_sound:
  assumes g: "good_lab db" and b: "link_body run_forensic freed i e notes db = Inr (rc, db')"
  shows "body_sound db db'"
proof -
  obtain rc1 cur t db1 where f: "fetchCurrentStatus run_forensic i db = (rc1, cur, t, db1)"
    by (cases "fetchCurrentStatus run_forensic i db")
  obtain res db2 where r: "run_forensic db1 F_EVIDENCE [id_param e] = (res, db2)" by fastforce
  obtain res3 db3 where r3: "run_forensic db2 F_REQUEST_CASE [id_param i] = (res3, db3)" by fastforce
  have q1: "quiet db db1" using fetch_views(1) [OF g f] .
  have q2: "quiet db1 db2" by (rule run_forensic_quiet [OF r]) simp_all
  have q3: "quiet db2 db3" by (rule run_forensic_quiet [OF r3]) simp_all
  note g1 = quiet_good [OF g q1] note g2 = quiet_good [OF g1 q2] note g3 = quiet_good [OF g2 q3]
  have q: "quiet db db2" "quiet db db3" using q1 q2 q3 quiet_trans by blast+
  show ?thesis
  proof (cases "db' = db1 \<or> db' = db2 \<or> db' = db3")
    case True
    then show ?thesis using quiet_sound [OF g] q1 q by blast
  next
    case False
    obtain row rows row3 rows3 n where res: "res = TuplesOk (row # rows)" "res3 = TuplesOk (row3 # rows3)"
      and eq: "atoi (row ! 2) = atoi (row3 ! 0)"
      and ins: "insertEvidenceLink run_forensic i e n db3 = (rc, db')"
      using b f r r3 False
      by (auto simp: link_body_def same_case_link_def run_simps
          split: if_splits pg_result.splits list.splits prod.splits)
    from evidence_row [OF g1 r [unfolded res]] have "evidence_case db1 e = Some (atoi (row ! 2))"
      by (auto simp: evidence_case_def text_simps)
    then have "evidence_case db3 e = Some (atoi (row ! 2))" using q2 q3 by (simp add: quiet_def)
    moreover have "request_case db3 i = Some (atoi (row ! 2))"
      using request_case_row [OF g2 r3 [unfolded res]] q3 eq by (simp add: quiet_def)
    moreover obtain res4 where "run_forensic db3 F_INSERT_LINK [id_param i, id_param e, Some n] = (res4, db')"
      using command_result ins unfolding insertEvidenceLink_def by blast
    ultimately have "body_sound db3 db'" using insert_link_sound [OF g3] by (auto simp: body_sound_def)
    with q(2) show ?thesis by (rule quiet_then_sound)
  qed
qed

lemma lab_step_sound: "lab_step db db' \<Longrightarrow> good_lab db \<Longrightarrow> body_sound db db'"
proof (induction rule: lab_step.induct)
  case (lab_clock db t fails)
  then show ?case by (intro quiet_sound) (simp_all add: quiet_same_tables)
next
  case (lab_cases db cases)
  then show ?case by (intro quiet_sound) (simp_all add: quiet_same_tables)
qed (blast intro: create_sound link_sound receipt_sound start_sound findings_sound amendment_sound contest_sound)+

interpretation lab: simulation good_lab lab_step status_of lab_move
  by unfold_locales (auto dest: lab_step_sound simp: body_sound_def)

section \<open>Properties\<close>

definition lab_request :: lab_request_row where
  "lab_request = new_request_row [Some ''FR-1-5'', Some ''5'', Some ''OTHER'', Some ''blade'', Some ''PFSA'',
     Some ''Khan'', Some ''7''] 1000"

definition lab_db :: forensic_db where
  "lab_db = \<lparr>fd_requests = [(1, lab_request)], fd_links = [],
     fd_evidence = [(9, \<lparr>le_number = Some ''EV-9'', le_type = Some ''PHYSICAL'', le_status = ''SEALED'',
       le_description = None, le_case_id = 5, le_is_deleted = False\<rparr>)],
     fd_cases = [(5, ''UNDER_INVESTIGATION'', 3)], fd_now = 1000, fd_date = (\<lambda>p. Some 86400),
     fd_fails = (\<lambda>n. False), fd_count = 0\<rparr>"

definition lab_session :: session_context where
  "lab_session = empty_session\<lparr>sc_officerId := 7, sc_rank := INSPECTOR, sc_isValid := True,
     sc_createdAt := 1000, sc_expiresAt := 29800, sc_sessionToken := ''tok''\<rparr>"

definition lab_am :: "forensic_db forensic_state" where
  "lab_am = \<lparr>am_session_store = [(''tok'', lab_session)], am_duty_cache = [],
     am_ipc = \<lparr>us_held = False, us_conn = Some lab_db, us_conn_string = []\<rparr>,
     am_db_connection = \<lparr>us_held = False, us_conn = None, us_conn_string = []\<rparr>\<rparr>"

definition lab_lib :: "forensic_db libpq" where
  "lab_lib = \<lparr>PQconnectdb = (\<lambda>s. Some lab_db), PQstatus_ok = (\<lambda>c. True),
     PQexec = (\<lambda>c q. (TuplesOk [[''t'']], c)), PQexecParams = (\<lambda>c q ps. (ResultError, c))\<rparr>"

lemma demo_five: "atoi ''5'' = 5"
  by (simp add: atoi_def signed_digits_def is_space_def is_digit_def read_digits_def digit_value_def)

lemma lab_valid:
  "validateToken 2000 ''tok'' empty_session lab_am = (OK, lab_session)"
  "validateToken 2000 ''tok'' empty_session (lab_am\<lparr>am_duty_cache := c\<rparr>) = (OK, lab_session)"
  by (simp_all add: validateToken_def store_validate_def store_isExpired_def lab_am_def lab_session_def)

lemma lab_pending_returns:
  "\<exists>r am'. forensic_member lab_lib run_forensic Inr 2000 (Some ''tok'') (PendingRequests 3 []) lab_am = Inr (r, am') \<and> fst r = OK"
proof -
  have h: "\<not> us_held (am_ipc lab_am)" "us_conn (am_ipc lab_am) \<noteq> None" by (simp_all add: lab_am_def)
  have "fst (selectPending run_forensic 3 [] lab_db) = OK"
    by (simp add: selectPending_def run_forensic_def f_pending_def selected_def append_rows_def lab_db_def
        station_of_def lab_request_def new_request_row_def sql_int0_def demo_five Let_def)
  then obtain l db' where "selectPending run_forensic 3 [] lab_db = (OK, l, db')"
    by (cases "selectPending run_forensic 3 [] lab_db") auto
  moreover have "getConnection (us_held_update (\<lambda>h. True) (am_ipc lab_am)) = Some lab_db"
    by (simp add: lab_am_def getConnection_def)
  ultimately show ?thesis
    by (simp add: getPendingRequests_def gate_defs authAndConn_valid [OF h lab_valid(1)] with_out_def)
qed

text \<open>C23 The first forensic operation of a valid session is the last one the process completes. A writing
  operation waits for a mutex its own thread holds unless the duty of the officer is in the cache; an
  operation that returns leaves the mutex locked, and every forensic operation and every query of the
  process after it waits forever.\<close>

theorem forensic_deadlocks:
  assumes "\<not> us_held (am_ipc am)" and "us_conn (am_ipc am) \<noteq> None"
    and "validateToken now token empty_session am = (OK, ctx)"
  shows "(writes call \<and> map_of (am_duty_cache am) (sc_officerId ctx) = None \<longrightarrow>
      forensic_member lib pq freed now (Some token) call am = Inl BlocksForever)
    \<and> (\<forall>r am'. forensic_member lib pq freed now (Some token) call am = Inr (r, am') \<longrightarrow>
         (\<forall>now2 token2 call2. forensic_member lib pq freed now2 token2 call2 am' = Inl BlocksForever)
       \<and> (\<forall>query. executeQuery lib query (am_ipc am') = Inl BlocksForever))"
proof (intro conjI impI allI)
  fix r am' now2 token2 call2 query
  assume "forensic_member lib pq freed now (Some token) call am = Inr (r, am')"
  then have held: "us_held (am_ipc am')" by (rule member_locks [OF assms])
  show "forensic_member lib pq freed now2 token2 call2 am' = Inl BlocksForever" using held by (rule member_held)
  show "executeQuery lib query (am_ipc am') = Inl BlocksForever"
    using held by (simp add: executeQuery_def execute_held)
qed (use member_cold_duty [OF assms] in blast)

theorem forensic_deadlocks_witness:
  "\<exists>r am'. forensic_member lab_lib run_forensic Inr 2000 (Some ''tok'') (PendingRequests 3 []) lab_am = Inr (r, am')
     \<and> fst r = OK \<and> executeQuery lab_lib ''SELECT 1'' (am_ipc am') = Inl BlocksForever
     \<and> forensic_member lab_lib run_forensic Inr 2000 (Some ''tok'') (ExaminationStart 1) lab_am = Inl BlocksForever"
proof -
  have h: "\<not> us_held (am_ipc lab_am)" "us_conn (am_ipc lab_am) \<noteq> None" by (simp_all add: lab_am_def)
  from lab_pending_returns obtain r am' where r: "forensic_member lab_lib run_forensic Inr 2000 (Some ''tok'') (PendingRequests 3 []) lab_am
      = Inr (r, am')" "fst r = OK" by blast
  have "executeQuery lab_lib ''SELECT 1'' (am_ipc am') = Inl BlocksForever"
    using forensic_deadlocks [OF h lab_valid(1), of "PendingRequests 3 []" lab_lib run_forensic Inr] r by blast
  moreover have "forensic_member lab_lib run_forensic Inr 2000 (Some ''tok'') (ExaminationStart 1) lab_am
      = Inl BlocksForever"
    using forensic_deadlocks [OF h lab_valid(1), of "ExaminationStart 1" lab_lib run_forensic Inr]
    by (simp add: lab_am_def del: forensic_member.simps)
  ultimately show ?thesis using r by blast
qed

text \<open>No forensic request is ever created and no report is ever amended: an officer whose duty is
  known is told that the rank is insufficient, whatever the rank is, without a statement to the
  database, and the mutex stays locked.\<close>

theorem inspector_operations_dead:
  assumes "\<not> us_held (am_ipc am)" and "us_conn (am_ipc am) \<noteq> None"
    and "validateToken now token empty_session am = (OK, ctx)"
    and "map_of (am_duty_cache am) (sc_officerId ctx) = Some e" and "de_is_active e"
    and "now - de_cached_at e < TTL_SECONDS"
  shows "createForensicRequest lib pq now (Some token) c p d l x out am
       = Inr ((RANK_INSUFFICIENT, out), am\<lparr>am_ipc := (am_ipc am)\<lparr>us_held := True\<rparr>\<rparr>)
    \<and> recordAmendment lib pq now (Some token) i findings am
       = Inr ((RANK_INSUFFICIENT, ()), am\<lparr>am_ipc := (am_ipc am)\<lparr>us_held := True\<rparr>\<rparr>)"
  using assms(4-6)
  by (simp add: createForensicRequest_def recordAmendment_def gate_defs authAndConn_valid [OF assms(1-3)]
      duty_under_lock)

theorem inspector_operations_dead_witness:
  "\<exists>am. sc_rank lab_session = INSPECTOR \<and> validateToken 2000 ''tok'' empty_session am = (OK, lab_session)
     \<and> createForensicRequest lab_lib run_forensic 2000 (Some ''tok'') 5 (Some ''OTHER'') (Some ''blade'')
         (Some ''PFSA'') (Some ''Khan'') 0 am
       = Inr ((RANK_INSUFFICIENT, 0), am\<lparr>am_ipc := (am_ipc am)\<lparr>us_held := True\<rparr>\<rparr>)"
proof -
  define e where "e = \<lparr>de_is_active = True, de_cached_at = 1900, de_status = ''ON_DUTY''\<rparr>"
  define am where "am = lab_am\<lparr>am_duty_cache := [(7, e)]\<rparr>"
  have "\<not> us_held (am_ipc am)" "us_conn (am_ipc am) \<noteq> None"
    and v: "validateToken 2000 ''tok'' empty_session am = (OK, lab_session)"
    and "map_of (am_duty_cache am) (sc_officerId lab_session) = Some e" "de_is_active e"
    "2000 - de_cached_at e < TTL_SECONDS"
    by (simp_all add: am_def e_def lab_am_def lab_session_def TTL_SECONDS_def lab_valid)
      (simp add: validateToken_def store_validate_def store_isExpired_def)
  from inspector_operations_dead [OF this, THEN conjunct1] v show ?thesis
    by (intro exI [of _ am]) (simp add: lab_session_def)
qed

lemma lab_edges_final: "(s, t) \<in> set lab_edges \<Longrightarrow> s \<noteq> ''REPORT_READY'' \<and> s \<noteq> ''CONTESTED''"
  by (auto simp: lab_edges_def)

lemma lab_move_keeps:
  assumes "lab_move v w" "v k = Some s" "s = ''REPORT_READY'' \<or> s = ''CONTESTED''"
  shows "w k = Some s"
  using assms(1)
proof (rule lab_moveE)
  fix k' s' t
  assume w: "w = v(k' \<mapsto> t)" and v: "v k' = Some s'" and e: "(s', t) \<in> set lab_edges"
  have "k \<noteq> k'" using lab_edges_final [OF e] v assms(2,3) by auto
  then show ?thesis using w assms(2) by simp
qed (use assms(2) in auto)

lemma lab_moves_keep:
  "lab_move\<^sup>*\<^sup>* v w \<Longrightarrow> v k = Some s \<Longrightarrow> s = ''REPORT_READY'' \<or> s = ''CONTESTED'' \<Longrightarrow> w k = Some s"
  by (induction rule: rtranclp_induct) (auto dest: lab_move_keeps)

lemma lab_edges_legal: "(s, t) \<in> set lab_edges \<Longrightarrow> (s, t) \<in> (set kEdges)\<^sup>+"
proof -
  have "(''UNDER_EXAMINATION'', ''REPORT_READY'') \<in> set kEdges" "(''REPORT_READY'', ''REPORT_DELIVERED'') \<in> set kEdges"
    by (simp_all add: kEdges_def)
  then have "(''UNDER_EXAMINATION'', ''REPORT_DELIVERED'') \<in> (set kEdges)\<^sup>+" by (rule trancl_into_trancl [OF r_into_trancl])
  moreover assume "(s, t) \<in> set lab_edges"
  then have "(s, t) \<in> set kEdges \<or> s = ''UNDER_EXAMINATION'' \<and> t = ''REPORT_DELIVERED''"
    by (auto simp: lab_edges_def kEdges_def)
  ultimately show ?thesis using r_into_trancl [of "(s, t)"] by blast
qed

text \<open>C20 The life of a forensic request: whatever operations run, in any order, by any officers and with
  any failures, a request moves along the edges of the manager's table, and evidence linked to it is of
  its case. A contested report is final, although the README of the subsystem lets it become ready again, amended;
  but so is a ready one: when the second statement of \<open>recordFindings\<close> fails, no operation delivers the report any
  more.\<close>

theorem requests_refined:
  assumes "good_lab db" and "lab_step\<^sup>*\<^sup>* db db'"
  shows "good_lab db' \<and> lab_move\<^sup>*\<^sup>* (status_of db) (status_of db')
    \<and> set lab_edges \<subseteq> (set kEdges)\<^sup>+
    \<and> (\<forall>i s. status_of db i = Some s \<and> (s = ''REPORT_READY'' \<or> s = ''CONTESTED'') \<longrightarrow> status_of db' i = Some s)"
proof -
  from lab.runs [OF assms(2,1)] have r: "good_lab db'" "lab_move\<^sup>*\<^sup>* (status_of db) (status_of db')" by simp_all
  moreover have "set lab_edges \<subseteq> (set kEdges)\<^sup>+" using lab_edges_legal by auto
  ultimately show ?thesis using lab_moves_keep [OF r(2)] by simp
qed

lemma good_lab_db: "good_lab lab_db"
  by (simp add: good_lab_def lab_db_def wf_map_def)

lemma demo_date: "parseDate (Some ''1970-01-02'') = 86400"
  by (simp add: parseDate_def NUL_def strptime_date_def get_number_def expect_char_def is_digit_def is_space_def
      digit_value_def timegm_date_def timegm_def days_before_year_def days_before_month_def)

theorem requests_refined_witness:
  "\<exists>db'. receipt_body run_forensic 900000000 1 (Some ''1970-01-02'') lab_db = (OK, db') \<and> good_lab db'
     \<and> status_of lab_db 1 = Some ''REQUESTED'' \<and> status_of db' 1 = Some ''RECEIVED_BY_LAB''"
proof -
  have "\<exists>db'. receipt_body run_forensic 900000000 1 (Some ''1970-01-02'') lab_db = (OK, db')
    \<and> status_of db' 1 = Some ''RECEIVED_BY_LAB''"
    by (simp add: receipt_body_def demo_date NUL_def fetchCurrentStatus_def run_forensic_def lab_db_def
        f_current_status_def selected_def lab_request_def new_request_row_def scopy_status legal_edge_iff
        updateReceivedDate_def command_def f_received_date_def on_request_def updateStatus_def
        f_update_status_def cell_def count_where_def update_where_def status_of_def Let_def)
  then obtain db' where r: "receipt_body run_forensic 900000000 1 (Some ''1970-01-02'') lab_db = (OK, db')"
    and s: "status_of db' 1 = Some ''RECEIVED_BY_LAB''" by blast
  have "status_of lab_db 1 = Some ''REQUESTED''" by (simp add: status_of_def lab_db_def lab_request_def new_request_row_def)
  moreover have "lab_step\<^sup>*\<^sup>* lab_db db'" using lab_receipt [OF r] by blast
  ultimately show ?thesis using requests_refined [OF good_lab_db, of db'] r s by blast
qed

definition link_decision :: "forensic_db \<Rightarrow> int \<Rightarrow> int \<Rightarrow> result_code" where
  "link_decision db i e =
     (case map_of (fd_requests db) i of
        None \<Rightarrow> NOT_FOUND
      | Some q \<Rightarrow>
          if fq_status q \<noteq> ''REQUESTED'' \<and> fq_status q \<noteq> ''RECEIVED_BY_LAB'' then INVALID_STATE
          else case map_of (fd_evidence db) e of
                 None \<Rightarrow> NOT_FOUND
               | Some v \<Rightarrow>
                   if le_is_deleted v \<or> le_status v \<noteq> ''RECEIVED'' \<and> le_status v \<noteq> ''SEALED''
                      \<and> le_status v \<noteq> ''RETURNED_FROM_LAB''
                   then INVALID_STATE
                   else if le_case_id v \<noteq> fq_case_id q then INVALID_INPUT else OK)"

lemma run_forensic_live:
  "fd_fails db = (\<lambda>n. False) \<Longrightarrow>
   run_forensic db stmt ps = exec_forensic stmt ps (db\<lparr>fd_count := fd_count db + 1\<rparr>)"
  by (simp add: run_forensic_def)

lemma insert_link_live:
  assumes "fd_fails db = (\<lambda>n. False)" "map_of (fd_requests db) i \<noteq> None" "map_of (fd_evidence db) e \<noteq> None"
  shows "insertEvidenceLink run_forensic i e n db = (OK, let db1 = db\<lparr>fd_count := fd_count db + 1\<rparr> in
    if linked i e db then db1
    else on_evidence (\<lambda>k. k = e) ''SENT_TO_LAB'' (db1\<lparr>fd_links := fd_links db @ [(i, e, Some n, fd_now db)]\<rparr>))"
  using assms(2,3)
  by (auto simp: insertEvidenceLink_def run_forensic_live [OF assms(1)] f_insert_link_def command_def Let_def linked_def)

text \<open>Which evidence can be linked to a request: when the texts that are read after their result was
  freed are still there, the answer is decided by the request, the evidence and their cases alone; a new
  link sends the evidence to the lab, and every refusal leaves the tables as they were. Evidence linked
  before is linked again with success, but not sent again.\<close>

theorem linkEvidence_decides:
  assumes "good_lab db" and "fd_fails db = (\<lambda>n. False)"
  shows "\<exists>db'. link_body run_forensic Inr i e notes db = Inr (link_decision db i e, db')
    \<and> fd_requests db' = fd_requests db
    \<and> (if link_decision db i e = OK \<and> \<not> linked i e db
       then fd_links db' = fd_links db @ [(i, e, Some (case notes of None \<Rightarrow> [] | Some n \<Rightarrow> n), fd_now db)]
         \<and> fd_evidence db' = update_where (\<lambda>k r. k = e) (\<lambda>r. r\<lparr>le_status := ''SENT_TO_LAB''\<rparr>) (fd_evidence db)
       else fd_links db' = fd_links db \<and> fd_evidence db' = fd_evidence db)"
proof -
  have w: "wf_map (fd_requests db)" "wf_map (fd_evidence db)" using assms(1) by (simp_all add: good_lab_def)
  have f: "fetchCurrentStatus run_forensic i db = (case map_of (fd_requests db) i of
      None \<Rightarrow> (NOT_FOUND, [], 0, db\<lparr>fd_count := fd_count db + 1\<rparr>)
    | Some q \<Rightarrow> (OK, scopy 24 (fq_status q), epoch (time_cell (fq_received_by_lab_date q)),
                db\<lparr>fd_count := fd_count db + 1\<rparr>))"
    by (simp add: fetchCurrentStatus_def run_forensic_live [OF assms(2)] f_current_status_def selected_at [OF w(1)]
        split: option.split)
  show ?thesis
  proof (cases "map_of (fd_requests db) i")
    case None
    then show ?thesis by (simp add: link_body_def f link_decision_def)
  next
    case q: (Some q)
    show ?thesis
    proof (cases "map_of (fd_evidence db) e")
      case None
      then show ?thesis
        by (simp add: link_body_def f q link_decision_def scopy_status run_forensic_live assms(2) f_evidence_def
            selected_at w)
    next
      case v: (Some v)
      have same: "same_case_link run_forensic i e c notes db1 = (if c \<noteq> fq_case_id q
            then (INVALID_INPUT, db1\<lparr>fd_count := fd_count db1 + 1\<rparr>)
            else insertEvidenceLink run_forensic i e (case notes of None \<Rightarrow> [] | Some n \<Rightarrow> n)
              (db1\<lparr>fd_count := fd_count db1 + 1\<rparr>))"
        if "db1 = db\<lparr>fd_count := n\<rparr>" for c db1 n
        by (simp add: that same_case_link_def run_forensic_live assms(2) f_request_case_def selected_at w q text_simps)
      show ?thesis
        by (simp add: link_body_def f q v link_decision_def scopy_status run_forensic_live assms(2) f_evidence_def
            selected_at w text_simps same insert_link_live linked_def on_evidence_def Let_def)
    qed
  qed
qed

theorem linkEvidence_decides_witness:
  "\<exists>db'. link_body run_forensic Inr 1 9 None lab_db = Inr (OK, db') \<and> fd_links db' = [(1, 9, Some [], 1000)]"
proof -
  have d: "link_decision lab_db 1 9 = OK" "\<not> linked 1 9 lab_db" by code_simp+
  have "fd_fails lab_db = (\<lambda>n. False)" "fd_links lab_db = []" "fd_now lab_db = 1000" by (simp_all add: lab_db_def)
  with linkEvidence_decides [OF good_lab_db, of 1 9 None] d show ?thesis by auto
qed

end
