(* ===== verification/Audit_Log.thy ===== *)
theory Audit_Log
  imports Enforcement_Db
begin

text \<open>
  What the five statements of \<open>audit_query.cpp\<close> select: the audit log as \<open>audit_query.h\<close> describes it,
  the tables the statements join it with, and each WHERE clause and ORDER BY. A time is a number of
  whole seconds since 1970 and not negative; the truncation to the hour is that of a whole-hour time
  zone. The rows of one statement that tie in the order stand as they do in the table.
\<close>

section \<open>The log and the tables it is joined with\<close>

record audit_entry =
  ae_log_id :: int
  ae_table_name :: string
  ae_record_pk :: int
  ae_operation :: string
  ae_officer_id :: "int option"
  ae_belt_number :: cstr
  ae_backend_pid :: int
  ae_client_addr :: cstr
  ae_old_values :: cstr
  ae_new_values :: cstr
  ae_changed_at :: int

text \<open>The key of a row and the column the statements look at.\<close>

type_synonym id_table = "(int \<times> int) list"

record audit_db =
  al_log :: "audit_entry list"
  al_officers :: id_table       \<comment> \<open>station of an officer\<close>
  al_cases :: id_table          \<comment> \<open>station of a case\<close>
  al_evidence :: id_table       \<comment> \<open>case of a piece of evidence\<close>
  al_warrants :: id_table       \<comment> \<open>case of a warrant\<close>
  al_arrests :: id_table        \<comment> \<open>case of an arrest\<close>
  al_bail_records :: id_table   \<comment> \<open>arrest of a bail\<close>
  al_charge_sheets :: id_table  \<comment> \<open>case of a charge sheet\<close>
  al_accused :: id_table        \<comment> \<open>case of an accused\<close>

definition refers :: "id_table \<Rightarrow> int \<Rightarrow> int \<Rightarrow> bool" where
  "refers t k v \<longleftrightarrow> map_of t k = Some v"

section \<open>The statements\<close>

definition entry_of_case :: "audit_db \<Rightarrow> int \<Rightarrow> audit_entry \<Rightarrow> bool" where
  "entry_of_case db c e \<longleftrightarrow>
     (let t = ae_table_name e; k = ae_record_pk e in
        t = ''CASES'' \<and> k = c
      \<or> t = ''EVIDENCE'' \<and> refers (al_evidence db) k c
      \<or> t = ''WARRANTS'' \<and> refers (al_warrants db) k c
      \<or> t = ''ARRESTS'' \<and> refers (al_arrests db) k c
      \<or> t = ''BAIL_RECORDS'' \<and> (case map_of (al_bail_records db) k of
            None \<Rightarrow> False | Some a \<Rightarrow> refers (al_arrests db) a c)
      \<or> t = ''CHARGE_SHEETS'' \<and> refers (al_charge_sheets db) k c
      \<or> t = ''ACCUSED'' \<and> refers (al_accused db) k c)"

definition newest_first :: "audit_entry list \<Rightarrow> audit_entry list" where
  "newest_first es = sort_key (\<lambda>e. - ae_changed_at e) es"

definition oldest_first :: "audit_entry list \<Rightarrow> audit_entry list" where
  "oldest_first es = sort_key ae_changed_at es"

definition case_history :: "audit_db \<Rightarrow> int \<Rightarrow> audit_entry list" where
  "case_history db c = newest_first (filter (entry_of_case db c) (al_log db))"

definition officer_actions :: "audit_db \<Rightarrow> int \<Rightarrow> int \<Rightarrow> int \<Rightarrow> audit_entry list" where
  "officer_actions db officer from to =
     newest_first (filter (\<lambda>e. ae_officer_id e = Some officer \<and> from \<le> ae_changed_at e \<and> ae_changed_at e \<le> to)
       (al_log db))"

definition table_changes :: "audit_db \<Rightarrow> cstr \<Rightarrow> int \<Rightarrow> audit_entry list" where
  "table_changes db table k =
     oldest_first (filter (\<lambda>e. table = Some (ae_table_name e) \<and> ae_record_pk e = k) (al_log db))"

definition time_window :: "audit_db \<Rightarrow> int \<Rightarrow> int \<Rightarrow> audit_entry list" where
  "time_window db from to = newest_first (filter (\<lambda>e. from \<le> ae_changed_at e \<and> ae_changed_at e \<le> to) (al_log db))"

section \<open>Suspicious activity\<close>

definition recent :: "int \<Rightarrow> audit_entry \<Rightarrow> bool" where
  "recent now e \<longleftrightarrow> now - 24 * 3600 \<le> ae_changed_at e"

definition by_officer_of :: "audit_db \<Rightarrow> int \<Rightarrow> audit_entry \<Rightarrow> bool" where
  "by_officer_of db station e \<longleftrightarrow>
     (case ae_officer_id e of None \<Rightarrow> False | Some officer \<Rightarrow> refers (al_officers db) officer station)"

text \<open>\<open>GROUP BY\<close> and \<open>HAVING COUNT(*) >= n\<close>: some group of the rows has \<open>n\<close> members or more.\<close>

definition some_group :: "nat \<Rightarrow> ('a \<Rightarrow> int) \<Rightarrow> 'a list \<Rightarrow> bool" where
  "some_group n f es \<longleftrightarrow> list_ex (\<lambda>e. n \<le> length (filter (\<lambda>x. f x = f e) es)) es"

definition bulk_change :: "audit_db \<Rightarrow> int \<Rightarrow> int \<Rightarrow> audit_entry \<Rightarrow> bool" where
  "bulk_change db now station e \<longleftrightarrow>
     recent now e \<and> by_officer_of db station e
     \<and> some_group 21 (\<lambda>x. ae_changed_at x div 3600)
         (filter (\<lambda>x. recent now x \<and> by_officer_of db station x \<and> ae_backend_pid x = ae_backend_pid e) (al_log db))"

text \<open>The deletions that count for an officer.\<close>

definition deletions :: "audit_db \<Rightarrow> int \<Rightarrow> int \<Rightarrow> int option \<Rightarrow> audit_entry list" where
  "deletions db now station officer =
     filter (\<lambda>x. ae_operation x = ''DELETE'' \<and> recent now x \<and> by_officer_of db station x \<and> ae_officer_id x = officer)
       (al_log db)"

definition rapid_delete :: "audit_db \<Rightarrow> int \<Rightarrow> int \<Rightarrow> audit_entry \<Rightarrow> bool" where
  "rapid_delete db now station e \<longleftrightarrow>
     recent now e \<and> ae_operation e = ''DELETE'' \<and> by_officer_of db station e
     \<and> some_group 5 (\<lambda>x. ae_changed_at x div 300) (deletions db now station (ae_officer_id e))"

definition hour_of_day :: "int \<Rightarrow> int" where
  "hour_of_day t = t mod (24 * 3600) div 3600"

definition after_hours :: "audit_db \<Rightarrow> int \<Rightarrow> int \<Rightarrow> audit_entry \<Rightarrow> bool" where
  "after_hours db now station e \<longleftrightarrow>
     recent now e \<and> by_officer_of db station e
     \<and> (hour_of_day (ae_changed_at e) < 6 \<or> 22 \<le> hour_of_day (ae_changed_at e))"

definition by_stranger :: "audit_db \<Rightarrow> int \<Rightarrow> audit_entry \<Rightarrow> bool" where
  "by_stranger db station e \<longleftrightarrow>
     (case ae_officer_id e of None \<Rightarrow> False
      | Some officer \<Rightarrow> (case map_of (al_officers db) officer of None \<Rightarrow> False | Some s \<Rightarrow> s \<noteq> station))"

definition jurisdiction_violation :: "audit_db \<Rightarrow> int \<Rightarrow> int \<Rightarrow> audit_entry \<Rightarrow> bool" where
  "jurisdiction_violation db now station e \<longleftrightarrow>
     recent now e \<and> by_stranger db station e
     \<and> (ae_table_name e = ''CASES'' \<and> refers (al_cases db) (ae_record_pk e) station
      \<or> ae_table_name e = ''EVIDENCE'' \<and> (case map_of (al_evidence db) (ae_record_pk e) of
            None \<Rightarrow> False | Some c \<Rightarrow> refers (al_cases db) c station))"

definition suspicious :: "audit_db \<Rightarrow> int \<Rightarrow> int \<Rightarrow> audit_entry list" where
  "suspicious db now station =
     newest_first
      (filter (bulk_change db now station) (al_log db)
       @ filter (rapid_delete db now station) (al_log db)
       @ filter (after_hours db now station) (al_log db)
       @ filter (jurisdiction_violation db now station) (al_log db))"

section \<open>The server\<close>

datatype audit_sql = SQL_CASE_HISTORY | SQL_OFFICER_ACTIONS | SQL_TABLE_CHANGES | SQL_TIME_WINDOW | SQL_SUSPICIOUS

text \<open>The columns of every SELECT, in the order of \<open>SELECT_COLS\<close>.\<close>

definition audit_cells :: "audit_entry \<Rightarrow> string list" where
  "audit_cells e =
     [show_int (ae_log_id e), ae_table_name e, show_int (ae_record_pk e), ae_operation e,
      (case ae_officer_id e of None \<Rightarrow> [] | Some officer \<Rightarrow> show_int officer), cell (ae_belt_number e),
      show_int (ae_backend_pid e), cell (ae_client_addr e), cell (ae_old_values e), cell (ae_new_values e),
      show_int (ae_changed_at e)]"

fun audit_select :: "int \<Rightarrow> audit_db \<Rightarrow> audit_sql \<Rightarrow> cstr list \<Rightarrow> audit_entry list" where
  "audit_select now db SQL_CASE_HISTORY ps = case_history db (sql_int0 (ps ! 0))"
| "audit_select now db SQL_OFFICER_ACTIONS ps =
     officer_actions db (sql_int0 (ps ! 0)) (sql_int0 (ps ! 1)) (sql_int0 (ps ! 2))"
| "audit_select now db SQL_TABLE_CHANGES ps = table_changes db (ps ! 0) (sql_int0 (ps ! 1))"
| "audit_select now db SQL_TIME_WINDOW ps = time_window db (sql_int0 (ps ! 0)) (sql_int0 (ps ! 1))"
| "audit_select now db SQL_SUSPICIOUS ps = suspicious db now (sql_int0 (ps ! 0))"

section \<open>Windows and buckets\<close>

text \<open>
  A group is a bucket of the clock, not a window: \<open>n\<close> rows within a window may fall into two buckets, and
  one of these has at least half of them.
\<close>

lemma some_group_mem: "some_group n f es \<longleftrightarrow> (\<exists>e \<in> set es. n \<le> length (filter (\<lambda>x. f x = f e) es))"
  by (simp add: some_group_def list_ex_iff)

lemma some_groupI:
  assumes "n \<le> length (filter (\<lambda>x. f x = b) es)" "0 < n"
  shows "some_group n f es"
proof -
  from assms have "filter (\<lambda>x. f x = b) es \<noteq> []" by auto
  then obtain e where "e \<in> set es" "f e = b" by (metis (mono_tags, lifting) filter_empty_conv)
  with assms(1) show ?thesis unfolding some_group_mem by blast
qed

lemma bucket_window:
  fixes t u w :: int
  assumes "0 < w" "t \<le> u" "u < t + w"
  shows "u div w = t div w \<or> u div w = t div w + 1"
proof -
  have "t div w \<le> u div w" using assms by (simp add: zdiv_mono1)
  moreover have "u div w \<le> (t + w) div w" using assms by (simp add: zdiv_mono1)
  moreover have "(t + w) div w = t div w + 1" using div_add_self2 [of w t] assms(1) by simp
  ultimately show ?thesis by linarith
qed

lemma length_filter_or:
  "length (filter (\<lambda>x. P x \<or> Q x) xs) \<le> length (filter P xs) + length (filter Q xs)"
  by (induction xs) auto

lemma length_filter_mono:
  "(\<And>x. x \<in> set xs \<Longrightarrow> P x \<Longrightarrow> Q x) \<Longrightarrow> length (filter P xs) \<le> length (filter Q xs)"
  by (induction xs) auto

lemma window_has_group:
  assumes w: "(0::int) < w" and n: "0 < n" and "2 * n - 1 \<le> length (filter (\<lambda>x. t \<le> f x \<and> f x < t + w) es)"
  shows "some_group n (\<lambda>x. f x div w) es"
proof -
  let ?in = "\<lambda>b. filter (\<lambda>x. f x div w = b) es"
  have "length (filter (\<lambda>x. t \<le> f x \<and> f x < t + w) es)
      \<le> length (filter (\<lambda>x. f x div w = t div w \<or> f x div w = t div w + 1) es)"
    using bucket_window [OF w] by (intro length_filter_mono) blast
  also have "\<dots> \<le> length (?in (t div w)) + length (?in (t div w + 1))"
    by (rule length_filter_or)
  finally have "n \<le> length (?in (t div w)) \<or> n \<le> length (?in (t div w + 1))" using assms(3) n by linarith
  then show ?thesis by (elim disjE) (rule some_groupI [OF _ n], assumption)+
qed

lemma group_in_window:
  assumes w: "(0::int) < w" and "some_group n (\<lambda>x. f x div w) es"
  shows "\<exists>t. n \<le> length (filter (\<lambda>x. t \<le> f x \<and> f x < t + w) es)"
proof -
  from assms(2) obtain e where "n \<le> length (filter (\<lambda>x. f x div w = f e div w) es)"
    unfolding some_group_mem by blast
  also have "\<dots> \<le> length (filter (\<lambda>x. w * (f e div w) \<le> f x \<and> f x < w * (f e div w) + w) es)"
  proof (rule length_filter_mono)
    fix x assume "f x div w = f e div w"
    with mult_div_mod_eq [of w "f x"] have "w * (f e div w) + f x mod w = f x" by simp
    then show "w * (f e div w) \<le> f x \<and> f x < w * (f e div w) + w"
      using w pos_mod_bound [OF w, of "f x"] pos_mod_sign [OF w, of "f x"] by linarith
  qed
  finally show ?thesis by blast
qed

end
