(* ===== verification/Personnel.thy ===== *)
theory Personnel
  imports System_Manager
begin

text \<open>
  Subsystem 1, duties and personnel (\<open>src/system/subsystem1/subsystem1.cpp\<close>): every operation, the
  report factory, and the layers above it in \<open>system.cpp\<close>: the helpers of section 1, the adapter and
  the facades of sections 7 and 8. The operations build their SQL text and send it through
  \<open>IpcManager::executeQuery\<close>, which is the parameter \<open>exec\<close>; the connection they are given is not used.
  A list is what the operation appends to the vector it is given.
\<close>

section \<open>Data\<close>

datatype shift_type = MORNING | AFTERNOON | NIGHT | SPLIT | ON_CALL

datatype duty_status = DUTY_SCHEDULED | DUTY_ON_DUTY | DUTY_COMPLETED | DUTY_ABSENT | DUTY_ON_LEAVE | DUTY_SUSPENDED

datatype officer_status = OFFICER_ACTIVE | OFFICER_SUSPENDED | OFFICER_ON_LEAVE | OFFICER_RETIRED | OFFICER_TERMINATED

datatype report_type = DAILY_SUMMARY | CHAIN_OF_CUSTODY | CASE_HISTORY

primrec shift_value :: "shift_type \<Rightarrow> int" where
  "shift_value MORNING = 0" | "shift_value AFTERNOON = 1" | "shift_value NIGHT = 2"
| "shift_value SPLIT = 3" | "shift_value ON_CALL = 4"

primrec duty_status_value :: "duty_status \<Rightarrow> int" where
  "duty_status_value DUTY_SCHEDULED = 0" | "duty_status_value DUTY_ON_DUTY = 1"
| "duty_status_value DUTY_COMPLETED = 2" | "duty_status_value DUTY_ABSENT = 3"
| "duty_status_value DUTY_ON_LEAVE = 4" | "duty_status_value DUTY_SUSPENDED = 5"

primrec officer_status_value :: "officer_status \<Rightarrow> int" where
  "officer_status_value OFFICER_ACTIVE = 0" | "officer_status_value OFFICER_SUSPENDED = 1"
| "officer_status_value OFFICER_ON_LEAVE = 2" | "officer_status_value OFFICER_RETIRED = 3"
| "officer_status_value OFFICER_TERMINATED = 4"

text \<open>The fields that the operations set; a rank or status is the number that is cast to it.\<close>

record officer_out =
  of_officerId :: int
  of_beltNumber :: string
  of_cnic :: string
  of_currentRank :: int
  of_status :: int

record duty_out =
  du_duty_id :: int
  du_officer_id :: int

record route_out =
  rt_route_id :: int
  rt_station_id :: int
  rt_beat_code :: string
  rt_route_name :: string

record history_out =
  hi_history_id :: int
  hi_officer_id :: int

record deployment_out =
  dp_deployment_id :: int
  dp_officer_id :: int
  dp_from_station_id :: int

section \<open>What the operations share\<close>

text \<open>An UPDATE or a DELETE: its result code is the answer; the number of rows is not looked at.\<close>

definition update_op ::
  "'s query_fun \<Rightarrow> session_context \<Rightarrow> string run \<Rightarrow> 's
     \<Rightarrow> (bool \<times> result_code \<times> 's) run" where
  "update_op exec session sql s =
     (if \<not> sc_isValid session then Inr (False, AUTH_FAILED, s)
      else and_then sql (\<lambda>sql. and_then (exec sql s) (\<lambda>(rc, rows, s). Inr (rc = OK, rc, s))))"

definition stoi_or_throw :: "string \<Rightarrow> int run" where
  "stoi_or_throw t = or_throw (stoi t)"

text \<open>An INSERT with \<open>RETURNING\<close>: \<open>results[0][0]\<close> is the new number.\<close>

definition insert_op ::
  "'s query_fun \<Rightarrow> session_context \<Rightarrow> string run \<Rightarrow> int \<Rightarrow> 's
     \<Rightarrow> (bool \<times> int \<times> result_code \<times> 's) run" where
  "insert_op exec session sql out s =
     (if \<not> sc_isValid session then Inr (False, out, AUTH_FAILED, s)
      else and_then sql (\<lambda>sql. and_then (exec sql s) (\<lambda>(rc, rows, s).
        if rc \<noteq> OK \<or> rows = [] then Inr (False, out, rc, s)
        else and_then (at_index (rows ! 0) 0) (\<lambda>t. and_then (stoi_or_throw t) (\<lambda>i. Inr (True, i, OK, s))))))"

text \<open>A SELECT: the rows that are wide enough, each read by \<open>f\<close>, appended to \<open>out\<close>.\<close>

fun read_rows :: "nat \<Rightarrow> (string list \<Rightarrow> 'r run) \<Rightarrow> string list list
       \<Rightarrow> 'r list run" where
  "read_rows n f [] = Inr []"
| "read_rows n f (row # rows) =
     (if length row < n then read_rows n f rows
      else and_then (f row) (\<lambda>r. and_then (read_rows n f rows) (\<lambda>rs. Inr (r # rs))))"

definition list_op ::
  "'s query_fun \<Rightarrow> string \<Rightarrow> nat
     \<Rightarrow> (string list \<Rightarrow> 'r run) \<Rightarrow> 'r list \<Rightarrow> 's
     \<Rightarrow> (result_code \<times> 'r list \<times> 's) run" where
  "list_op exec sql n f out s =
     and_then (exec sql s) (\<lambda>(rc, rows, s).
       if rc \<noteq> OK then Inr (rc, out, s)
       else and_then (read_rows n f rows) (\<lambda>rs. Inr (rc, out @ rs, s)))"

definition read_duty :: "string list \<Rightarrow> duty_out run" where
  "read_duty row =
     and_then (stoi_or_throw (row ! 0)) (\<lambda>d. and_then (stoi_or_throw (row ! 1)) (\<lambda>i.
       Inr \<lparr>du_duty_id = d, du_officer_id = i\<rparr>))"

definition read_officer :: "string list \<Rightarrow> officer_out run" where
  "read_officer row =
     and_then (at_index row 0) (\<lambda>t0. and_then (stoi_or_throw t0) (\<lambda>i.
     and_then (at_index row 1) (\<lambda>belt.
     and_then (at_index row 2) (\<lambda>cnic.
     and_then (at_index row 3) (\<lambda>t3. and_then (stoi_or_throw t3) (\<lambda>rank.
     and_then (at_index row 4) (\<lambda>t4. and_then (stoi_or_throw t4) (\<lambda>status.
       Inr \<lparr>of_officerId = i, of_beltNumber = belt, of_cnic = cnic, of_currentRank = rank,
            of_status = status\<rparr>))))))))"

definition one_officer ::
  "'s query_fun \<Rightarrow> string \<Rightarrow> officer_out \<Rightarrow> 's
     \<Rightarrow> (result_code \<times> officer_out \<times> 's) run" where
  "one_officer exec sql out s =
     and_then (exec sql s) (\<lambda>(rc, rows, s).
       if rc \<noteq> OK \<or> rows = [] then Inr (NOT_FOUND, out, s)
       else and_then (read_officer (rows ! 0)) (\<lambda>r. Inr (rc, r, s)))"

section \<open>Duties and routes\<close>

definition schedule_sql :: "int \<Rightarrow> int \<Rightarrow> int \<Rightarrow> shift_type \<Rightarrow> cstr
       \<Rightarrow> int \<Rightarrow> int \<Rightarrow> string run" where
  "schedule_sql officer station route shift date from to =
     and_then (to_string date) (\<lambda>date. Inr
       (''INSERT INTO duty_roster (officer_id, station_id, patrol_route_id, shift_type, duty_date, scheduled_start, scheduled_end, status) VALUES (''
        @ show_int officer @ '', '' @ show_int station @ '', '' @ show_int route @ '', ''
       @ sql_quote (show_int (shift_value shift)) @ '', '' @ sql_quote date @ '', to_timestamp('' @ show_int from
        @ ''), to_timestamp('' @ show_int to @ ''), '' @ sql_quote ''SCHEDULED'' @ '') RETURNING duty_id;''))"

definition scheduleDuty ::
  "'s query_fun \<Rightarrow> session_context \<Rightarrow> int \<Rightarrow> int \<Rightarrow> int
       \<Rightarrow> shift_type \<Rightarrow> cstr \<Rightarrow> int \<Rightarrow> int \<Rightarrow> int \<Rightarrow> 's
     \<Rightarrow> (bool \<times> int \<times> result_code \<times> 's) run" where
  "scheduleDuty exec session officer station route shift date from to out =
     insert_op exec session (schedule_sql officer station route shift date from to) out"

definition markDutyStart :: "'s query_fun \<Rightarrow> session_context \<Rightarrow> int \<Rightarrow> 's
       \<Rightarrow> (bool \<times> result_code \<times> 's) run" where
  "markDutyStart exec session duty =
     update_op exec session (Inr (''UPDATE duty_roster SET status='' @ sql_quote ''ON_DUTY''
       @ '', actual_start=now() WHERE duty_id=''
       @ show_int duty @ '' AND status='' @ sql_quote ''SCHEDULED'' @ '';''))"

definition markDutyEnd :: "'s query_fun \<Rightarrow> session_context \<Rightarrow> int \<Rightarrow> 's
       \<Rightarrow> (bool \<times> result_code \<times> 's) run" where
  "markDutyEnd exec session duty =
     update_op exec session (Inr (''UPDATE duty_roster SET status='' @ sql_quote ''COMPLETED''
       @ '', actual_end=now() WHERE duty_id=''
       @ show_int duty @ '' AND status='' @ sql_quote ''ON_DUTY'' @ '';''))"

definition duty_status_sql :: "int \<Rightarrow> duty_status \<Rightarrow> cstr \<Rightarrow> string" where
  "duty_status_sql duty st reason =
     ''UPDATE duty_roster SET status='' @ sql_quote (show_int (duty_status_value st)) @ '', absence_reason=''
       @ sql_quote (case reason of None \<Rightarrow> [] | Some r \<Rightarrow> r) @ '' WHERE duty_id=''
       @ show_int duty @ '';''"

definition updateDutyStatus ::
  "'s query_fun \<Rightarrow> session_context \<Rightarrow> int \<Rightarrow> duty_status \<Rightarrow> cstr \<Rightarrow> 's
     \<Rightarrow> (bool \<times> result_code \<times> 's) run" where
  "updateDutyStatus exec session duty st reason = update_op exec session (Inr (duty_status_sql duty st reason))"

definition cancelDuty :: "'s query_fun \<Rightarrow> session_context \<Rightarrow> int \<Rightarrow> 's
       \<Rightarrow> (bool \<times> result_code \<times> 's) run" where
  "cancelDuty exec session duty =
     update_op exec session (Inr (''DELETE FROM duty_roster WHERE duty_id='' @ show_int duty
       @ '' AND status='' @ sql_quote ''SCHEDULED'' @ '';''))"

definition duty_columns :: string where
  "duty_columns = ''SELECT duty_id, officer_id, status, duty_date FROM duty_roster WHERE ''"

definition getDutyRoster ::
  "'s query_fun \<Rightarrow> int \<Rightarrow> cstr \<Rightarrow> duty_out list \<Rightarrow> 's
     \<Rightarrow> (result_code \<times> duty_out list \<times> 's) run" where
  "getDutyRoster exec station date =
     list_op exec (duty_columns @ ''station_id='' @ show_int station
       @ (case date of None \<Rightarrow> [] | Some d \<Rightarrow> '' AND duty_date='' @ sql_quote d) @ '';'') 4 read_duty"

definition getActiveDuties ::
  "'s query_fun \<Rightarrow> int \<Rightarrow> duty_out list \<Rightarrow> 's
     \<Rightarrow> (result_code \<times> duty_out list \<times> 's) run" where
  "getActiveDuties exec station =
     list_op exec (duty_columns @ ''station_id='' @ show_int station @ '' AND status='' @ sql_quote ''ON_DUTY''
       @ '';'') 4 read_duty"

definition getOfficerDutyHistory ::
  "'s query_fun \<Rightarrow> int \<Rightarrow> int \<Rightarrow> int \<Rightarrow> duty_out list \<Rightarrow> 's
     \<Rightarrow> (result_code \<times> duty_out list \<times> 's) run" where
  "getOfficerDutyHistory exec officer from to =
     list_op exec (duty_columns @ ''officer_id='' @ show_int officer
       @ '' AND scheduled_start >= to_timestamp('' @ show_int from @ '')''
       @ '' AND scheduled_end <= to_timestamp('' @ show_int to @ '');'') 4 read_duty"

definition route_sql :: "int \<Rightarrow> cstr \<Rightarrow> cstr \<Rightarrow> cstr \<Rightarrow> string run" where
  "route_sql station beat name area =
     and_then (to_string beat) (\<lambda>beat. and_then (to_string name) (\<lambda>name. and_then (to_string area) (\<lambda>area. Inr
       (''INSERT INTO patrol_routes (station_id, beat_code, route_name, area_description, active) VALUES (''
        @ show_int station @ '', '' @ sql_quote beat @ '', '' @ sql_quote name @ '', '' @ sql_quote area
       @ '', TRUE) RETURNING route_id;''))))"

definition createPatrolRoute ::
  "'s query_fun \<Rightarrow> session_context \<Rightarrow> int \<Rightarrow> cstr \<Rightarrow> cstr
       \<Rightarrow> cstr \<Rightarrow> int \<Rightarrow> 's
     \<Rightarrow> (bool \<times> int \<times> result_code \<times> 's) run" where
  "createPatrolRoute exec session station beat name area out =
     insert_op exec session (route_sql station beat name area) out"

definition deactivatePatrolRoute :: "'s query_fun \<Rightarrow> session_context \<Rightarrow> int \<Rightarrow> 's
       \<Rightarrow> (bool \<times> result_code \<times> 's) run" where
  "deactivatePatrolRoute exec session route =
     update_op exec session (Inr (''UPDATE patrol_routes SET active=FALSE WHERE route_id='' @ show_int route @ '';''))"

definition read_route :: "string list \<Rightarrow> route_out run" where
  "read_route row =
     and_then (stoi_or_throw (row ! 0)) (\<lambda>i. and_then (stoi_or_throw (row ! 1)) (\<lambda>st.
       Inr \<lparr>rt_route_id = i, rt_station_id = st, rt_beat_code = row ! 2, rt_route_name = row ! 3\<rparr>))"

definition getPatrolRoutesByStation ::
  "'s query_fun \<Rightarrow> int \<Rightarrow> route_out list \<Rightarrow> 's
     \<Rightarrow> (result_code \<times> route_out list \<times> 's) run" where
  "getPatrolRoutesByStation exec station =
     list_op exec (''SELECT route_id, station_id, beat_code, route_name FROM patrol_routes WHERE station_id=''
       @ show_int station @ '' AND active=TRUE;'') 4 read_route"

section \<open>Officers\<close>

definition officer_columns :: string where
  "officer_columns = ''SELECT officer_id, belt_number, cnic, current_rank, status FROM officers WHERE ''"

definition getOfficerById ::
  "'s query_fun \<Rightarrow> int \<Rightarrow> officer_out \<Rightarrow> 's
     \<Rightarrow> (result_code \<times> officer_out \<times> 's) run" where
  "getOfficerById exec officer = one_officer exec (officer_columns @ ''officer_id='' @ show_int officer @ '';'')"

definition getOfficerByCnic ::
  "'s query_fun \<Rightarrow> cstr \<Rightarrow> officer_out \<Rightarrow> 's
     \<Rightarrow> (result_code \<times> officer_out \<times> 's) run" where
  "getOfficerByCnic exec cnic out s =
     and_then (to_string cnic) (\<lambda>cnic. one_officer exec (officer_columns @ ''cnic='' @ sql_quote cnic
       @ '';'') out s)"

definition getOfficersByStation ::
  "'s query_fun \<Rightarrow> int \<Rightarrow> officer_out list \<Rightarrow> 's
     \<Rightarrow> (result_code \<times> officer_out list \<times> 's) run" where
  "getOfficersByStation exec station =
     list_op exec (officer_columns @ ''station_id='' @ show_int station @ '';'') 5 read_officer"

definition getOfficersByStatus ::
  "'s query_fun \<Rightarrow> int \<Rightarrow> officer_status \<Rightarrow> officer_out list \<Rightarrow> 's
     \<Rightarrow> (result_code \<times> officer_out list \<times> 's) run" where
  "getOfficersByStatus exec station st =
     list_op exec (officer_columns @ ''station_id='' @ show_int station @ '' AND status=''
       @ show_int (officer_status_value st) @ '';'') 5 read_officer"

definition updateOfficerStatus ::
  "'s query_fun \<Rightarrow> session_context \<Rightarrow> int \<Rightarrow> officer_status \<Rightarrow> 's
     \<Rightarrow> (bool \<times> result_code \<times> 's) run" where
  "updateOfficerStatus exec session officer st =
     update_op exec session (Inr (''UPDATE officers SET status='' @ show_int (officer_status_value st)
       @ '' WHERE officer_id='' @ show_int officer @ '';''))"

definition promote_sql :: "int \<Rightarrow> officer_rank \<Rightarrow> cstr \<Rightarrow> cstr \<Rightarrow> cstr
       \<Rightarrow> cstr \<Rightarrow> string run" where
  "promote_sql officer rank belt ptype effective order =
     and_then (to_string belt) (\<lambda>belt. and_then (to_string ptype) (\<lambda>ptype.
     and_then (to_string effective) (\<lambda>effective. and_then (to_string order) (\<lambda>order. Inr
       (''INSERT INTO officer_rank_history (officer_id, new_rank, belt_number, promotion_type, effective_date, order_date) VALUES (''
        @ show_int officer @ '', '' @ show_int (rank_value rank) @ '', '' @ sql_quote belt @ '', '' @ sql_quote ptype
       @ '', '' @ sql_quote effective @ '', '' @ sql_quote order @ '') RETURNING history_id;'')))))"

definition promoteOfficer ::
  "'s query_fun \<Rightarrow> session_context \<Rightarrow> int \<Rightarrow> officer_rank \<Rightarrow> cstr
       \<Rightarrow> cstr \<Rightarrow> cstr \<Rightarrow> cstr \<Rightarrow> int \<Rightarrow> 's
     \<Rightarrow> (bool \<times> int \<times> result_code \<times> 's) run" where
  "promoteOfficer exec session officer rank belt ptype effective order out =
     insert_op exec session (promote_sql officer rank belt ptype effective order) out"

definition read_history :: "string list \<Rightarrow> history_out run" where
  "read_history row =
     and_then (stoi_or_throw (row ! 0)) (\<lambda>h. and_then (stoi_or_throw (row ! 1)) (\<lambda>i.
       Inr \<lparr>hi_history_id = h, hi_officer_id = i\<rparr>))"

definition getOfficerRankHistory ::
  "'s query_fun \<Rightarrow> int \<Rightarrow> history_out list \<Rightarrow> 's
     \<Rightarrow> (result_code \<times> history_out list \<times> 's) run" where
  "getOfficerRankHistory exec officer =
     list_op exec (''SELECT history_id, officer_id, new_rank, effective_date FROM officer_rank_history WHERE officer_id=''
       @ show_int officer @ '' ORDER BY effective_date DESC;'') 4 read_history"

definition deploy_sql :: "int \<Rightarrow> int \<Rightarrow> cstr \<Rightarrow> cstr \<Rightarrow> cstr
       \<Rightarrow> cstr \<Rightarrow> string run" where
  "deploy_sql officer station reason order from until =
     and_then (to_string reason) (\<lambda>reason. and_then (to_string order) (\<lambda>order.
     and_then (to_string from) (\<lambda>from. and_then (to_string until) (\<lambda>until. Inr
       (''INSERT INTO officer_deployments (officer_id, station_id, reason, order_number, deployed_from, deployed_until, active) VALUES (''
        @ show_int officer @ '', '' @ show_int station @ '', '' @ sql_quote reason @ '', '' @ sql_quote order
       @ '', '' @ sql_quote from @ '', '' @ sql_quote until @ '', TRUE) RETURNING deployment_id;'')))))"

definition deployOfficer ::
  "'s query_fun \<Rightarrow> session_context \<Rightarrow> int \<Rightarrow> int \<Rightarrow> cstr
       \<Rightarrow> cstr \<Rightarrow> cstr \<Rightarrow> cstr \<Rightarrow> int \<Rightarrow> 's
     \<Rightarrow> (bool \<times> int \<times> result_code \<times> 's) run" where
  "deployOfficer exec session officer station reason order from until out =
     insert_op exec session (deploy_sql officer station reason order from until) out"

definition endDeployment :: "'s query_fun \<Rightarrow> session_context \<Rightarrow> int \<Rightarrow> 's
       \<Rightarrow> (bool \<times> result_code \<times> 's) run" where
  "endDeployment exec session deployment =
     update_op exec session (Inr (''UPDATE officer_deployments SET active=FALSE WHERE deployment_id=''
       @ show_int deployment @ '';''))"

definition read_deployment :: "string list \<Rightarrow> deployment_out run" where
  "read_deployment row =
     and_then (stoi_or_throw (row ! 0)) (\<lambda>d. and_then (stoi_or_throw (row ! 1)) (\<lambda>i. and_then (stoi_or_throw (row ! 2)) (\<lambda>st.
       Inr \<lparr>dp_deployment_id = d, dp_officer_id = i, dp_from_station_id = st\<rparr>)))"

definition getOfficerDeployments ::
  "'s query_fun \<Rightarrow> int \<Rightarrow> bool \<Rightarrow> deployment_out list \<Rightarrow> 's
     \<Rightarrow> (result_code \<times> deployment_out list \<times> 's) run" where
  "getOfficerDeployments exec officer active_only =
     list_op exec (''SELECT deployment_id, officer_id, station_id FROM officer_deployments WHERE officer_id=''
       @ show_int officer @ (if active_only then '' AND active=TRUE'' else []) @ '';'') 3 read_deployment"

section \<open>Reports\<close>

text \<open>A report object does nothing but write a log line.\<close>

definition create_report :: "int \<Rightarrow> report_type option" where
  "create_report t = (if t = 0 then Some DAILY_SUMMARY else if t = 1 then Some CHAIN_OF_CUSTODY
     else if t = 2 then Some CASE_HISTORY else None)"

definition report_line :: "report_type \<Rightarrow> int \<Rightarrow> string" where
  "report_line r officer =
     (case r of
        DAILY_SUMMARY \<Rightarrow> ''[S1: ReportFactory] Generating Daily Summary for Officer ''
      | CHAIN_OF_CUSTODY \<Rightarrow> ''[S1: ReportFactory] Generating Chain of Custody log for Officer ''
      | CASE_HISTORY \<Rightarrow> ''[S1: ReportFactory] Generating historical case performance for Officer '')
     @ show_int officer"

definition generateOfficerReport :: "int \<Rightarrow> int \<Rightarrow> string list
       \<Rightarrow> result_code \<times> string \<times> string list" where
  "generateOfficerReport officer t lns =
     (case create_report t of
        None \<Rightarrow> (DB_ERROR, [], lns @ [''[S1: ReportFactory] Unknown report type requested.''])
      | Some r \<Rightarrow> (OK, ''Report generated (see logs for details)'', lns @ [report_line r officer]))"

definition request_officer_report :: "int \<Rightarrow> int \<Rightarrow> string list \<Rightarrow> string list" where
  "request_officer_report officer t lns =
     (let lns = lns @ [''[S1: OfficerMgr] Processing report request for Officer UID: '' @ show_int officer]
      in case create_report t of
           None \<Rightarrow> lns @ [''[S1: ReportFactory] Unknown report type requested.'', ''[S1: OfficerMgr] Failed to generate report.'']
         | Some r \<Rightarrow> lns @ [report_line r officer])"

section \<open>The adapter\<close>

text \<open>\<open>detail::adapt_bool\<close> and its kin: the operation gets a fresh value \<open>v0\<close>; what it leaves there is
  passed on only with success.\<close>

definition adapt_bool :: "'v \<Rightarrow> ('v \<Rightarrow> 's
       \<Rightarrow> (bool \<times> 'v \<times> result_code \<times> 's) run) \<Rightarrow> 's
       \<Rightarrow> ('v system_result \<times> 's) run" where
  "adapt_bool v0 fn s =
     and_then (fn v0 s) (\<lambda>(ok, v, rc, s). Inr (if ok then success v else failure v0 rc, s))"

definition adapt_bool_void :: "('s \<Rightarrow> (bool \<times> result_code \<times> 's) run) \<Rightarrow> 's
       \<Rightarrow> (unit system_result \<times> 's) run" where
  "adapt_bool_void fn s =
     and_then (fn s) (\<lambda>(ok, rc, s). Inr (if ok then success () else failure () rc, s))"

definition adapt_rc :: "'v \<Rightarrow> ('v \<Rightarrow> 's
       \<Rightarrow> (result_code \<times> 'v \<times> 's) run) \<Rightarrow> 's
       \<Rightarrow> ('v system_result \<times> 's) run" where
  "adapt_rc v0 fn s =
     and_then (fn v0 s) (\<lambda>(rc, v, s). Inr (if rc = OK then success v else failure v0 rc, s))"

definition adapt_rc_void :: "('s \<Rightarrow> (result_code \<times> 's) run) \<Rightarrow> 's
       \<Rightarrow> (unit system_result \<times> 's) run" where
  "adapt_rc_void fn s =
     and_then (fn s) (\<lambda>(rc, s). Inr (if rc = OK then success () else failure () rc, s))"

definition no_officer :: officer_out where
  "no_officer = \<lparr>of_officerId = 0, of_beltNumber = [], of_cnic = [], of_currentRank = 0, of_status = 0\<rparr>"

definition s1_scheduleDuty ::
  "'s query_fun \<Rightarrow> session_context \<Rightarrow> int \<Rightarrow> int \<Rightarrow> int
       \<Rightarrow> shift_type \<Rightarrow> cstr \<Rightarrow> int \<Rightarrow> int \<Rightarrow> 's
     \<Rightarrow> (int system_result \<times> 's) run" where
  "s1_scheduleDuty exec session officer station route shift date from to =
     adapt_bool 0 (scheduleDuty exec session officer station route shift date from to)"

definition s1_markDutyStart ::
  "'s query_fun \<Rightarrow> session_context \<Rightarrow> int \<Rightarrow> 's
     \<Rightarrow> (unit system_result \<times> 's) run" where
  "s1_markDutyStart exec session duty = adapt_bool_void (markDutyStart exec session duty)"

definition s1_markDutyEnd ::
  "'s query_fun \<Rightarrow> session_context \<Rightarrow> int \<Rightarrow> 's
     \<Rightarrow> (unit system_result \<times> 's) run" where
  "s1_markDutyEnd exec session duty = adapt_bool_void (markDutyEnd exec session duty)"

definition s1_updateDutyStatus ::
  "'s query_fun \<Rightarrow> session_context \<Rightarrow> int \<Rightarrow> duty_status \<Rightarrow> cstr \<Rightarrow> 's
     \<Rightarrow> (unit system_result \<times> 's) run" where
  "s1_updateDutyStatus exec session duty st reason = adapt_bool_void (updateDutyStatus exec session duty st reason)"

definition s1_cancelDuty ::
  "'s query_fun \<Rightarrow> session_context \<Rightarrow> int \<Rightarrow> 's
     \<Rightarrow> (unit system_result \<times> 's) run" where
  "s1_cancelDuty exec session duty = adapt_bool_void (cancelDuty exec session duty)"

definition s1_getDutyRoster ::
  "'s query_fun \<Rightarrow> int \<Rightarrow> cstr \<Rightarrow> 's
     \<Rightarrow> (duty_out list system_result \<times> 's) run" where
  "s1_getDutyRoster exec station date = adapt_rc [] (getDutyRoster exec station date)"

definition s1_getActiveDuties ::
  "'s query_fun \<Rightarrow> int \<Rightarrow> 's \<Rightarrow> (duty_out list system_result \<times> 's) run" where
  "s1_getActiveDuties exec station = adapt_rc [] (getActiveDuties exec station)"

definition s1_getOfficerDutyHistory ::
  "'s query_fun \<Rightarrow> int \<Rightarrow> int \<Rightarrow> int \<Rightarrow> 's
     \<Rightarrow> (duty_out list system_result \<times> 's) run" where
  "s1_getOfficerDutyHistory exec officer from to = adapt_rc [] (getOfficerDutyHistory exec officer from to)"

definition s1_createPatrolRoute ::
  "'s query_fun \<Rightarrow> session_context \<Rightarrow> int \<Rightarrow> cstr \<Rightarrow> cstr
       \<Rightarrow> cstr \<Rightarrow> 's
     \<Rightarrow> (int system_result \<times> 's) run" where
  "s1_createPatrolRoute exec session station beat name area =
     adapt_bool 0 (createPatrolRoute exec session station beat name area)"

definition s1_deactivatePatrolRoute ::
  "'s query_fun \<Rightarrow> session_context \<Rightarrow> int \<Rightarrow> 's
     \<Rightarrow> (unit system_result \<times> 's) run" where
  "s1_deactivatePatrolRoute exec session route = adapt_bool_void (deactivatePatrolRoute exec session route)"

definition s1_getPatrolRoutesByStation ::
  "'s query_fun \<Rightarrow> int \<Rightarrow> 's \<Rightarrow> (route_out list system_result \<times> 's) run" where
  "s1_getPatrolRoutesByStation exec station = adapt_rc [] (getPatrolRoutesByStation exec station)"

definition s1_getOfficerById ::
  "'s query_fun \<Rightarrow> int \<Rightarrow> 's \<Rightarrow> (officer_out system_result \<times> 's) run" where
  "s1_getOfficerById exec officer = adapt_rc no_officer (getOfficerById exec officer)"

definition s1_getOfficerByCnic ::
  "'s query_fun \<Rightarrow> cstr \<Rightarrow> 's \<Rightarrow> (officer_out system_result \<times> 's) run" where
  "s1_getOfficerByCnic exec cnic = adapt_rc no_officer (getOfficerByCnic exec cnic)"

definition s1_getOfficersByStation ::
  "'s query_fun \<Rightarrow> int \<Rightarrow> 's \<Rightarrow> (officer_out list system_result \<times> 's) run" where
  "s1_getOfficersByStation exec station = adapt_rc [] (getOfficersByStation exec station)"

definition s1_getOfficersByStatus ::
  "'s query_fun \<Rightarrow> int \<Rightarrow> officer_status \<Rightarrow> 's
     \<Rightarrow> (officer_out list system_result \<times> 's) run" where
  "s1_getOfficersByStatus exec station st = adapt_rc [] (getOfficersByStatus exec station st)"

definition s1_updateOfficerStatus ::
  "'s query_fun \<Rightarrow> session_context \<Rightarrow> int \<Rightarrow> officer_status \<Rightarrow> 's
     \<Rightarrow> (unit system_result \<times> 's) run" where
  "s1_updateOfficerStatus exec session officer st = adapt_bool_void (updateOfficerStatus exec session officer st)"

definition s1_promoteOfficer ::
  "'s query_fun \<Rightarrow> session_context \<Rightarrow> int \<Rightarrow> officer_rank \<Rightarrow> cstr
       \<Rightarrow> cstr \<Rightarrow> cstr \<Rightarrow> cstr \<Rightarrow> 's
     \<Rightarrow> (int system_result \<times> 's) run" where
  "s1_promoteOfficer exec session officer rank belt ptype effective order =
     adapt_bool 0 (promoteOfficer exec session officer rank belt ptype effective order)"

definition s1_getOfficerRankHistory ::
  "'s query_fun \<Rightarrow> int \<Rightarrow> 's \<Rightarrow> (history_out list system_result \<times> 's) run" where
  "s1_getOfficerRankHistory exec officer = adapt_rc [] (getOfficerRankHistory exec officer)"

definition s1_deployOfficer ::
  "'s query_fun \<Rightarrow> session_context \<Rightarrow> int \<Rightarrow> int \<Rightarrow> cstr
       \<Rightarrow> cstr \<Rightarrow> cstr \<Rightarrow> cstr \<Rightarrow> 's
     \<Rightarrow> (int system_result \<times> 's) run" where
  "s1_deployOfficer exec session officer station reason order from until =
     adapt_bool 0 (deployOfficer exec session officer station reason order from until)"

definition s1_endDeployment ::
  "'s query_fun \<Rightarrow> session_context \<Rightarrow> int \<Rightarrow> 's
     \<Rightarrow> (unit system_result \<times> 's) run" where
  "s1_endDeployment exec session deployment = adapt_bool_void (endDeployment exec session deployment)"

definition s1_getOfficerDeployments ::
  "'s query_fun \<Rightarrow> int \<Rightarrow> bool \<Rightarrow> 's
     \<Rightarrow> (deployment_out list system_result \<times> 's) run" where
  "s1_getOfficerDeployments exec officer active_only = adapt_rc [] (getOfficerDeployments exec officer active_only)"

definition s1_generateOfficerReport :: "int \<Rightarrow> int \<Rightarrow> string list
       \<Rightarrow> (string system_result \<times> string list) run" where
  "s1_generateOfficerReport officer t = adapt_rc [] (\<lambda>out lns. Inr (generateOfficerReport officer t lns))"

section \<open>The facades\<close>

text \<open>A facade calls the adapter it points to, here the default one; through a null pointer that is undefined.\<close>

definition through :: "pointer \<Rightarrow> 'r run \<Rightarrow> 'r run" where
  "through p r = (case p of None \<Rightarrow> Inl UndefinedBehaviour | Some a \<Rightarrow> r)"

definition duty_scheduleDuty ::
  "system_manager \<Rightarrow> 's query_fun \<Rightarrow> session_context \<Rightarrow> int \<Rightarrow> int
       \<Rightarrow> int \<Rightarrow> shift_type \<Rightarrow> cstr \<Rightarrow> int \<Rightarrow> int \<Rightarrow> 's
     \<Rightarrow> (int system_result \<times> 's) run" where
  "duty_scheduleDuty sm exec session officer station route shift date from to s =
     through (fc_duty (sm_facades sm)) (s1_scheduleDuty exec session officer station route shift date from to s)"

definition duty_markDutyStart ::
  "system_manager \<Rightarrow> 's query_fun \<Rightarrow> session_context \<Rightarrow> int \<Rightarrow> 's
     \<Rightarrow> (unit system_result \<times> 's) run" where
  "duty_markDutyStart sm exec session duty s = through (fc_duty (sm_facades sm)) (s1_markDutyStart exec session duty s)"

definition duty_markDutyEnd ::
  "system_manager \<Rightarrow> 's query_fun \<Rightarrow> session_context \<Rightarrow> int \<Rightarrow> 's
     \<Rightarrow> (unit system_result \<times> 's) run" where
  "duty_markDutyEnd sm exec session duty s = through (fc_duty (sm_facades sm)) (s1_markDutyEnd exec session duty s)"

definition duty_updateDutyStatus ::
  "system_manager \<Rightarrow> 's query_fun \<Rightarrow> session_context \<Rightarrow> int
       \<Rightarrow> duty_status \<Rightarrow> cstr \<Rightarrow> 's
     \<Rightarrow> (unit system_result \<times> 's) run" where
  "duty_updateDutyStatus sm exec session duty st reason s =
     through (fc_duty (sm_facades sm)) (s1_updateDutyStatus exec session duty st reason s)"

definition duty_cancelDuty ::
  "system_manager \<Rightarrow> 's query_fun \<Rightarrow> session_context \<Rightarrow> int \<Rightarrow> 's
     \<Rightarrow> (unit system_result \<times> 's) run" where
  "duty_cancelDuty sm exec session duty s = through (fc_duty (sm_facades sm)) (s1_cancelDuty exec session duty s)"

definition duty_getDutyRoster ::
  "system_manager \<Rightarrow> 's query_fun \<Rightarrow> int \<Rightarrow> cstr \<Rightarrow> 's
     \<Rightarrow> (duty_out list system_result \<times> 's) run" where
  "duty_getDutyRoster sm exec station date s = through (fc_duty (sm_facades sm)) (s1_getDutyRoster exec station date s)"

definition duty_getActiveDuties ::
  "system_manager \<Rightarrow> 's query_fun \<Rightarrow> int \<Rightarrow> 's
     \<Rightarrow> (duty_out list system_result \<times> 's) run" where
  "duty_getActiveDuties sm exec station s = through (fc_duty (sm_facades sm)) (s1_getActiveDuties exec station s)"

definition duty_getOfficerDutyHistory ::
  "system_manager \<Rightarrow> 's query_fun \<Rightarrow> int \<Rightarrow> int \<Rightarrow> int \<Rightarrow> 's
     \<Rightarrow> (duty_out list system_result \<times> 's) run" where
  "duty_getOfficerDutyHistory sm exec officer from to s =
     through (fc_duty (sm_facades sm)) (s1_getOfficerDutyHistory exec officer from to s)"

definition duty_createPatrolRoute ::
  "system_manager \<Rightarrow> 's query_fun \<Rightarrow> session_context \<Rightarrow> int \<Rightarrow> cstr
       \<Rightarrow> cstr \<Rightarrow> cstr \<Rightarrow> 's
     \<Rightarrow> (int system_result \<times> 's) run" where
  "duty_createPatrolRoute sm exec session station beat name area s =
     through (fc_duty (sm_facades sm)) (s1_createPatrolRoute exec session station beat name area s)"

definition duty_deactivatePatrolRoute ::
  "system_manager \<Rightarrow> 's query_fun \<Rightarrow> session_context \<Rightarrow> int \<Rightarrow> 's
     \<Rightarrow> (unit system_result \<times> 's) run" where
  "duty_deactivatePatrolRoute sm exec session route s =
     through (fc_duty (sm_facades sm)) (s1_deactivatePatrolRoute exec session route s)"

definition duty_getPatrolRoutesByStation ::
  "system_manager \<Rightarrow> 's query_fun \<Rightarrow> int \<Rightarrow> 's
     \<Rightarrow> (route_out list system_result \<times> 's) run" where
  "duty_getPatrolRoutesByStation sm exec station s =
     through (fc_duty (sm_facades sm)) (s1_getPatrolRoutesByStation exec station s)"

definition personnel_getOfficerById ::
  "system_manager \<Rightarrow> 's query_fun \<Rightarrow> int \<Rightarrow> 's
     \<Rightarrow> (officer_out system_result \<times> 's) run" where
  "personnel_getOfficerById sm exec officer s = through (fc_personnel (sm_facades sm)) (s1_getOfficerById exec officer s)"

definition personnel_getOfficerByCnic ::
  "system_manager \<Rightarrow> 's query_fun \<Rightarrow> cstr \<Rightarrow> 's
     \<Rightarrow> (officer_out system_result \<times> 's) run" where
  "personnel_getOfficerByCnic sm exec cnic s = through (fc_personnel (sm_facades sm)) (s1_getOfficerByCnic exec cnic s)"

definition personnel_getOfficersByStation ::
  "system_manager \<Rightarrow> 's query_fun \<Rightarrow> int \<Rightarrow> 's
     \<Rightarrow> (officer_out list system_result \<times> 's) run" where
  "personnel_getOfficersByStation sm exec station s =
     through (fc_personnel (sm_facades sm)) (s1_getOfficersByStation exec station s)"

definition personnel_getOfficersByStatus ::
  "system_manager \<Rightarrow> 's query_fun \<Rightarrow> int \<Rightarrow> officer_status \<Rightarrow> 's
     \<Rightarrow> (officer_out list system_result \<times> 's) run" where
  "personnel_getOfficersByStatus sm exec station st s =
     through (fc_personnel (sm_facades sm)) (s1_getOfficersByStatus exec station st s)"

definition personnel_updateOfficerStatus ::
  "system_manager \<Rightarrow> 's query_fun \<Rightarrow> session_context \<Rightarrow> int
       \<Rightarrow> officer_status \<Rightarrow> 's
     \<Rightarrow> (unit system_result \<times> 's) run" where
  "personnel_updateOfficerStatus sm exec session officer st s =
     through (fc_personnel (sm_facades sm)) (s1_updateOfficerStatus exec session officer st s)"

definition personnel_promoteOfficer ::
  "system_manager \<Rightarrow> 's query_fun \<Rightarrow> session_context \<Rightarrow> int
       \<Rightarrow> officer_rank \<Rightarrow> cstr \<Rightarrow> cstr \<Rightarrow> cstr \<Rightarrow> cstr
       \<Rightarrow> 's
     \<Rightarrow> (int system_result \<times> 's) run" where
  "personnel_promoteOfficer sm exec session officer rank belt ptype effective order s =
     through (fc_personnel (sm_facades sm)) (s1_promoteOfficer exec session officer rank belt ptype effective order s)"

definition personnel_getOfficerRankHistory ::
  "system_manager \<Rightarrow> 's query_fun \<Rightarrow> int \<Rightarrow> 's
     \<Rightarrow> (history_out list system_result \<times> 's) run" where
  "personnel_getOfficerRankHistory sm exec officer s =
     through (fc_personnel (sm_facades sm)) (s1_getOfficerRankHistory exec officer s)"

definition personnel_deployOfficer ::
  "system_manager \<Rightarrow> 's query_fun \<Rightarrow> session_context \<Rightarrow> int \<Rightarrow> int
       \<Rightarrow> cstr \<Rightarrow> cstr \<Rightarrow> cstr \<Rightarrow> cstr \<Rightarrow> 's
     \<Rightarrow> (int system_result \<times> 's) run" where
  "personnel_deployOfficer sm exec session officer station reason order from until s =
     through (fc_personnel (sm_facades sm)) (s1_deployOfficer exec session officer station reason order from until s)"

definition personnel_endDeployment ::
  "system_manager \<Rightarrow> 's query_fun \<Rightarrow> session_context \<Rightarrow> int \<Rightarrow> 's
     \<Rightarrow> (unit system_result \<times> 's) run" where
  "personnel_endDeployment sm exec session deployment s =
     through (fc_personnel (sm_facades sm)) (s1_endDeployment exec session deployment s)"

definition personnel_getOfficerDeployments ::
  "system_manager \<Rightarrow> 's query_fun \<Rightarrow> int \<Rightarrow> bool \<Rightarrow> 's
     \<Rightarrow> (deployment_out list system_result \<times> 's) run" where
  "personnel_getOfficerDeployments sm exec officer active_only s =
     through (fc_personnel (sm_facades sm)) (s1_getOfficerDeployments exec officer active_only s)"

definition personnel_generateOfficerReport ::
  "system_manager \<Rightarrow> int \<Rightarrow> int \<Rightarrow> string list
     \<Rightarrow> (string system_result \<times> string list) run" where
  "personnel_generateOfficerReport sm officer t lns =
     through (fc_personnel (sm_facades sm)) (s1_generateOfficerReport officer t lns)"

section \<open>What is sent to the database\<close>

text \<open>The calls of \<open>ISubsystem1Adapter\<close> that reach the database.\<close>

datatype s1_call =
    ScheduleDuty int int int shift_type cstr int int
  | MarkDutyStart int
  | MarkDutyEnd int
  | UpdateDutyStatus int duty_status cstr
  | CancelDuty int
  | GetDutyRoster int cstr
  | GetActiveDuties int
  | GetOfficerDutyHistory int int int
  | CreatePatrolRoute int cstr cstr cstr
  | DeactivatePatrolRoute int
  | GetPatrolRoutesByStation int
  | GetOfficerById int
  | GetOfficerByCnic cstr
  | GetOfficersByStation int
  | GetOfficersByStatus int officer_status
  | UpdateOfficerStatus int officer_status
  | PromoteOfficer int officer_rank cstr cstr cstr cstr
  | GetOfficerRankHistory int
  | DeployOfficer int int cstr cstr cstr cstr
  | EndDeployment int
  | GetOfficerDeployments int bool

definition run_state :: "('r \<times> 's) run \<Rightarrow> 's run" where
  "run_state r = and_then r (\<lambda>(x, s). Inr s)"

fun s1_run :: "'s query_fun \<Rightarrow> session_context \<Rightarrow> s1_call \<Rightarrow> 's \<Rightarrow> 's run" where
  "s1_run exec session (ScheduleDuty officer station route shift date from to) s =
     run_state (s1_scheduleDuty exec session officer station route shift date from to s)"
| "s1_run exec session (MarkDutyStart duty) s = run_state (s1_markDutyStart exec session duty s)"
| "s1_run exec session (MarkDutyEnd duty) s = run_state (s1_markDutyEnd exec session duty s)"
| "s1_run exec session (UpdateDutyStatus duty st reason) s = run_state (s1_updateDutyStatus exec session duty st reason s)"
| "s1_run exec session (CancelDuty duty) s = run_state (s1_cancelDuty exec session duty s)"
| "s1_run exec session (GetDutyRoster station date) s = run_state (s1_getDutyRoster exec station date s)"
| "s1_run exec session (GetActiveDuties station) s = run_state (s1_getActiveDuties exec station s)"
| "s1_run exec session (GetOfficerDutyHistory officer from to) s =
     run_state (s1_getOfficerDutyHistory exec officer from to s)"
| "s1_run exec session (CreatePatrolRoute station beat name area) s =
     run_state (s1_createPatrolRoute exec session station beat name area s)"
| "s1_run exec session (DeactivatePatrolRoute route) s = run_state (s1_deactivatePatrolRoute exec session route s)"
| "s1_run exec session (GetPatrolRoutesByStation station) s = run_state (s1_getPatrolRoutesByStation exec station s)"
| "s1_run exec session (GetOfficerById officer) s = run_state (s1_getOfficerById exec officer s)"
| "s1_run exec session (GetOfficerByCnic cnic) s = run_state (s1_getOfficerByCnic exec cnic s)"
| "s1_run exec session (GetOfficersByStation station) s = run_state (s1_getOfficersByStation exec station s)"
| "s1_run exec session (GetOfficersByStatus station st) s = run_state (s1_getOfficersByStatus exec station st s)"
| "s1_run exec session (UpdateOfficerStatus officer st) s = run_state (s1_updateOfficerStatus exec session officer st s)"
| "s1_run exec session (PromoteOfficer officer rank belt ptype effective order) s =
     run_state (s1_promoteOfficer exec session officer rank belt ptype effective order s)"
| "s1_run exec session (GetOfficerRankHistory officer) s = run_state (s1_getOfficerRankHistory exec officer s)"
| "s1_run exec session (DeployOfficer officer station reason order from until) s =
     run_state (s1_deployOfficer exec session officer station reason order from until s)"
| "s1_run exec session (EndDeployment deployment) s = run_state (s1_endDeployment exec session deployment s)"
| "s1_run exec session (GetOfficerDeployments officer active_only) s =
     run_state (s1_getOfficerDeployments exec officer active_only s)"

fun call_texts :: "s1_call \<Rightarrow> cstr list" where
  "call_texts (ScheduleDuty _ _ _ _ date _ _) = [date]"
| "call_texts (UpdateDutyStatus _ _ reason) = [reason]"
| "call_texts (GetDutyRoster _ date) = [date]"
| "call_texts (CreatePatrolRoute _ beat name area) = [beat, name, area]"
| "call_texts (GetOfficerByCnic cnic) = [cnic]"
| "call_texts (PromoteOfficer _ _ belt ptype effective order) = [belt, ptype, effective, order]"
| "call_texts (DeployOfficer _ _ reason order from until) = [reason, order, from, until]"
| "call_texts _ = []"

section \<open>One call, one statement\<close>

text \<open>\<open>safe_text s\<close>: the text \<open>s\<close>, met outside literals and comments, neither ends a statement nor leaves a
  literal or comment open.\<close>

definition safe_text :: "string \<Rightarrow> bool" where
  "safe_text s \<longleftrightarrow> (\<forall>t acc. sql_split Plain (s @ t) acc = sql_split Plain t (acc @ s))"

definition one_statement :: "string \<Rightarrow> bool" where
  "one_statement q \<longleftrightarrow> (\<exists>p. q = p @ '';'' \<and> safe_text p)"

lemma one_statement_split: "one_statement q \<Longrightarrow> sql_split Plain q [] = [butlast q]"
  unfolding one_statement_def safe_text_def by force

lemma safe_plain: "plain_sql s \<Longrightarrow> safe_text s"
  by (simp add: safe_text_def split_plain)

lemma safe_quote: "CHR 0x27 \<notin> set s \<Longrightarrow> safe_text (sql_quote s)"
  by (simp add: safe_text_def split_quoted)

lemma safe_append: "safe_text s \<Longrightarrow> safe_text t \<Longrightarrow> safe_text (s @ t)"
  by (simp add: safe_text_def)

lemma safe_Nil: "safe_text []"
  by (simp add: safe_text_def)

lemma plain_show_nat: "plain_sql (show_nat n)" "CHR 0x27 \<notin> set (show_nat n)"
proof -
  have d: "\<forall>c \<in> set (show_nat n). c \<noteq> CHR '';'' \<and> c \<noteq> CHR 0x27 \<and> c \<noteq> CHR ''-'' \<and> c \<noteq> CHR 0x0A"
    using show_nat_digits [of n] by (auto simp: is_digit_def)
  then show "plain_sql (show_nat n)" "CHR 0x27 \<notin> set (show_nat n)" by (auto simp: plain_sql_def list_all_iff)
qed

lemma safe_show_int: "safe_text (show_int n)"
proof (cases "n < 0")
  case True
  have "hd (show_nat (nat (- n)) @ t) \<noteq> CHR ''-''" for t
    using show_nat_hd_digit [of "nat (- n)"] by (auto simp: is_digit_def show_nat_not_Nil)
  then show ?thesis using True plain_show_nat(1) [of "nat (- n)"]
    by (auto simp: show_int_def safe_text_def split_plain)
next
  case False
  then show ?thesis by (simp add: show_int_def safe_plain plain_show_nat)
qed

lemma unquoted_show_int: "CHR 0x27 \<notin> set (show_int n)"
  by (simp add: show_int_def plain_show_nat)

lemma one_statement_literal:
  "s \<noteq> [] \<Longrightarrow> last s = CHR '';'' \<Longrightarrow> plain_sql (butlast s) \<Longrightarrow> one_statement s"
  unfolding one_statement_def by (metis append_butlast_last_id safe_plain)

lemma one_statement_append: "safe_text s \<Longrightarrow> one_statement t \<Longrightarrow> one_statement (s @ t)"
  unfolding one_statement_def by (metis append.assoc safe_append)

text \<open>A database that takes nothing but single statements.\<close>

definition single_only :: "'s query_fun \<Rightarrow> 's query_fun" where
  "single_only exec q s = (if one_statement q then exec q s else Inl UndefinedBehaviour)"

lemma update_op_single:
  assumes "every_result one_statement sql"
  shows "update_op (single_only exec) session sql s = update_op exec session sql s"
  using assms by (cases sql) (simp_all add: update_op_def single_only_def)

lemma insert_op_single:
  assumes "every_result one_statement sql"
  shows "insert_op (single_only exec) session sql out s = insert_op exec session sql out s"
  using assms by (cases sql) (simp_all add: insert_op_def single_only_def)

lemma list_op_single:
  "one_statement q \<Longrightarrow> list_op (single_only exec) q n f out s = list_op exec q n f out s"
  by (simp add: list_op_def single_only_def)

lemma one_officer_single:
  "one_statement q \<Longrightarrow> one_officer (single_only exec) q out s = one_officer exec q out s"
  by (simp add: one_officer_def single_only_def)

lemmas safe_intros = one_statement_append safe_append safe_quote safe_show_int safe_Nil unquoted_show_int

lemmas safe_literals = safe_plain one_statement_literal


abbreviation quoteless :: "string \<Rightarrow> bool" where
  "quoteless s \<equiv> CHR 0x27 \<notin> set s"

definition quoteless_text :: "cstr \<Rightarrow> bool" where
  "quoteless_text d \<longleftrightarrow> (\<forall>t. d = Some t \<longrightarrow> quoteless t)"

lemma single_to_string:
  "quoteless_text d \<Longrightarrow> (\<And>t. quoteless t \<Longrightarrow> every_result P (k t)) \<Longrightarrow> every_result P (and_then (to_string d) k)"
  by (cases d) (auto simp: quoteless_text_def to_string_def)

lemma single_Inr: "one_statement q \<Longrightarrow> every_result one_statement (Inr q)"
  by simp

text \<open>The texts of the statements.\<close>

lemma schedule_single:
  assumes "quoteless_text date" 
  shows "every_result one_statement (schedule_sql officer station route shift date from to)"
  unfolding schedule_sql_def
  by (intro single_to_string single_Inr safe_intros; (rule assms | assumption | (rule safe_literals)?; code_simp))

lemma route_single:
  assumes "quoteless_text beat" "quoteless_text name" "quoteless_text area" 
  shows "every_result one_statement (route_sql station beat name area)"
  unfolding route_sql_def
  by (intro single_to_string single_Inr safe_intros; (rule assms | assumption | (rule safe_literals)?; code_simp))

lemma promote_single:
  assumes "quoteless_text belt" "quoteless_text ptype" "quoteless_text effective" "quoteless_text order" 
  shows "every_result one_statement (promote_sql officer rank belt ptype effective order)"
  unfolding promote_sql_def
  by (intro single_to_string single_Inr safe_intros; (rule assms | assumption | (rule safe_literals)?; code_simp))

lemma deploy_single:
  assumes "quoteless_text reason" "quoteless_text order" "quoteless_text from" "quoteless_text until" 
  shows "every_result one_statement (deploy_sql officer station reason order from until)"
  unfolding deploy_sql_def
  by (intro single_to_string single_Inr safe_intros; (rule assms | assumption | (rule safe_literals)?; code_simp))

lemma duty_status_single:
  assumes "quoteless_text reason"
  shows "one_statement (duty_status_sql duty st reason)"
proof -
  have q: "quoteless (case reason of None \<Rightarrow> [] | Some r \<Rightarrow> r)"
    using assms by (simp add: quoteless_text_def split: option.split)
  show ?thesis
    unfolding duty_status_sql_def by (intro safe_intros; (rule q | (rule safe_literals)?; code_simp))
qed

lemma safe_columns: "safe_text duty_columns" "safe_text officer_columns"
  unfolding duty_columns_def officer_columns_def by ((rule safe_plain)?, code_simp)+

lemma safe_date_filter:
  assumes "quoteless_text date"
  shows "safe_text (case date of None \<Rightarrow> [] | Some d \<Rightarrow> '' AND duty_date='' @ sql_quote d)"
proof (cases date)
  case (Some d)
  with assms have q: "quoteless d" by (simp add: quoteless_text_def)
  have "safe_text ('' AND duty_date='' @ sql_quote d)"
    by (intro safe_intros; (rule q | rule safe_plain, code_simp))
  with Some show ?thesis by simp
qed (simp add: safe_Nil)

lemma safe_active_filter: "safe_text (if active then '' AND active=TRUE'' else [])"
proof -
  have "safe_text '' AND active=TRUE''" by (rule safe_plain) code_simp
  then show ?thesis by (simp add: safe_Nil)
qed

text \<open>Each operation.\<close>

lemma scheduleDuty_single:
  assumes "quoteless_text date" 
  shows "scheduleDuty (single_only exec) session officer station route shift date from to =
    scheduleDuty exec session officer station route shift date from to"
  by (intro ext) (simp only: scheduleDuty_def insert_op_single schedule_single assms)

lemma markDutyStart_single:
  shows "markDutyStart (single_only exec) session duty = markDutyStart exec session duty"
  unfolding markDutyStart_def
  by (intro ext update_op_single single_Inr safe_columns safe_intros; ((rule safe_literals)?; code_simp))

lemma markDutyEnd_single:
  shows "markDutyEnd (single_only exec) session duty = markDutyEnd exec session duty"
  unfolding markDutyEnd_def
  by (intro ext update_op_single single_Inr safe_columns safe_intros; ((rule safe_literals)?; code_simp))

lemma updateDutyStatus_single:
  assumes "quoteless_text reason" 
  shows "updateDutyStatus (single_only exec) session duty st reason = updateDutyStatus exec session duty st reason"
  by (intro ext) (simp add: updateDutyStatus_def update_op_single duty_status_single assms)

lemma cancelDuty_single:
  shows "cancelDuty (single_only exec) session duty = cancelDuty exec session duty"
  unfolding cancelDuty_def
  by (intro ext update_op_single single_Inr safe_columns safe_intros; ((rule safe_literals)?; code_simp))

lemma getDutyRoster_single:
  assumes "quoteless_text date" 
  shows "getDutyRoster (single_only exec) station date = getDutyRoster exec station date"
  unfolding getDutyRoster_def
  by (intro ext list_op_single safe_date_filter safe_columns safe_intros; (rule assms | (rule safe_literals)?; code_simp))

lemma getActiveDuties_single:
  shows "getActiveDuties (single_only exec) station = getActiveDuties exec station"
  unfolding getActiveDuties_def
  by (intro ext list_op_single safe_columns safe_intros; ((rule safe_literals)?; code_simp))

lemma getOfficerDutyHistory_single:
  shows "getOfficerDutyHistory (single_only exec) officer from to = getOfficerDutyHistory exec officer from to"
  unfolding getOfficerDutyHistory_def
  by (intro ext list_op_single safe_columns safe_intros; ((rule safe_literals)?; code_simp))

lemma createPatrolRoute_single:
  assumes "quoteless_text beat" "quoteless_text name" "quoteless_text area" 
  shows "createPatrolRoute (single_only exec) session station beat name area =
    createPatrolRoute exec session station beat name area"
  by (intro ext) (simp only: createPatrolRoute_def insert_op_single route_single assms)

lemma deactivatePatrolRoute_single:
  shows "deactivatePatrolRoute (single_only exec) session route = deactivatePatrolRoute exec session route"
  unfolding deactivatePatrolRoute_def
  by (intro ext update_op_single single_Inr safe_columns safe_intros; ((rule safe_literals)?; code_simp))

lemma getPatrolRoutesByStation_single:
  shows "getPatrolRoutesByStation (single_only exec) station = getPatrolRoutesByStation exec station"
  unfolding getPatrolRoutesByStation_def
  by (intro ext list_op_single safe_columns safe_intros; ((rule safe_literals)?; code_simp))

lemma getOfficerById_single:
  shows "getOfficerById (single_only exec) officer = getOfficerById exec officer"
  unfolding getOfficerById_def
  by (intro ext one_officer_single safe_columns safe_intros; ((rule safe_literals)?; code_simp))

lemma getOfficerByCnic_single:
  assumes "quoteless_text cnic" 
  shows "getOfficerByCnic (single_only exec) cnic = getOfficerByCnic exec cnic"
proof -
  have "one_statement (officer_columns @ ''cnic='' @ sql_quote t @ '';'')" if "quoteless t" for t
    by (intro safe_columns safe_intros; (rule that | (rule safe_literals)?; code_simp))
  with assms show ?thesis
    by (intro ext) (cases cnic; simp add: getOfficerByCnic_def to_string_def quoteless_text_def one_officer_single)
qed

lemma getOfficersByStation_single:
  shows "getOfficersByStation (single_only exec) station = getOfficersByStation exec station"
  unfolding getOfficersByStation_def
  by (intro ext list_op_single safe_columns safe_intros; ((rule safe_literals)?; code_simp))

lemma getOfficersByStatus_single:
  shows "getOfficersByStatus (single_only exec) station st = getOfficersByStatus exec station st"
  unfolding getOfficersByStatus_def
  by (intro ext list_op_single safe_columns safe_intros; ((rule safe_literals)?; code_simp))

lemma updateOfficerStatus_single:
  shows "updateOfficerStatus (single_only exec) session officer st = updateOfficerStatus exec session officer st"
  unfolding updateOfficerStatus_def
  by (intro ext update_op_single single_Inr safe_columns safe_intros; ((rule safe_literals)?; code_simp))

lemma promoteOfficer_single:
  assumes "quoteless_text belt" "quoteless_text ptype" "quoteless_text effective" "quoteless_text order" 
  shows "promoteOfficer (single_only exec) session officer rank belt ptype effective order =
    promoteOfficer exec session officer rank belt ptype effective order"
  by (intro ext) (simp only: promoteOfficer_def insert_op_single promote_single assms)

lemma getOfficerRankHistory_single:
  shows "getOfficerRankHistory (single_only exec) officer = getOfficerRankHistory exec officer"
  unfolding getOfficerRankHistory_def
  by (intro ext list_op_single safe_columns safe_intros; ((rule safe_literals)?; code_simp))

lemma deployOfficer_single:
  assumes "quoteless_text reason" "quoteless_text order" "quoteless_text from" "quoteless_text until" 
  shows "deployOfficer (single_only exec) session officer station reason order from until =
    deployOfficer exec session officer station reason order from until"
  by (intro ext) (simp only: deployOfficer_def insert_op_single deploy_single assms)

lemma endDeployment_single:
  shows "endDeployment (single_only exec) session deployment = endDeployment exec session deployment"
  unfolding endDeployment_def
  by (intro ext update_op_single single_Inr safe_columns safe_intros; ((rule safe_literals)?; code_simp))

lemma getOfficerDeployments_single:
  shows "getOfficerDeployments (single_only exec) officer active_only = getOfficerDeployments exec officer active_only"
  unfolding getOfficerDeployments_def
  by (intro ext list_op_single safe_active_filter safe_columns safe_intros; ((rule safe_literals)?; code_simp))

lemmas s1_single = scheduleDuty_single markDutyStart_single markDutyEnd_single updateDutyStatus_single
  cancelDuty_single getDutyRoster_single getActiveDuties_single getOfficerDutyHistory_single
  createPatrolRoute_single deactivatePatrolRoute_single getPatrolRoutesByStation_single getOfficerById_single
  getOfficerByCnic_single getOfficersByStation_single getOfficersByStatus_single updateOfficerStatus_single
  promoteOfficer_single getOfficerRankHistory_single deployOfficer_single endDeployment_single
  getOfficerDeployments_single

lemmas s1_defs = s1_scheduleDuty_def s1_markDutyStart_def s1_markDutyEnd_def s1_updateDutyStatus_def
  s1_cancelDuty_def s1_getDutyRoster_def s1_getActiveDuties_def s1_getOfficerDutyHistory_def
  s1_createPatrolRoute_def s1_deactivatePatrolRoute_def s1_getPatrolRoutesByStation_def s1_getOfficerById_def
  s1_getOfficerByCnic_def s1_getOfficersByStation_def s1_getOfficersByStatus_def s1_updateOfficerStatus_def
  s1_promoteOfficer_def s1_getOfficerRankHistory_def s1_deployOfficer_def s1_endDeployment_def
  s1_getOfficerDeployments_def

lemma calls_single:
  assumes "list_all quoteless_text (call_texts c)"
  shows "s1_run (single_only exec) session c s = s1_run exec session c s"
  using assms by (cases c) (simp_all add: s1_defs s1_single)

text \<open>A database that counts the texts it is sent, and one that serves nothing after the first.\<close>

fun counting :: "'s query_fun \<Rightarrow> ('s \<times> nat) query_fun" where
  "counting exec q (s, n) = and_then (exec q s) (\<lambda>(rc, rows, s). Inr (rc, rows, s, Suc n))"

fun once_only :: "('s \<times> nat) query_fun \<Rightarrow> ('s \<times> nat) query_fun" where
  "once_only exec q (s, n) = (if n = 0 then exec q (s, n) else Inl UndefinedBehaviour)"

lemmas s1_operation_defs = scheduleDuty_def markDutyStart_def markDutyEnd_def updateDutyStatus_def cancelDuty_def
  getDutyRoster_def getActiveDuties_def getOfficerDutyHistory_def createPatrolRoute_def deactivatePatrolRoute_def
  getPatrolRoutesByStation_def getOfficerById_def getOfficerByCnic_def getOfficersByStation_def
  getOfficersByStatus_def updateOfficerStatus_def promoteOfficer_def getOfficerRankHistory_def deployOfficer_def
  endDeployment_def getOfficerDeployments_def

lemma calls_once: "s1_run (once_only exec) session c (s, 0) = s1_run exec session c (s, 0)"
  by (cases c) (simp_all add: s1_defs s1_operation_defs adapt_bool_def adapt_bool_void_def adapt_rc_def
      update_op_def insert_op_def list_op_def one_officer_def)

text \<open>C40 An operation of subsystem 1 sends the database at most one text, and that is a single statement,
  whatever the numbers it is called with, as long as none of the texts it is called with holds a quote: a database
  that serves only the first text it is sent, and that only if it is a single statement, makes no difference to any
  call.\<close>

theorem one_call_one_statement:
  assumes "list_all quoteless_text (call_texts c)"
  shows "s1_run (single_only (once_only (counting exec))) session c (s, 0) = s1_run (counting exec) session c (s, 0)"
  unfolding calls_single [OF assms] by (rule calls_once)

theorem one_call_one_statement_witness:
  "s1_run (single_only (once_only (counting (\<lambda>q sent. Inr (OK, [], sent @ [q]))))) (empty_session\<lparr>sc_isValid := True\<rparr>)
     (UpdateDutyStatus 5 DUTY_ABSENT (Some ''ill; at home -- until May'')) ([], 0)
   = Inr ([duty_status_sql 5 DUTY_ABSENT (Some ''ill; at home -- until May'')], 1)"
proof -
  have "list_all quoteless_text (call_texts (UpdateDutyStatus 5 DUTY_ABSENT (Some ''ill; at home -- until May'')))"
    by (simp add: quoteless_text_def)
  note single = one_call_one_statement [OF this]
  show ?thesis
    by (simp only: single)
      (simp add: s1_updateDutyStatus_def updateDutyStatus_def adapt_bool_void_def update_op_def run_state_def)
qed

section \<open>Listing officers\<close>

definition officer_readable :: "string list \<Rightarrow> bool" where
  "officer_readable row \<longleftrightarrow> stoi (row ! 0) \<noteq> None \<and> stoi (row ! 3) \<noteq> None \<and> stoi (row ! 4) \<noteq> None"

definition officer_of :: "string list \<Rightarrow> officer_out" where
  "officer_of row = \<lparr>of_officerId = the (stoi (row ! 0)), of_beltNumber = row ! 1, of_cnic = row ! 2,
     of_currentRank = the (stoi (row ! 3)), of_status = the (stoi (row ! 4))\<rparr>"

lemma read_officer_decides:
  "5 \<le> length row \<Longrightarrow> read_officer row = (if officer_readable row then Inr (officer_of row) else Inl ThrowsException)"
  by (auto simp: read_officer_def at_index_def stoi_or_throw_def or_throw_def officer_readable_def officer_of_def
      split: option.split)

lemma read_rows_decides:
  "read_rows 5 read_officer rows =
     (if \<forall>row \<in> set rows. 5 \<le> length row \<longrightarrow> officer_readable row
      then Inr (map officer_of (filter (\<lambda>row. 5 \<le> length row) rows)) else Inl ThrowsException)"
  by (induction rows) (auto simp: read_officer_decides)

text \<open>The officers of a station are the rows the database sends that have five cells or more, each read
  cell by cell; but if the rank or the status of a single one is not a number, which is how the columns
  of the schema come, the exception leaves the facade and no officer is listed.\<close>

theorem officers_listed_or_thrown:
  assumes "exec (officer_columns @ ''station_id='' @ show_int station @ '';'') s = Inr (rc, rows, s')"
    and "fc_personnel (sm_facades sm) = Some a"
  shows "personnel_getOfficersByStation sm exec station s =
     (if rc \<noteq> OK then Inr (failure [] rc, s')
      else if \<exists>row \<in> set rows. 5 \<le> length row \<and> \<not> officer_readable row then Inl ThrowsException
      else Inr (success (map officer_of (filter (\<lambda>row. 5 \<le> length row) rows)), s'))"
  using assms
  by (auto simp: personnel_getOfficersByStation_def through_def s1_getOfficersByStation_def adapt_rc_def
      getOfficersByStation_def list_op_def read_rows_decides)

theorem officers_listed_or_thrown_witness:
  "\<exists>r sm. system_init (\<lambda>i. i) new_manager = (r, sm) \<and>
     personnel_getOfficersByStation sm (\<lambda>q s. Inr (OK, [[''7'', ''B7'', ''35202'', ''4'', ''0''], [''8'']], s)) 1 ()
       = Inr (success [\<lparr>of_officerId = 7, of_beltNumber = ''B7'', of_cnic = ''35202'', of_currentRank = 4, of_status = 0\<rparr>], ())
   \<and> personnel_getOfficersByStation sm (\<lambda>q s. Inr (OK, [[''7'', ''B7'', ''35202'', ''INSPECTOR'', ''ACTIVE'']], s)) 1 ()
       = Inl ThrowsException"
proof -
  obtain r sm where i: "system_init (\<lambda>i. i) new_manager = (r, sm)" by (cases "system_init (\<lambda>i. i) new_manager")
  then have f: "fc_personnel (sm_facades sm) = Some 1"
    by (auto simp: system_init_def new_manager_def no_adapters_def fill_def Let_def)
  have n: "stoi ''7'' = Some 7" "stoi ''4'' = Some 4" "stoi ''0'' = Some 0" "stoi ''INSPECTOR'' = None"
    by code_simp+
  from i show ?thesis
    by (intro exI [of _ r] exI [of _ sm])
      (simp add: officers_listed_or_thrown [OF refl f] officer_readable_def officer_of_def n)
qed

end
