(* ===== verification/Audit_Manager.thy ===== *)
theory Audit_Manager
  imports Audit_Log Personnel
begin

text \<open>
  The audit module (\<open>src/system/subsystem3/audit/src/audit_manager.cpp\<close>, \<open>audit_query.cpp\<close>): its own
  connection, which is made read-only, and its five queries, up to \<open>Subsystem3\<close>, the adapter and
  \<open>AuditFacade\<close>. The queries never write, so a vector is what the call has appended to. \<open>pq\<close> is
  \<open>PQexecParams\<close> with one of the five texts; \<open>au_open\<close> counts the \<open>PGconn\<close> objects that libpq has
  allocated and \<open>PQfinish\<close> has not released.
\<close>

section \<open>The connection\<close>

record 'c audit_manager =
  au_conn :: "'c option"
  au_conninfo :: string
  au_open :: nat

definition new_audit_manager :: "'c audit_manager" where
  "new_audit_manager = \<lparr>au_conn = None, au_conninfo = [], au_open = 0\<rparr>"

definition set_read_only :: string where
  "set_read_only = ''SET default_transaction_read_only = on;''"

definition usable :: "'c libpq \<Rightarrow> 'c option \<Rightarrow> bool" where
  "usable lib p = (case p of None \<Rightarrow> False | Some c \<Rightarrow> PQstatus_ok lib c)"

text \<open>What \<open>connect\<close> and \<open>_reconnect\<close> share: the new object is kept, or released again.\<close>

definition open_read_only :: "'c libpq \<Rightarrow> 'c audit_manager \<Rightarrow> bool \<times> 'c audit_manager" where
  "open_read_only lib am =
     (case PQconnectdb lib (c_str (au_conninfo am)) of
        None \<Rightarrow> (False, am\<lparr>au_conn := None\<rparr>)
      | Some c \<Rightarrow>
          if \<not> PQstatus_ok lib c then (False, am\<lparr>au_conn := None\<rparr>)
          else case PQexec lib c set_read_only of
                 (CommandOk n, c') \<Rightarrow> (True, am\<lparr>au_conn := Some c', au_open := au_open am + 1\<rparr>)
               | (r, c') \<Rightarrow> (False, am\<lparr>au_conn := None\<rparr>))"

definition audit_connect :: "'c libpq \<Rightarrow> cstr \<Rightarrow> 'c audit_manager \<Rightarrow> result_code \<times> 'c audit_manager" where
  "audit_connect lib conninfo am =
     (if usable lib (au_conn am) then (OK, am)
      else if null_or_empty conninfo then (DB_ERROR, am)
      else case open_read_only lib (am\<lparr>au_conninfo := in_buffer 256 (the conninfo)\<rparr>) of
             (ok, am) \<Rightarrow> (if ok then OK else DB_ERROR, am))"

definition audit_disconnect :: "'c audit_manager \<Rightarrow> 'c audit_manager" where
  "audit_disconnect am =
     (if au_conn am \<noteq> None then am\<lparr>au_conn := None, au_open := au_open am - 1\<rparr> else am)"

definition audit_reconnect :: "'c libpq \<Rightarrow> 'c audit_manager \<Rightarrow> bool \<times> 'c audit_manager" where
  "audit_reconnect lib am =
     (if au_conninfo am = [] then (False, am)
      else open_read_only lib (if au_conn am \<noteq> None then am\<lparr>au_conn := None, au_open := au_open am - 1\<rparr> else am))"

definition ensureConnected :: "'c libpq \<Rightarrow> 'c audit_manager \<Rightarrow> result_code \<times> 'c audit_manager" where
  "ensureConnected lib am =
     (if au_conn am = None then (DB_ERROR, am)
      else if usable lib (au_conn am) then (OK, am)
      else case audit_reconnect lib am of (ok, am) \<Rightarrow> (if ok then OK else DB_ERROR, am))"

section \<open>AuditQuery\<close>

record audit_record =
  arec_log_id :: int
  arec_table_name :: string
  arec_record_pk :: int
  arec_operation :: string
  arec_officer_id :: int
  arec_belt_number :: string
  arec_backend_pid :: int
  arec_client_addr :: string
  arec_old_values :: string
  arec_new_values :: string
  arec_changed_at :: int

definition AUDIT_JSONB_LEN :: nat where
  "AUDIT_JSONB_LEN = 8192"

text \<open>A column that the result does not have reads as a null pointer.\<close>

definition audit_mapRow :: "string list \<Rightarrow> audit_record run" where
  "audit_mapRow row =
     (if length row < 11 then Inl UndefinedBehaviour
      else Inr \<lparr>arec_log_id = atoi (row ! 0), arec_table_name = in_buffer 32 (row ! 1),
        arec_record_pk = atoi (row ! 2), arec_operation = in_buffer 16 (row ! 3),
        arec_officer_id = atoi (row ! 4), arec_belt_number = in_buffer 32 (row ! 5),
        arec_backend_pid = atoi (row ! 6), arec_client_addr = in_buffer 48 (row ! 7),
        arec_old_values = in_buffer AUDIT_JSONB_LEN (row ! 8), arec_new_values = in_buffer AUDIT_JSONB_LEN (row ! 9),
        arec_changed_at = atoi (row ! 10)\<rparr>)"

fun audit_mapRows :: "string list list \<Rightarrow> audit_record list run" where
  "audit_mapRows [] = Inr []"
| "audit_mapRows (row # rows) =
     and_then (audit_mapRow row) (\<lambda>r. and_then (audit_mapRows rows) (\<lambda>rs. Inr (r # rs)))"

definition executeAndMap ::
  "('c \<Rightarrow> audit_sql \<Rightarrow> cstr list \<Rightarrow> pg_result \<times> 'c) \<Rightarrow> audit_sql \<Rightarrow> cstr list \<Rightarrow> audit_record list
     \<Rightarrow> 'c audit_manager \<Rightarrow> (result_code \<times> audit_record list \<times> 'c audit_manager) run" where
  "executeAndMap pq sql ps out am =
     (case au_conn am of
        None \<Rightarrow> Inr (DB_ERROR, out, am)
      | Some c \<Rightarrow>
          case pq c sql ps of
            (res, c') \<Rightarrow>
              let am = am\<lparr>au_conn := Some c'\<rparr>
              in case res of
                   TuplesOk rows \<Rightarrow>
                     if rows = [] then Inr (NOT_FOUND, out, am)
                     else and_then (audit_mapRows rows) (\<lambda>rs. Inr (OK, out @ rs, am))
                 | _ \<Rightarrow> Inr (DB_ERROR, out, am))"

definition num_param :: "int \<Rightarrow> cstr" where
  "num_param i = Some (in_buffer 24 (show_int i))"

definition query_getChangeHistory where
  "query_getChangeHistory pq case_id = executeAndMap pq SQL_CASE_HISTORY [num_param case_id]"

definition query_getOfficerActions where
  "query_getOfficerActions pq officer_id from to =
     executeAndMap pq SQL_OFFICER_ACTIONS [num_param officer_id, num_param from, num_param to]"

definition query_getTableChanges where
  "query_getTableChanges pq table_name record_id =
     executeAndMap pq SQL_TABLE_CHANGES [table_name, num_param record_id]"

definition query_queryByTimeWindow where
  "query_queryByTimeWindow pq from to = executeAndMap pq SQL_TIME_WINDOW [num_param from, num_param to]"

definition query_detectSuspiciousActivity where
  "query_detectSuspiciousActivity pq station_id out am =
     and_then (executeAndMap pq SQL_SUSPICIOUS [num_param station_id] out am) (\<lambda>(rc, out, am).
       Inr (if rc = NOT_FOUND then OK else rc, out, am))"

section \<open>AuditManager\<close>

datatype audit_call =
    ChangeHistory int
  | OfficerActions int int int
  | TableChanges cstr int
  | TimeWindow int int
  | SuspiciousActivity int

text \<open>Each of the five members makes sure of the connection and delegates.\<close>

definition on_connection ::
  "'c libpq \<Rightarrow> (audit_record list \<Rightarrow> 'c audit_manager \<Rightarrow> (result_code \<times> audit_record list \<times> 'c audit_manager) run)
     \<Rightarrow> audit_record list \<Rightarrow> 'c audit_manager \<Rightarrow> (result_code \<times> audit_record list \<times> 'c audit_manager) run" where
  "on_connection lib query out am =
     (case ensureConnected lib am of
        (rc, am) \<Rightarrow> if rc \<noteq> OK then Inr (rc, out, am) else query out am)"

fun audit_query ::
  "'c libpq \<Rightarrow> ('c \<Rightarrow> audit_sql \<Rightarrow> cstr list \<Rightarrow> pg_result \<times> 'c) \<Rightarrow> audit_call
     \<Rightarrow> audit_record list \<Rightarrow> 'c audit_manager \<Rightarrow> (result_code \<times> audit_record list \<times> 'c audit_manager) run" where
  "audit_query lib pq (ChangeHistory case_id) = on_connection lib (query_getChangeHistory pq case_id)"
| "audit_query lib pq (OfficerActions officer_id from to) =
     on_connection lib (query_getOfficerActions pq officer_id from to)"
| "audit_query lib pq (TableChanges table_name record_id) =
     on_connection lib (query_getTableChanges pq table_name record_id)"
| "audit_query lib pq (TimeWindow from to) = on_connection lib (query_queryByTimeWindow pq from to)"
| "audit_query lib pq (SuspiciousActivity station_id) =
     on_connection lib (query_detectSuspiciousActivity pq station_id)"

section \<open>Subsystem3, the adapter and the facade\<close>

definition initAudit :: "'c libpq \<Rightarrow> cstr \<Rightarrow> 'c audit_manager \<Rightarrow> result_code \<times> 'c audit_manager" where
  "initAudit = audit_connect"

definition shutdownAudit :: "'c audit_manager \<Rightarrow> 'c audit_manager" where
  "shutdownAudit = audit_disconnect"

definition s3_audit ::
  "'c libpq \<Rightarrow> ('c \<Rightarrow> audit_sql \<Rightarrow> cstr list \<Rightarrow> pg_result \<times> 'c) \<Rightarrow> audit_call \<Rightarrow> audit_record list
     \<Rightarrow> 'c audit_manager \<Rightarrow> (result_code \<times> audit_record list \<times> 'c audit_manager) run" where
  "s3_audit = audit_query"

definition adapter_audit ::
  "'c libpq \<Rightarrow> ('c \<Rightarrow> audit_sql \<Rightarrow> cstr list \<Rightarrow> pg_result \<times> 'c) \<Rightarrow> audit_call \<Rightarrow> 'c audit_manager
     \<Rightarrow> (audit_record list system_result \<times> 'c audit_manager) run" where
  "adapter_audit lib pq call = adapt_rc [] (s3_audit lib pq call)"

definition facade_audit ::
  "system_manager \<Rightarrow> 'c libpq \<Rightarrow> ('c \<Rightarrow> audit_sql \<Rightarrow> cstr list \<Rightarrow> pg_result \<times> 'c) \<Rightarrow> audit_call \<Rightarrow> 'c audit_manager
     \<Rightarrow> (audit_record list system_result \<times> 'c audit_manager) run" where
  "facade_audit sm lib pq call am = through (fc_audit (sm_facades sm)) (adapter_audit lib pq call am)"

section \<open>A server\<close>

text \<open>
  A session of a server that holds the log: whether it is alive, whether it is read-only, whether its schema has
  the columns and the schemas that the statements name, and its tables. A statement that names something the
  schema lacks is an error; the schema under \<open>src/db/schema\<close> lacks most of these names. \<open>dial\<close> is what \<open>PQconnectdb\<close> finds at an address.
\<close>

record audit_session =
  as_alive :: bool
  as_read_only :: bool
  as_names :: bool
  as_db :: audit_db

definition audit_lib :: "(string \<Rightarrow> audit_session option) \<Rightarrow> audit_session libpq" where
  "audit_lib dial =
     \<lparr>PQconnectdb = dial, PQstatus_ok = as_alive,
      PQexec = (\<lambda>c q. if as_alive c \<and> q = set_read_only then (CommandOk 0, c\<lparr>as_read_only := True\<rparr>) else (ResultError, c)),
      PQexecParams = (\<lambda>c q ps. (ResultError, c))\<rparr>"

definition audit_pq :: "int \<Rightarrow> audit_session \<Rightarrow> audit_sql \<Rightarrow> cstr list \<Rightarrow> pg_result \<times> audit_session" where
  "audit_pq now c sql ps =
     (if as_alive c \<and> as_names c then (TuplesOk (map audit_cells (audit_select now (as_db c) sql ps)), c) else (ResultError, c))"

section \<open>The session is read-only\<close>

text \<open>What happens to the manager: its operations, and what the server does to the session by itself.\<close>

inductive audit_step ::
  "('c libpq \<Rightarrow> bool) \<Rightarrow> (('c \<Rightarrow> audit_sql \<Rightarrow> cstr list \<Rightarrow> pg_result \<times> 'c) \<Rightarrow> bool) \<Rightarrow> ('c \<Rightarrow> 'c \<Rightarrow> bool)
     \<Rightarrow> 'c audit_manager \<Rightarrow> 'c audit_manager \<Rightarrow> bool" for libs pqs drift where
  step_connect: "libs lib \<Longrightarrow> audit_connect lib conninfo am = (rc, am') \<Longrightarrow> audit_step libs pqs drift am am'"
| step_disconnect: "audit_step libs pqs drift am (audit_disconnect am)"
| step_query: "libs lib \<Longrightarrow> pqs pq \<Longrightarrow> audit_query lib pq call out am = Inr (rc, out', am')
     \<Longrightarrow> audit_step libs pqs drift am am'"
| step_drift: "au_conn am = Some c \<Longrightarrow> drift c c' \<Longrightarrow> audit_step libs pqs drift am (am\<lparr>au_conn := Some c'\<rparr>)"

text \<open>What the client relies on: the SET takes effect, and neither a query nor the server undoes it.\<close>

definition conn_all :: "('c \<Rightarrow> bool) \<Rightarrow> 'c audit_manager \<Rightarrow> bool" where
  "conn_all P am \<longleftrightarrow> (\<forall>c. au_conn am = Some c \<longrightarrow> P c)"

lemmas audit_query_defs = query_getChangeHistory_def query_getOfficerActions_def query_getTableChanges_def
  query_queryByTimeWindow_def

locale read_only_service =
  fixes libs :: "'c libpq \<Rightarrow> bool"
    and pqs :: "('c \<Rightarrow> audit_sql \<Rightarrow> cstr list \<Rightarrow> pg_result \<times> 'c) \<Rightarrow> bool"
    and drift :: "'c \<Rightarrow> 'c \<Rightarrow> bool"
    and ro :: "'c \<Rightarrow> bool"
  assumes set_takes: "libs lib \<Longrightarrow> PQexec lib c set_read_only = (CommandOk n, c') \<Longrightarrow> ro c'"
    and query_keeps: "pqs pq \<Longrightarrow> pq c sql ps = (r, c') \<Longrightarrow> ro c \<Longrightarrow> ro c'"
    and drift_keeps: "drift c c' \<Longrightarrow> ro c \<Longrightarrow> ro c'"
begin

lemma opened: "libs lib \<Longrightarrow> open_read_only lib am = (ok, am') \<Longrightarrow> conn_all ro am'"
  by (auto simp: conn_all_def open_read_only_def split: option.splits if_splits prod.splits pg_result.splits intro: set_takes)

lemma connected:
  assumes "libs lib" "audit_connect lib conninfo am = (rc, am')" "conn_all ro am"
  shows "conn_all ro am'"
  using assms opened [OF assms(1)] by (auto simp: audit_connect_def split: if_splits prod.splits)

lemma ensured:
  assumes "libs lib" "ensureConnected lib am = (rc, am')" "conn_all ro am"
  shows "conn_all ro am'"
  using assms opened [OF assms(1)] by (auto simp: conn_all_def ensureConnected_def audit_reconnect_def split: if_splits prod.splits)

lemma executed:
  assumes "pqs pq" "executeAndMap pq sql ps out am = Inr (rc, out', am')" "conn_all ro am"
  shows "conn_all ro am'"
  using assms query_keeps [OF assms(1)]
  by (auto simp: conn_all_def executeAndMap_def Let_def run_simps split: option.splits prod.splits pg_result.splits if_splits)

lemma suspicious_executed:
  assumes "pqs pq" "query_detectSuspiciousActivity pq s out am = Inr (rc, out', am')" "conn_all ro am"
  shows "conn_all ro am'"
proof -
  from assms(2) obtain rc1 out1 am1 where e: "executeAndMap pq SQL_SUSPICIOUS [num_param s] out am = Inr (rc1, out1, am1)"
    "am' = am1" by (auto simp: query_detectSuspiciousActivity_def run_simps)
  from executed [OF assms(1) e(1) assms(3)] show ?thesis by (simp add: e(2))
qed

lemma gated:
  assumes "libs lib" "on_connection lib query out am = Inr (rc, out', am')" "conn_all ro am"
    and keeps: "\<And>am1. query out am1 = Inr (rc, out', am') \<Longrightarrow> conn_all ro am1 \<Longrightarrow> conn_all ro am'"
  shows "conn_all ro am'"
proof -
  obtain rc1 am1 where e: "ensureConnected lib am = (rc1, am1)" by (cases "ensureConnected lib am")
  from ensured [OF assms(1) e assms(3)] have "conn_all ro am1" .
  then show ?thesis using assms(2) keeps e by (auto simp: on_connection_def split: if_splits)
qed

lemma queried:
  assumes l: "libs lib" and p: "pqs pq" and q: "audit_query lib pq call out am = Inr (rc, out', am')"
    and i: "conn_all ro am"
  shows "conn_all ro am'"
proof (cases call)
  case (SuspiciousActivity s)
  from q [unfolded SuspiciousActivity audit_query.simps] i show ?thesis
    by (rule gated [OF l]) (rule suspicious_executed [OF p])
next
  case (ChangeHistory c)
  from q [unfolded ChangeHistory audit_query.simps audit_query_defs] i show ?thesis
    by (rule gated [OF l]) (rule executed [OF p])
next
  case (OfficerActions c f t)
  from q [unfolded OfficerActions audit_query.simps audit_query_defs] i show ?thesis
    by (rule gated [OF l]) (rule executed [OF p])
next
  case (TableChanges t k)
  from q [unfolded TableChanges audit_query.simps audit_query_defs] i show ?thesis
    by (rule gated [OF l]) (rule executed [OF p])
next
  case (TimeWindow f t)
  from q [unfolded TimeWindow audit_query.simps audit_query_defs] i show ?thesis
    by (rule gated [OF l]) (rule executed [OF p])
qed

lemma step_keeps:
  assumes "audit_step libs pqs drift am am'" "conn_all ro am"
  shows "conn_all ro am'"
  using assms
proof cases
  case (step_connect lib conninfo rc)
  then show ?thesis using connected assms(2) by blast
next
  case step_disconnect
  then show ?thesis using assms(2) by (simp add: audit_disconnect_def conn_all_def)
next
  case (step_query lib pq call out rc out')
  then show ?thesis using queried assms(2) by blast
next
  case (step_drift c c')
  then show ?thesis using drift_keeps assms(2) by (simp add: conn_all_def)
qed

lemma steps_keep:
  assumes "(audit_step libs pqs drift)\<^sup>*\<^sup>* am am'" "conn_all ro am"
  shows "conn_all ro am'"
  using assms by (induction rule: rtranclp_induct) (blast dest: step_keeps)+

end

interpretation audit_service: read_only_service "\<lambda>lib. \<exists>dial. lib = audit_lib dial" "\<lambda>pq. \<exists>now. pq = audit_pq now"
  "\<lambda>c c'. as_read_only c' = as_read_only c" as_read_only
  by unfold_locales (auto simp: audit_lib_def audit_pq_def split: if_splits)

text \<open>C30 The audit connection is read-only whenever there is one: after any sequence of connects,
  disconnects, queries and reconnects, with the server and the network free to change in between.\<close>

theorem audit_session_read_only:
  assumes "(audit_step (\<lambda>lib. \<exists>dial. lib = audit_lib dial) (\<lambda>pq. \<exists>now. pq = audit_pq now)
      (\<lambda>c c'. as_read_only c' = as_read_only c))\<^sup>*\<^sup>* new_audit_manager am"
    and "au_conn am = Some c"
  shows "as_read_only c"
  using audit_service.steps_keep [OF assms(1)] assms(2) by (simp add: conn_all_def new_audit_manager_def)

definition demo_entry :: audit_entry where
  "demo_entry = \<lparr>ae_log_id = 1, ae_table_name = ''CASES'', ae_record_pk = 9, ae_operation = ''UPDATE'',
     ae_officer_id = Some 7, ae_belt_number = Some ''B7'', ae_backend_pid = 42, ae_client_addr = None,
     ae_old_values = Some ''{}'', ae_new_values = Some ''{}'', ae_changed_at = 1000\<rparr>"

definition demo_audit_db :: audit_db where
  "demo_audit_db = \<lparr>al_log = [demo_entry], al_officers = [(7, 1)], al_cases = [(9, 1)], al_evidence = [],
     al_warrants = [], al_arrests = [], al_bail_records = [], al_charge_sheets = [], al_accused = []\<rparr>"

definition demo_audit_session :: audit_session where
  "demo_audit_session = \<lparr>as_alive = True, as_read_only = False, as_names = True, as_db = demo_audit_db\<rparr>"

lemma demo_audit_connect:
  "audit_connect (audit_lib (\<lambda>a. Some demo_audit_session)) (Some ''host=audit'') new_audit_manager
   = (OK, \<lparr>au_conn = Some (demo_audit_session\<lparr>as_read_only := True\<rparr>), au_conninfo = ''host=audit'', au_open = 1\<rparr>)"
  by (simp add: audit_connect_def open_read_only_def audit_lib_def new_audit_manager_def usable_def
      demo_audit_session_def in_buffer_def NUL_def)

theorem audit_session_read_only_witness:
  "\<exists>am c. audit_connect (audit_lib (\<lambda>a. Some demo_audit_session)) (Some ''host=audit'') new_audit_manager = (OK, am)
    \<and> au_conn am = Some c \<and> as_read_only c"
proof -
  let ?am = "\<lparr>au_conn = Some (demo_audit_session\<lparr>as_read_only := True\<rparr>), au_conninfo = ''host=audit'', au_open = 1\<rparr>"
  have "audit_step (\<lambda>lib. \<exists>dial. lib = audit_lib dial) (\<lambda>pq. \<exists>now. pq = audit_pq now)
      (\<lambda>c c'. as_read_only c' = as_read_only c) new_audit_manager ?am"
    using demo_audit_connect by (blast intro: step_connect)
  then have "as_read_only (demo_audit_session\<lparr>as_read_only := True\<rparr>)"
    by (intro audit_session_read_only [of ?am]) auto
  with demo_audit_connect show ?thesis by auto
qed

section \<open>A lost connection\<close>

lemma open_read_only_fails: "usable lib (PQconnectdb lib (c_str (au_conninfo am))) = False \<Longrightarrow>
    open_read_only lib am = (False, am\<lparr>au_conn := None\<rparr>)"
  by (simp add: open_read_only_def usable_def split: option.splits)

lemma not_connected: "au_conn am = None \<Longrightarrow> audit_query lib pq call out am = Inr (DB_ERROR, out, am)"
  by (cases call) (simp_all add: on_connection_def ensureConnected_def)

text \<open>One failed attempt to reconnect is final: the query that finds the connection lost and the server
  unreachable answers \<open>DB_ERROR\<close>, and so does every query after it, whatever the network has become, until
  \<open>connect\<close> is called again, which the program does at start-up only.\<close>

theorem failed_reconnect_is_final:
  assumes "au_conn am = Some c" "\<not> PQstatus_ok lib c"
    and "au_conninfo am \<noteq> []" "\<not> usable lib (PQconnectdb lib (c_str (au_conninfo am)))"
  shows "\<exists>am'. audit_query lib pq call out am = Inr (DB_ERROR, out, am')
    \<and> (\<forall>lib pq call out. audit_query lib pq call out am' = Inr (DB_ERROR, out, am'))"
proof -
  let ?am = "am\<lparr>au_conn := None, au_open := au_open am - 1\<rparr>"
  have "ensureConnected lib am = (DB_ERROR, ?am)"
    using assms by (simp add: ensureConnected_def usable_def audit_reconnect_def open_read_only_fails)
  then have "audit_query lib pq call out am = Inr (DB_ERROR, out, ?am)"
    by (cases call) (simp_all add: on_connection_def)
  moreover have "\<forall>lib pq call out. audit_query lib pq call out ?am = Inr (DB_ERROR, out, ?am)"
    by (simp add: not_connected)
  ultimately show ?thesis by blast
qed

theorem failed_reconnect_is_final_witness:
  "\<exists>am'. audit_query (audit_lib (\<lambda>a. None)) (audit_pq 2000) (SuspiciousActivity 1) []
       \<lparr>au_conn = Some (demo_audit_session\<lparr>as_alive := False\<rparr>), au_conninfo = ''host=audit'', au_open = 1\<rparr>
     = Inr (DB_ERROR, [], am')
   \<and> audit_query (audit_lib (\<lambda>a. Some demo_audit_session)) (audit_pq 3000) (ChangeHistory 9) [] am' = Inr (DB_ERROR, [], am')"
proof -
  let ?am = "\<lparr>au_conn = Some (demo_audit_session\<lparr>as_alive := False\<rparr>), au_conninfo = ''host=audit'', au_open = 1\<rparr>"
  have "au_conn ?am = Some (demo_audit_session\<lparr>as_alive := False\<rparr>)"
    "\<not> PQstatus_ok (audit_lib (\<lambda>a. None)) (demo_audit_session\<lparr>as_alive := False\<rparr>)" "au_conninfo ?am \<noteq> []"
    "\<not> usable (audit_lib (\<lambda>a. None)) (PQconnectdb (audit_lib (\<lambda>a. None)) (c_str (au_conninfo ?am)))"
    by (simp_all add: audit_lib_def usable_def)
  note final = failed_reconnect_is_final [OF this]
  show ?thesis using final [of "audit_pq 2000" "SuspiciousActivity 1" "[]"] by blast
qed

text \<open>\<open>connect\<close> on a lost connection forgets the old object: it is never released.\<close>

lemma connect_leaks:
  assumes "au_conn am = Some c" "\<not> PQstatus_ok lib c" "audit_connect lib conninfo am = (OK, am')"
  shows "au_open am' = au_open am + 1"
  using assms by (auto simp: audit_connect_def usable_def open_read_only_def
      split: if_splits option.splits prod.splits pg_result.splits)

section \<open>What the queries answer\<close>

lemma length_show_nat: "n < 10 ^ k \<Longrightarrow> 0 < k \<Longrightarrow> length (show_nat n) \<le> k"
proof (induction n arbitrary: k rule: show_nat.induct)
  case (1 n)
  show ?case
  proof (cases "n < 10")
    case True
    then show ?thesis using 1(3) by (subst show_nat.simps) simp
  next
    case False
    with 1(2,3) obtain j where j: "k = Suc j" "0 < j" by (cases k; cases "k - 1") auto
    with 1(2) have "n div 10 < 10 ^ j" by (simp add: div_less_iff_less_mult mult.commute)
    from 1(1) [OF False this j(2)] False j(1) show ?thesis by (subst show_nat.simps) simp
  qed
qed

definition in_64 :: "int \<Rightarrow> bool" where
  "in_64 i \<longleftrightarrow> - (2 ^ 63) \<le> i \<and> i < 2 ^ 63"

lemma num_param_in_64:
  assumes "in_64 i"
  shows "num_param i = Some (show_int i)"
proof -
  have "nat i < 10 ^ 19" "nat (- i) < 10 ^ 19" using assms by (auto simp: in_64_def)
  then have "length (show_nat (nat i)) \<le> 19" "length (show_nat (nat (- i))) \<le> 19" by (simp_all add: length_show_nat)
  then have "length (show_int i) < 24" by (auto simp: show_int_def)
  then show ?thesis by (simp add: num_param_def in_buffer_id)
qed

fun call_in_64 :: "audit_call \<Rightarrow> bool" where
  "call_in_64 (ChangeHistory c) = in_64 c"
| "call_in_64 (OfficerActions o1 from to) = (in_64 o1 \<and> in_64 from \<and> in_64 to)"
| "call_in_64 (TableChanges t k) = in_64 k"
| "call_in_64 (TimeWindow from to) = (in_64 from \<and> in_64 to)"
| "call_in_64 (SuspiciousActivity s) = in_64 s"

text \<open>The record of an entry: its texts cut to their arrays, no officer as officer 0.\<close>

definition record_of_entry :: "audit_entry \<Rightarrow> audit_record" where
  "record_of_entry e =
     \<lparr>arec_log_id = ae_log_id e, arec_table_name = in_buffer 32 (ae_table_name e), arec_record_pk = ae_record_pk e,
      arec_operation = in_buffer 16 (ae_operation e),
      arec_officer_id = (case ae_officer_id e of None \<Rightarrow> 0 | Some officer \<Rightarrow> officer),
      arec_belt_number = in_buffer 32 (cell (ae_belt_number e)), arec_backend_pid = ae_backend_pid e,
      arec_client_addr = in_buffer 48 (cell (ae_client_addr e)),
      arec_old_values = in_buffer AUDIT_JSONB_LEN (cell (ae_old_values e)),
      arec_new_values = in_buffer AUDIT_JSONB_LEN (cell (ae_new_values e)), arec_changed_at = ae_changed_at e\<rparr>"

lemma atoi_empty: "atoi [] = 0"
  by (simp add: atoi_def signed_digits_def read_digits_def)

lemma mapRow_cells: "audit_mapRow (audit_cells e) = Inr (record_of_entry e)"
  by (simp add: audit_mapRow_def audit_cells_def record_of_entry_def atoi_show_int atoi_empty split: option.split)

lemma mapRows_cells: "audit_mapRows (map audit_cells es) = Inr (map record_of_entry es)"
  by (induction es) (simp_all add: mapRow_cells)

text \<open>What each call asks for.\<close>

fun asked :: "int \<Rightarrow> audit_db \<Rightarrow> audit_call \<Rightarrow> audit_entry list" where
  "asked now db (ChangeHistory c) = case_history db c"
| "asked now db (OfficerActions officer from to) = officer_actions db officer from to"
| "asked now db (TableChanges t k) = table_changes db t k"
| "asked now db (TimeWindow from to) = time_window db from to"
| "asked now db (SuspiciousActivity s) = suspicious db now s"

definition empty_answer :: "audit_call \<Rightarrow> result_code" where
  "empty_answer call = (case call of SuspiciousActivity s \<Rightarrow> OK | _ \<Rightarrow> NOT_FOUND)"

lemma execute_live:
  assumes "au_conn am = Some c" "as_alive c"
  shows "executeAndMap (audit_pq now) sql ps out am =
    (if \<not> as_names c then Inr (DB_ERROR, out, am)
     else let es = audit_select now (as_db c) sql ps
     in if es = [] then Inr (NOT_FOUND, out, am) else Inr (OK, out @ map record_of_entry es, am))"
  using assms by (simp add: executeAndMap_def audit_pq_def Let_def mapRows_cells)

lemma sql_int0_text: "sql_int0 (Some (show_int i)) = i"
  by (simp add: sql_int0_def atoi_show_int)

lemma audit_query_live:
  assumes "au_conn am = Some c" "as_alive c" "call_in_64 call"
  shows "audit_query (audit_lib dial) (audit_pq now) call out am =
    (if \<not> as_names c then Inr (DB_ERROR, out, am)
     else let es = asked now (as_db c) call
     in Inr (if es = [] then empty_answer call else OK, out @ map record_of_entry es, am))"
proof -
  have e: "ensureConnected (audit_lib dial) am = (OK, am)"
    using assms by (simp add: ensureConnected_def usable_def audit_lib_def)
  show ?thesis
    using assms(3)
    by (cases call) (simp_all add: on_connection_def e audit_query_defs query_detectSuspiciousActivity_def
        execute_live [OF assms(1,2)] num_param_in_64 sql_int0_text Let_def empty_answer_def)
qed

text \<open>C31 On a live connection to a server whose schema has the names the statements use, every audit query
  answers exactly the entries that its statement selects, in its order (newest first, the actions of an officer
  too, and oldest first for the changes of one record), each as the record of its columns; a text longer than its
  array, in particular a row image of more than 8191 characters, is cut. With a schema that lacks the names, as the
  repository's own does, every query answers \<open>DB_ERROR\<close>.\<close>

theorem audit_queries_answer:
  assumes "fc_audit (sm_facades sm) = Some a" "au_conn am = Some c" "as_alive c" "call_in_64 call"
  shows "facade_audit sm (audit_lib dial) (audit_pq now) call am =
    (if \<not> as_names c then Inr ((DB_ERROR, []), am)
     else let es = asked now (as_db c) call
          in Inr (if es = [] then (empty_answer call, []) else success (map record_of_entry es), am))"
  using assms
  by (auto simp: facade_audit_def through_def adapter_audit_def adapt_rc_def s3_audit_def audit_query_live Let_def
      success_def failure_def empty_answer_def split: audit_call.splits)

theorem audit_queries_answer_witness:
  "\<exists>r sm. system_init (\<lambda>i. i) new_manager = (r, sm)
    \<and> facade_audit sm (audit_lib (\<lambda>a. None)) (audit_pq 2000) (TableChanges (Some ''CASES'') 9)
        \<lparr>au_conn = Some demo_audit_session, au_conninfo = [], au_open = 1\<rparr>
      = Inr (success [record_of_entry demo_entry], \<lparr>au_conn = Some demo_audit_session, au_conninfo = [], au_open = 1\<rparr>)"
proof -
  obtain r sm where i: "system_init (\<lambda>i. i) new_manager = (r, sm)" by (cases "system_init (\<lambda>i. i) new_manager")
  then have f: "fc_audit (sm_facades sm) = Some 3"
    by (auto simp: system_init_def new_manager_def no_adapters_def fill_def Let_def)
  have "asked 2000 demo_audit_db (TableChanges (Some ''CASES'') 9) = [demo_entry]"
    by (simp add: table_changes_def oldest_first_def demo_audit_db_def demo_entry_def)
  with i show ?thesis
    by (intro exI [of _ r] exI [of _ sm])
      (simp add: audit_queries_answer [OF f] demo_audit_session_def in_64_def Let_def)
qed

section \<open>Rapid deletions\<close>

lemma flagged: "set (suspicious db now s) = {e \<in> set (al_log db). bulk_change db now s e \<or> rapid_delete db now s e
    \<or> after_hours db now s e \<or> jurisdiction_violation db now s e}"
  by (auto simp: suspicious_def newest_first_def)

text \<open>C33 Rapid deletions are counted by the five-minute marks of the clock: an officer who deletes nine times
  or more within some five minutes is always caught, with every deletion of the day, and whoever is
  caught deleted five times within some five minutes.\<close>

theorem rapid_deletes_detected:
  assumes "e \<in> set (deletions db now station (Some officer))"
  shows "(\<forall>t. 9 \<le> length (filter (\<lambda>x. t \<le> ae_changed_at x \<and> ae_changed_at x < t + 300)
            (deletions db now station (Some officer))) \<longrightarrow> e \<in> set (suspicious db now station))
    \<and> (rapid_delete db now station e \<longrightarrow>
        (\<exists>t. 5 \<le> length (filter (\<lambda>x. t \<le> ae_changed_at x \<and> ae_changed_at x < t + 300)
            (deletions db now station (Some officer)))))"
proof -
  have r: "rapid_delete db now station e \<longleftrightarrow>
      some_group 5 (\<lambda>x. ae_changed_at x div 300) (deletions db now station (Some officer))"
    and m: "e \<in> set (al_log db)"
    using assms by (auto simp: rapid_delete_def deletions_def)
  show ?thesis
    using window_has_group [of 300 5 _ ae_changed_at "deletions db now station (Some officer)"]
      group_in_window [of 300 5 ae_changed_at "deletions db now station (Some officer)"]
    by (auto simp: flagged r m)
qed

text \<open>Eight deletions within two seconds that nobody notices.\<close>

definition deleted_at :: "int \<Rightarrow> audit_entry" where
  "deleted_at t = demo_entry\<lparr>ae_operation := ''DELETE'', ae_changed_at := t\<rparr>"

definition deletions_db :: "int list \<Rightarrow> audit_db" where
  "deletions_db ts = demo_audit_db\<lparr>al_log := map deleted_at ts\<rparr>"

theorem rapid_deletes_detected_witness:
  "deleted_at 39000 \<in> set (suspicious (deletions_db [38999, 38999, 38999, 38999, 39000, 39000, 39000, 39000, 39000]) 40000 1)
   \<and> suspicious (deletions_db [38999, 38999, 38999, 38999, 39000, 39000, 39000, 39000]) 40000 1 = []"
proof
  let ?db = "deletions_db [38999, 38999, 38999, 38999, 39000, 39000, 39000, 39000, 39000]"
  have "deletions ?db 40000 1 (Some 7) = al_log ?db"
    by (simp add: deletions_def deletions_db_def deleted_at_def recent_def by_officer_of_def refers_def
        demo_audit_db_def demo_entry_def)
  then have "deleted_at 39000 \<in> set (deletions ?db 40000 1 (Some 7))"
    "9 \<le> length (filter (\<lambda>x. 38800 \<le> ae_changed_at x \<and> ae_changed_at x < 38800 + 300) (deletions ?db 40000 1 (Some 7)))"
    by (simp_all add: deletions_db_def deleted_at_def)
  with rapid_deletes_detected show "deleted_at 39000 \<in> set (suspicious ?db 40000 1)" by blast
  show "suspicious (deletions_db [38999, 38999, 38999, 38999, 39000, 39000, 39000, 39000]) 40000 1 = []"
    by code_simp
qed

end
