(* ===== verification/Enforcement_Facade.thy ===== *)
theory Enforcement_Facade
  imports Enforcement Personnel
begin

text \<open>
  The enforcement part of \<open>Subsystem3\<close> as the system layer offers it (\<open>src/system/system.cpp\<close>): the
  adapter's methods, \<open>EnforcementFacade\<close>, and what sequences of its calls can do to the tables. Like in the
  managers, \<open>pq\<close> is \<open>PQexecParams\<close> and \<open>freed\<close> what reading a released result gives.
\<close>

section \<open>The adapter\<close>

definition no_bail :: bail_record where
  "no_bail = \<lparr>bl_bail_id = 0, bl_bail_number = [], bl_arrest_id = 0, bl_bail_status = [], bl_bail_type = [],
     bl_bail_amount_paise = 0, bl_court_name = [], bl_magistrate_name = [], bl_valid_until = [], bl_surety_name = [],
     bl_surety_cnic = [], bl_surety_contact = [], bl_revocation_reason = [], bl_recorded_by = 0, bl_revoked_by = 0,
     bl_bail_date = 0, bl_revoked_at = 0, bl_created_at = 0, bl_updated_at = 0\<rparr>"

definition s3_requestWarrant ::
  "'d backend \<Rightarrow> int \<Rightarrow> session_context \<Rightarrow> int \<Rightarrow> cstr \<Rightarrow> warrant_type \<Rightarrow> cstr \<Rightarrow> cstr \<Rightarrow> cstr \<Rightarrow> cstr \<Rightarrow> 'd \<Rightarrow> (int system_result \<times> 'd) run" where
  "s3_requestWarrant pq now session case_id accused_cnic wt magistrate court valid_until target_address =
     adapt_bool 0 (\<lambda>v db. Inr (requestWarrant pq now session case_id accused_cnic wt magistrate court valid_until target_address v db))"

definition s3_executeWarrant ::
  "'d backend \<Rightarrow> int \<Rightarrow> session_context \<Rightarrow> int \<Rightarrow> 'd \<Rightarrow> (unit system_result \<times> 'd) run" where
  "s3_executeWarrant pq now session warrant_id =
     adapt_bool_void (\<lambda>db. Inr (executeWarrant pq now session warrant_id OK db))"

definition s3_cancelWarrant ::
  "'d backend \<Rightarrow> int \<Rightarrow> session_context \<Rightarrow> int \<Rightarrow> cstr \<Rightarrow> 'd \<Rightarrow> (unit system_result \<times> 'd) run" where
  "s3_cancelWarrant pq now session warrant_id reason =
     adapt_bool_void (\<lambda>db. Inr (cancelWarrant pq now session warrant_id reason OK db))"

definition s3_getWarrantsByCase ::
  "'d backend \<Rightarrow> int \<Rightarrow> 'd \<Rightarrow> (warrant_record list system_result \<times> 'd) run" where
  "s3_getWarrantsByCase pq case_id =
     adapt_rc [] (\<lambda>v db. Inr (getWarrantsByCase pq case_id v db))"

definition s3_getActiveWarrants ::
  "'d backend \<Rightarrow> int \<Rightarrow> 'd \<Rightarrow> (warrant_record list system_result \<times> 'd) run" where
  "s3_getActiveWarrants pq station_id =
     adapt_rc [] (\<lambda>v db. Inr (getActiveWarrants pq station_id v db))"

definition s3_recordArrest ::
  "'d backend \<Rightarrow> int \<Rightarrow> session_context \<Rightarrow> int \<Rightarrow> cstr \<Rightarrow> cstr \<Rightarrow> int \<Rightarrow> 'd \<Rightarrow> (int system_result \<times> 'd) run" where
  "s3_recordArrest pq now session case_id cnic location warrant_id =
     adapt_bool 0 (\<lambda>v db. Inr (recordArrest pq now session case_id cnic location warrant_id v db))"

definition s3_updateCustodyStatus ::
  "'d backend \<Rightarrow> (string \<Rightarrow> string run) \<Rightarrow> session_context \<Rightarrow> int \<Rightarrow> custody_status \<Rightarrow> cstr \<Rightarrow> 'd \<Rightarrow> (unit system_result \<times> 'd) run" where
  "s3_updateCustodyStatus pq freed session arrest_id st reason =
     adapt_bool_void (\<lambda>db. updateCustodyStatus pq freed session arrest_id st reason OK db)"

definition s3_markArrestAsDisputed ::
  "'d backend \<Rightarrow> session_context \<Rightarrow> int \<Rightarrow> cstr \<Rightarrow> 'd \<Rightarrow> (unit system_result \<times> 'd) run" where
  "s3_markArrestAsDisputed pq session arrest_id reason =
     adapt_bool_void (\<lambda>db. Inr (markAsDisputed pq session arrest_id reason db))"

definition s3_getArrestsByCase ::
  "'d backend \<Rightarrow> int \<Rightarrow> 'd \<Rightarrow> (arrest_record list system_result \<times> 'd) run" where
  "s3_getArrestsByCase pq case_id =
     adapt_rc [] (\<lambda>v db. Inr (getArrestsByCase pq case_id v db))"

definition s3_recordBail ::
  "'d backend \<Rightarrow> int \<Rightarrow> session_context \<Rightarrow> int \<Rightarrow> bail_type \<Rightarrow> 64 word \<Rightarrow> cstr \<Rightarrow> cstr \<Rightarrow> cstr \<Rightarrow> cstr \<Rightarrow> cstr \<Rightarrow> cstr \<Rightarrow> 'd \<Rightarrow> (int system_result \<times> 'd) run" where
  "s3_recordBail pq now session arrest_id bt amount court magistrate valid_until surety_name surety_cnic surety_contact =
     adapt_bool 0 (\<lambda>v db. Inr (recordBail pq now session arrest_id bt amount court magistrate valid_until surety_name surety_cnic surety_contact v db))"

definition s3_revokeBail ::
  "'d backend \<Rightarrow> (string \<Rightarrow> string run) \<Rightarrow> session_context \<Rightarrow> int \<Rightarrow> cstr \<Rightarrow> 'd \<Rightarrow> (unit system_result \<times> 'd) run" where
  "s3_revokeBail pq freed session bail_id reason =
     adapt_bool_void (\<lambda>db. revokeBail pq freed session bail_id reason OK db)"

definition s3_getBailByArrest ::
  "'d backend \<Rightarrow> int \<Rightarrow> 'd \<Rightarrow> (bail_record system_result \<times> 'd) run" where
  "s3_getBailByArrest pq arrest_id =
     adapt_rc no_bail (\<lambda>v db. Inr (getBailByArrest pq arrest_id v db))"

section \<open>The facade\<close>

definition enforcement_requestWarrant ::
  "system_manager \<Rightarrow> 'd backend \<Rightarrow> int \<Rightarrow> session_context \<Rightarrow> int \<Rightarrow> cstr \<Rightarrow> warrant_type \<Rightarrow> cstr \<Rightarrow> cstr \<Rightarrow> cstr \<Rightarrow> cstr \<Rightarrow> 'd \<Rightarrow> (int system_result \<times> 'd) run" where
  "enforcement_requestWarrant sm pq now session case_id accused_cnic wt magistrate court valid_until target_address db =
     through (fc_enforcement (sm_facades sm)) (s3_requestWarrant pq now session case_id accused_cnic wt magistrate court valid_until target_address db)"

definition enforcement_executeWarrant ::
  "system_manager \<Rightarrow> 'd backend \<Rightarrow> int \<Rightarrow> session_context \<Rightarrow> int \<Rightarrow> 'd \<Rightarrow> (unit system_result \<times> 'd) run" where
  "enforcement_executeWarrant sm pq now session warrant_id db =
     through (fc_enforcement (sm_facades sm)) (s3_executeWarrant pq now session warrant_id db)"

definition enforcement_cancelWarrant ::
  "system_manager \<Rightarrow> 'd backend \<Rightarrow> int \<Rightarrow> session_context \<Rightarrow> int \<Rightarrow> cstr \<Rightarrow> 'd \<Rightarrow> (unit system_result \<times> 'd) run" where
  "enforcement_cancelWarrant sm pq now session warrant_id reason db =
     through (fc_enforcement (sm_facades sm)) (s3_cancelWarrant pq now session warrant_id reason db)"

definition enforcement_getWarrantsByCase ::
  "system_manager \<Rightarrow> 'd backend \<Rightarrow> int \<Rightarrow> 'd \<Rightarrow> (warrant_record list system_result \<times> 'd) run" where
  "enforcement_getWarrantsByCase sm pq case_id db =
     through (fc_enforcement (sm_facades sm)) (s3_getWarrantsByCase pq case_id db)"

definition enforcement_getActiveWarrants ::
  "system_manager \<Rightarrow> 'd backend \<Rightarrow> int \<Rightarrow> 'd \<Rightarrow> (warrant_record list system_result \<times> 'd) run" where
  "enforcement_getActiveWarrants sm pq station_id db =
     through (fc_enforcement (sm_facades sm)) (s3_getActiveWarrants pq station_id db)"

definition enforcement_recordArrest ::
  "system_manager \<Rightarrow> 'd backend \<Rightarrow> int \<Rightarrow> session_context \<Rightarrow> int \<Rightarrow> cstr \<Rightarrow> cstr \<Rightarrow> int \<Rightarrow> 'd \<Rightarrow> (int system_result \<times> 'd) run" where
  "enforcement_recordArrest sm pq now session case_id cnic location warrant_id db =
     through (fc_enforcement (sm_facades sm)) (s3_recordArrest pq now session case_id cnic location warrant_id db)"

definition enforcement_updateCustodyStatus ::
  "system_manager \<Rightarrow> 'd backend \<Rightarrow> (string \<Rightarrow> string run) \<Rightarrow> session_context \<Rightarrow> int \<Rightarrow> custody_status \<Rightarrow> cstr \<Rightarrow> 'd \<Rightarrow> (unit system_result \<times> 'd) run" where
  "enforcement_updateCustodyStatus sm pq freed session arrest_id st reason db =
     through (fc_enforcement (sm_facades sm)) (s3_updateCustodyStatus pq freed session arrest_id st reason db)"

definition enforcement_markArrestAsDisputed ::
  "system_manager \<Rightarrow> 'd backend \<Rightarrow> session_context \<Rightarrow> int \<Rightarrow> cstr \<Rightarrow> 'd \<Rightarrow> (unit system_result \<times> 'd) run" where
  "enforcement_markArrestAsDisputed sm pq session arrest_id reason db =
     through (fc_enforcement (sm_facades sm)) (s3_markArrestAsDisputed pq session arrest_id reason db)"

definition enforcement_getArrestsByCase ::
  "system_manager \<Rightarrow> 'd backend \<Rightarrow> int \<Rightarrow> 'd \<Rightarrow> (arrest_record list system_result \<times> 'd) run" where
  "enforcement_getArrestsByCase sm pq case_id db =
     through (fc_enforcement (sm_facades sm)) (s3_getArrestsByCase pq case_id db)"

definition enforcement_recordBail ::
  "system_manager \<Rightarrow> 'd backend \<Rightarrow> int \<Rightarrow> session_context \<Rightarrow> int \<Rightarrow> bail_type \<Rightarrow> 64 word \<Rightarrow> cstr \<Rightarrow> cstr \<Rightarrow> cstr \<Rightarrow> cstr \<Rightarrow> cstr \<Rightarrow> cstr \<Rightarrow> 'd \<Rightarrow> (int system_result \<times> 'd) run" where
  "enforcement_recordBail sm pq now session arrest_id bt amount court magistrate valid_until surety_name surety_cnic surety_contact db =
     through (fc_enforcement (sm_facades sm)) (s3_recordBail pq now session arrest_id bt amount court magistrate valid_until surety_name surety_cnic surety_contact db)"

definition enforcement_revokeBail ::
  "system_manager \<Rightarrow> 'd backend \<Rightarrow> (string \<Rightarrow> string run) \<Rightarrow> session_context \<Rightarrow> int \<Rightarrow> cstr \<Rightarrow> 'd \<Rightarrow> (unit system_result \<times> 'd) run" where
  "enforcement_revokeBail sm pq freed session bail_id reason db =
     through (fc_enforcement (sm_facades sm)) (s3_revokeBail pq freed session bail_id reason db)"

definition enforcement_getBailByArrest ::
  "system_manager \<Rightarrow> 'd backend \<Rightarrow> int \<Rightarrow> 'd \<Rightarrow> (bail_record system_result \<times> 'd) run" where
  "enforcement_getBailByArrest sm pq arrest_id db =
     through (fc_enforcement (sm_facades sm)) (s3_getBailByArrest pq arrest_id db)"

section \<open>Sequences of calls\<close>

text \<open>The calls of the facade; \<open>enforcement_run\<close> is the state a call leaves.\<close>

datatype enforcement_call =
    RequestWarrant session_context int cstr warrant_type cstr cstr cstr cstr
  | ExecuteWarrant session_context int
  | CancelWarrant session_context int cstr
  | GetWarrantsByCase int
  | GetActiveWarrants int
  | RecordArrest session_context int cstr cstr int
  | UpdateCustodyStatus session_context int custody_status cstr
  | MarkArrestAsDisputed session_context int cstr
  | GetArrestsByCase int
  | RecordBail session_context int bail_type "64 word" cstr cstr cstr cstr cstr cstr
  | RevokeBail session_context int cstr
  | GetBailByArrest int

fun enforcement_run ::
  "system_manager \<Rightarrow> 'd backend \<Rightarrow> (string \<Rightarrow> string run) \<Rightarrow> int \<Rightarrow> enforcement_call \<Rightarrow> 'd \<Rightarrow> 'd run" where
  "enforcement_run sm pq freed now (RequestWarrant session case_id accused_cnic wt magistrate court valid_until target_address) db = run_state (enforcement_requestWarrant sm pq now session case_id accused_cnic wt magistrate court valid_until target_address db)"
| "enforcement_run sm pq freed now (ExecuteWarrant session warrant_id) db = run_state (enforcement_executeWarrant sm pq now session warrant_id db)"
| "enforcement_run sm pq freed now (CancelWarrant session warrant_id reason) db = run_state (enforcement_cancelWarrant sm pq now session warrant_id reason db)"
| "enforcement_run sm pq freed now (GetWarrantsByCase case_id) db = run_state (enforcement_getWarrantsByCase sm pq case_id db)"
| "enforcement_run sm pq freed now (GetActiveWarrants station_id) db = run_state (enforcement_getActiveWarrants sm pq station_id db)"
| "enforcement_run sm pq freed now (RecordArrest session case_id cnic location warrant_id) db = run_state (enforcement_recordArrest sm pq now session case_id cnic location warrant_id db)"
| "enforcement_run sm pq freed now (UpdateCustodyStatus session arrest_id st reason) db = run_state (enforcement_updateCustodyStatus sm pq freed session arrest_id st reason db)"
| "enforcement_run sm pq freed now (MarkArrestAsDisputed session arrest_id reason) db = run_state (enforcement_markArrestAsDisputed sm pq session arrest_id reason db)"
| "enforcement_run sm pq freed now (GetArrestsByCase case_id) db = run_state (enforcement_getArrestsByCase sm pq case_id db)"
| "enforcement_run sm pq freed now (RecordBail session arrest_id bt amount court magistrate valid_until surety_name surety_cnic surety_contact) db = run_state (enforcement_recordBail sm pq now session arrest_id bt amount court magistrate valid_until surety_name surety_cnic surety_contact db)"
| "enforcement_run sm pq freed now (RevokeBail session bail_id reason) db = run_state (enforcement_revokeBail sm pq freed session bail_id reason db)"
| "enforcement_run sm pq freed now (GetBailByArrest arrest_id) db = run_state (enforcement_getBailByArrest sm pq arrest_id db)"

section \<open>Nothing is issued\<close>

text \<open>
  The rank check of the managers lets nobody pass, so the operations behind it do nothing; the others
  neither write bail records nor add a warrant.
\<close>

definition nothing_issued :: "case_db \<Rightarrow> case_db \<Rightarrow> bool" where
  "nothing_issued db db' \<longleftrightarrow> db_bails db' = db_bails db
     \<and> (\<forall>i. map_of (db_warrants db) i = None \<longrightarrow> map_of (db_warrants db') i = None)"

lemma nothing_issued_refl [simp]: "nothing_issued db db"
  by (simp add: nothing_issued_def)

lemma nothing_issued_trans [trans]: "nothing_issued a b \<Longrightarrow> nothing_issued b c \<Longrightarrow> nothing_issued a c"
  by (simp add: nothing_issued_def)

lemma exec_sql_issues_nothing:
  assumes "exec_sql stmt ps db = (res, db')" "stmt \<notin> {SQL_INSERT, SQL_INSERT_BAIL, SQL_REVOKE_BAIL}"
  shows "nothing_issued db db'"
proof -
  have "db_bails db' = db_bails db"
    using assms by (cases stmt) (auto simp: sql_defs on_arrests_def on_warrants_def Let_def split: pg_result.splits)
  moreover have "map_of (db_warrants db') i = None" if "map_of (db_warrants db) i = None" for i
    using assms that by (cases stmt) (auto simp: sql_defs on_arrests_def on_warrants_def on_bails_def Let_def
        map_of_update_where split: pg_result.splits)
  ultimately show ?thesis by (simp add: nothing_issued_def)
qed

lemma run_sql_issues_nothing:
  assumes "stmt \<notin> {SQL_INSERT, SQL_INSERT_BAIL, SQL_REVOKE_BAIL}"
  shows "nothing_issued db (snd (run_sql db stmt ps))"
proof -
  obtain res db' where r: "exec_sql stmt ps (db\<lparr>db_count := db_count db + 1\<rparr>) = (res, db')" by fastforce
  from exec_sql_issues_nothing [OF r assms] have "nothing_issued db db'" by (simp add: nothing_issued_def)
  then show ?thesis using r by (simp add: run_sql_def Let_def nothing_issued_def)
qed

text \<open>What a call of the facade does to the tables, from what the statements outside the rank gate do.\<close>

locale gated_backend =
  fixes pq :: "'d backend" and R :: "'d \<Rightarrow> 'd \<Rightarrow> bool"
  assumes R_refl: "R db db"
    and R_trans: "R a b \<Longrightarrow> R b c \<Longrightarrow> R a c"
    and statement: "stmt \<notin> {SQL_INSERT, SQL_INSERT_BAIL, SQL_REVOKE_BAIL} \<Longrightarrow> R db (snd (pq db stmt ps))"
begin

lemma answered: "pq db stmt ps = (res, db') \<Longrightarrow> stmt \<notin> {SQL_INSERT, SQL_INSERT_BAIL, SQL_REVOKE_BAIL} \<Longrightarrow> R db db'"
  using statement [of stmt db ps] by simp

lemma session_set: "setSessionVars pq officer belt db = (ok, db') \<Longrightarrow> R db db'"
  by (auto simp: setSessionVars_def dest: answered split: prod.splits pg_result.splits)

lemma person_looked_up: "personExists pq cnic db = (ok, db') \<Longrightarrow> R db db'"
  by (auto simp: personExists_def dest: answered split: prod.splits pg_result.splits)

lemma transition_checked: "validateTransition pq freed i target cur rc db = Inr (legal, cur', rc', db') \<Longrightarrow> R db db'"
  by (auto simp: validateTransition_def Let_def run_simps dest: answered
      split: prod.splits pg_result.splits list.splits if_splits)

lemma warrant_marked: "R db (mark_warrant_executed pq session w db)"
  by (simp add: mark_warrant_executed_def R_refl statement)

lemma arrest_recorded:
  assumes "recordArrest pq now session case_id cnic loc w out db = (ok, i, rc, db')"
  shows "R db db'"
proof -
  obtain ex db1 where p: "personExists pq cnic db = (ex, db1)" by fastforce
  obtain sok db2 where s: "setSessionVars pq (sc_officerId session) (sc_belt_number session) db1 = (sok, db2)" by fastforce
  define ps where "ps = [Some (arrest_number now session), cnic, int_param case_id,
    if 0 < w then int_param w else None, int_param (sc_officerId session), loc]"
  obtain res db3 where q: "pq db2 SQL_INSERT_ARREST ps = (res, db3)" by fastforce
  have "db' = db1 \<or> db' = db2 \<or> db' = db3 \<or> db' = mark_warrant_executed pq session w db3"
    using assms p s q by (auto simp: recordArrest_def Let_def ps_def split: if_splits pg_result.splits list.splits)
  moreover have r1: "R db db1" by (rule person_looked_up [OF p])
  moreover have r2: "R db db2" by (rule R_trans [OF r1 session_set [OF s]])
  moreover have r3: "R db db3" by (rule R_trans [OF r2 answered [OF q]]) simp
  moreover have "R db (mark_warrant_executed pq session w db3)" by (rule R_trans [OF r3 warrant_marked])
  ultimately show ?thesis by (elim disjE) simp_all
qed

lemma custody_updated:
  assumes "updateCustodyStatus pq freed session i st reason rc db = Inr (ok, rc', db')"
  shows "R db db'"
proof (cases "(st = RELEASED \<or> st = ESCAPED) \<and> null_or_empty reason")
  case True
  with assms show ?thesis by (simp add: updateCustodyStatus_def R_refl)
next
  case False
  with assms obtain legal cur rc1 db1
    where v: "validateTransition pq freed i (custodyStr st) [] rc db = Inr (legal, cur, rc1, db1)"
    by (auto simp: updateCustodyStatus_def Let_def and_then_Inr_iff)
  obtain sok db2 where s:
    "setSessionVars pq (sc_officerId session) (sc_belt_number session) db1 = (sok, db2)" by fastforce
  obtain res db3 where q: "pq db2 SQL_UPDATE_STATUS
      [Some (custodyStr st), Some (or_empty reason), int_param i] = (res, db3)" by fastforce
  have "db' = db1 \<or> db' = db2 \<or> db' = db3"
    using assms False v s q by (auto simp: updateCustodyStatus_def Let_def split: if_splits pg_result.splits)
  moreover have r1: "R db db1" by (rule transition_checked [OF v])
  moreover have r2: "R db db2" by (rule R_trans [OF r1 session_set [OF s]])
  moreover have "R db db3" by (rule R_trans [OF r2 answered [OF q]]) simp
  ultimately show ?thesis by (elim disjE) simp_all
qed

lemma arrest_disputed:
  assumes "markAsDisputed pq session i reason db = (ok, rc, db')"
  shows "R db db'"
proof -
  obtain sok db1 where s: "setSessionVars pq (sc_officerId session) (sc_belt_number session) db = (sok, db1)" by fastforce
  obtain res db2 where q: "pq db1 SQL_SET_DISPUTED [reason, int_param i] = (res, db2)" by fastforce
  have "db' = db \<or> db' = db1 \<or> db' = db2"
    using assms s q by (auto simp: markAsDisputed_def Let_def split: if_splits pg_result.splits)
  moreover have r1: "R db db1" by (rule session_set [OF s])
  moreover have "R db db2" by (rule R_trans [OF r1 answered [OF q]]) simp
  ultimately show ?thesis using R_refl by (elim disjE) simp_all
qed

lemma listed:
  "getArrestsByCase pq c outa db = (rc, outa', db') \<Longrightarrow> R db db'"
  "getWarrantsByCase pq c outw db = (rc, outw', db') \<Longrightarrow> R db db'"
  "getActiveWarrants pq c outw db = (rc, outw', db') \<Longrightarrow> R db db'"
  "getBailByArrest pq c outb db = (rc, outb', db') \<Longrightarrow> R db db'"
  by (auto simp: getArrestsByCase_def getWarrantsByCase_def getActiveWarrants_def getBailByArrest_def
      dest: answered split: prod.splits pg_result.splits list.splits if_splits)

lemma gate_closed:
  "requestWarrant pq now session case_id cnic wt judge court valid addr out db = (ok, i, rc, db') \<Longrightarrow> R db db'"
  "executeWarrant pq now session i0 rc0 db = (ok, rc, db') \<Longrightarrow> R db db'"
  "cancelWarrant pq now session i0 reason rc0 db = (ok, rc, db') \<Longrightarrow> R db db'"
  "recordBail pq now session i0 bt amount court judge valid sn sc sk out db = (ok, i, rc, db') \<Longrightarrow> R db db'"
  "revokeBail pq freed session i0 reason rc0 db = Inr (ok, rc, db') \<Longrightarrow> R db db'"
  using R_refl by (auto simp: requestWarrant_def executeWarrant_def cancelWarrant_def recordBail_def revokeBail_def
      split: if_splits)

lemmas operations = arrest_recorded custody_updated arrest_disputed listed gate_closed

end

interpretation issued: gated_backend run_sql nothing_issued
  by unfold_locales (auto intro: nothing_issued_trans run_sql_issues_nothing)

lemmas s3_enforcement_defs = s3_requestWarrant_def s3_executeWarrant_def s3_cancelWarrant_def
  s3_getWarrantsByCase_def s3_getActiveWarrants_def s3_recordArrest_def s3_updateCustodyStatus_def
  s3_markArrestAsDisputed_def s3_getArrestsByCase_def s3_recordBail_def s3_revokeBail_def s3_getBailByArrest_def

lemmas enforcement_facade_defs = enforcement_requestWarrant_def enforcement_executeWarrant_def
  enforcement_cancelWarrant_def enforcement_getWarrantsByCase_def enforcement_getActiveWarrants_def
  enforcement_recordArrest_def enforcement_updateCustodyStatus_def enforcement_markArrestAsDisputed_def
  enforcement_getArrestsByCase_def enforcement_recordBail_def enforcement_revokeBail_def enforcement_getBailByArrest_def

lemma through_Inr: "through p r = Inr x \<longleftrightarrow> p \<noteq> None \<and> r = Inr x"
  by (simp add: through_def split: option.split)

lemma run_state_adapt:
  "run_state (adapt_bool v0 f s) = Inr s' \<longleftrightarrow> (\<exists>ok v rc. f v0 s = Inr (ok, v, rc, s'))"
  "run_state (adapt_bool_void g s) = Inr s' \<longleftrightarrow> (\<exists>ok rc. g s = Inr (ok, rc, s'))"
  "run_state (adapt_rc w0 h s) = Inr s' \<longleftrightarrow> (\<exists>rc w. h w0 s = Inr (rc, w, s'))"
  by (fastforce simp: run_state_def adapt_bool_def adapt_bool_void_def adapt_rc_def success_def failure_def run_simps)+

lemma run_state_through: "run_state (through p r) = Inr s' \<longleftrightarrow> p \<noteq> None \<and> run_state r = Inr s'"
  by (simp add: through_def run_state_def split: option.split)

lemma call_issues_nothing:
  "enforcement_run sm run_sql freed now call db = Inr db' \<Longrightarrow> nothing_issued db db'"
  by (cases call) (auto simp: enforcement_facade_defs s3_enforcement_defs run_state_through run_state_adapt
      dest: issued.operations)

fun enforcement_calls ::
  "system_manager \<Rightarrow> 'd backend \<Rightarrow> (string \<Rightarrow> string run) \<Rightarrow> (int \<times> enforcement_call) list \<Rightarrow> 'd \<Rightarrow> 'd run" where
  "enforcement_calls sm pq freed [] db = Inr db"
| "enforcement_calls sm pq freed ((now, call) # calls) db =
     and_then (enforcement_run sm pq freed now call db) (enforcement_calls sm pq freed calls)"

text \<open>C18 Whatever is called through \<open>EnforcementFacade\<close>, in whatever order and by whatever sessions, no
  warrant comes into being and no bail record is written or changed.\<close>

theorem facade_issues_nothing:
  assumes "enforcement_calls sm run_sql freed calls db = Inr db'"
  shows "db_bails db' = db_bails db
    \<and> (\<forall>i. map_of (db_warrants db) i = None \<longrightarrow> map_of (db_warrants db') i = None)"
proof -
  have "nothing_issued db db'"
    using assms
    by (induction calls arbitrary: db rule: list.induct)
      (force simp: run_simps intro: nothing_issued_trans dest: call_issues_nothing)+
  then show ?thesis by (simp add: nothing_issued_def)
qed

theorem facade_issues_nothing_witness:
  "\<exists>r sm db'. system_init (\<lambda>i. i) new_manager = (r, sm)
    \<and> enforcement_calls sm run_sql Inr
        [(1000, RequestWarrant (demo_officer\<lparr>sc_rank := IGP\<rparr>) 3 (Some ''35202'') ARREST (Some ''judge'') (Some ''court'')
           (Some ''2030-01-01'') None), (1001, MarkArrestAsDisputed demo_officer 1 (Some ''mistaken''))] demo_db = Inr db'
    \<and> db_bails db' = db_bails demo_db \<and> (\<forall>i. map_of (db_warrants demo_db) i = None \<longrightarrow> map_of (db_warrants db') i = None)"
proof -
  obtain r sm where i: "system_init (\<lambda>i. i) new_manager = (r, sm)" by (cases "system_init (\<lambda>i. i) new_manager")
  then have f: "fc_enforcement (sm_facades sm) = Some 3"
    by (auto simp: system_init_def new_manager_def no_adapters_def fill_def Let_def)
  let ?calls = "[(1000, RequestWarrant (demo_officer\<lparr>sc_rank := IGP\<rparr>) 3 (Some ''35202'') ARREST (Some ''judge'')
    (Some ''court'') (Some ''2030-01-01'') None), (1001, MarkArrestAsDisputed demo_officer 1 (Some ''mistaken''))]"
  have "\<exists>db'. enforcement_calls sm run_sql Inr ?calls demo_db = Inr db'"
    by (simp add: enforcement_facade_defs s3_enforcement_defs through_def f run_state_def adapt_bool_def adapt_bool_void_def
        requestWarrant_def NUL_def split: prod.splits)
  then obtain db' where c: "enforcement_calls sm run_sql Inr ?calls demo_db = Inr db'" by blast
  from facade_issues_nothing [OF c] c i show ?thesis by blast
qed

end
