(* ===== verification/System_Facades.thy ===== *)
theory System_Facades
  imports Forensic_Lab Personnel
begin

text \<open>
  The rest of the system layer (\<open>src/system/system.cpp\<close>): the adapters of subsystem 2 and of the forensic
  part of subsystem 3, and \<open>AuthFacade\<close>, \<open>InvestigationFacade\<close> and \<open>ForensicFacade\<close>. A facade goes through
  its pointer (\<open>through\<close>); the adapter it finds there is the default one.
\<close>

section \<open>The adapter of subsystem 2\<close>

text \<open>An object is handed over only with \<open>OK\<close> and a pointer.\<close>

definition adapt_ptr :: "result_code \<Rightarrow> 'a option \<Rightarrow> 'a option system_result" where
  "adapt_ptr rc raw = (if rc = OK \<and> raw \<noteq> None then success raw else failure None rc)"

definition adapter_registerFIR ::
  "'s query_fun \<Rightarrow> case_dto \<Rightarrow> fir_request \<Rightarrow> session_context \<Rightarrow> 's \<Rightarrow> (case_entity option system_result \<times> 's) run" where
  "adapter_registerFIR exec junk request session s =
     and_then (registerFIR exec junk request session s) (\<lambda>(rc, raw, s). Inr (adapt_ptr rc raw, s))"

definition adapter_logAndSecureEvidence ::
  "'s query_fun \<Rightarrow> files \<Rightarrow> evidence_dto \<Rightarrow> int \<Rightarrow> evidence_type \<Rightarrow> string \<Rightarrow> string \<Rightarrow> session_context
     \<Rightarrow> (mmap_handler \<times> kernel) \<times> 's
     \<Rightarrow> (evidence_entity option system_result \<times> (mmap_handler \<times> kernel) \<times> 's) run" where
  "adapter_logAndSecureEvidence exec fs junk case_id type desc file_path session s =
     and_then (logAndSecureEvidence exec fs junk case_id type desc file_path session (fst s) (snd s))
       (\<lambda>(rc, raw, notified, mem, db). Inr (adapt_ptr rc raw, mem, db))"

definition adapter_draftChargeSheet ::
  "'s query_fun \<Rightarrow> charge_sheet_dto \<Rightarrow> int \<Rightarrow> session_context \<Rightarrow> 's \<Rightarrow> (charge_sheet_dto option system_result \<times> 's) run" where
  "adapter_draftChargeSheet exec junk case_id session s =
     and_then (draftChargeSheet exec junk case_id session s) (\<lambda>(rc, raw, s). Inr (adapt_ptr rc raw, s))"

text \<open>The sheet belongs to the caller and is part of the state.\<close>

definition adapter_submitChargeSheet ::
  "'s query_fun \<Rightarrow> (nat \<Rightarrow> int) \<Rightarrow> session_context \<Rightarrow> charge_sheet_dto option \<times> 's
     \<Rightarrow> (unit system_result \<times> charge_sheet_dto option \<times> 's) run" where
  "adapter_submitChargeSheet exec clock session s =
     and_then (submitChargeSheet exec clock (fst s) session (snd s)) (\<lambda>(rc, sheet, db).
       Inr (if rc = OK then success () else failure () rc, sheet, db))"

section \<open>InvestigationFacade\<close>

definition inv_registerFIR ::
  "system_manager \<Rightarrow> 's query_fun \<Rightarrow> case_dto \<Rightarrow> fir_request \<Rightarrow> session_context \<Rightarrow> 's
     \<Rightarrow> (case_entity option system_result \<times> 's) run" where
  "inv_registerFIR sm exec junk request session s =
     through (fc_inv (sm_facades sm)) (adapter_registerFIR exec junk request session s)"

definition inv_logAndSecureEvidence ::
  "system_manager \<Rightarrow> 's query_fun \<Rightarrow> files \<Rightarrow> evidence_dto \<Rightarrow> int \<Rightarrow> evidence_type \<Rightarrow> string \<Rightarrow> string \<Rightarrow> session_context
     \<Rightarrow> (mmap_handler \<times> kernel) \<times> 's
     \<Rightarrow> (evidence_entity option system_result \<times> (mmap_handler \<times> kernel) \<times> 's) run" where
  "inv_logAndSecureEvidence sm exec fs junk case_id type desc file_path session s =
     through (fc_inv (sm_facades sm)) (adapter_logAndSecureEvidence exec fs junk case_id type desc file_path session s)"

definition inv_draftChargeSheet ::
  "system_manager \<Rightarrow> 's query_fun \<Rightarrow> charge_sheet_dto \<Rightarrow> int \<Rightarrow> session_context \<Rightarrow> 's
     \<Rightarrow> (charge_sheet_dto option system_result \<times> 's) run" where
  "inv_draftChargeSheet sm exec junk case_id session s =
     through (fc_inv (sm_facades sm)) (adapter_draftChargeSheet exec junk case_id session s)"

definition inv_submitChargeSheet ::
  "system_manager \<Rightarrow> 's query_fun \<Rightarrow> (nat \<Rightarrow> int) \<Rightarrow> session_context \<Rightarrow> charge_sheet_dto option \<times> 's
     \<Rightarrow> (unit system_result \<times> charge_sheet_dto option \<times> 's) run" where
  "inv_submitChargeSheet sm exec clock session s =
     (if fst s = None then Inr (failure () INVALID_INPUT, s)
      else through (fc_inv (sm_facades sm)) (adapter_submitChargeSheet exec clock session s))"

definition inv_fetchCase ::
  "system_manager \<Rightarrow> 's query_fun \<Rightarrow> int \<Rightarrow> 's \<Rightarrow> (case_entity option system_result \<times> 's) run" where
  "inv_fetchCase sm exec case_id s = through (fc_inv (sm_facades sm)) (adapter_fetchCase exec case_id s)"

section \<open>AuthFacade\<close>

definition auth_login ::
  "system_manager \<Rightarrow> 'c libpq \<Rightarrow> 's query_fun \<Rightarrow> cstr \<Rightarrow> 8 word list option \<Rightarrow> int \<Rightarrow> cstr \<Rightarrow> cstr
     \<Rightarrow> ('s, 'c) auth_manager \<Rightarrow> (string system_result \<times> ('s, 'c) auth_manager) run" where
  "auth_login sm lib exec env urandom now cnic password am =
     through (fc_auth (sm_facades sm)) (adapter_login lib exec env urandom now cnic password am)"

definition auth_validateToken ::
  "system_manager \<Rightarrow> int \<Rightarrow> cstr \<Rightarrow> ('s, 'c) auth_manager \<Rightarrow> session_context system_result run" where
  "auth_validateToken sm now token am = through (fc_auth (sm_facades sm)) (adapter_validateToken now token am)"

definition auth_isDutyActive ::
  "system_manager \<Rightarrow> 's query_fun \<Rightarrow> int \<Rightarrow> int \<Rightarrow> ('s, 'c) auth_manager \<Rightarrow> (bool \<times> ('s, 'c) auth_manager) run" where
  "auth_isDutyActive sm exec now officer_id am =
     through (fc_auth (sm_facades sm)) (adapter_isDutyActive exec now officer_id am)"

definition auth_refreshSession ::
  "system_manager \<Rightarrow> 's query_fun \<Rightarrow> int \<Rightarrow> cstr \<Rightarrow> ('s, 'c) auth_manager \<Rightarrow> (unit system_result \<times> ('s, 'c) auth_manager) run" where
  "auth_refreshSession sm exec now token am =
     through (fc_auth (sm_facades sm)) (adapter_refreshSession exec now token am)"

definition auth_logout ::
  "system_manager \<Rightarrow> 's query_fun \<Rightarrow> int \<Rightarrow> cstr \<Rightarrow> ('s, 'c) auth_manager \<Rightarrow> (unit system_result \<times> ('s, 'c) auth_manager) run" where
  "auth_logout sm exec now token am = through (fc_auth (sm_facades sm)) (adapter_logout exec now token am)"

section \<open>The forensic adapter\<close>

text \<open>The members of \<open>ForensicManager\<close> give their code and value as a pair.\<close>

definition adapt_pair ::
  "'v \<Rightarrow> ('v \<Rightarrow> 's \<Rightarrow> ((result_code \<times> 'v) \<times> 's) run) \<Rightarrow> 's \<Rightarrow> ('v system_result \<times> 's) run" where
  "adapt_pair v0 fn = adapt_rc v0 (\<lambda>v s. and_then (fn v s) (\<lambda>((rc, w), s). Inr (rc, w, s)))"

definition adapt_pair_void ::
  "('s \<Rightarrow> ((result_code \<times> unit) \<times> 's) run) \<Rightarrow> 's \<Rightarrow> (unit system_result \<times> 's) run" where
  "adapt_pair_void fn = adapt_rc_void (\<lambda>s. and_then (fn s) (\<lambda>((rc, w), s). Inr (rc, s)))"

definition adapter_createForensicRequest ::
  "'c libpq \<Rightarrow> 'c forensic_backend \<Rightarrow> int \<Rightarrow> cstr \<Rightarrow> int \<Rightarrow> cstr \<Rightarrow> cstr \<Rightarrow> cstr \<Rightarrow> cstr \<Rightarrow> 'c forensic_state
     \<Rightarrow> (int system_result \<times> 'c forensic_state) run" where
  "adapter_createForensicRequest lib pq now token case_id purpose purpose_desc lab_name examiner_name =
     adapt_pair 0 (createForensicRequest lib pq now token case_id purpose purpose_desc lab_name examiner_name)"

definition adapter_linkEvidence ::
  "'c libpq \<Rightarrow> 'c forensic_backend \<Rightarrow> (string \<Rightarrow> string run) \<Rightarrow> int \<Rightarrow> cstr \<Rightarrow> int \<Rightarrow> int \<Rightarrow> cstr \<Rightarrow> 'c forensic_state
     \<Rightarrow> (unit system_result \<times> 'c forensic_state) run" where
  "adapter_linkEvidence lib pq freed now token request_id evidence_id notes =
     adapt_pair_void (linkEvidence lib pq freed now token request_id evidence_id notes)"

definition adapter_recordLabReceipt ::
  "'c libpq \<Rightarrow> 'c forensic_backend \<Rightarrow> int \<Rightarrow> cstr \<Rightarrow> int \<Rightarrow> cstr \<Rightarrow> 'c forensic_state
     \<Rightarrow> (unit system_result \<times> 'c forensic_state) run" where
  "adapter_recordLabReceipt lib pq now token request_id received_date =
     adapt_pair_void (recordLabReceipt lib pq now token request_id received_date)"

definition adapter_recordExaminationStart ::
  "'c libpq \<Rightarrow> 'c forensic_backend \<Rightarrow> int \<Rightarrow> cstr \<Rightarrow> int \<Rightarrow> 'c forensic_state
     \<Rightarrow> (unit system_result \<times> 'c forensic_state) run" where
  "adapter_recordExaminationStart lib pq now token request_id =
     adapt_pair_void (recordExaminationStart lib pq now token request_id)"

definition adapter_recordFindings ::
  "'c libpq \<Rightarrow> 'c forensic_backend \<Rightarrow> int \<Rightarrow> cstr \<Rightarrow> int \<Rightarrow> cstr \<Rightarrow> cstr \<Rightarrow> cstr \<Rightarrow> 'c forensic_state
     \<Rightarrow> (unit system_result \<times> 'c forensic_state) run" where
  "adapter_recordFindings lib pq now token request_id findings report_file_path delivery_date =
     adapt_pair_void (recordFindings lib pq now token request_id findings report_file_path delivery_date)"

definition adapter_recordAmendment ::
  "'c libpq \<Rightarrow> 'c forensic_backend \<Rightarrow> int \<Rightarrow> cstr \<Rightarrow> int \<Rightarrow> cstr \<Rightarrow> 'c forensic_state
     \<Rightarrow> (unit system_result \<times> 'c forensic_state) run" where
  "adapter_recordAmendment lib pq now token request_id amended_findings =
     adapt_pair_void (recordAmendment lib pq now token request_id amended_findings)"

definition adapter_contestReport ::
  "'c libpq \<Rightarrow> 'c forensic_backend \<Rightarrow> int \<Rightarrow> cstr \<Rightarrow> int \<Rightarrow> cstr \<Rightarrow> 'c forensic_state
     \<Rightarrow> (unit system_result \<times> 'c forensic_state) run" where
  "adapter_contestReport lib pq now token request_id reason =
     adapt_pair_void (contestReport lib pq now token request_id reason)"

definition adapter_getForensicRequestsByCase ::
  "'c forensic_backend \<Rightarrow> int \<Rightarrow> cstr \<Rightarrow> int \<Rightarrow> 'c forensic_state
     \<Rightarrow> (forensic_record list system_result \<times> 'c forensic_state) run" where
  "adapter_getForensicRequestsByCase pq now token case_id =
     adapt_pair [] (getRequestsByCase pq now token case_id)"

definition adapter_getPendingForensicRequests ::
  "'c forensic_backend \<Rightarrow> int \<Rightarrow> cstr \<Rightarrow> int \<Rightarrow> 'c forensic_state
     \<Rightarrow> (forensic_record list system_result \<times> 'c forensic_state) run" where
  "adapter_getPendingForensicRequests pq now token station_id =
     adapt_pair [] (getPendingRequests pq now token station_id)"

definition adapter_getEvidenceByForensicRequest ::
  "'c forensic_backend \<Rightarrow> int \<Rightarrow> cstr \<Rightarrow> int \<Rightarrow> 'c forensic_state
     \<Rightarrow> (evidence_ref list system_result \<times> 'c forensic_state) run" where
  "adapter_getEvidenceByForensicRequest pq now token request_id =
     adapt_pair [] (getEvidenceByRequest pq now token request_id)"

section \<open>ForensicFacade\<close>

definition forensic_createForensicRequest ::
  "system_manager \<Rightarrow> 'c libpq \<Rightarrow> 'c forensic_backend \<Rightarrow> int \<Rightarrow> cstr \<Rightarrow> int \<Rightarrow> cstr \<Rightarrow> cstr \<Rightarrow> cstr \<Rightarrow> cstr \<Rightarrow> 'c forensic_state
     \<Rightarrow> (int system_result \<times> 'c forensic_state) run" where
  "forensic_createForensicRequest sm lib pq now token case_id purpose purpose_desc lab_name examiner_name am =
     through (fc_forensic (sm_facades sm)) (adapter_createForensicRequest lib pq now token case_id purpose purpose_desc lab_name examiner_name am)"

definition forensic_linkEvidence ::
  "system_manager \<Rightarrow> 'c libpq \<Rightarrow> 'c forensic_backend \<Rightarrow> (string \<Rightarrow> string run) \<Rightarrow> int \<Rightarrow> cstr \<Rightarrow> int \<Rightarrow> int \<Rightarrow> cstr \<Rightarrow> 'c forensic_state
     \<Rightarrow> (unit system_result \<times> 'c forensic_state) run" where
  "forensic_linkEvidence sm lib pq freed now token request_id evidence_id notes am =
     through (fc_forensic (sm_facades sm)) (adapter_linkEvidence lib pq freed now token request_id evidence_id notes am)"

definition forensic_recordLabReceipt ::
  "system_manager \<Rightarrow> 'c libpq \<Rightarrow> 'c forensic_backend \<Rightarrow> int \<Rightarrow> cstr \<Rightarrow> int \<Rightarrow> cstr \<Rightarrow> 'c forensic_state
     \<Rightarrow> (unit system_result \<times> 'c forensic_state) run" where
  "forensic_recordLabReceipt sm lib pq now token request_id received_date am =
     through (fc_forensic (sm_facades sm)) (adapter_recordLabReceipt lib pq now token request_id received_date am)"

definition forensic_recordExaminationStart ::
  "system_manager \<Rightarrow> 'c libpq \<Rightarrow> 'c forensic_backend \<Rightarrow> int \<Rightarrow> cstr \<Rightarrow> int \<Rightarrow> 'c forensic_state
     \<Rightarrow> (unit system_result \<times> 'c forensic_state) run" where
  "forensic_recordExaminationStart sm lib pq now token request_id am =
     through (fc_forensic (sm_facades sm)) (adapter_recordExaminationStart lib pq now token request_id am)"

definition forensic_recordFindings ::
  "system_manager \<Rightarrow> 'c libpq \<Rightarrow> 'c forensic_backend \<Rightarrow> int \<Rightarrow> cstr \<Rightarrow> int \<Rightarrow> cstr \<Rightarrow> cstr \<Rightarrow> cstr \<Rightarrow> 'c forensic_state
     \<Rightarrow> (unit system_result \<times> 'c forensic_state) run" where
  "forensic_recordFindings sm lib pq now token request_id findings report_file_path delivery_date am =
     through (fc_forensic (sm_facades sm)) (adapter_recordFindings lib pq now token request_id findings report_file_path delivery_date am)"

definition forensic_recordAmendment ::
  "system_manager \<Rightarrow> 'c libpq \<Rightarrow> 'c forensic_backend \<Rightarrow> int \<Rightarrow> cstr \<Rightarrow> int \<Rightarrow> cstr \<Rightarrow> 'c forensic_state
     \<Rightarrow> (unit system_result \<times> 'c forensic_state) run" where
  "forensic_recordAmendment sm lib pq now token request_id amended_findings am =
     through (fc_forensic (sm_facades sm)) (adapter_recordAmendment lib pq now token request_id amended_findings am)"

definition forensic_contestReport ::
  "system_manager \<Rightarrow> 'c libpq \<Rightarrow> 'c forensic_backend \<Rightarrow> int \<Rightarrow> cstr \<Rightarrow> int \<Rightarrow> cstr \<Rightarrow> 'c forensic_state
     \<Rightarrow> (unit system_result \<times> 'c forensic_state) run" where
  "forensic_contestReport sm lib pq now token request_id reason am =
     through (fc_forensic (sm_facades sm)) (adapter_contestReport lib pq now token request_id reason am)"

definition forensic_getForensicRequestsByCase ::
  "system_manager \<Rightarrow> 'c forensic_backend \<Rightarrow> int \<Rightarrow> cstr \<Rightarrow> int \<Rightarrow> 'c forensic_state
     \<Rightarrow> (forensic_record list system_result \<times> 'c forensic_state) run" where
  "forensic_getForensicRequestsByCase sm pq now token case_id am =
     through (fc_forensic (sm_facades sm)) (adapter_getForensicRequestsByCase pq now token case_id am)"

definition forensic_getPendingForensicRequests ::
  "system_manager \<Rightarrow> 'c forensic_backend \<Rightarrow> int \<Rightarrow> cstr \<Rightarrow> int \<Rightarrow> 'c forensic_state
     \<Rightarrow> (forensic_record list system_result \<times> 'c forensic_state) run" where
  "forensic_getPendingForensicRequests sm pq now token station_id am =
     through (fc_forensic (sm_facades sm)) (adapter_getPendingForensicRequests pq now token station_id am)"

definition forensic_getEvidenceByForensicRequest ::
  "system_manager \<Rightarrow> 'c forensic_backend \<Rightarrow> int \<Rightarrow> cstr \<Rightarrow> int \<Rightarrow> 'c forensic_state
     \<Rightarrow> (evidence_ref list system_result \<times> 'c forensic_state) run" where
  "forensic_getEvidenceByForensicRequest sm pq now token request_id am =
     through (fc_forensic (sm_facades sm)) (adapter_getEvidenceByForensicRequest pq now token request_id am)"

section \<open>Forensics and logins\<close>

lemma grant_needs_ipc:
  "us_held (am_ipc am) \<Longrightarrow> grant_session (executeQuery lib) s am = Inl BlocksForever"
  by (simp add: grant_session_def store_insert_def executeQuery_def execute_held Let_def)

lemma login_needs_ipc:
  "us_held (am_ipc am) \<Longrightarrow>
   adapter_login lib (executeQuery lib) env urandom now cnic password am \<noteq> Inr ((OK, tok), am')"
  by (auto simp: adapter_login_def login_def login_decide_def run_simps success_def failure_def grant_needs_ipc
      split: if_splits option.splits)

text \<open>C28 After the first forensic operation that returns, nobody can log in any more, through
  \<open>AuthFacade\<close> and with whatever credentials: a login that would be granted waits for the mutex that the
  forensic operation has left locked.\<close>

theorem forensics_stop_logins:
  assumes "\<not> us_held (am_ipc am)" "us_conn (am_ipc am) \<noteq> None"
    and "validateToken now token empty_session am = (OK, ctx)"
    and "forensic_member lib pq freed now (Some token) call am = Inr (r, am')"
  shows "auth_login sm lib (executeQuery lib) env urandom later cnic password am' \<noteq> Inr ((OK, tok), am'')"
  using login_needs_ipc [OF member_locks [OF assms]] by (simp add: auth_login_def through_def split: option.split)

theorem forensics_stop_logins_witness:
  "\<exists>r am'. forensic_member lab_lib run_forensic Inr 2000 (Some ''tok'') (PendingRequests 3 []) lab_am = Inr (r, am')
     \<and> (\<forall>sm tok am''. auth_login sm lab_lib (executeQuery lab_lib) (Some ''1'') None 2001 (Some ''admin'') (Some ''admin'') am'
          \<noteq> Inr ((OK, tok), am''))"
proof -
  have h: "\<not> us_held (am_ipc lab_am)" "us_conn (am_ipc lab_am) \<noteq> None" by (simp_all add: lab_am_def)
  from lab_pending_returns obtain r am'
    where "forensic_member lab_lib run_forensic Inr 2000 (Some ''tok'') (PendingRequests 3 []) lab_am = Inr (r, am')" by blast
  with forensics_stop_logins [OF h lab_valid(1) this] show ?thesis by blast
qed

end
