(* ===== verification/Status_Table.thy ===== *)
theory Status_Table
  imports Gateway
begin

text \<open>
  The status of the AI agents: the FIFOs the agents write their messages to (\<open>os_layer/ipc/src/fifo.cpp\<close>),
  the shared table (\<open>shared_memory.cpp\<close>), the members of \<open>IpcManager\<close> that read and update them, and the
  observer of the scheduler that ties them together (\<open>StatusTableUpdater\<close> in \<open>scheduler.cpp\<close>). What the
  kernel and the agents do is a value: the answer of \<open>open\<close> and \<open>read\<close>, of \<open>pthread_mutex_lock\<close>, of
  \<open>shm_open\<close>, \<open>ftruncate\<close> and \<open>mmap\<close>. Structures are laid out as on x86-64.
\<close>

section \<open>Messages\<close>

text \<open>\<open>sizeof(AgentStatusMessage)\<close>: 32 bytes of name, 4 of status, 128 of detail, 4 of padding, 8 of time.\<close>

type_synonym bytes = "8 word list"

definition MSG_SIZE :: nat where
  "MSG_SIZE = 176"

definition field :: "nat \<Rightarrow> nat \<Rightarrow> bytes \<Rightarrow> bytes" where
  "field from n msg = take n (drop from msg)"

text \<open>A little-endian signed number.\<close>

fun le_nat :: "bytes \<Rightarrow> nat" where
  "le_nat [] = 0"
| "le_nat (b # bs) = unat b + 256 * le_nat bs"

definition le_int :: "bytes \<Rightarrow> int" where
  "le_int bs = (let n = int (le_nat bs); m = 2 ^ (8 * length bs) in if 2 * n < m then n else n - m)"

definition le_bytes :: "nat \<Rightarrow> int \<Rightarrow> bytes" where
  "le_bytes k i = map (\<lambda>j. word_of_int (i div 256 ^ j)) [0..<k]"

definition char_of_byte :: "8 word \<Rightarrow> char" where
  "char_of_byte b = char_of (unat b)"

definition byte_of_char :: "char \<Rightarrow> 8 word" where
  "byte_of_char c = of_nat (of_char c)"

text \<open>\<open>strncpy(dst, src, n - 1)\<close> into a zeroed array of \<open>n\<close>, read as a C string.\<close>

definition copied_text :: "nat \<Rightarrow> bytes \<Rightarrow> string" where
  "copied_text n src = map char_of_byte (takeWhile (\<lambda>b. b \<noteq> 0) (take (n - 1) src))"

definition status_of_message :: "bytes \<Rightarrow> agent_status" where
  "status_of_message msg =
     \<lparr>as_agent_name = copied_text 32 (field 0 32 msg), as_current_status = le_int (field 32 4 msg),
      as_error_detail = copied_text 128 (field 36 128 msg), as_last_updated = le_int (field 168 8 msg)\<rparr>"

text \<open>What an agent writes.\<close>

definition text_field :: "nat \<Rightarrow> string \<Rightarrow> bytes" where
  "text_field n s = map byte_of_char s @ replicate (n - length s) 0"

definition message_of_status :: "bytes \<Rightarrow> agent_status \<Rightarrow> bytes" where
  "message_of_status padding a =
     text_field 32 (as_agent_name a) @ le_bytes 4 (as_current_status a) @ text_field 128 (as_error_detail a)
     @ padding @ le_bytes 8 (as_last_updated a)"

section \<open>The FIFO\<close>

datatype fifo_answer =
    OpenFails
  | WouldBlock
  | ReadFails
  | Data bytes      \<comment> \<open>what \<open>read\<close> delivers, at most \<open>MSG_SIZE\<close> bytes; none without a writer\<close>

text \<open>The result code, and the message buffer of the caller.\<close>

fun readStatus :: "fifo_answer \<Rightarrow> bytes \<Rightarrow> result_code \<times> bytes" where
  "readStatus OpenFails msg = (FILE_SYSTEM_ERROR, msg)"
| "readStatus WouldBlock msg = (NOT_FOUND, msg)"
| "readStatus ReadFails msg = (FILE_SYSTEM_ERROR, msg)"
| "readStatus (Data bs) msg =
     (if bs = [] then (NOT_FOUND, msg)
      else if length bs \<noteq> MSG_SIZE then (NOT_FOUND, replicate MSG_SIZE 0)
      else (OK, bs))"

datatype file_answer = Done | Exists | Missing | OtherError

definition fifo_create :: "file_answer \<Rightarrow> result_code" where
  "fifo_create mkfifo = (if mkfifo = Done \<or> mkfifo = Exists then OK else FILE_SYSTEM_ERROR)"

definition fifo_path :: "int \<Rightarrow> string option" where
  "fifo_path agent =
     (if agent = 0 then Some ''/tmp/agent_fifo_hotspot''
      else if agent = 1 then Some ''/tmp/agent_fifo_priority''
      else if agent = 2 then Some ''/tmp/agent_fifo_workload'' else None)"

definition readAgentStatus :: "(string \<Rightarrow> fifo_answer) \<Rightarrow> int \<Rightarrow> bytes \<Rightarrow> result_code \<times> bytes" where
  "readAgentStatus fifo agent msg =
     (case fifo_path agent of None \<Rightarrow> (INVALID_INPUT, msg) | Some path \<Rightarrow> readStatus (fifo path) msg)"

section \<open>The shared table\<close>

text \<open>The object of this process and the named segment behind it. A mapping survives the name.\<close>

record shared_memory =
  sh_fd :: bool                        \<comment> \<open>\<open>shm_fd != -1\<close>\<close>
  sh_table :: "status_table option"  \<comment> \<open>what \<open>mapped_table\<close> points to\<close>
  sh_creator :: bool
  sh_segment :: "status_table option"  \<comment> \<open>the segment that has the name, if any\<close>

definition no_agent :: agent_status where
  "no_agent = \<lparr>as_agent_name = [], as_current_status = 0, as_error_detail = [], as_last_updated = 0\<rparr>"

definition zero_table :: status_table where
  "zero_table = \<lparr>st_active_sessions = 0, st_agents = replicate MAX_AGENTS no_agent\<rparr>"

definition new_shared_memory :: "status_table option \<Rightarrow> shared_memory" where
  "new_shared_memory segment = \<lparr>sh_fd = False, sh_table = None, sh_creator = False, sh_segment = segment\<rparr>"

text \<open>Which of the three system calls fail.\<close>

record shm_answer =
  sa_open_fails :: bool
  sa_truncate_fails :: bool
  sa_map_fails :: bool

text \<open>An existing segment is opened as it is; a new one is filled with zeros by \<open>ftruncate\<close>.\<close>

definition shm_create :: "shm_answer \<Rightarrow> shared_memory \<Rightarrow> result_code \<times> shared_memory" where
  "shm_create k sh =
     (if sa_open_fails k then (FILE_SYSTEM_ERROR, sh\<lparr>sh_fd := False\<rparr>)
      else
        let table = (case sh_segment sh of None \<Rightarrow> zero_table | Some t \<Rightarrow> t);
            sh = sh\<lparr>sh_fd := True, sh_segment := Some table\<rparr>
        in if sa_truncate_fails k \<or> sa_map_fails k then (FILE_SYSTEM_ERROR, sh)
           else (OK, sh\<lparr>sh_table := Some table, sh_creator := True\<rparr>))"

definition shm_attach :: "shm_answer \<Rightarrow> shared_memory \<Rightarrow> result_code \<times> shared_memory" where
  "shm_attach k sh =
     (case sh_segment sh of
        None \<Rightarrow> (FILE_SYSTEM_ERROR, sh\<lparr>sh_fd := False\<rparr>)
      | Some table \<Rightarrow>
          if sa_open_fails k then (FILE_SYSTEM_ERROR, sh\<lparr>sh_fd := False\<rparr>)
          else if sa_map_fails k then (FILE_SYSTEM_ERROR, sh\<lparr>sh_fd := True\<rparr>)
          else (OK, sh\<lparr>sh_fd := True, sh_table := Some table, sh_creator := False\<rparr>))"

definition shm_destroy :: "shared_memory \<Rightarrow> shared_memory" where
  "shm_destroy sh = (if sh_creator sh then sh\<lparr>sh_segment := None\<rparr> else sh)"

definition getTable :: "shared_memory \<Rightarrow> status_table option" where
  "getTable sh = sh_table sh"

text \<open>The robust mutex: free, left by a writer that died (and repaired or not), or in error.\<close>

datatype lock_answer = Locked | OwnerDead bool | LockFails

definition updateAgentStatus ::
  "lock_answer \<Rightarrow> bool \<Rightarrow> int \<Rightarrow> agent_status \<Rightarrow> shared_memory \<Rightarrow> result_code \<times> shared_memory" where
  "updateAgentStatus lock unlock_ok agent status sh =
     (case getTable sh of
        None \<Rightarrow> (INVALID_STATE, sh)
      | Some table \<Rightarrow>
          if agent < 0 \<or> int MAX_AGENTS \<le> agent then (INVALID_INPUT, sh)
          else if lock = LockFails then (FILE_SYSTEM_ERROR, sh)
          else
            let table = table\<lparr>st_agents := (st_agents table)[nat agent := status]\<rparr>;
                sh = sh\<lparr>sh_table := Some table, sh_segment := map_option (\<lambda>t. table) (sh_segment sh)\<rparr>
            in (if unlock_ok then OK else FILE_SYSTEM_ERROR, sh))"

section \<open>StatusTableUpdater\<close>

text \<open>The job that completed: the agent index of an \<open>AgentJob\<close>, \<^const>\<open>None\<close> for another job. The second
  component says whether the worker threads were told (\<open>broadcastAiUpdate\<close>). \<open>msg\<close> is what the message
  variable holds, which is not initialised.\<close>

definition onJobComplete ::
  "(string \<Rightarrow> fifo_answer) \<Rightarrow> lock_answer \<Rightarrow> bool \<Rightarrow> bytes \<Rightarrow> int option \<Rightarrow> result_code \<Rightarrow> shared_memory
     \<Rightarrow> bool \<times> shared_memory" where
  "onJobComplete fifo lock unlock_ok msg job result sh =
     (case job of
        None \<Rightarrow> (False, sh)
      | Some agent \<Rightarrow>
          if result \<noteq> OK then (False, sh)
          else
            let (rc, msg) = readAgentStatus fifo agent msg
            in if rc = OK
               then (True, snd (updateAgentStatus lock unlock_ok agent (status_of_message msg) sh))
               else (False, sh))"

section \<open>Messages arrive whole\<close>

lemma le_bytes_Suc: "le_bytes (Suc k) i = word_of_int i # le_bytes k (i div 256)"
proof -
  have e: "i div 256 ^ Suc j = i div 256 div 256 ^ j" for j :: nat by (simp add: zdiv_zmult2_eq)
  show ?thesis unfolding le_bytes_def upt_conv_Cons [OF zero_less_Suc] list.map
    by (simp add: map_Suc_upt [symmetric] e del: upt_Suc power_Suc)
qed

lemma le_nat_le_bytes: "int (le_nat (le_bytes k i)) = i mod 256 ^ k"
proof (induction k arbitrary: i)
  case (Suc k)
  have "int (unat (word_of_int i :: 8 word)) = i mod 256" by (simp add: unsigned_of_int take_bit_eq_mod)
  then show ?case using Suc [of "i div 256"] zmod_zmult2_eq [of "256 ^ k" i 256] by (simp add: le_bytes_Suc)
qed (simp add: le_bytes_def)

lemma length_le_bytes [simp]: "length (le_bytes k i) = k"
  by (simp add: le_bytes_def)

lemma le_int_le_bytes:
  assumes "- (2 ^ (8 * k)) \<le> 2 * i" "2 * i < 2 ^ (8 * k)"
  shows "le_int (le_bytes k i) = i"
proof -
  have m: "(256::int) ^ k = 2 ^ (8 * k)" by (simp add: power_mult)
  have n: "int (le_nat (le_bytes k i)) = i mod 2 ^ (8 * k)" by (simp add: le_nat_le_bytes m)
  show ?thesis
  proof (cases "0 \<le> i")
    case True
    then have "i mod 2 ^ (8 * k) = i" using assms by (intro mod_pos_pos_trivial) auto
    with n assms show ?thesis by (simp add: le_int_def Let_def)
  next
    case False
    then have "(i + 2 ^ (8 * k)) mod 2 ^ (8 * k) = i + 2 ^ (8 * k)" using assms by (intro mod_pos_pos_trivial) auto
    with n have "int (le_nat (le_bytes k i)) = i + 2 ^ (8 * k)" by simp
    with assms show ?thesis by (simp add: le_int_def Let_def)
  qed
qed

lemma char_of_byte_of_char: "char_of_byte (byte_of_char c) = c"
  by (simp add: char_of_byte_def byte_of_char_def unsigned_of_nat take_bit_eq_mod)

lemma byte_of_char_0: "byte_of_char c = 0 \<longleftrightarrow> c = NUL"
proof
  assume "byte_of_char c = 0"
  then have "char_of_byte (byte_of_char c) = char_of_byte 0" by (rule arg_cong)
  then have "c = char_of_byte 0" unfolding char_of_byte_of_char .
  moreover have "char_of_byte 0 = NUL" by code_simp
  ultimately show "c = NUL" by simp
qed (simp add: byte_of_char_def NUL_def)

lemma copied_text_field:
  assumes "length s < n" "NUL \<notin> set s"
  shows "copied_text n (text_field n s) = s"
proof -
  have t: "take (n - Suc 0) (text_field n s) = map byte_of_char s @ replicate (n - Suc 0 - length s) 0"
    using assms(1) by (simp add: text_field_def)
  have "takeWhile (\<lambda>b. b \<noteq> 0) (map byte_of_char s @ replicate m 0) = map byte_of_char s" for m
    using assms(2) by (induction s) (auto simp: byte_of_char_0 takeWhile_replicate)
  then show ?thesis by (simp add: copied_text_def t char_of_byte_of_char comp_def)
qed

lemma field_skip: "length a = from \<Longrightarrow> length b = n \<Longrightarrow> field from n (a @ b @ c) = b"
  by (simp add: field_def)

lemma length_text_field: "length s \<le> n \<Longrightarrow> length (text_field n s) = n"
  by (simp add: text_field_def)

definition fits_message :: "agent_status \<Rightarrow> bool" where
  "fits_message a \<longleftrightarrow> length (as_agent_name a) < 32 \<and> NUL \<notin> set (as_agent_name a)
     \<and> length (as_error_detail a) < 128 \<and> NUL \<notin> set (as_error_detail a)
     \<and> - (2 ^ 31) \<le> as_current_status a \<and> as_current_status a < 2 ^ 31
     \<and> - (2 ^ 63) \<le> as_last_updated a \<and> as_last_updated a < 2 ^ 63"

lemma message_read:
  assumes "fits_message a" "length padding = 4"
  shows "length (message_of_status padding a) = MSG_SIZE" "status_of_message (message_of_status padding a) = a"
proof -
  let ?n = "text_field 32 (as_agent_name a)" and ?s = "le_bytes 4 (as_current_status a)"
    and ?d = "text_field 128 (as_error_detail a)" and ?t = "le_bytes 8 (as_last_updated a)"
  have l: "length ?n = 32" "length ?d = 128" using assms(1) by (simp_all add: fits_message_def length_text_field)
  show "length (message_of_status padding a) = MSG_SIZE"
    by (simp add: message_of_status_def MSG_SIZE_def l assms(2))
  have f: "field 0 32 (message_of_status padding a) = ?n" "field 32 4 (message_of_status padding a) = ?s"
    "field 36 128 (message_of_status padding a) = ?d" "field 168 8 (message_of_status padding a) = ?t"
    using field_skip [of "[]" 0 ?n 32] field_skip [of ?n 32 ?s 4] field_skip [of "?n @ ?s" 36 ?d 128]
      field_skip [of "?n @ ?s @ ?d @ padding" 168 ?t 8 "[]"]
    by (simp_all add: message_of_status_def l assms(2))
  have i: "le_int ?s = as_current_status a" "le_int ?t = as_last_updated a"
    using assms(1) by (auto simp: fits_message_def intro!: le_int_le_bytes)
  show "status_of_message (message_of_status padding a) = a"
    using assms(1) by (simp add: status_of_message_def f i copied_text_field fits_message_def)
qed

text \<open>A message that an agent has written whole ends up in the table unchanged, and nothing else of the
  table changes; after anything else, an incomplete message in particular, the table is as it was and
  nobody is told.\<close>

theorem message_recorded:
  assumes "sh_table sh = Some table" "length (st_agents table) = MAX_AGENTS" "fifo_path agent = Some path"
    and "lock \<noteq> LockFails"
  shows "(fifo path = Data (message_of_status padding a) \<and> fits_message a \<and> length padding = 4 \<longrightarrow>
      (\<exists>sh'. onJobComplete fifo lock unlock_ok msg (Some agent) OK sh = (True, sh')
        \<and> sh_table sh' = Some (table\<lparr>st_agents := (st_agents table)[nat agent := a]\<rparr>)))
    \<and> ((\<forall>bs. fifo path = Data bs \<longrightarrow> length bs \<noteq> MSG_SIZE) \<longrightarrow>
      onJobComplete fifo lock unlock_ok msg (Some agent) OK sh = (False, sh))"
proof (intro conjI impI)
  have r: "0 \<le> agent" "agent < int MAX_AGENTS" using assms(3) by (auto simp: fifo_path_def MAX_AGENTS_def split: if_splits)
  assume h: "fifo path = Data (message_of_status padding a) \<and> fits_message a \<and> length padding = 4"
  then have "readAgentStatus fifo agent msg = (OK, message_of_status padding a)"
    using message_read(1) [of a padding] by (auto simp: readAgentStatus_def assms(3) MSG_SIZE_def)
  with h r assms(1,4) message_read(2) [of a padding]
  show "\<exists>sh'. onJobComplete fifo lock unlock_ok msg (Some agent) OK sh = (True, sh')
      \<and> sh_table sh' = Some (table\<lparr>st_agents := (st_agents table)[nat agent := a]\<rparr>)"
    by (simp add: onJobComplete_def updateAgentStatus_def getTable_def Let_def)
next
  assume h: "\<forall>bs. fifo path = Data bs \<longrightarrow> length bs \<noteq> MSG_SIZE"
  then show "onJobComplete fifo lock unlock_ok msg (Some agent) OK sh = (False, sh)"
    by (cases "fifo path") (auto simp: onJobComplete_def readAgentStatus_def assms(3))
qed

definition demo_agent :: agent_status where
  "demo_agent = \<lparr>as_agent_name = ''hotspot'', as_current_status = -1, as_error_detail = ''no data'', as_last_updated = 1700000000\<rparr>"

theorem message_recorded_witness:
  "\<exists>sh'. onJobComplete (\<lambda>p. Data (message_of_status [1, 2, 3, 4] demo_agent)) (OwnerDead True) True [] (Some 0) OK
       (snd (shm_create \<lparr>sa_open_fails = False, sa_truncate_fails = False, sa_map_fails = False\<rparr> (new_shared_memory None)))
     = (True, sh')
   \<and> map_option (\<lambda>t. st_agents t ! 0) (sh_table sh') = Some demo_agent"
proof -
  let ?sh = "snd (shm_create \<lparr>sa_open_fails = False, sa_truncate_fails = False, sa_map_fails = False\<rparr> (new_shared_memory None))"
  have h: "sh_table ?sh = Some zero_table" "length (st_agents zero_table) = MAX_AGENTS"
    "fifo_path 0 = Some ''/tmp/agent_fifo_hotspot''" "OwnerDead True \<noteq> LockFails"
    by (simp_all add: shm_create_def new_shared_memory_def zero_table_def fifo_path_def Let_def)
  have "fits_message demo_agent" by (simp add: fits_message_def demo_agent_def NUL_def)
  with message_recorded [OF h, of "\<lambda>p. Data (message_of_status [1, 2, 3, 4] demo_agent)" "[1, 2, 3, 4]" demo_agent True "[]"]
  show ?thesis by (auto simp: zero_table_def MAX_AGENTS_def)
qed

section \<open>The table is never there\<close>





end
