(* ===== verification/Db_Config.thy ===== *)
theory Db_Config
  imports Auth
begin

text \<open>
  \<open>JusticeFlow::DBConfig\<close> (\<open>src/common/dbconfig.h\<close>) and its three users: the connection of \<open>IpcManager\<close>
  (\<open>getSecureConnectionString\<close>), the connection of the authentication (\<open>createAuthConnection\<close>) and the start
  of \<open>main\<close>. The environment is a function from names, a file its content. libpq reads the connection text; it
  is the parameter \<open>parse\<close>.
\<close>

section \<open>Configurations\<close>

record db_config =
  cf_host :: string
  cf_port :: int
  cf_dbname :: string
  cf_user :: string
  cf_password :: string
  cf_min_connections :: int
  cf_max_connections :: int
  cf_connect_timeout :: int

definition default_config :: db_config where
  "default_config = \<lparr>cf_host = ''/var/run/postgresql'', cf_port = 5432, cf_dbname = ''justiceflow'',
     cf_user = ''justice_app'', cf_password = ''justiceflow123'', cf_min_connections = 2, cf_max_connections = 20,
     cf_connect_timeout = 10\<rparr>"

definition toConnectionString :: "db_config \<Rightarrow> string" where
  "toConnectionString c =
     ''host='' @ cf_host c @ '' port='' @ show_int (cf_port c) @ '' dbname='' @ cf_dbname c @ '' user='' @ cf_user c
     @ '' password='' @ cf_password c @ '' connect_timeout='' @ show_int (cf_connect_timeout c)"

definition validateSecurityRules :: "db_config \<Rightarrow> result_code" where
  "validateSecurityRules c =
     (if cf_host c = [] \<or> cf_user c = [] \<or> cf_password c = [] \<or> cf_dbname c = [] then INVALID_INPUT
      else if cf_user c = ''DB_ADMIN'' \<or> cf_user c = ''justice_ai'' then AUTH_FAILED
      else if cf_user c \<noteq> ''justice_app'' then AUTH_FAILED
      else OK)"

section \<open>Loading\<close>

definition loadFromEnvironment :: "(string \<Rightarrow> cstr) \<Rightarrow> db_config \<Rightarrow> result_code \<times> db_config" where
  "loadFromEnvironment getenv c =
     (let c = (case getenv ''JF_DB_HOST'' of None \<Rightarrow> c | Some v \<Rightarrow> c\<lparr>cf_host := v\<rparr>);
          c = (case getenv ''JF_DB_PORT'' of None \<Rightarrow> c | Some v \<Rightarrow> c\<lparr>cf_port := atoi v\<rparr>);
          c = (case getenv ''JF_DB_NAME'' of None \<Rightarrow> c | Some v \<Rightarrow> c\<lparr>cf_dbname := v\<rparr>);
          c = (case getenv ''JF_DB_USER'' of None \<Rightarrow> c | Some v \<Rightarrow> c\<lparr>cf_user := v\<rparr>);
          c = (case getenv ''JF_DB_PASS'' of None \<Rightarrow> c | Some v \<Rightarrow> c\<lparr>cf_password := v\<rparr>)
      in (validateSecurityRules c, c))"

definition newline :: char where
  "newline = CHR 0x0A"

text \<open>\<open>std::getline\<close>: the last line may lack its newline; nothing after it is no line.\<close>

fun lines_of :: "string \<Rightarrow> string list" where
  "lines_of [] = []"
| "lines_of (c # cs) =
     (if c = newline then [] # lines_of cs
      else case lines_of cs of
             [] \<Rightarrow> [[c]]
           | l # ls \<Rightarrow> (c # l) # ls)"

definition set_key :: "string \<Rightarrow> string \<Rightarrow> db_config \<Rightarrow> db_config" where
  "set_key key v c =
     (if key = ''host'' then c\<lparr>cf_host := v\<rparr>
      else if key = ''port'' then c\<lparr>cf_port := atoi v\<rparr>
      else if key = ''dbname'' then c\<lparr>cf_dbname := v\<rparr>
      else if key = ''user'' then c\<lparr>cf_user := v\<rparr>
      else if key = ''password'' then c\<lparr>cf_password := v\<rparr> else c)"

definition read_line :: "string \<Rightarrow> db_config \<Rightarrow> db_config" where
  "read_line line c =
     (if line = [] \<or> hd line = CHR ''#'' \<or> CHR ''='' \<notin> set line then c
      else set_key (takeWhile (\<lambda>x. x \<noteq> CHR ''='') line) (tl (dropWhile (\<lambda>x. x \<noteq> CHR ''='') line)) c)"

definition loadFromFile :: "cstr \<Rightarrow> db_config \<Rightarrow> result_code \<times> db_config" where
  "loadFromFile file c =
     (case file of
        None \<Rightarrow> (NOT_FOUND, c)
      | Some text \<Rightarrow> let c = fold read_line (lines_of text) c in (validateSecurityRules c, c))"

section \<open>The users\<close>

definition getSecureConnectionString :: "(string \<Rightarrow> cstr) \<Rightarrow> string" where
  "getSecureConnectionString getenv =
     (case loadFromEnvironment getenv default_config of
        (rc, c) \<Rightarrow> if rc \<noteq> OK then [] else toConnectionString c)"

text \<open>The result code is thrown away.\<close>

definition auth_connection_string :: "(string \<Rightarrow> cstr) \<Rightarrow> string" where
  "auth_connection_string getenv = toConnectionString (snd (loadFromEnvironment getenv default_config))"

definition createAuthConnection :: "'c libpq \<Rightarrow> (string \<Rightarrow> cstr) \<Rightarrow> 'c unix_socket" where
  "createAuthConnection lib getenv =
     snd (connect lib \<lparr>us_held = False, us_conn = None, us_conn_string = auth_connection_string getenv\<rparr>)"

section \<open>Files\<close>

definition config_file :: "db_config \<Rightarrow> string" where
  "config_file c =
     ''host='' @ cf_host c @ [newline] @ ''port='' @ show_int (cf_port c) @ [newline] @ ''dbname='' @ cf_dbname c @ [newline]
     @ ''user='' @ cf_user c @ [newline] @ ''password='' @ cf_password c @ [newline]"

lemma lines_of_line: "newline \<notin> set l \<Longrightarrow> lines_of (l @ newline # rest) = l # lines_of rest"
  by (induction l) auto

lemma read_line_key:
  assumes "CHR ''='' \<notin> set key" "key \<noteq> []" "hd key \<noteq> CHR ''#''"
  shows "read_line (key @ CHR ''='' # v) c = set_key key v c"
proof -
  have "takeWhile (\<lambda>x. x \<noteq> CHR ''='') (key @ CHR ''='' # v) = key"
    using assms(1) by (induction key) auto
  moreover have "dropWhile (\<lambda>x. x \<noteq> CHR ''='') (key @ CHR ''='' # v) = CHR ''='' # v"
    using assms(1) by (induction key) auto
  ultimately show ?thesis using assms(2,3) by (simp add: read_line_def)
qed

lemma show_int_no_newline: "newline \<notin> set (show_int i)"
proof -
  have "\<forall>c \<in> set (show_nat n). c \<noteq> newline" for n
    using show_nat_digits [of n] by (auto simp: is_digit_def newline_def)
  then show ?thesis by (auto simp: show_int_def newline_def)
qed

text \<open>A configuration written to a file, one \<open>key=value\<close> a line, is read back: the five settings of the
  file replace those of the configuration it is loaded into, whatever other characters the values hold, and
  the answer is that of the security rules.\<close>

theorem config_file_roundtrip:
  assumes "newline \<notin> set (cf_host c)" "newline \<notin> set (cf_dbname c)" "newline \<notin> set (cf_user c)"
    "newline \<notin> set (cf_password c)"
  shows "loadFromFile (Some (config_file c)) c0 =
    (validateSecurityRules c, c\<lparr>cf_min_connections := cf_min_connections c0, cf_max_connections := cf_max_connections c0,
       cf_connect_timeout := cf_connect_timeout c0\<rparr>)"
proof -
  have l: "lines_of (config_file c) = [''host='' @ cf_host c, ''port='' @ show_int (cf_port c), ''dbname='' @ cf_dbname c,
      ''user='' @ cf_user c, ''password='' @ cf_password c]"
    using assms lines_of_line [of "''host='' @ cf_host c"] lines_of_line [of "''port='' @ show_int (cf_port c)"]
      lines_of_line [of "''dbname='' @ cf_dbname c"] lines_of_line [of "''user='' @ cf_user c"]
      lines_of_line [of "''password='' @ cf_password c" "[]"] show_int_no_newline [of "cf_port c"]
    by (simp add: config_file_def newline_def)
  have r: "read_line (''host='' @ v) d = d\<lparr>cf_host := v\<rparr>" "read_line (''port='' @ v) d = d\<lparr>cf_port := atoi v\<rparr>"
    "read_line (''dbname='' @ v) d = d\<lparr>cf_dbname := v\<rparr>" "read_line (''user='' @ v) d = d\<lparr>cf_user := v\<rparr>"
    "read_line (''password='' @ v) d = d\<lparr>cf_password := v\<rparr>" for v d
    using read_line_key [of "''host''" v d] read_line_key [of "''port''" v d] read_line_key [of "''dbname''" v d]
      read_line_key [of "''user''" v d] read_line_key [of "''password''" v d] by (simp_all add: set_key_def)
  let ?c = "c\<lparr>cf_min_connections := cf_min_connections c0, cf_max_connections := cf_max_connections c0,
       cf_connect_timeout := cf_connect_timeout c0\<rparr>"
  have "fold read_line (lines_of (config_file c)) c0 = ?c"
    unfolding l fold_simps comp_def id_def r by (simp add: atoi_show_int)
  moreover have "validateSecurityRules ?c = validateSecurityRules c" by (simp add: validateSecurityRules_def)
  ultimately show ?thesis by (simp only: loadFromFile_def option.case Let_def)
qed

theorem config_file_roundtrip_witness:
  "loadFromFile (Some (config_file (default_config\<lparr>cf_port := 6543, cf_password := ''a=b # c''\<rparr>))) default_config
   = (OK, default_config\<lparr>cf_port := 6543, cf_password := ''a=b # c''\<rparr>)"
  using config_file_roundtrip [of "default_config\<lparr>cf_port := 6543, cf_password := ''a=b # c''\<rparr>" default_config]
  by (simp add: default_config_def newline_def validateSecurityRules_def)

section \<open>Who connects\<close>

text \<open>
  What libpq documents of a connection text: settings \<open>keyword=value\<close> separated by white space, a value without
  white space, quotes and backslashes standing for itself, and of a keyword that is repeated the last value
  counting. A NUL ends the text.
\<close>

definition plain_value :: "string \<Rightarrow> bool" where
  "plain_value v \<longleftrightarrow> v \<noteq> [] \<and> list_all (\<lambda>c. \<not> is_space c \<and> c \<noteq> NUL \<and> c \<noteq> CHR 0x27 \<and> c \<noteq> CHR 0x5C) v"

definition plain_key :: "string \<Rightarrow> bool" where
  "plain_key k \<longleftrightarrow> k \<in> {''host'', ''port'', ''dbname'', ''user'', ''password'', ''connect_timeout''}"

fun conninfo :: "(string \<times> string) list \<Rightarrow> string" where
  "conninfo [] = []"
| "conninfo [(k, v)] = k @ ''='' @ v"
| "conninfo ((k, v) # kv # kvs) = k @ ''='' @ v @ '' '' @ conninfo (kv # kvs)"

definition reads_settings :: "(string \<Rightarrow> string \<Rightarrow> string option) \<Rightarrow> bool" where
  "reads_settings parse \<longleftrightarrow>
     (\<forall>kvs. list_all (\<lambda>(k, v). plain_key k \<and> plain_value v) kvs \<longrightarrow> parse (conninfo kvs) = map_of (rev kvs))"

definition plain_config :: "db_config \<Rightarrow> bool" where
  "plain_config c \<longleftrightarrow> plain_value (cf_host c) \<and> plain_value (cf_dbname c) \<and> plain_value (cf_user c) \<and> plain_value (cf_password c)"

lemma settings_read:
  "reads_settings parse \<Longrightarrow> list_all (\<lambda>(k, v). plain_key k \<and> plain_value v) kvs \<Longrightarrow> parse (conninfo kvs) = map_of (rev kvs)"
  by (simp add: reads_settings_def)

lemma plain_show_int: "plain_value (show_int i)"
proof -
  let ?plain = "\<lambda>c. \<not> is_space c \<and> c \<noteq> NUL \<and> c \<noteq> CHR 0x27 \<and> c \<noteq> CHR 0x5C"
  have "\<not> is_digit NUL" "\<not> is_digit (CHR 0x27)" "\<not> is_digit (CHR 0x5C)" by code_simp+
  then have digit: "is_digit c \<Longrightarrow> ?plain c" for c
    using is_digit_not_sign [of c] by blast
  have minus: "?plain (CHR ''-'')" by code_simp
  have "is_digit c \<or> c = CHR ''-''" if "c \<in> set (show_int i)" for c
  proof (cases "i < 0")
    case True
    with that have "c \<in> set (CHR ''-'' # show_nat (nat (- i)))" by (simp only: show_int_def if_True)
    then show ?thesis using show_nat_digits by (metis set_ConsD)
  next
    case False
    with that have "c \<in> set (show_nat (nat i))" by (simp only: show_int_def if_False)
    then show ?thesis using show_nat_digits by blast
  qed
  then have "?plain c" if "c \<in> set (show_int i)" for c
    using digit [of c] minus that by metis
  then show ?thesis unfolding plain_value_def list_all_iff using show_int_not_Nil by blast
qed

lemma plain_keys:
  "plain_key ''host''" "plain_key ''port''" "plain_key ''dbname''" "plain_key ''user''" "plain_key ''password''"
  "plain_key ''connect_timeout''" "plain_value ''x''"
  by code_simp+

lemma connection_settings:
  "toConnectionString c = conninfo [(''host'', cf_host c), (''port'', show_int (cf_port c)), (''dbname'', cf_dbname c),
     (''user'', cf_user c), (''password'', cf_password c), (''connect_timeout'', show_int (cf_connect_timeout c))]"
  by (simp add: toConnectionString_def)

lemma injected_settings:
  "toConnectionString (c\<lparr>cf_password := ''x user='' @ u\<rparr>) = conninfo [(''host'', cf_host c), (''port'', show_int (cf_port c)),
     (''dbname'', cf_dbname c), (''user'', cf_user c), (''password'', ''x''), (''user'', u),
     (''connect_timeout'', show_int (cf_connect_timeout c))]"
  by (simp add: toConnectionString_def)

text \<open>C24 The rule that the process connects as \<open>justice_app\<close> holds as long as the settings are plain words (not
  empty, no white space, quote, backslash or NUL); but the settings are pasted into the connection text as they
  are, so for every user name \<open>u\<close> that is a plain word there is a password that passes the rules and makes libpq
  connect as \<open>u\<close>.\<close>

theorem connects_as:
  assumes "reads_settings parse"
  shows "(plain_config c \<and> validateSecurityRules c = OK \<longrightarrow> parse (toConnectionString c) ''user'' = Some ''justice_app'')
    \<and> (plain_value u \<longrightarrow> (\<exists>getenv. parse (getSecureConnectionString getenv) ''user'' = Some u))"
proof (intro conjI impI)
  assume "plain_config c \<and> validateSecurityRules c = OK"
  then have p: "plain_config c" and u: "cf_user c = ''justice_app''"
    by (auto simp: validateSecurityRules_def split: if_splits)
  from p show "parse (toConnectionString c) ''user'' = Some ''justice_app''"
    unfolding connection_settings
    by (subst settings_read [OF assms]) (simp_all add: plain_config_def plain_keys plain_show_int u)
next
  assume u: "plain_value u"
  define getenv where "getenv = (\<lambda>n. if n = ''JF_DB_PASS'' then Some (''x user='' @ u) else None)"
  have "getSecureConnectionString getenv = toConnectionString (default_config\<lparr>cf_password := ''x user='' @ u\<rparr>)"
    by (simp add: getSecureConnectionString_def loadFromEnvironment_def getenv_def Let_def validateSecurityRules_def
        default_config_def)
  moreover have "plain_value (cf_host default_config)" "plain_value (cf_dbname default_config)" "plain_value (cf_user default_config)"
    by code_simp+
  ultimately have "parse (getSecureConnectionString getenv) ''user'' = Some u"
    using u by (simp only: injected_settings) (subst settings_read [OF assms]; simp add: plain_keys plain_show_int)
  then show "\<exists>getenv. parse (getSecureConnectionString getenv) ''user'' = Some u" by blast
qed

text \<open>A reader of such texts.\<close>

fun split_words :: "string \<Rightarrow> string list" where
  "split_words [] = [[]]"
| "split_words (c # cs) =
     (if c = CHR '' '' then [] # split_words cs else (c # hd (split_words cs)) # tl (split_words cs))"

definition cut_setting :: "string \<Rightarrow> string \<times> string" where
  "cut_setting w = (takeWhile (\<lambda>x. x \<noteq> CHR ''='') w, tl (dropWhile (\<lambda>x. x \<noteq> CHR ''='') w))"

definition read_settings :: "string \<Rightarrow> string \<Rightarrow> string option" where
  "read_settings s = map_of (rev (map cut_setting (filter (\<lambda>w. w \<noteq> []) (split_words s))))"

lemma split_word: "CHR '' '' \<notin> set w \<Longrightarrow> split_words (w @ CHR '' '' # s) = w # split_words s"
  by (induction w) auto

lemma split_last_word: "CHR '' '' \<notin> set w \<Longrightarrow> split_words w = [w]"
  by (induction w) auto

lemma cut_key: "CHR ''='' \<notin> set k \<Longrightarrow> cut_setting (k @ CHR ''='' # v) = (k, v)"
  unfolding cut_setting_def by (induction k) auto

lemma plain_key_chars: "plain_key k \<Longrightarrow> CHR '' '' \<notin> set k \<and> CHR ''='' \<notin> set k"
  by (auto simp: plain_key_def)

lemma plain_setting: "plain_key k \<Longrightarrow> plain_value v \<Longrightarrow> CHR '' '' \<notin> set (k @ CHR ''='' # v)"
  using plain_key_chars [of k] by (auto simp: plain_value_def list_all_iff is_space_def)

lemma reads_read_settings: "reads_settings read_settings"
proof -
  have "map cut_setting (filter (\<lambda>w. w \<noteq> []) (split_words (conninfo kvs))) = kvs"
    if "list_all (\<lambda>(k, v). plain_key k \<and> plain_value v) kvs" for kvs
    using that
  proof (induction kvs rule: conninfo.induct)
    case (2 k v)
    then show ?case using split_last_word [OF plain_setting, of k v] plain_key_chars [of k] by (simp add: cut_key)
  next
    case (3 k v kv kvs)
    then show ?case
      using split_word [OF plain_setting, of k v "conninfo (kv # kvs)"] plain_key_chars [of k] by (simp add: cut_key)
  qed simp
  then show ?thesis by (simp add: reads_settings_def read_settings_def)
qed

theorem connects_as_witness:
  "read_settings (toConnectionString default_config) ''user'' = Some ''justice_app''
   \<and> (\<exists>getenv. read_settings (getSecureConnectionString getenv) ''user'' = Some ''postgres'')"
proof -
  have "plain_config default_config" "validateSecurityRules default_config = OK" "plain_value ''postgres''"
    by code_simp+
  with connects_as [OF reads_read_settings, of default_config "''postgres''"] show ?thesis by blast
qed

end
