(* ===== verification/Command_Args.thy ===== *)
theory Command_Args
  imports Prelude_JF
begin

text \<open>
  The text layer of the command line (\<open>src/interface/cli.cpp\<close>): how a line becomes words (\<open>parseCommand\<close>),
  how words become positional arguments, flags with a value and flags without (\<open>parseArgs\<close>), and how a
  table is printed. \<open>std::map\<close> is an association list; the program only looks its keys up.
\<close>

section \<open>Words\<close>

text \<open>\<open>iss >> token\<close> skips white space and takes the characters up to the next.\<close>

function parseCommand :: "string \<Rightarrow> string list" where
  "parseCommand input =
     (let rest = dropWhile is_space input
      in if rest = [] then []
         else takeWhile (\<lambda>c. \<not> is_space c) rest # parseCommand (dropWhile (\<lambda>c. \<not> is_space c) rest))"
  by pat_completeness auto

termination
proof (relation "measure length", goal_cases)
  case (2 input rest)
  then have "rest \<noteq> []" "\<not> is_space (hd rest)" "length rest \<le> length input"
    using hd_dropWhile [of is_space input] by (auto simp: length_dropWhile_le)
  then show ?case
    by (cases rest) (auto simp: le_less_trans [OF length_dropWhile_le])
qed simp

declare parseCommand.simps [simp del]

section \<open>Arguments\<close>

record parsed_args =
  pa_positional :: "string list"
  pa_flags :: "(string \<times> string) list"
  pa_bools :: "(string \<times> bool) list"

definition no_args :: parsed_args where
  "no_args = \<lparr>pa_positional = [], pa_flags = [], pa_bools = []\<rparr>"

definition put_flag :: "string \<Rightarrow> string \<Rightarrow> parsed_args \<Rightarrow> parsed_args" where
  "put_flag key v r = r\<lparr>pa_flags := AList.update key v (pa_flags r)\<rparr>"

definition put_bool :: "string \<Rightarrow> parsed_args \<Rightarrow> parsed_args" where
  "put_bool key r = r\<lparr>pa_bools := AList.update key True (pa_bools r)\<rparr>"

definition put_positional :: "string \<Rightarrow> parsed_args \<Rightarrow> parsed_args" where
  "put_positional token r = r\<lparr>pa_positional := pa_positional r @ [token]\<rparr>"

text \<open>The loop. A word is a flag by its first two characters, or else by its first; its value is the next
  word unless that begins the same way.\<close>

fun read_args :: "string list \<Rightarrow> parsed_args \<Rightarrow> parsed_args" where
  "read_args [] r = r"
| "read_args (token # ts) r =
     (if take 2 token = ''--''
      then (case ts of
              [] \<Rightarrow> read_args ts (put_bool (drop 2 token) r)
            | u # us \<Rightarrow>
                if take 2 u \<noteq> ''--'' then read_args us (put_flag (drop 2 token) u r)
                else read_args ts (put_bool (drop 2 token) r))
      else if take 1 token = ''-''
      then (case ts of
              [] \<Rightarrow> read_args ts (put_bool (drop 1 token) r)
            | u # us \<Rightarrow>
                if take 1 u \<noteq> ''-'' then read_args us (put_flag (drop 1 token) u r)
                else read_args ts (put_bool (drop 1 token) r))
      else read_args ts (put_positional token r))"

definition parseArgs :: "string list \<Rightarrow> nat \<Rightarrow> parsed_args" where
  "parseArgs tokens start = read_args (drop start tokens) no_args"

section \<open>Tables\<close>

definition setw_left :: "nat \<Rightarrow> string \<Rightarrow> string" where
  "setw_left n s = s @ replicate (n - length s) CHR '' ''"

definition setw_right :: "nat \<Rightarrow> string \<Rightarrow> string" where
  "setw_right n s = replicate (n - length s) CHR '' '' @ s"

definition nl :: string where
  "nl = [CHR 0x0A]"

definition formatAsTable :: "string \<Rightarrow> string list list \<Rightarrow> string list \<Rightarrow> string" where
  "formatAsTable title rows headers =
     (let rule = replicate 70 CHR ''-'' @ nl
      in nl @ title @ '' ('' @ show_nat (length rows) @ '' records)'' @ nl @ rule
         @ concat (map (setw_left 18) headers) @ nl @ rule
         @ concat (map (\<lambda>row. concat (map (setw_left 18) row) @ nl) rows) @ rule)"

text \<open>\<open>formatAsCsv\<close>: a comma behind every cell but the last. Nothing is quoted.\<close>

fun csv_line :: "string list \<Rightarrow> string" where
  "csv_line [] = nl"
| "csv_line [cell] = cell @ nl"
| "csv_line (cell # cells) = cell @ '','' @ csv_line cells"

definition formatAsCsv :: "string list list \<Rightarrow> string list \<Rightarrow> string" where
  "formatAsCsv rows headers = csv_line headers @ concat (map csv_line rows)"

definition formatAsJson :: "string \<Rightarrow> string" where
  "formatAsJson data = data"

section \<open>Writing a command\<close>

text \<open>A command as the help describes it: its name and words, then flags with their values, then flags
  without.\<close>

definition is_word :: "string \<Rightarrow> bool" where
  "is_word w \<longleftrightarrow> w \<noteq> [] \<and> (\<forall>c \<in> set w. \<not> is_space c)"

definition dashes :: "string \<Rightarrow> string" where
  "dashes key = ''--'' @ key"

definition written_args :: "parsed_args \<Rightarrow> string list" where
  "written_args a = pa_positional a @ concat (map (\<lambda>(k, v). [dashes k, v]) (pa_flags a))
     @ map (\<lambda>(k, b). dashes k) (pa_bools a)"

fun spaced :: "string list \<Rightarrow> string" where
  "spaced [] = []"
| "spaced [w] = w"
| "spaced (w # ws) = w @ '' '' @ spaced ws"

definition writable :: "parsed_args \<Rightarrow> bool" where
  "writable a \<longleftrightarrow>
     (\<forall>w \<in> set (pa_positional a). is_word w \<and> take 1 w \<noteq> ''-'')
     \<and> (\<forall>(k, v) \<in> set (pa_flags a). \<not> (\<exists>c \<in> set k. is_space c) \<and> is_word v \<and> take 2 v \<noteq> ''--'')
     \<and> (\<forall>(k, b) \<in> set (pa_bools a). \<not> (\<exists>c \<in> set k. is_space c) \<and> b)
     \<and> wf_map (pa_flags a) \<and> wf_map (pa_bools a)"

lemma parseCommand_space: "is_space c \<Longrightarrow> parseCommand (c # s) = parseCommand s"
  by (simp add: parseCommand.simps [of "c # s"] parseCommand.simps [of s])

lemma space_is_space [simp]: "is_space CHR '' ''"
  by (simp add: is_space_def)

lemma parseCommand_word:
  assumes "is_word w" "rest = [] \<or> is_space (hd rest)"
  shows "parseCommand (w @ rest) = w # parseCommand rest"
proof -
  obtain c cs where w: "w = c # cs" using assms(1) by (cases w) (auto simp: is_word_def)
  have all: "\<forall>x \<in> set w. \<not> is_space x" using assms(1) by (simp add: is_word_def)
  then have t: "takeWhile (\<lambda>x. \<not> is_space x) (w @ rest) = w" "dropWhile (\<lambda>x. \<not> is_space x) (w @ rest) = rest"
    using assms(2) by (cases rest; simp add: takeWhile_append2 dropWhile_append2)+
  have "dropWhile is_space (w @ rest) = w @ rest" using all w by simp
  moreover have "w @ rest \<noteq> []" by (simp add: w)
  ultimately show ?thesis by (simp only: parseCommand.simps [of "w @ rest"] t Let_def if_False)
qed

lemma parseCommand_spaced: "\<forall>w \<in> set ws. is_word w \<Longrightarrow> parseCommand (spaced ws) = ws"
proof (induction ws rule: spaced.induct)
  case 1
  then show ?case by (simp add: parseCommand.simps)
next
  case (2 w)
  then show ?case using parseCommand_word [of w "[]"] by (simp add: parseCommand.simps [of "[]"])
next
  case (3 w v vs)
  then show ?case by (simp add: parseCommand_word parseCommand_space)
qed

lemma dashes_starts [simp]: "take 2 (dashes k) = ''--''" "drop 2 (dashes k) = k"
  by (simp_all add: dashes_def)

lemma read_positional:
  "\<forall>w \<in> set ws. take 1 w \<noteq> ''-'' \<Longrightarrow>
   read_args (ws @ ts) r = read_args ts (r\<lparr>pa_positional := pa_positional r @ ws\<rparr>)"
proof (induction ws arbitrary: r)
  case (Cons w ws)
  then have "take 2 w \<noteq> ''--''" by (cases w; cases "tl w") auto
  with Cons show ?case by (simp add: put_positional_def)
qed simp

lemma update_new: "k \<notin> fst ` set m \<Longrightarrow> AList.update k v m = m @ [(k, v)]"
  by (induction m) auto

lemma read_flags:
  assumes "wf_map (m @ fs)" "\<forall>(k, v) \<in> set fs. take 2 v \<noteq> ''--''"
  shows "read_args (concat (map (\<lambda>(k, v). [dashes k, v]) fs) @ ts) (r\<lparr>pa_flags := m\<rparr>)
    = read_args ts (r\<lparr>pa_flags := m @ fs\<rparr>)"
  using assms
proof (induction fs arbitrary: m)
  case (Cons f fs)
  obtain k v where f: "f = (k, v)" by (cases f)
  have "AList.update k v m = m @ [(k, v)]"
    using Cons.prems(1) by (intro update_new) (auto simp: f wf_map_def)
  then show ?case using Cons.IH [of "m @ [f]"] Cons.prems by (auto simp: f put_flag_def)
qed simp

lemma read_bools:
  assumes "wf_map (m @ bs)" "\<forall>(k, b) \<in> set bs. b"
  shows "read_args (map (\<lambda>(k, b). dashes k) bs) (r\<lparr>pa_bools := m\<rparr>) = r\<lparr>pa_bools := m @ bs\<rparr>"
  using assms
proof (induction bs arbitrary: m)
  case (Cons f bs)
  obtain k b where f: "f = (k, b)" by (cases f)
  have "AList.update k True m = m @ [(k, b)]"
    using Cons.prems by (subst update_new) (auto simp: f wf_map_def)
  moreover have "read_args (map (\<lambda>(k, b). dashes k) bs) (r\<lparr>pa_bools := m @ [f]\<rparr>) = r\<lparr>pa_bools := m @ f # bs\<rparr>"
    using Cons.IH [of "m @ [f]"] Cons.prems by simp
  ultimately show ?case by (cases bs) (auto simp: f put_bool_def)
qed simp

lemma read_written:
  assumes "writable a"
  shows "read_args (written_args a) no_args = a"
proof -
  let ?r = "no_args\<lparr>pa_positional := pa_positional a\<rparr>"
  have "read_args (written_args a) no_args
      = read_args (concat (map (\<lambda>(k, v). [dashes k, v]) (pa_flags a)) @ map (\<lambda>(k, b). dashes k) (pa_bools a))
          (?r\<lparr>pa_flags := []\<rparr>)"
    using assms read_positional [of "pa_positional a"] by (simp add: written_args_def writable_def no_args_def)
  also have "\<dots> = read_args (map (\<lambda>(k, b). dashes k) (pa_bools a)) (?r\<lparr>pa_flags := pa_flags a, pa_bools := []\<rparr>)"
    using assms by (subst read_flags) (auto simp: writable_def no_args_def)
  also have "\<dots> = a"
    using assms by (subst read_bools) (auto simp: writable_def no_args_def)
  finally show ?thesis .
qed

lemma written_words: "writable a \<Longrightarrow> \<forall>w \<in> set (written_args a). is_word w"
proof -
  assume a: "writable a"
  have k: "is_word (dashes k)" if "\<not> (\<exists>c \<in> set k. is_space c)" for k
    using that by (auto simp: is_word_def dashes_def is_space_def)
  have "\<forall>w \<in> set (pa_positional a). is_word w" using a by (simp add: writable_def)
  moreover have "is_word (dashes k) \<and> is_word v" if "(k, v) \<in> set (pa_flags a)" for k v
    using a that k [of k] unfolding writable_def by blast
  moreover have "is_word (dashes k)" if "(k, b) \<in> set (pa_bools a)" for k b
    using a that k [of k] unfolding writable_def by blast
  ultimately show ?thesis by (auto simp: written_args_def)
qed

text \<open>C38 A command written as the help describes it is read as it was meant: its name, then exactly the
  positional words, the flags with their values and the flags without, as long as no word contains white
  space, no positional word begins with a dash and no value with two.\<close>

theorem command_roundtrip:
  assumes "is_word cmd" "writable a"
  shows "parseCommand (spaced (cmd # written_args a)) = cmd # written_args a
    \<and> parseArgs (written_args a) 0 = a"
  using assms parseCommand_spaced [of "cmd # written_args a"] written_words [of a] read_written [of a]
  by (simp add: parseArgs_def)

theorem command_roundtrip_witness:
  "parseCommand ''login --cnic 35202 --password -x --quiet'' = [''login'', ''--cnic'', ''35202'', ''--password'', ''-x'', ''--quiet'']
   \<and> parseArgs [''--cnic'', ''35202'', ''--password'', ''-x'', ''--quiet''] 0
     = \<lparr>pa_positional = [], pa_flags = [(''cnic'', ''35202''), (''password'', ''-x'')], pa_bools = [(''quiet'', True)]\<rparr>"
  using command_roundtrip [of "''login''" "\<lparr>pa_positional = [], pa_flags = [(''cnic'', ''35202''), (''password'', ''-x'')],
      pa_bools = [(''quiet'', True)]\<rparr>"]
  by (simp add: is_word_def writable_def written_args_def dashes_def is_space_def wf_map_def)

end
