(* ===== verification/Command_Line.thy ===== *)
theory Command_Line
  imports Command_Args System_Facades Db_Config
begin

text \<open>
  \<open>cli_interface::CLIInterface\<close> (\<open>src/interface/cli.cpp\<close>, \<open>cli.h\<close>): the state of the interactive session, one
  handler per command, the dispatcher, the gate \<open>requireLogin\<close> and the loop of \<open>start\<close>. A handler returns its
  result, or \<^const>\<open>None\<close> when a \<open>std::exception\<close> leaves it, with the state at that point; \<open>executeCommand\<close>
  catches it. The texts of exceptions and the local time are parameters. The tables are reached over the
  connection the interface opens for itself; \<open>ci_conn_ok\<close> is what \<open>PQstatus\<close> says of it when a line is entered.
\<close>

section \<open>State\<close>

record command_context =
  cx_officer_id :: int
  cx_cnic :: string
  cx_username :: string
  cx_session_token :: string
  cx_rank :: officer_rank
  cx_permissions :: "string list"
  cx_login_time :: int

definition isLoggedIn :: "command_context \<Rightarrow> bool" where
  "isLoggedIn cx \<longleftrightarrow> 0 < cx_officer_id cx \<and> cx_session_token cx \<noteq> []"

definition hasPermission :: "string \<Rightarrow> command_context \<Rightarrow> bool" where
  "hasPermission action cx \<longleftrightarrow> action \<in> set (cx_permissions cx)"

definition new_context :: command_context where
  "new_context = \<lparr>cx_officer_id = -1, cx_cnic = [], cx_username = [], cx_session_token = [],
     cx_rank = CONSTABLE, cx_permissions = [], cx_login_time = 0\<rparr>"

record command_result =
  cr_success :: bool
  cr_message :: string
  cr_error_code :: int
  cr_data :: string

definition ok_result :: "string \<Rightarrow> string \<Rightarrow> command_result" where
  "ok_result msg d = \<lparr>cr_success = True, cr_message = msg, cr_error_code = 0, cr_data = d\<rparr>"

definition error_result :: "string \<Rightarrow> command_result" where
  "error_result msg = \<lparr>cr_success = False, cr_message = msg, cr_error_code = 1, cr_data = []\<rparr>"

text \<open>The interface: the manager and the authentication it holds references to, the tables behind
  \<open>m_db_conn\<close>, its members, and what it has given to the logger.\<close>

record ('c, 'd) cli =
  cl_system :: system_manager
  cl_auth :: "('c unix_socket, 'c) auth_manager"
  cl_tables :: 'd
  cl_context :: command_context
  cl_running :: bool
  cl_history :: "string list"
  cl_log :: "(string \<times> string) list"

record ('c, 'd) cli_env =
  xe_lib :: "'c libpq"
  xe_pq :: "'d case_backend"
  xe_fallback :: cstr                            \<comment> \<open>the environment variable of the fallback users\<close>
  xe_local_time :: "string \<Rightarrow> int \<Rightarrow> string"      \<comment> \<open>\<open>strftime\<close> of \<open>localtime\<close>\<close>
  xe_what :: string                              \<comment> \<open>\<open>e.what()\<close>\<close>

record cli_input =
  ci_line :: string
  ci_now :: int
  ci_urandom :: "8 word list option"
  ci_conn_ok :: bool

type_synonym ('c, 'd) handled_command = "(command_result option \<times> ('c, 'd) cli) run"

definition replied :: "command_result \<Rightarrow> ('c, 'd) cli \<Rightarrow> ('c, 'd) handled_command" where
  "replied r w = Inr (Some r, w)"

definition thrown :: "('c, 'd) cli \<Rightarrow> ('c, 'd) handled_command" where
  "thrown w = Inr (None, w)"

definition log_line :: "string \<Rightarrow> string \<Rightarrow> ('c, 'd) cli \<Rightarrow> ('c, 'd) cli" where
  "log_line level msg w = w\<lparr>cl_log := cl_log w @ [(level, msg)]\<rparr>"

text \<open>The constructor: without a connection it throws.\<close>

definition open_cli ::
  "'c libpq \<Rightarrow> db_config \<Rightarrow> system_manager \<Rightarrow> ('c unix_socket, 'c) auth_manager \<Rightarrow> 'd \<Rightarrow> ('c, 'd) cli run" where
  "open_cli lib config sm am tables =
     (case PQconnectdb lib (c_str (toConnectionString config)) of
        None \<Rightarrow> Inl ThrowsException
      | Some c \<Rightarrow>
          if \<not> PQstatus_ok lib c then Inl ThrowsException
          else Inr (log_line ''INFO'' ''[CLI] Database connection established''
                 \<lparr>cl_system = sm, cl_auth = am, cl_tables = tables, cl_context = new_context,
                  cl_running = True, cl_history = [], cl_log = []\<rparr>))"

section \<open>Logging in and out\<close>

text \<open>When the login throws, the query has been made and no session granted.\<close>

definition after_failed_login ::
  "'c libpq \<Rightarrow> string \<Rightarrow> string \<Rightarrow> ('c unix_socket, 'c) auth_manager \<Rightarrow> ('c unix_socket, 'c) auth_manager" where
  "after_failed_login lib cnic password am =
     (case login_query lib cnic password (am_db_connection am) of
        Inr (rc, rows, us) \<Rightarrow> am\<lparr>am_db_connection := us\<rparr>
      | Inl f \<Rightarrow> am)"

definition login_line :: "string \<Rightarrow> session_context \<Rightarrow> string" where
  "login_line cnic s = ''[CLI] User logged in: CNIC='' @ cnic @ '', Officer='' @ show_int (sc_officerId s)
     @ '', Rank='' @ show_int (rank_value (sc_rank s))"

definition handleLoginCommand ::
  "('c, 'd) cli_env \<Rightarrow> cli_input \<Rightarrow> string list \<Rightarrow> ('c, 'd) cli \<Rightarrow> ('c, 'd) handled_command" where
  "handleLoginCommand e i args w =
     (if isLoggedIn (cl_context w)
      then replied (error_result (''Already logged in as '' @ cx_username (cl_context w))) w
      else
        let flags = pa_flags (parseArgs args 0)
        in case (map_of flags ''cnic'', map_of flags ''password'') of
             (Some cnic, Some password) \<Rightarrow>
               (case auth_login (cl_system w) (xe_lib e) (executeQuery (xe_lib e)) (xe_fallback e) (ci_urandom i)
                       (ci_now i) (Some cnic) (Some password) (cl_auth w) of
                  Inl f \<Rightarrow>
                    if f = ThrowsException
                    then thrown (w\<lparr>cl_auth := after_failed_login (xe_lib e) cnic password (cl_auth w)\<rparr>)
                    else Inl f
                | Inr ((rc, token), am) \<Rightarrow>
                    let w = w\<lparr>cl_auth := am\<rparr>
                    in if rc \<noteq> OK
                       then replied (error_result ''Authentication failed'')
                              (log_line ''ERROR'' ''[CLI] Login failed for CNIC'' w)
                       else and_then (auth_validateToken (cl_system w) (ci_now i) (Some token) am) (\<lambda>(rc, s).
                         if rc \<noteq> OK then replied (error_result ''Session validation failed'') w
                         else replied (ok_result ''Login successful'' [])
                                (log_line ''INFO'' (login_line cnic s)
                                  (w\<lparr>cl_context := (cl_context w)\<lparr>cx_officer_id := sc_officerId s, cx_cnic := cnic,
                                      cx_username := sc_cnic s, cx_session_token := token, cx_rank := sc_rank s,
                                      cx_login_time := ci_now i\<rparr>\<rparr>))))
           | _ \<Rightarrow> replied (error_result ''Usage: login --cnic <cnic> --password <password>'') w)"

text \<open>The rank and the time of the login stay in the context; they mean nothing without a token.\<close>

definition handleLogoutCommand ::
  "('c, 'd) cli_env \<Rightarrow> cli_input \<Rightarrow> string list \<Rightarrow> ('c, 'd) cli \<Rightarrow> ('c, 'd) handled_command" where
  "handleLogoutCommand e i args w =
     (if \<not> isLoggedIn (cl_context w) then replied (error_result ''Not logged in'') w
      else and_then (auth_logout (cl_system w) (executeQuery (xe_lib e)) (ci_now i)
                       (Some (cx_session_token (cl_context w))) (cl_auth w)) (\<lambda>(result, am).
        replied (ok_result ''Logout successful'' [])
          (log_line ''INFO'' ''[CLI] User logged out''
            (w\<lparr>cl_auth := am,
               cl_context := (cl_context w)\<lparr>cx_officer_id := -1, cx_cnic := [], cx_username := [],
                 cx_session_token := [], cx_permissions := []\<rparr>\<rparr>))))"

definition handleWhoamiCommand :: "string list \<Rightarrow> command_context \<Rightarrow> command_result" where
  "handleWhoamiCommand args cx =
     (if \<not> isLoggedIn cx then ok_result ''Not logged in'' []
      else ok_result []
        (''Logged in as:'' @ nl
         @ ''  Username:   '' @ cx_username cx @ nl
         @ ''  Officer ID: '' @ show_int (cx_officer_id cx) @ nl
         @ ''  Rank:       '' @ show_int (rank_value (cx_rank cx)) @ nl
         @ ''  Permissions: '' @ show_nat (length (cx_permissions cx)) @ nl))"

definition requireLogin ::
  "cli_input \<Rightarrow> ('c, 'd) cli \<Rightarrow> (command_result \<times> ('c, 'd) cli) run" where
  "requireLogin i w =
     (if \<not> isLoggedIn (cl_context w)
      then Inr (error_result ''Not logged in. Use 'login' command.'', w)
      else and_then (auth_validateToken (cl_system w) (ci_now i) (Some (cx_session_token (cl_context w))) (cl_auth w))
             (\<lambda>(rc, s).
                if rc \<noteq> OK
                then Inr (error_result ''Session expired. Please login again.'',
                          w\<lparr>cl_context := (cl_context w)\<lparr>cx_officer_id := -1\<rparr>\<rparr>)
                else Inr (ok_result [] [], w)))"

definition requirePermission :: "string \<Rightarrow> command_context \<Rightarrow> command_result" where
  "requirePermission action cx =
     (if \<not> hasPermission action cx then error_result (''Permission denied: '' @ action) else ok_result [] [])"

definition validateSession ::
  "cli_input \<Rightarrow> ('c, 'd) cli \<Rightarrow> (command_result \<times> ('c, 'd) cli) run" where
  "validateSession i w =
     and_then (auth_validateToken (cl_system w) (ci_now i) (Some (cx_session_token (cl_context w))) (cl_auth w))
       (\<lambda>(rc, s).
          if rc \<noteq> OK
          then Inr (error_result ''Session invalid'', w\<lparr>cl_context := (cl_context w)\<lparr>cx_officer_id := -1\<rparr>\<rparr>)
          else Inr (ok_result [] [], w))"

section \<open>Cases\<close>

definition case_table_row :: "('c, 'd) cli_env \<Rightarrow> case_out \<Rightarrow> string list" where
  "case_table_row e c =
     [show_int (co_case_id c), co_fir_number c, show_nat (position case_types (co_case_type c)),
      show_nat (position case_statuses (co_case_status c)), xe_local_time e ''%Y-%m-%d %H:%M'' (co_filed_at c)]"

text \<open>\<open>station\<close> is the number, when one is given and readable.\<close>

definition case_list_of ::
  "('c, 'd) cli_env \<Rightarrow> cli_input \<Rightarrow> int \<Rightarrow> ('c, 'd) cli \<Rightarrow> ('c, 'd) handled_command" where
  "case_list_of e i station w =
     (case getCasesByStation (xe_pq e) (Some (ci_conn_ok i)) station (cl_tables w) of
        ((rc, cases), db) \<Rightarrow>
          let w = w\<lparr>cl_tables := db\<rparr>
          in if rc \<noteq> OK then replied (error_result ''Failed to list cases'') w
             else replied (ok_result []
                    (formatAsTable ''Cases'' (map (case_table_row e) cases)
                      [''ID'', ''FIR#'', ''Type'', ''Status'', ''Filed At''])) w)"

definition handleCaseListCommand ::
  "('c, 'd) cli_env \<Rightarrow> cli_input \<Rightarrow> string list \<Rightarrow> ('c, 'd) cli \<Rightarrow> ('c, 'd) handled_command" where
  "handleCaseListCommand e i args w =
     (case map_of (pa_flags (parseArgs args 0)) ''office'' of
        None \<Rightarrow> case_list_of e i (-1) w
      | Some text \<Rightarrow>
          (case stoi text of
             None \<Rightarrow> thrown w
           | Some station_id \<Rightarrow> case_list_of e i station_id w))"

definition handleCaseCreateCommand :: "string list \<Rightarrow> command_result" where
  "handleCaseCreateCommand args =
     (let flags = pa_flags (parseArgs args 0)
      in if map_of flags ''title'' = None \<or> map_of flags ''desc'' = None \<or> map_of flags ''type'' = None
         then error_result ''Usage: case create --title <title> --desc <description> --type <type>''
         else ok_result ''Case creation placeholder (feature in progress)'' [])"

definition case_details :: "('c, 'd) cli_env \<Rightarrow> case_out \<Rightarrow> string" where
  "case_details e c =
     ''Case Details:'' @ nl
     @ ''  ID:          '' @ show_int (co_case_id c) @ nl
     @ ''  FIR Number:  '' @ co_fir_number c @ nl
     @ ''  Type:        '' @ show_nat (position case_types (co_case_type c)) @ nl
     @ ''  Status:      '' @ show_nat (position case_statuses (co_case_status c)) @ nl
     @ ''  Filed At:    '' @ xe_local_time e ''%Y-%m-%d %H:%M:%S'' (co_filed_at c) @ nl
     @ ''  Address:     '' @ co_incident_address c @ nl"

text \<open>Without a connection the case comes from subsystem 2 over the connection of the process; when that
  throws, the query has been made.\<close>

definition after_failed_fetch :: "'c libpq \<Rightarrow> int \<Rightarrow> ('c unix_socket, 'c) auth_manager \<Rightarrow> ('c unix_socket, 'c) auth_manager" where
  "after_failed_fetch lib case_id am =
     (case executeQuery lib (fetch_query case_id) (am_ipc am) of
        Inr (rc, rows, us) \<Rightarrow> am\<lparr>am_ipc := us\<rparr>
      | Inl f \<Rightarrow> am)"

definition case_source :: "('c, 'd) cli_env \<Rightarrow> system_manager \<Rightarrow> 'c unix_socket query_fun option" where
  "case_source e sm = (case fc_case (sm_facades sm) of None \<Rightarrow> None | Some a \<Rightarrow> Some (executeQuery (xe_lib e)))"

definition case_view_of ::
  "('c, 'd) cli_env \<Rightarrow> cli_input \<Rightarrow> int \<Rightarrow> ('c, 'd) cli \<Rightarrow> ('c, 'd) handled_command" where
  "case_view_of e i case_id w =
     (case getCaseById (xe_pq e) (case_source e (cl_system w)) (Some (ci_conn_ok i)) case_id (cl_tables w)
             (am_ipc (cl_auth w)) of
        Inl f \<Rightarrow>
          if f = ThrowsException
          then thrown (w\<lparr>cl_auth := after_failed_fetch (xe_lib e) case_id (cl_auth w)\<rparr>)
          else Inl f
      | Inr ((rc, c), db, us) \<Rightarrow>
          let w = w\<lparr>cl_tables := db, cl_auth := (cl_auth w)\<lparr>am_ipc := us\<rparr>\<rparr>
          in if rc \<noteq> OK then replied (error_result ''Case not found'') w
             else replied (ok_result [] (case_details e c)) w)"

definition handleCaseViewCommand ::
  "('c, 'd) cli_env \<Rightarrow> cli_input \<Rightarrow> string list \<Rightarrow> ('c, 'd) cli \<Rightarrow> ('c, 'd) handled_command" where
  "handleCaseViewCommand e i args w =
     (case args of
        [] \<Rightarrow> replied (error_result ''case view requires CASE_ID'') w
      | arg # rest \<Rightarrow>
          (case stoi arg of
             None \<Rightarrow> thrown w
           | Some case_id \<Rightarrow> case_view_of e i case_id w))"

definition handleCaseUpdateCommand :: "string list \<Rightarrow> command_result" where
  "handleCaseUpdateCommand args = ok_result ''Case update placeholder (feature in progress)'' []"

definition handleCaseCloseCommand :: "string list \<Rightarrow> command_result" where
  "handleCaseCloseCommand args = ok_result ''Case close placeholder (feature in progress)'' []"

definition handleCaseReopenCommand :: "string list \<Rightarrow> command_result" where
  "handleCaseReopenCommand args = ok_result ''Case reopen placeholder (feature in progress)'' []"

definition handleCaseCommand ::
  "('c, 'd) cli_env \<Rightarrow> cli_input \<Rightarrow> string list \<Rightarrow> ('c, 'd) cli \<Rightarrow> ('c, 'd) handled_command" where
  "handleCaseCommand e i args w =
     (case args of
        [] \<Rightarrow> replied (error_result ''case requires subcommand: list, create, view, update, close, reopen'') w
      | subcmd # subargs \<Rightarrow>
          if subcmd = ''list'' then handleCaseListCommand e i subargs w
          else if subcmd = ''create'' then replied (handleCaseCreateCommand subargs) w
          else if subcmd = ''view'' then handleCaseViewCommand e i subargs w
          else if subcmd = ''update'' then replied (handleCaseUpdateCommand subargs) w
          else if subcmd = ''close'' then replied (handleCaseCloseCommand subargs) w
          else if subcmd = ''reopen'' then replied (handleCaseReopenCommand subargs) w
          else replied (error_result (''Unknown case subcommand: '' @ subcmd)) w)"

section \<open>Commands that are not written yet\<close>

definition handleEvidenceCommand :: "string list \<Rightarrow> command_result" where
  "handleEvidenceCommand args =
     (if args = [] then error_result ''evidence requires subcommand: list, add, view''
      else ok_result ''Evidence command placeholder'' [])"

definition handleWarrantCommand :: "string list \<Rightarrow> command_result" where
  "handleWarrantCommand args = ok_result ''Warrant command placeholder'' []"

definition handleArrestCommand :: "string list \<Rightarrow> command_result" where
  "handleArrestCommand args = ok_result ''Arrest command placeholder'' []"

definition handleBailCommand :: "string list \<Rightarrow> command_result" where
  "handleBailCommand args = ok_result ''Bail command placeholder'' []"

definition handleForensicCommand :: "string list \<Rightarrow> command_result" where
  "handleForensicCommand args = ok_result ''Forensic command placeholder'' []"

definition handleAuditCommand :: "string list \<Rightarrow> command_result" where
  "handleAuditCommand args = ok_result ''Audit command placeholder'' []"

definition handlePersonnelCommand :: "string list \<Rightarrow> command_result" where
  "handlePersonnelCommand args = ok_result ''Personnel command placeholder'' []"

definition handleDutyCommand :: "string list \<Rightarrow> command_result" where
  "handleDutyCommand args = ok_result ''Duty command placeholder'' []"

definition handleSystemCommand :: "string list \<Rightarrow> command_result" where
  "handleSystemCommand args =
     (if args = [] then error_result ''system requires subcommand: status, health''
      else ok_result ''System command placeholder'' [])"

section \<open>Built-in commands\<close>

text \<open>The double lines of a box are three bytes each, U+2550 and its neighbours in UTF-8.\<close>

definition box :: "nat \<Rightarrow> string" where
  "box n = [char_of (226 :: nat), char_of (149 :: nat), char_of n]"

definition box_line :: "nat \<Rightarrow> nat \<Rightarrow> string" where
  "box_line left right = box left @ concat (replicate 56 (box 144)) @ box right @ nl"

definition boxed :: "string list \<Rightarrow> string" where
  "boxed titles = box_line 148 151 @ concat (map (\<lambda>t. box 145 @ t @ box 145 @ nl) titles) @ box_line 154 157"

definition handleStatusCommand :: "string list \<Rightarrow> command_result" where
  "handleStatusCommand args = ok_result []
     (nl @ boxed [''               JUSTICEFLOW SYSTEM STATUS               '']
      @ ''Status:              RUNNING'' @ nl
      @ ''API Gateway:         LISTENING'' @ nl
      @ ''Database:            CONNECTED'' @ nl
      @ ''Auth Manager:        READY'' @ nl
      @ nl)"

definition handleVersionCommand :: "string list \<Rightarrow> command_result" where
  "handleVersionCommand args = ok_result []
     (''JusticeFlow CLI v1.0.0'' @ nl @ ''Build: 2026-05-08'' @ nl @ ''Commit: dev'' @ nl)"

definition help_lines :: "string list" where
  "help_lines =
    [[],
     ''AUTHENTICATION'',
     ''  login --cnic <cnic> --password <pwd>   Login to system'',
     ''  logout                                  Logout'',
     ''  whoami                                  Show logged-in user'',
     [],
     ''CASE MANAGEMENT'',
     ''  case list [--office ID]                 List cases'',
     ''  case create --title T --desc D          Create case'',
     ''  case view ID                            View case details'',
     ''  case update ID --status STATUS          Update case'',
     ''  case close ID --reason REASON           Close case'',
     ''  case reopen ID --reason REASON          Reopen case'',
     [],
     ''EVIDENCE MANAGEMENT'',
     ''  evidence list CASE_ID                   List evidence'',
     ''  evidence add CASE_ID --file F           Add evidence'',
     ''  evidence view CASE_ID EVIDENCE_ID       View evidence'',
     [],
     ''WARRANT OPERATIONS'',
     ''  warrant list [--status STATUS]          List warrants'',
     ''  warrant issue CASE_ID --accused NAME    Issue warrant'',
     ''  warrant serve ID                        Serve warrant'',
     ''  warrant revoke ID --reason REASON       Revoke warrant'',
     [],
     ''ARREST OPERATIONS'',
     ''  arrest list [--custody TYPE]            List arrests'',
     ''  arrest register WARRANT_ID --loc LOC    Register arrest'',
     ''  arrest release ID --reason REASON       Release from custody'',
     [],
     ''BAIL OPERATIONS'',
     ''  bail list [--status STATUS]             List bail applications'',
     ''  bail apply ARREST_ID --amount A         Apply for bail'',
     ''  bail approve ID                         Approve bail'',
     ''  bail deny ID --reason REASON            Deny bail'',
     [],
     ''FORENSIC ANALYSIS'',
     ''  forensic list CASE_ID                   List forensic analyses'',
     ''  forensic create CASE_ID --type TYPE     Create analysis'',
     [],
     ''AUDIT & COMPLIANCE'',
     ''  audit query --user UID [--from T]       Query audit trail'',
     ''  audit export --format JSON              Export audit log'',
     [],
     ''SYSTEM'',
     ''  status                                  System status'',
     ''  version                                 Show version'',
     ''  help [COMMAND]                          Show help'',
     ''  history                                 Show command history'',
     ''  clear                                   Clear screen'',
     ''  exit                                    Exit CLI'',
     []]"

definition handleHelpCommand :: "string list \<Rightarrow> command_result" where
  "handleHelpCommand args = ok_result [] (concat (map (\<lambda>l. l @ nl) help_lines))"

definition handleExitCommand :: "string list \<Rightarrow> ('c, 'd) cli \<Rightarrow> command_result \<times> ('c, 'd) cli" where
  "handleExitCommand args w = (ok_result ''Exiting...'' [], w\<lparr>cl_running := False\<rparr>)"

definition history_line :: "nat \<Rightarrow> string \<Rightarrow> string" where
  "history_line n l = setw_right 4 (show_nat n) @ ''  '' @ l @ nl"

definition handleHistoryCommand :: "string list \<Rightarrow> string list \<Rightarrow> command_result" where
  "handleHistoryCommand args history = ok_result []
     (''Command History:'' @ nl
      @ concat (map (\<lambda>i. history_line (i + 1) (history ! i)) [0..<length history]))"

text \<open>\<open>system("clear || cls")\<close> only clears the terminal.\<close>

definition handleClearCommand :: "string list \<Rightarrow> command_result" where
  "handleClearCommand args = ok_result [] []"

section \<open>The dispatcher\<close>

definition dispatch_domain ::
  "('c, 'd) cli_env \<Rightarrow> cli_input \<Rightarrow> string \<Rightarrow> string list \<Rightarrow> ('c, 'd) cli \<Rightarrow> ('c, 'd) handled_command" where
  "dispatch_domain e i cmd args w =
     (if cmd = ''case'' then handleCaseCommand e i args w
      else if cmd = ''evidence'' then replied (handleEvidenceCommand args) w
      else if cmd = ''warrant'' then replied (handleWarrantCommand args) w
      else if cmd = ''arrest'' then replied (handleArrestCommand args) w
      else if cmd = ''bail'' then replied (handleBailCommand args) w
      else if cmd = ''forensic'' then replied (handleForensicCommand args) w
      else if cmd = ''audit'' then replied (handleAuditCommand args) w
      else if cmd = ''personnel'' then replied (handlePersonnelCommand args) w
      else if cmd = ''duty'' then replied (handleDutyCommand args) w
      else if cmd = ''status'' then replied (handleStatusCommand args) w
      else if cmd = ''system'' then replied (handleSystemCommand args) w
      else replied (error_result (''Unknown command: '' @ cmd)) w)"

definition dispatchCommand ::
  "('c, 'd) cli_env \<Rightarrow> cli_input \<Rightarrow> string \<Rightarrow> string list \<Rightarrow> ('c, 'd) cli \<Rightarrow> ('c, 'd) handled_command" where
  "dispatchCommand e i cmd args w =
     (if cmd = ''help'' then replied (handleHelpCommand args) w
      else if cmd = ''exit'' \<or> cmd = ''quit'' then (case handleExitCommand args w of (r, w) \<Rightarrow> replied r w)
      else if cmd = ''version'' then replied (handleVersionCommand args) w
      else if cmd = ''clear'' then replied (handleClearCommand args) w
      else if cmd = ''history'' then replied (handleHistoryCommand args (cl_history w)) w
      else if cmd = ''login'' then handleLoginCommand e i args w
      else if cmd = ''logout'' then handleLogoutCommand e i args w
      else if cmd = ''whoami'' then replied (handleWhoamiCommand args (cl_context w)) w
      else and_then (requireLogin i w) (\<lambda>(r, w).
        if \<not> cr_success r then replied r w else dispatch_domain e i cmd args w))"

definition command_line :: "string \<Rightarrow> command_context \<Rightarrow> string" where
  "command_line input cx = ''[CLI] Command: '' @ input @ '' (user: ''
     @ (if cx_username cx = [] then ''guest'' else cx_username cx) @ '')''"

definition executeCommand ::
  "('c, 'd) cli_env \<Rightarrow> cli_input \<Rightarrow> ('c, 'd) cli \<Rightarrow> (command_result \<times> ('c, 'd) cli) run" where
  "executeCommand e i w =
     (case parseCommand (ci_line i) of
        [] \<Rightarrow> Inr (error_result ''Empty command'', w)
      | cmd # args \<Rightarrow>
          and_then (dispatchCommand e i cmd args (log_line ''INFO'' (command_line (ci_line i) (cl_context w)) w))
            (\<lambda>(r, w).
               case r of
                 Some r \<Rightarrow> Inr (r, w)
               | None \<Rightarrow> Inr (error_result (''Internal error: '' @ xe_what e),
                              log_line ''ERROR'' (''[CLI] Exception executing command: '' @ xe_what e) w)))"

section \<open>The loop\<close>

text \<open>Text on the standard output and on the standard error.\<close>

datatype printed = Out string | Err string

definition printPrompt :: "command_context \<Rightarrow> printed" where
  "printPrompt cx =
     Out (if isLoggedIn cx then ''['' @ cx_username cx @ ''@justiceflow]> '' else ''[guest@justiceflow]> '')"

definition printWelcome :: "printed list" where
  "printWelcome = [Out (nl @ boxed [''           JUSTICEFLOW - Legal Case Management          '',
       ''                  Command Line Interface                '']
     @ nl @ ''Type 'help' for commands, 'login' to authenticate, 'exit' to quit.'' @ nl @ nl)]"

definition print_result :: "command_result \<Rightarrow> printed list" where
  "print_result r =
     (if cr_data r \<noteq> [] then [Out (cr_data r @ nl)] else [])
     @ (if cr_message r = [] then []
        else if cr_success r then [Out (cr_message r @ nl)]
        else [Err (''Error: '' @ cr_message r @ nl)])"

definition enter_line ::
  "('c, 'd) cli_env \<Rightarrow> cli_input \<Rightarrow> ('c, 'd) cli \<Rightarrow> (printed list \<times> ('c, 'd) cli) run" where
  "enter_line e i w =
     (if ci_line i = [] then Inr ([], w)
      else and_then (executeCommand e i (w\<lparr>cl_history := cl_history w @ [ci_line i]\<rparr>)) (\<lambda>(r, w).
        Inr (print_result r, w)))"

text \<open>The lines until the end of the input. The loop leaves the rest when the interface no longer runs.\<close>

fun read_lines ::
  "('c, 'd) cli_env \<Rightarrow> cli_input list \<Rightarrow> ('c, 'd) cli \<Rightarrow> (printed list \<times> ('c, 'd) cli) run" where
  "read_lines e [] w = Inr ([printPrompt (cl_context w)], w\<lparr>cl_running := False\<rparr>)"
| "read_lines e (i # is) w =
     and_then (enter_line e i w) (\<lambda>(out, w').
       if cl_running w'
       then and_then (read_lines e is w') (\<lambda>(out', w'). Inr (printPrompt (cl_context w) # out @ out', w'))
       else Inr (printPrompt (cl_context w) # out, w'))"

definition cli_start ::
  "('c, 'd) cli_env \<Rightarrow> cli_input list \<Rightarrow> ('c, 'd) cli \<Rightarrow> (int \<times> printed list \<times> ('c, 'd) cli) run" where
  "cli_start e inputs w =
     (if \<not> sm_initialized (cl_system w) then Inr (1, [Err (''ERROR: System not initialized'' @ nl)], w)
      else and_then (read_lines e inputs (w\<lparr>cl_running := True\<rparr>)) (\<lambda>(out, w).
        Inr (0, printWelcome @ out @ [Out (nl @ ''Goodbye!'' @ nl)], w)))"

end
