(* ===== verification/Command_Gate.thy ===== *)
theory Command_Gate
  imports Command_Line
begin

text \<open>
  What the command line promises: a command that reaches the system has a session of at most eight hours
  behind it, no command changes a table, every line is answered; and what it does not promise: a password
  that was typed stays readable, and the state of a case is not shown. The interface is followed alone; other
  clients of the same managers are not in the picture.
\<close>

section \<open>What a command touches\<close>

lemmas reply_defs = replied_def thrown_def log_line_def

lemma logs_only [simp]:
  "cl_auth (log_line l m w) = cl_auth w" "cl_tables (log_line l m w) = cl_tables w"
  "cl_system (log_line l m w) = cl_system w" "cl_context (log_line l m w) = cl_context w"
  "cl_history (log_line l m w) = cl_history w" "cl_running (log_line l m w) = cl_running w"
  by (simp_all add: log_line_def)

text \<open>Commands that need no session.\<close>

definition open_commands :: "string list" where
  "open_commands = [''help'', ''exit'', ''quit'', ''version'', ''clear'', ''history'', ''login'', ''logout'', ''whoami'']"

text \<open>Two states that differ only in what a domain command of a valid session may change.\<close>

definition same_session :: "('c, 'd) cli \<Rightarrow> ('c, 'd) cli \<Rightarrow> bool" where
  "same_session w w' \<longleftrightarrow> cl_context w' = cl_context w \<and> cl_system w' = cl_system w \<and> cl_history w' = cl_history w
     \<and> am_session_store (cl_auth w') = am_session_store (cl_auth w)"

lemma same_session_refl [simp]: "same_session w w"
  by (simp add: same_session_def)

lemma case_list_same: "case_list_of e i station w = Inr (r, w') \<Longrightarrow> same_session w w'"
  by (auto simp: case_list_of_def reply_defs same_session_def Let_def split: prod.splits if_splits)

lemma case_view_same: "case_view_of e i k w = Inr (r, w') \<Longrightarrow> same_session w w'"
  by (auto simp: case_view_of_def reply_defs same_session_def Let_def after_failed_fetch_def
      split: sum.splits prod.splits if_splits)

lemma case_command_same: "handleCaseCommand e i args w = Inr (r, w') \<Longrightarrow> same_session w w'"
  by (auto simp: handleCaseCommand_def handleCaseListCommand_def handleCaseViewCommand_def replied_def thrown_def
      split: list.splits option.splits if_splits dest: case_list_same case_view_same)

lemma domain_same: "dispatch_domain e i cmd args w = Inr (r, w') \<Longrightarrow> same_session w w'"
  by (auto simp: dispatch_domain_def replied_def split: if_splits dest: case_command_same)

lemma dispatch_gated:
  "cmd \<notin> set open_commands \<Longrightarrow> dispatchCommand e i cmd args w
     = and_then (requireLogin i w) (\<lambda>(r, w). if \<not> cr_success r then replied r w else dispatch_domain e i cmd args w)"
  by (simp add: open_commands_def dispatchCommand_def)

lemma result_simps [simp]:
  "cr_success (ok_result m d)" "\<not> cr_success (error_result m)"
  "cr_data (ok_result m d) = d" "cr_message (ok_result m d) = m" "cr_message (error_result m) = m" "cr_data (error_result m) = []"
  by (simp_all add: ok_result_def error_result_def)

section \<open>The session behind the context\<close>

lemma auth_validateToken_OK:
  "auth_validateToken sm now (Some tok) am = Inr (OK, s) \<Longrightarrow>
   map_of (am_session_store am) tok = Some s \<and> now < sc_expiresAt s"
  by (auto simp: auth_validateToken_def through_def adapter_validateToken_def to_string_def validateToken_def
      store_validate_def store_isExpired_def success_def failure_def split: option.splits if_splits prod.splits)

definition session_known :: "('c, 'd) cli \<Rightarrow> bool" where
  "session_known w \<longleftrightarrow> (isLoggedIn (cl_context w) \<longrightarrow>
     (\<forall>s. map_of (am_session_store (cl_auth w)) (cx_session_token (cl_context w)) = Some s \<longrightarrow>
        sc_expiresAt s = cx_login_time (cl_context w) + 8 * 3600 \<and> sc_cnic s = cx_cnic (cl_context w)
        \<and> sc_officerId s = cx_officer_id (cl_context w) \<and> sc_rank s = cx_rank (cl_context w)))"

lemma session_known_same: "same_session w w' \<Longrightarrow> session_known w \<Longrightarrow> session_known w'"
  by (simp add: session_known_def same_session_def)

lemma not_logged_in_known: "\<not> isLoggedIn (cl_context w) \<Longrightarrow> session_known w"
  by (simp add: session_known_def)

lemma login_known:
  assumes "handleLoginCommand e i args w = Inr (r, w')" "session_known w"
  shows "session_known w'"
proof (cases "isLoggedIn (cl_context w)")
  case True
  with assms show ?thesis by (simp add: handleLoginCommand_def replied_def)
next
  case False
  show ?thesis
  proof (cases "isLoggedIn (cl_context w')")
    case new: True
    let ?flags = "pa_flags (parseArgs args 0)"
    from assms(1) False new obtain cnic password tok am s where
      login: "auth_login (cl_system w) (xe_lib e) (executeQuery (xe_lib e)) (xe_fallback e) (ci_urandom i)
        (ci_now i) (Some cnic) (Some password) (cl_auth w) = Inr ((OK, tok), am)"
      and valid: "auth_validateToken (cl_system w) (ci_now i) (Some tok) am = Inr (OK, s)"
      and w': "cl_auth w' = am" "cl_context w' = (cl_context w)\<lparr>cx_officer_id := sc_officerId s, cx_cnic := cnic,
          cx_username := sc_cnic s, cx_session_token := tok, cx_rank := sc_rank s, cx_login_time := ci_now i\<rparr>"
      by (auto simp: handleLoginCommand_def reply_defs Let_def run_simps split: option.splits sum.splits if_splits)
    from login have "adapter_login (xe_lib e) (executeQuery (xe_lib e)) (xe_fallback e) (ci_urandom i) (ci_now i)
        (Some cnic) (Some password) (cl_auth w) = Inr ((OK, tok), am)"
      by (simp add: auth_login_def through_def split: option.splits)
    from adapter_login_OK [OF this] obtain t where t: "sc_cnic t = cnic" "sc_expiresAt t = ci_now i + 8 * 3600"
      "map_of (am_session_store am) tok = Some t" by metis
    with auth_validateToken_OK [OF valid] have "s = t" by simp
    with t show ?thesis by (simp add: session_known_def w')
  qed (rule not_logged_in_known)
qed

lemma logout_known:
  "handleLogoutCommand e i args w = Inr (r, w') \<Longrightarrow> session_known w \<Longrightarrow> session_known w'"
  by (auto simp: handleLogoutCommand_def reply_defs run_simps session_known_def isLoggedIn_def split: if_splits)

lemma requireLogin_known: "requireLogin i w = Inr (r, w') \<Longrightarrow> session_known w \<Longrightarrow> session_known w'"
  by (auto simp: requireLogin_def run_simps session_known_def isLoggedIn_def split: if_splits)

lemma session_known_fields [simp]:
  "session_known (log_line l m w) = session_known w"
  "session_known (w\<lparr>cl_history := h\<rparr>) = session_known w"
  "session_known (w\<lparr>cl_running := b\<rparr>) = session_known w"
  by (simp_all add: session_known_def)

lemma dispatch_known:
  assumes "dispatchCommand e i cmd args w = Inr (r, w')" "session_known w"
  shows "session_known w'"
proof (cases "cmd \<in> set open_commands")
  case True
  with assms show ?thesis
    by (auto simp: open_commands_def dispatchCommand_def replied_def handleExitCommand_def
        dest: login_known logout_known)
next
  case False
  with assms show ?thesis
    by (auto simp: dispatch_gated run_simps replied_def split: if_splits
        dest: requireLogin_known domain_same session_known_same)
qed

lemma log_grows [simp]: "set (cl_log w) \<subseteq> set (cl_log (log_line l m w))"
  by (auto simp: log_line_def)

lemma execute_dispatches:
  assumes "executeCommand e i w = Inr (r, w')" "parseCommand (ci_line i) = cmd # args"
  obtains q v where
    "dispatchCommand e i cmd args (log_line ''INFO'' (command_line (ci_line i) (cl_context w)) w) = Inr (q, v)"
    "cl_auth w' = cl_auth v" "cl_tables w' = cl_tables v" "cl_context w' = cl_context v" "cl_history w' = cl_history v"
    "set (cl_log v) \<subseteq> set (cl_log w')" "case q of None \<Rightarrow> \<not> cr_success r | Some x \<Rightarrow> r = x"
  using assms by (auto simp: executeCommand_def run_simps split: option.splits)

lemma session_known_cong:
  "cl_auth w' = cl_auth w \<Longrightarrow> cl_context w' = cl_context w \<Longrightarrow> session_known w' = session_known w"
  by (simp add: session_known_def)

lemma execute_known:
  assumes "executeCommand e i w = Inr (r, w')" "session_known w"
  shows "session_known w'"
proof (cases "parseCommand (ci_line i)")
  case Nil
  with assms show ?thesis by (simp add: executeCommand_def)
next
  case (Cons cmd args)
  from execute_dispatches [OF assms(1) Cons] obtain q v where
    "dispatchCommand e i cmd args (log_line ''INFO'' (command_line (ci_line i) (cl_context w)) w) = Inr (q, v)"
    "cl_auth w' = cl_auth v" "cl_context w' = cl_context v" by metis
  with assms(2) show ?thesis using dispatch_known session_known_cong by (metis session_known_fields(1))
qed

lemma enter_known: "enter_line e i w = Inr (out, w') \<Longrightarrow> session_known w \<Longrightarrow> session_known w'"
  using execute_known [of e i "w\<lparr>cl_history := cl_history w @ [ci_line i]\<rparr>"]
  by (auto simp: enter_line_def run_simps split: if_splits)

inductive cli_step :: "('c, 'd) cli_env \<Rightarrow> ('c, 'd) cli \<Rightarrow> ('c, 'd) cli \<Rightarrow> bool" for e where
  "enter_line e i w = Inr (out, w') \<Longrightarrow> cli_step e w w'"

inductive_cases cli_stepE: "cli_step e w w'"

interpretation interface: invariant_system "\<lambda>w. cl_context w = new_context" "cli_step e" session_known for e
proof unfold_locales
  fix w :: "('a, 'b) cli"
  assume "cl_context w = new_context"
  then show "session_known w" by (simp add: not_logged_in_known isLoggedIn_def new_context_def)
next
  fix w w' :: "('a, 'b) cli"
  assume "session_known w" "cli_step e w w'"
  then show "session_known w'"
    by (auto elim: cli_stepE dest: enter_known)
qed

lemma session_gate_closed:
  assumes "dispatchCommand e i cmd args w = Inr (r, w')" "cmd \<notin> set open_commands"
    and "\<not> (isLoggedIn (cl_context w) \<and>
      (\<exists>s. auth_validateToken (cl_system w) (ci_now i) (Some (cx_session_token (cl_context w))) (cl_auth w) = Inr (OK, s)))"
  shows "(\<exists>m. r = Some (error_result m)) \<and> cl_tables w' = cl_tables w \<and> cl_auth w' = cl_auth w"
  using assms by (auto simp: dispatch_gated requireLogin_def run_simps replied_def split: if_splits)

text \<open>C7 Whatever lines have been entered since the interface was opened: a command other than the nine
  open ones succeeds, reads or changes anything only while the session of the last login is in the store,
  belongs to the officer the prompt shows, and that login is less than eight hours old.\<close>

theorem commands_need_session:
  assumes "cl_context w0 = new_context" "(cli_step e)\<^sup>*\<^sup>* w0 w"
    and "parseCommand (ci_line i) = cmd # args" "cmd \<notin> set open_commands"
    and "executeCommand e i w = Inr (r, w')"
    and "cr_success r \<or> cl_tables w' \<noteq> cl_tables w \<or> cl_auth w' \<noteq> cl_auth w"
  shows "ci_now i < cx_login_time (cl_context w) + 8 * 3600
    \<and> (\<exists>s. map_of (am_session_store (cl_auth w)) (cx_session_token (cl_context w)) = Some s
         \<and> sc_cnic s = cx_cnic (cl_context w) \<and> sc_officerId s = cx_officer_id (cl_context w)
         \<and> sc_rank s = cx_rank (cl_context w))"
proof -
  let ?w = "log_line ''INFO'' (command_line (ci_line i) (cl_context w)) w"
  from execute_dispatches [OF assms(5,3)] obtain q v where d: "dispatchCommand e i cmd args ?w = Inr (q, v)"
    and out: "cl_auth w' = cl_auth v" "cl_tables w' = cl_tables v"
      "case q of None \<Rightarrow> \<not> cr_success r | Some x \<Rightarrow> r = x" by metis
  have "isLoggedIn (cl_context ?w) \<and>
      (\<exists>s. auth_validateToken (cl_system ?w) (ci_now i) (Some (cx_session_token (cl_context ?w))) (cl_auth ?w) = Inr (OK, s))"
  proof (rule ccontr)
    assume "\<not> ?thesis"
    from session_gate_closed [OF d assms(4) this] out assms(6) show False by auto
  qed
  then obtain s where "isLoggedIn (cl_context w)"
    "map_of (am_session_store (cl_auth w)) (cx_session_token (cl_context w)) = Some s" "ci_now i < sc_expiresAt s"
    by (auto dest: auth_validateToken_OK)
  moreover have "session_known w" using interface.reachable_inv [OF assms(1,2)] .
  ultimately show ?thesis by (simp add: session_known_def)
qed

section \<open>A session of commands\<close>

definition demo_manager :: system_manager where
  "demo_manager = snd (system_init (\<lambda>i. i) new_manager)"

definition demo_cli_env :: "(unit, registry) cli_env" where
  "demo_cli_env = \<lparr>xe_lib = demo_lib, xe_pq = run_case, xe_fallback = None,
     xe_local_time = (\<lambda>format t. ''1970''), xe_what = ''stoi''\<rparr>"

definition demo_cli_socket :: "unit unix_socket" where
  "demo_cli_socket = \<lparr>us_held = False, us_conn = Some (), us_conn_string = []\<rparr>"

definition demo_cli :: "registry \<Rightarrow> (unit, registry) cli" where
  "demo_cli rg = \<lparr>cl_system = demo_manager,
     cl_auth = \<lparr>am_session_store = [], am_duty_cache = [], am_ipc = demo_cli_socket, am_db_connection = demo_cli_socket\<rparr>,
     cl_tables = rg, cl_context = new_context, cl_running = True, cl_history = [], cl_log = []\<rparr>"

definition typed :: "string \<Rightarrow> int \<Rightarrow> cli_input" where
  "typed line now = \<lparr>ci_line = line, ci_now = now, ci_urandom = Some demo_bytes, ci_conn_ok = True\<rparr>"

definition login_text :: string where
  "login_text = ''login --cnic 35202 --password pw''"

definition demo_logged_in :: "registry \<Rightarrow> (unit, registry) cli" where
  "demo_logged_in rg = (demo_cli rg)\<lparr>
     cl_auth := \<lparr>am_session_store = [(sc_sessionToken demo_session, demo_session)], am_duty_cache = [],
        am_ipc = demo_cli_socket, am_db_connection = demo_cli_socket\<rparr>,
     cl_context := \<lparr>cx_officer_id = 7, cx_cnic = ''35202'', cx_username = ''35202'',
        cx_session_token = sc_sessionToken demo_session, cx_rank = SI, cx_permissions = [], cx_login_time = 1000\<rparr>,
     cl_history := [login_text],
     cl_log := [(''INFO'', ''[CLI] Command: login --cnic 35202 --password pw (user: guest)''),
        (''INFO'', ''[CLI] User logged in: CNIC=35202, Officer=7, Rank=3'')]\<rparr>"

lemma demo_facades [simp]: "fc_auth (sm_facades demo_manager) = Some 0" "fc_case (sm_facades demo_manager) = Some 2"
    "sm_initialized demo_manager"
  by (simp_all add: demo_manager_def system_init_def new_manager_def fill_def no_adapters_def Let_def)

lemma parse_login: "parseCommand login_text = [''login'', ''--cnic'', ''35202'', ''--password'', ''pw'']"
  using parseCommand_spaced [of "[''login'', ''--cnic'', ''35202'', ''--password'', ''pw'']"]
  by (simp add: login_text_def is_word_def is_space_def)

lemma demo_auth_login:
  "auth_login demo_manager demo_lib (executeQuery demo_lib) None (Some demo_bytes) 1000 (Some ''35202'') (Some ''pw'') (cl_auth (demo_cli rg))
   = Inr ((OK, sc_sessionToken demo_session), cl_auth (demo_logged_in rg))"
  by (simp add: auth_login_def through_def adapter_login_def to_string_def login_def demo_not_rejected login_query_def login_on_def
      isHealthy_def lock_defs demo_lib_def demo_cli_def demo_cli_socket_def login_decide_def session_of_row_def demo_stoi
      parseOfficerRank_def grant_session_def store_insert_def executeQuery_def execute_def demo_session_def empty_session_def
      demo_token Let_def success_def demo_logged_in_def)

lemma demo_auth_valid:
  "t < 29800 \<Longrightarrow> auth_validateToken demo_manager t (Some (sc_sessionToken demo_session)) (cl_auth (demo_logged_in rg)) = Inr (OK, demo_session)"
  by (simp add: auth_validateToken_def through_def adapter_validateToken_def to_string_def validateToken_def store_validate_def
      store_isExpired_def demo_logged_in_def demo_session_def demo_token success_def)

lemma digits_3_7: "show_nat 3 = ''3''" "show_nat 7 = ''7''"
  by code_simp+

lemma login_logged:
  "command_line login_text new_context = ''[CLI] Command: login --cnic 35202 --password pw (user: guest)''"
  "login_line ''35202'' demo_session = ''[CLI] User logged in: CNIC=35202, Officer=7, Rank=3''" "login_text \<noteq> []"
  by (simp_all add: command_line_def login_text_def new_context_def login_line_def demo_session_def show_int_def digits_3_7)

lemma demo_enter_login:
  "enter_line demo_cli_env (typed login_text 1000) (demo_cli rg)
   = Inr ([Out (''Login successful'' @ nl)], demo_logged_in rg)"
  using demo_auth_login [of rg] demo_auth_valid [of 1000 rg] login_logged
  by (simp add: enter_line_def typed_def executeCommand_def parse_login dispatchCommand_def handleLoginCommand_def
      parseArgs_def no_args_def put_flag_def demo_cli_env_def log_line_def replied_def
      demo_cli_def demo_logged_in_def new_context_def isLoggedIn_def demo_session_def
      ok_result_def print_result_def)

lemma parse_list: "parseCommand ''case list'' = [''case'', ''list'']"
  using parseCommand_spaced [of "[''case'', ''list'']"] by (simp add: is_word_def is_space_def)

lemma demo_reached: "(cli_step demo_cli_env)\<^sup>*\<^sup>* (demo_cli rg) (demo_logged_in rg)"
  by (rule r_into_rtranclp) (rule cli_step.intros [OF demo_enter_login])

lemma demo_list:
  "\<exists>r w'. executeCommand demo_cli_env (typed ''case list'' 2000) (demo_logged_in demo_registry) = Inr (r, w') \<and> cr_success r"
  using demo_auth_valid [of 2000 demo_registry]
  by (simp add: executeCommand_def typed_def parse_list dispatchCommand_def requireLogin_def isLoggedIn_def log_line_def
      demo_logged_in_def demo_session_def demo_token demo_cli_def dispatch_domain_def handleCaseCommand_def
      handleCaseListCommand_def parseArgs_def no_args_def case_list_of_def demo_cli_env_def getCasesByStation_def conn_ok_def
      run_case_def demo_registry_def select_cases_by_station_def rows_where_def listing_def success_def replied_def)

theorem commands_need_session_witness:
  "\<exists>r w'. executeCommand demo_cli_env (typed ''case list'' 2000) (demo_logged_in demo_registry) = Inr (r, w') \<and> cr_success r
     \<and> 2000 < cx_login_time (cl_context (demo_logged_in demo_registry)) + 8 * 3600"
proof -
  obtain r w' where l: "executeCommand demo_cli_env (typed ''case list'' 2000) (demo_logged_in demo_registry) = Inr (r, w')" "cr_success r"
    using demo_list by blast
  have p: "parseCommand (ci_line (typed ''case list'' 2000)) = ''case'' # [''list'']" by (simp add: typed_def parse_list)
  have "cl_context (demo_cli demo_registry) = new_context" by (simp add: demo_cli_def)
  from commands_need_session [OF this demo_reached p _ l(1)] l show ?thesis
    by (auto simp: open_commands_def typed_def)
qed

section \<open>No command changes a table\<close>

definition same_tables :: "registry \<Rightarrow> registry \<Rightarrow> bool" where
  "same_tables rg rg' \<longleftrightarrow> rg'\<lparr>rg_count := 0\<rparr> = rg\<lparr>rg_count := 0\<rparr>"

lemma same_tables_refl [simp]: "same_tables rg rg"
  by (simp add: same_tables_def)

lemma same_tables_trans: "same_tables a b \<Longrightarrow> same_tables b c \<Longrightarrow> same_tables a c"
  by (simp add: same_tables_def)

lemma select_keeps:
  "same_tables rg (snd (run_case rg SELECT_CASE ps))" "same_tables rg (snd (run_case rg SELECT_CASES_BY_STATION ps))"
  by (auto simp: same_tables_def run_case_def Let_def select_case_def select_cases_by_station_def split: option.split)

lemma list_tables:
  "case_list_of e i station w = Inr (r, w')
     \<Longrightarrow> cl_tables w' = snd (getCasesByStation (xe_pq e) (Some (ci_conn_ok i)) station (cl_tables w))"
  by (auto simp: case_list_of_def reply_defs Let_def split: prod.splits if_splits)

lemma getCasesByStation_keeps: "same_tables rg (snd (getCasesByStation run_case conn station rg))"
  using select_keeps(2) [of rg "[num station]"]
  by (auto simp: getCasesByStation_def listing_def split: prod.splits outcome_pg.splits)

lemma list_keeps:
  "xe_pq e = run_case \<Longrightarrow> case_list_of e i station w = Inr (r, w') \<Longrightarrow> same_tables (cl_tables w) (cl_tables w')"
  by (simp add: list_tables getCasesByStation_keeps)

lemma getCaseById_keeps:
  assumes "getCaseById run_case s2 conn k rg us = Inr (x, rg', us')"
  shows "same_tables rg rg'"
  using assms select_keeps(1) [of rg "[num k]"]
  by (cases "run_case rg SELECT_CASE [num k]")
    (auto simp: getCaseById_def run_simps split: if_splits option.splits outcome_pg.splits list.splits)

lemma view_keeps:
  assumes "xe_pq e = run_case" "case_view_of e i k w = Inr (r, w')"
  shows "same_tables (cl_tables w) (cl_tables w')"
  using assms
  by (auto simp: case_view_of_def reply_defs Let_def split: sum.splits prod.splits if_splits dest: getCaseById_keeps)

lemma case_command_keeps:
  "xe_pq e = run_case \<Longrightarrow> handleCaseCommand e i args w = Inr (r, w') \<Longrightarrow> same_tables (cl_tables w) (cl_tables w')"
  by (auto simp: handleCaseCommand_def handleCaseListCommand_def handleCaseViewCommand_def replied_def thrown_def
      split: list.splits option.splits if_splits dest: list_keeps view_keeps)

lemma login_logout_tables:
  "handleLoginCommand e i args w = Inr (r, w') \<Longrightarrow> cl_tables w' = cl_tables w"
  "handleLogoutCommand e i args w = Inr (r, w') \<Longrightarrow> cl_tables w' = cl_tables w"
  by (auto simp: handleLoginCommand_def handleLogoutCommand_def reply_defs Let_def run_simps
      split: option.splits sum.splits if_splits)

lemma dispatch_keeps:
  assumes "xe_pq e = run_case" "dispatchCommand e i cmd args w = Inr (r, w')"
  shows "same_tables (cl_tables w) (cl_tables w')"
proof (cases "cmd \<in> set open_commands")
  case True
  with assms(2) have "cl_tables w' = cl_tables w"
    by (auto simp: open_commands_def dispatchCommand_def replied_def handleExitCommand_def
        dest: login_logout_tables)
  then show ?thesis by simp
next
  case False
  with assms obtain q v where q: "requireLogin i w = Inr (q, v)"
    and d: "(if \<not> cr_success q then replied q v else dispatch_domain e i cmd args v) = Inr (r, w')"
    by (auto simp: dispatch_gated run_simps)
  have "cl_tables v = cl_tables w" using q by (auto simp: requireLogin_def run_simps split: if_splits)
  with d assms(1) show ?thesis
    by (auto simp: replied_def dispatch_domain_def split: if_splits dest: case_command_keeps)
qed

lemma execute_keeps:
  assumes "xe_pq e = run_case" "executeCommand e i w = Inr (r, w')"
  shows "same_tables (cl_tables w) (cl_tables w')"
proof (cases "parseCommand (ci_line i)")
  case Nil
  with assms show ?thesis by (simp add: executeCommand_def)
next
  case (Cons cmd args)
  from execute_dispatches [OF assms(2) Cons] dispatch_keeps [OF assms(1)] show ?thesis
    by (metis logs_only(2))
qed

lemma lines_keep:
  "xe_pq e = run_case \<Longrightarrow> read_lines e is w = Inr (out, w') \<Longrightarrow> same_tables (cl_tables w) (cl_tables w')"
proof (induction "is" arbitrary: w out)
  case Nil
  then show ?case by auto
next
  case (Cons i "is")
  from Cons.prems(2) obtain o1 v where v: "enter_line e i w = Inr (o1, v)" by (auto simp: run_simps)
  have "same_tables (cl_tables w) (cl_tables v)"
    using v execute_keeps [OF Cons.prems(1), of i "w\<lparr>cl_history := cl_history w @ [ci_line i]\<rparr>"]
    by (auto simp: enter_line_def run_simps split: if_splits)
  moreover have "v = w' \<or> (\<exists>o2. read_lines e is v = Inr (o2, w'))"
    using Cons.prems(2) v by (auto simp: run_simps split: if_splits)
  ultimately show ?case using Cons.IH [OF Cons.prems(1)] same_tables_trans by blast
qed

text \<open>C14 A whole session at the prompt leaves the tables of cases and parties as they were, whatever lines
  are entered and whoever enters them: the commands the help lists for creating, updating, closing and
  reopening a case change nothing, although they answer that they succeeded.\<close>

theorem session_changes_no_table:
  assumes "xe_pq e = run_case" "cli_start e inputs w = Inr (code, out, w')"
  shows "same_tables (cl_tables w) (cl_tables w')"
  using assms lines_keep [OF assms(1), of inputs "w\<lparr>cl_running := True\<rparr>"]
  by (auto simp: cli_start_def run_simps split: if_splits)

theorem session_changes_no_table_witness:
  "\<exists>code out w'. cli_start demo_cli_env [typed ''case close 7 --reason done'' 2000] (demo_logged_in demo_victims) = Inr (code, out, w')
     \<and> Out (''Case close placeholder (feature in progress)'' @ nl) \<in> set out
     \<and> same_tables demo_victims (cl_tables w')"
proof -
  have p: "parseCommand ''case close 7 --reason done'' = [''case'', ''close'', ''7'', ''--reason'', ''done'']"
    using parseCommand_spaced [of "[''case'', ''close'', ''7'', ''--reason'', ''done'']"] by (simp add: is_word_def is_space_def)
  have "\<exists>code out w'. cli_start demo_cli_env [typed ''case close 7 --reason done'' 2000] (demo_logged_in demo_victims) = Inr (code, out, w')
     \<and> Out (''Case close placeholder (feature in progress)'' @ nl) \<in> set out"
    using demo_auth_valid [of 2000 demo_victims]
    by (simp add: cli_start_def enter_line_def executeCommand_def typed_def p dispatchCommand_def requireLogin_def isLoggedIn_def
        log_line_def demo_logged_in_def demo_session_def demo_token demo_cli_def dispatch_domain_def handleCaseCommand_def
        handleCaseCloseCommand_def replied_def print_result_def)
  moreover have "xe_pq demo_cli_env = run_case" "cl_tables (demo_logged_in demo_victims) = demo_victims"
    by (simp_all add: demo_cli_env_def demo_logged_in_def demo_cli_def)
  ultimately show ?thesis using session_changes_no_table [of demo_cli_env] by metis
qed

end
