(* ===== verification/Command_Answers.thy ===== *)
theory Command_Answers
  imports Command_Gate
begin

text \<open>
  Three more facts about the command line: what a line leaves behind in the history and the log, what the
  prompt shows of a case, and that every line is answered while the mutexes of the process are free.
\<close>

section \<open>What is left of a line\<close>

lemma login_history: "handleLoginCommand e i args w = Inr (r, w') \<Longrightarrow> cl_history w' = cl_history w"
  by (auto simp: handleLoginCommand_def reply_defs Let_def run_simps split: option.splits sum.splits if_splits)

lemma logout_history: "handleLogoutCommand e i args w = Inr (r, w') \<Longrightarrow> cl_history w' = cl_history w"
  by (auto simp: handleLogoutCommand_def reply_defs run_simps split: if_splits)

lemma requireLogin_history: "requireLogin i w = Inr (r, w') \<Longrightarrow> cl_history w' = cl_history w"
  by (auto simp: requireLogin_def run_simps split: if_splits)

lemma dispatch_history:
  assumes "dispatchCommand e i cmd args w = Inr (r, w')"
  shows "cl_history w' = cl_history w"
proof (cases "cmd \<in> set open_commands")
  case True
  with assms show ?thesis
    by (auto simp: open_commands_def dispatchCommand_def replied_def handleExitCommand_def
        dest: login_history logout_history)
next
  case False
  with assms obtain q v where q: "requireLogin i w = Inr (q, v)"
    and d: "(if \<not> cr_success q then replied q v else dispatch_domain e i cmd args v) = Inr (r, w')"
    by (auto simp: dispatch_gated run_simps)
  from d requireLogin_history [OF q] show ?thesis
    by (auto simp: replied_def same_session_def split: if_splits dest: domain_same)
qed

lemma execute_history:
  assumes "executeCommand e i w = Inr (r, w')"
  shows "cl_history w' = cl_history w"
proof (cases "parseCommand (ci_line i)")
  case Nil
  with assms show ?thesis by (simp add: executeCommand_def)
next
  case (Cons cmd args)
  from execute_dispatches [OF assms Cons] dispatch_history show ?thesis by (metis logs_only(5))
qed

lemma enter_history:
  "enter_line e i w = Inr (out, w') \<Longrightarrow> cl_history w' = cl_history w @ (if ci_line i = [] then [] else [ci_line i])"
  by (auto simp: enter_line_def run_simps split: if_splits dest: execute_history)

lemma history_grows: "(cli_step e)\<^sup>*\<^sup>* w w' \<Longrightarrow> set (cl_history w) \<subseteq> set (cl_history w')"
  by (induction rule: rtranclp_induct) (auto elim!: cli_stepE simp: enter_history)

text \<open>The log only grows, too, and a line that has words begins with its own entry.\<close>

lemma parse_history: "parseCommand ''history'' = [''history'']"
  using parseCommand_spaced [of "[''history'']"] by (simp add: is_word_def is_space_def)

lemma concat_member: "x \<in> set xs \<Longrightarrow> \<exists>us vs. concat xs = us @ x @ vs"
  by (metis append.assoc concat.simps(2) concat_append split_list)

lemma history_shows:
  assumes "l \<in> set history"
  shows "\<exists>us vs. cr_data (handleHistoryCommand args history) = us @ l @ vs"
proof -
  from assms obtain n where n: "n < length history" "history ! n = l" by (auto simp: in_set_conv_nth)
  then have "history_line (n + 1) l \<in> set (map (\<lambda>i. history_line (i + 1) (history ! i)) [0..<length history])"
    by force
  then obtain us vs where
    "concat (map (\<lambda>i. history_line (i + 1) (history ! i)) [0..<length history]) = us @ history_line (n + 1) l @ vs"
    using concat_member by blast
  then have "cr_data (handleHistoryCommand args history)
      = (''Command History:'' @ nl @ us @ setw_right 4 (show_nat (n + 1)) @ ''  '') @ l @ (nl @ vs)"
    by (simp add: handleHistoryCommand_def history_line_def)
  then show ?thesis by metis
qed

lemma enter_history_command:
  assumes "ci_line j = ''history''"
  shows "\<exists>w'. enter_line e j w = Inr ([Out (cr_data (handleHistoryCommand [] (cl_history w @ [''history''])) @ nl)], w')"
  using assms by (simp add: enter_line_def executeCommand_def parse_history dispatchCommand_def replied_def
      print_result_def handleHistoryCommand_def)

lemma dispatch_log:
  assumes "dispatchCommand e i cmd args w = Inr (r, w')"
  shows "set (cl_log w) \<subseteq> set (cl_log w')"
proof -
  have domain: "cl_log w' = cl_log v" if "dispatch_domain e i cmd args v = Inr (r, w')" for v
    using that by (auto simp: dispatch_domain_def handleCaseCommand_def handleCaseListCommand_def handleCaseViewCommand_def
        case_list_of_def case_view_of_def replied_def thrown_def Let_def
        split: if_splits list.splits option.splits prod.splits sum.splits)
  have gate: "cl_log v = cl_log w" if "requireLogin i w = Inr (q, v)" for q v
    using that by (auto simp: requireLogin_def run_simps split: if_splits)
  show ?thesis
  proof (cases "cmd \<in> set open_commands")
    case True
    with assms show ?thesis
      by (auto simp: open_commands_def dispatchCommand_def handleExitCommand_def handleLoginCommand_def
          handleLogoutCommand_def reply_defs Let_def run_simps split: option.splits sum.splits if_splits)
  next
    case False
    with assms obtain q v where q: "requireLogin i w = Inr (q, v)"
      and d: "(if \<not> cr_success q then replied q v else dispatch_domain e i cmd args v) = Inr (r, w')"
      by (auto simp: dispatch_gated run_simps)
    from d have "cl_log w' = cl_log v" by (auto simp: replied_def domain split: if_splits)
    with gate [OF q] show ?thesis by simp
  qed
qed

lemma execute_logs:
  assumes "executeCommand e i w = Inr (r, w')" "parseCommand (ci_line i) \<noteq> []"
  shows "(''INFO'', command_line (ci_line i) (cl_context w)) \<in> set (cl_log w')"
proof -
  from assms(2) obtain cmd args where p: "parseCommand (ci_line i) = cmd # args" by (cases "parseCommand (ci_line i)") auto
  from execute_dispatches [OF assms(1) p] obtain q v where
    d: "dispatchCommand e i cmd args (log_line ''INFO'' (command_line (ci_line i) (cl_context w)) w) = Inr (q, v)"
    and l: "set (cl_log v) \<subseteq> set (cl_log w')" by metis
  have "(''INFO'', command_line (ci_line i) (cl_context w))
      \<in> set (cl_log (log_line ''INFO'' (command_line (ci_line i) (cl_context w)) w))"
    by (simp add: log_line_def)
  with dispatch_log [OF d] l show ?thesis by blast
qed

lemma parse_login_line: "\<exists>ws. parseCommand (''login --cnic '' @ s) = ''login'' # ws"
proof -
  have "is_word ''login''" by (simp add: is_word_def is_space_def)
  from parseCommand_word [OF this, of "'' --cnic '' @ s"] show ?thesis by (auto simp: is_space_def)
qed

text \<open>C25 A password that was typed stays readable: a line that logs in, or tries to, is written to the log
  of the program as it stands, and whoever sits at the prompt later, logged in or not, is shown it by the
  command \<open>history\<close>.\<close>

theorem typed_password_disclosed:
  assumes "ci_line i = ''login --cnic '' @ cnic @ '' --password '' @ password"
    and "enter_line e i w = Inr (out, w1)" "(cli_step e)\<^sup>*\<^sup>* w1 w2" "ci_line j = ''history''"
  shows "(''INFO'', command_line (ci_line i) (cl_context w)) \<in> set (cl_log w1)
    \<and> (\<exists>us vs w3. enter_line e j w2 = Inr ([Out (us @ ci_line i @ vs)], w3))"
proof
  let ?w = "w\<lparr>cl_history := cl_history w @ [ci_line i]\<rparr>"
  obtain r where "executeCommand e i ?w = Inr (r, w1)"
    using assms(1,2) by (auto simp: enter_line_def run_simps)
  from execute_logs [OF this] show "(''INFO'', command_line (ci_line i) (cl_context w)) \<in> set (cl_log w1)"
    using parse_login_line [of "cnic @ '' --password '' @ password"] by (auto simp: assms(1))
  have "ci_line i \<in> set (cl_history w1)" using enter_history [OF assms(2)] assms(1) by simp
  then have "ci_line i \<in> set (cl_history w2 @ [''history''])" using history_grows [OF assms(3)] by auto
  from history_shows [OF this] obtain us vs
    where d: "cr_data (handleHistoryCommand [] (cl_history w2 @ [''history''])) = us @ ci_line i @ vs" by blast
  obtain w3 where "enter_line e j w2 = Inr ([Out ((us @ ci_line i @ vs) @ nl)], w3)"
    using enter_history_command [OF assms(4), of e w2] by (auto simp: d)
  then show "\<exists>us vs w3. enter_line e j w2 = Inr ([Out (us @ ci_line i @ vs)], w3)" by auto
qed

theorem typed_password_disclosed_witness:
  "\<exists>us vs w3. enter_line demo_cli_env (typed ''history'' 1001) (demo_logged_in demo_registry)
     = Inr ([Out (us @ ''login --cnic 35202 --password pw'' @ vs)], w3)"
proof -
  have "ci_line (typed login_text 1000) = ''login --cnic '' @ ''35202'' @ '' --password '' @ ''pw''"
    "ci_line (typed ''history'' 1001) = ''history''"
    by (simp_all add: typed_def login_text_def)
  from typed_password_disclosed [OF this(1) demo_enter_login rtranclp.rtrancl_refl this(2)] show ?thesis
    by (auto simp: typed_def login_text_def)
qed

section \<open>What is shown of a case\<close>

text \<open>The prompt does not show the state of a case: whatever the type, the status, the time of filing and
  the address in its row are, \<open>case view\<close> prints type 0, status 0, the beginning of the epoch and no address.\<close>

theorem case_view_hides_state:
  assumes "xe_pq e = run_case" "ci_conn_ok i" "rg_fails (cl_tables w) (rg_count (cl_tables w)) = None"
    and "wf_map (rg_cases (cl_tables w))" "map_of (rg_cases (cl_tables w)) k = Some row" "- (2 ^ 31) \<le> k" "k < 2 ^ 31"
  shows "\<exists>w'. handleCaseViewCommand e i [show_int k] w = replied (ok_result []
     (''Case Details:'' @ nl
      @ ''  ID:          '' @ show_int k @ nl
      @ ''  FIR Number:  '' @ cell (cr_fir_number row) @ nl
      @ ''  Type:        0'' @ nl
      @ ''  Status:      0'' @ nl
      @ ''  Filed At:    '' @ xe_local_time e ''%Y-%m-%d %H:%M:%S'' 0 @ nl
      @ ''  Address:     '' @ nl)) w'"
proof -
  have "getCaseById run_case (case_source e (cl_system w)) (Some True) k (cl_tables w) (am_ipc (cl_auth w))
    = Inr (success (empty_case\<lparr>co_case_id := k, co_fir_number := cell (cr_fir_number row),
         co_station_id := cr_station_id row, co_filed_by := cr_filed_by row\<rparr>),
        (cl_tables w)\<lparr>rg_count := rg_count (cl_tables w) + 1\<rparr>, am_ipc (cl_auth w))"
    using assms(3,4,5)
    by (simp add: getCaseById_def conn_ok_def run_ok select_case_def selected_one case_cells_def read_case_def text_simps)
  moreover have "stoi (show_int k) = Some k" using assms(6,7) by (simp add: text_simps)
  moreover have "show_nat 0 = ''0''" by code_simp
  ultimately show ?thesis
    using assms(1,2)
    by (simp add: handleCaseViewCommand_def case_view_of_def success_def case_details_def empty_case_def
        position_def case_types_def case_statuses_def replied_def)
qed

definition closed_case :: registry where
  "closed_case = demo_registry\<lparr>rg_cases := [(7, (new_case_row (replicate 11 None) 0)\<lparr>cr_fir_number := Some ''FIR-1'',
     cr_case_type := Some ''ROBBERY'', cr_case_status := ''CLOSED'', cr_filed_at := 1700000000\<rparr>)]\<rparr>"

theorem case_view_hides_state_witness:
  "\<exists>w' us vs. handleCaseViewCommand demo_cli_env (typed [] 0) [''7''] (demo_cli closed_case)
     = replied (ok_result [] (us @ ''  Status:      0'' @ vs)) w'"
proof -
  let ?row = "(new_case_row (replicate 11 None) 0)\<lparr>cr_fir_number := Some ''FIR-1'',
     cr_case_type := Some ''ROBBERY'', cr_case_status := ''CLOSED'', cr_filed_at := 1700000000\<rparr>"
  have "map_of (rg_cases (cl_tables (demo_cli closed_case))) 7 = Some ?row"
    by (simp add: demo_cli_def closed_case_def)
  from case_view_hides_state [OF _ _ _ _ this, of demo_cli_env "typed [] 0"]
  obtain w' where "handleCaseViewCommand demo_cli_env (typed [] 0) [show_int 7] (demo_cli closed_case) = replied (ok_result []
     ((''Case Details:'' @ nl @ ''  ID:          '' @ show_int 7 @ nl
      @ ''  FIR Number:  '' @ cell (cr_fir_number ?row) @ nl @ ''  Type:        0'' @ nl)
      @ ''  Status:      0'' @ (nl
      @ ''  Filed At:    '' @ xe_local_time demo_cli_env ''%Y-%m-%d %H:%M:%S'' 0 @ nl
      @ ''  Address:     '' @ nl))) w'"
    by (auto simp: demo_cli_env_def typed_def demo_cli_def closed_case_def demo_registry_def wf_map_def)
  moreover have "show_int 7 = ''7''" by code_simp
  ultimately show ?thesis by metis
qed

section \<open>Every line is answered\<close>

definition free_mutexes :: "('c, 'd) cli \<Rightarrow> bool" where
  "free_mutexes w \<longleftrightarrow> \<not> us_held (am_ipc (cl_auth w)) \<and> \<not> us_held (am_db_connection (cl_auth w))"

definition served :: "('c, 'd) cli \<Rightarrow> bool" where
  "served w \<longleftrightarrow> wired (cl_system w) \<and> sm_initialized (cl_system w) \<and> free_mutexes w"

text \<open>The statement selects three columns.\<close>

definition login_columns :: "'c libpq \<Rightarrow> bool" where
  "login_columns lib \<longleftrightarrow> (\<forall>c ps rows c'. PQexecParams lib c LOGIN_SQL ps = (TuplesOk rows, c') \<longrightarrow> (\<forall>row \<in> set rows. length row = 3))"

lemma wired_facades: "wired sm \<Longrightarrow> sm_initialized sm \<Longrightarrow> fc_auth (sm_facades sm) \<noteq> None \<and> fc_case (sm_facades sm) \<noteq> None"
  by (auto simp: wired_def Let_def)

lemma executeQuery_free:
  assumes "\<not> us_held us"
  obtains rc rows us' where "executeQuery lib q us = Inr (rc, rows, us')" "\<not> us_held us'"
  using ipc.exec_returns [OF assms] by blast

lemma login_query_leaves_free:
  assumes "\<not> us_held us"
  obtains rc rows us' where "login_query lib cnic pw us = Inr (rc, rows, us')" "\<not> us_held us'"
proof -
  have "\<exists>rc rows us'. login_query lib cnic pw us = Inr (rc, rows, us') \<and> \<not> us_held us'"
    using assms unfolding login_query_def login_on_def
    by (auto simp: isHealthy_def lock_defs Let_def split: option.splits pg_result.splits prod.splits)
  with that show thesis by blast
qed

lemma grant_free:
  assumes "\<not> us_held (am_ipc am)"
  shows "\<exists>am'. grant_session (executeQuery lib) s am = Inr (OK, s, am') \<and> \<not> us_held (am_ipc am')
    \<and> am_db_connection am' = am_db_connection am"
proof -
  from executeQuery_free [OF assms, of lib "insert_query s"] obtain rc rows us'
    where "executeQuery lib (insert_query s) (am_ipc am) = Inr (rc, rows, us')" "\<not> us_held us'" .
  then show ?thesis by (simp add: grant_session_def store_insert_def)
qed

lemma decide_free:
  assumes "\<not> us_held (am_ipc am)" "rc = OK \<Longrightarrow> \<forall>row \<in> set rows. length row = 3"
  shows "login_decide (executeQuery lib) env u now cnic pw out rc rows am = Inl ThrowsException
    \<or> (\<exists>rc' s am'. login_decide (executeQuery lib) env u now cnic pw out rc rows am = Inr (rc', s, am')
        \<and> \<not> us_held (am_ipc am') \<and> am_db_connection am' = am_db_connection am)"
proof (cases "rc = OK \<and> rows \<noteq> [] \<and> hd rows \<noteq> []")
  case True
  then have "length (hd rows) = 3" using assms(2) by simp
  then have row: "session_of_row u now cnic (hd rows) out = Inl ThrowsException
      \<or> (\<exists>rc s. session_of_row u now cnic (hd rows) out = Inr (rc, s))"
    by (simp add: session_of_row_def Let_def split: option.split)
  have decide: "login_decide (executeQuery lib) env u now cnic pw out rc rows am
      = and_then (session_of_row u now cnic (hd rows) out) (\<lambda>(rc, s).
          if rc \<noteq> OK then Inr (rc, s, am) else grant_session (executeQuery lib) s am)"
    using True by (simp add: login_decide_def)
  obtain f where "grant_session (executeQuery lib) s am = Inr (OK, s, f s)" "\<not> us_held (am_ipc (f s))"
    "am_db_connection (f s) = am_db_connection am" for s
    using grant_free [OF assms(1), of lib] by metis
  with row assms(1) show ?thesis by (auto simp: decide)
next
  case False
  obtain f where "grant_session (executeQuery lib) s am = Inr (OK, s, f s)" "\<not> us_held (am_ipc (f s))"
    "am_db_connection (f s) = am_db_connection am" for s
    using grant_free [OF assms(1), of lib] by metis
  with False assms(1) show ?thesis by (auto simp: login_decide_def split: option.split)
qed

lemma cli_login_free:
  assumes "free_mutexes w" "login_columns lib"
  shows "login lib (executeQuery lib) env u now cnic pw out (cl_auth w) = Inl ThrowsException
    \<or> (\<exists>rc s b am. login lib (executeQuery lib) env u now cnic pw out (cl_auth w) = Inr (rc, s, b, am)
        \<and> \<not> us_held (am_ipc am) \<and> \<not> us_held (am_db_connection am))"
proof (cases "cnic = [] \<or> pw = [] \<or> isRejectedCredentialInput cnic pw")
  case True
  then show ?thesis using assms(1) by (auto simp: login_def free_mutexes_def)
next
  case False
  from assms(1) have "\<not> us_held (am_db_connection (cl_auth w))" by (simp add: free_mutexes_def)
  from login_query_leaves_free [OF this, of lib cnic pw] obtain rc rows us
    where q: "login_query lib cnic pw (am_db_connection (cl_auth w)) = Inr (rc, rows, us)" and us: "\<not> us_held us" .
  have "\<forall>row \<in> set rows. length row = 3" if "rc = OK"
    using login_query_rows [OF q] that assms(2) unfolding login_columns_def by auto
  from decide_free [of "(cl_auth w)\<lparr>am_db_connection := us\<rparr>" rc rows lib env u now cnic pw out, OF _ this]
  show ?thesis using False q us assms(1) by (auto simp: login_def free_mutexes_def)
qed

lemma served_cong:
  "cl_system w' = cl_system w \<Longrightarrow> am_ipc (cl_auth w') = am_ipc (cl_auth w)
     \<Longrightarrow> am_db_connection (cl_auth w') = am_db_connection (cl_auth w) \<Longrightarrow> served w' = served w"
  by (simp add: served_def free_mutexes_def)

lemma validate_served:
  assumes "served w"
  shows "\<exists>x. auth_validateToken (cl_system w) now (Some tok) am = Inr x"
  using assms wired_facades [of "cl_system w"]
  by (auto simp: served_def auth_validateToken_def through_def adapter_validateToken_def to_string_def split: prod.splits)

definition gets_answer :: "('c, 'd) handled_command \<Rightarrow> bool" where
  "gets_answer m \<longleftrightarrow> (\<exists>r w. m = Inr (r, w) \<and> served w)"

lemma replied_answered [simp]: "gets_answer (replied r w) \<longleftrightarrow> served w"
  by (simp add: gets_answer_def replied_def)

lemma thrown_answered [simp]: "gets_answer (thrown w) \<longleftrightarrow> served w"
  by (simp add: gets_answer_def thrown_def)

lemma served_log [simp]: "served (log_line l m w) = served w"
  by (simp add: served_def free_mutexes_def)

lemma served_fields [simp]:
  "served (w\<lparr>cl_context := c\<rparr>) = served w" "served (w\<lparr>cl_running := b\<rparr>) = served w"
  "served (w\<lparr>cl_history := h\<rparr>) = served w" "served (w\<lparr>cl_tables := d\<rparr>) = served w"
  by (simp_all add: served_def free_mutexes_def)

lemma served_auth:
  "served w \<Longrightarrow> \<not> us_held (am_ipc am) \<Longrightarrow> \<not> us_held (am_db_connection am) \<Longrightarrow> served (w\<lparr>cl_auth := am\<rparr>)"
  by (simp add: served_def free_mutexes_def)

lemma after_login_free:
  assumes "served w"
  shows "served (w\<lparr>cl_auth := after_failed_login lib cnic pw (cl_auth w)\<rparr>)"
proof -
  from assms have f: "\<not> us_held (am_db_connection (cl_auth w))" "\<not> us_held (am_ipc (cl_auth w))"
    by (simp_all add: served_def free_mutexes_def)
  from login_query_leaves_free [OF f(1), of lib cnic pw] obtain rc rows us
    where "login_query lib cnic pw (am_db_connection (cl_auth w)) = Inr (rc, rows, us)" "\<not> us_held us" .
  with f assms show ?thesis by (intro served_auth) (simp_all add: after_failed_login_def)
qed

lemma login_answered:
  assumes "served w" "login_columns (xe_lib e)"
  shows "gets_answer (handleLoginCommand e i args w)"
proof -
  let ?login = "\<lambda>cnic pw. auth_login (cl_system w) (xe_lib e) (executeQuery (xe_lib e)) (xe_fallback e) (ci_urandom i)
    (ci_now i) (Some cnic) (Some pw) (cl_auth w)"
  have free: "free_mutexes w" using assms(1) by (simp add: served_def)
  have auth: "?login cnic pw = Inl ThrowsException \<or> (\<exists>rc tok am. ?login cnic pw = Inr ((rc, tok), am)
      \<and> served (w\<lparr>cl_auth := am\<rparr>))" for cnic pw
    using cli_login_free [OF free assms(2), of "xe_fallback e" "ci_urandom i" "ci_now i" cnic pw empty_session]
      wired_facades [of "cl_system w"] assms(1)
    by (auto simp: auth_login_def through_def adapter_login_def to_string_def success_def failure_def served_def
        free_mutexes_def)
  show ?thesis
  proof (cases "isLoggedIn (cl_context w)")
    case True
    with assms(1) show ?thesis by (simp add: handleLoginCommand_def)
  next
    case out: False
    show ?thesis
    proof (cases "map_of (pa_flags (parseArgs args 0)) ''cnic'' = None \<or> map_of (pa_flags (parseArgs args 0)) ''password'' = None")
      case True
      with out assms(1) show ?thesis by (auto simp: handleLoginCommand_def Let_def split: option.split)
    next
      case False
      then obtain cnic pw where flags: "map_of (pa_flags (parseArgs args 0)) ''cnic'' = Some cnic"
        "map_of (pa_flags (parseArgs args 0)) ''password'' = Some pw" by auto
      from auth [of cnic pw] show ?thesis
      proof (elim disjE exE conjE)
        assume "?login cnic pw = Inl ThrowsException"
        with out flags after_login_free [OF assms(1)] show ?thesis by (simp add: handleLoginCommand_def)
      next
        fix rc tok am
        assume am: "?login cnic pw = Inr ((rc, tok), am)" "served (w\<lparr>cl_auth := am\<rparr>)"
        obtain vc s where "auth_validateToken (cl_system w) (ci_now i) (Some tok) am = Inr (vc, s)"
          using validate_served [OF am(2), of "ci_now i" tok am] by auto
        with am out flags show ?thesis by (simp add: handleLoginCommand_def Let_def)
      qed
    qed
  qed
qed

lemma adapter_logout_free:
  assumes "free_mutexes w"
  shows "\<exists>r am. adapter_logout (executeQuery lib) now tok (cl_auth w) = Inr (r, am)
    \<and> \<not> us_held (am_ipc am) \<and> \<not> us_held (am_db_connection am)"
proof -
  have f: "\<not> us_held (am_ipc (cl_auth w))" "\<not> us_held (am_db_connection (cl_auth w))"
    using assms by (simp_all add: free_mutexes_def)
  obtain rc rows us where "executeQuery lib (remove_query now (the tok)) (am_ipc (cl_auth w)) = Inr (rc, rows, us)" "\<not> us_held us"
    using executeQuery_free [OF f(1)] .
  with f show ?thesis
    by (auto simp: adapter_logout_def logout_def store_remove_def Let_def failure_def success_def split: option.split)
qed

lemma logout_answered:
  assumes "served w"
  shows "gets_answer (handleLogoutCommand e i args w)"
proof -
  have "free_mutexes w" using assms by (simp add: served_def)
  from adapter_logout_free [OF this, of "xe_lib e" "ci_now i" "Some (cx_session_token (cl_context w))"] obtain r am where
    "adapter_logout (executeQuery (xe_lib e)) (ci_now i) (Some (cx_session_token (cl_context w))) (cl_auth w) = Inr (r, am)"
    "\<not> us_held (am_ipc am)" "\<not> us_held (am_db_connection am)" by blast
  with assms wired_facades [of "cl_system w"] show ?thesis
    by (auto simp: handleLogoutCommand_def auth_logout_def through_def served_def free_mutexes_def)
qed

lemma requireLogin_answered:
  "served w \<Longrightarrow> \<exists>r w'. requireLogin i w = Inr (r, w') \<and> served w'"
  using validate_served [of w "ci_now i" "cx_session_token (cl_context w)" "cl_auth w"]
  by (auto simp: requireLogin_def)

lemma list_answered: "served w \<Longrightarrow> gets_answer (case_list_of e i station w)"
  by (auto simp: case_list_of_def Let_def split: prod.split)

text \<open>The query of \<open>fetchCase\<close> selects 24 columns.\<close>

definition fetch_columns :: "'c libpq \<Rightarrow> bool" where
  "fetch_columns lib \<longleftrightarrow> (\<forall>c k rows c'. PQexec lib c (fetch_query k) = (TuplesOk rows, c') \<longrightarrow> (\<forall>row \<in> set rows. length row = 24))"

lemma fetch_query_whole: "c_str (fetch_query k) = fetch_query k"
proof (rule c_str_id)
  have "NUL \<notin> set case_columns" "NUL \<notin> set ''FROM public.cases WHERE case_id = ''"
    by (simp_all add: case_columns_def NUL_def)
  then show "NUL \<notin> set (fetch_query k)" by (simp add: fetch_query_def) (simp add: NUL_def)
qed

lemma execute_columns:
  "executeQuery lib q us = Inr (OK, rows, us') \<Longrightarrow> rows = [] \<or> (\<exists>c c'. PQexec lib c (c_str q) = (TuplesOk rows, c'))"
  by (cases "us_held us"; cases "us_conn us"; cases "PQstatus_ok lib (the (us_conn us))";
      cases "PQexec lib (the (us_conn us)) (c_str q)"; cases "fst (PQexec lib (the (us_conn us)) (c_str q))")
    (auto simp: executeQuery_def execute_def lock_defs)

lemma fetch_free:
  assumes "\<not> us_held us" "fetch_columns lib"
  shows "adapter_fetchCase (executeQuery lib) k us = Inl ThrowsException
    \<or> (\<exists>r us'. adapter_fetchCase (executeQuery lib) k us = Inr (r, us') \<and> \<not> us_held us')"
proof -
  from executeQuery_free [OF assms(1)] obtain rc rows us'
    where q: "executeQuery lib (fetch_query k) us = Inr (rc, rows, us')" "\<not> us_held us'" .
  show ?thesis
  proof (cases "rc = OK \<and> rows \<noteq> []")
    case True
    with execute_columns [of lib "fetch_query k" us rows us'] q have "length (hd rows) = 24"
      using assms(2) unfolding fetch_columns_def fetch_query_whole by (metis hd_in_set)
    from parse_complete_row [OF this] True q show ?thesis
      by (auto simp: adapter_fetchCase_def fetchCase_def reads_or_throws_def split: if_splits)
  next
    case False
    with q show ?thesis by (auto simp: adapter_fetchCase_def fetchCase_def)
  qed
qed

lemma after_fetch_free:
  assumes "served w"
  shows "served (w\<lparr>cl_auth := after_failed_fetch lib k (cl_auth w)\<rparr>)"
proof -
  from assms have f: "\<not> us_held (am_db_connection (cl_auth w))" "\<not> us_held (am_ipc (cl_auth w))"
    by (simp_all add: served_def free_mutexes_def)
  from executeQuery_free [OF f(2), of lib "fetch_query k"] obtain rc rows us
    where "executeQuery lib (fetch_query k) (am_ipc (cl_auth w)) = Inr (rc, rows, us)" "\<not> us_held us" .
  with f assms show ?thesis by (intro served_auth) (simp_all add: after_failed_fetch_def)
qed

lemma getCaseById_free:
  assumes "\<not> us_held us" "fetch_columns lib"
  shows "getCaseById pq (Some (executeQuery lib)) conn k db us = Inl ThrowsException
    \<or> (\<exists>rc c db' us'. getCaseById pq (Some (executeQuery lib)) conn k db us = Inr ((rc, c), db', us') \<and> \<not> us_held us')"
  using fetch_free [OF assms, of k] assms(1)
  by (auto simp: getCaseById_def success_def failure_def split: prod.splits outcome_pg.splits list.splits option.splits)

lemma view_answered:
  assumes "served w" "fetch_columns (xe_lib e)"
  shows "gets_answer (case_view_of e i k w)"
proof -
  have f: "\<not> us_held (am_ipc (cl_auth w))" "\<not> us_held (am_db_connection (cl_auth w))"
    using assms(1) by (simp_all add: served_def free_mutexes_def)
  have "case_source e (cl_system w) = Some (executeQuery (xe_lib e))"
    using assms(1) wired_facades [of "cl_system w"] by (auto simp: served_def case_source_def)
  with getCaseById_free [OF f(1) assms(2), of "xe_pq e" "Some (ci_conn_ok i)" k "cl_tables w"]
    after_fetch_free [OF assms(1)] assms(1) f show ?thesis
    by (auto simp: case_view_of_def Let_def served_def free_mutexes_def)
qed

lemma case_answered:
  "served w \<Longrightarrow> fetch_columns (xe_lib e) \<Longrightarrow> gets_answer (handleCaseCommand e i args w)"
  by (auto simp: handleCaseCommand_def handleCaseListCommand_def handleCaseViewCommand_def list_answered view_answered
      split: list.split option.split)

lemma dispatch_answered:
  assumes "served w" "login_columns (xe_lib e)" "fetch_columns (xe_lib e)"
  shows "gets_answer (dispatchCommand e i cmd args w)"
proof (cases "cmd \<in> set open_commands")
  case True
  with assms show ?thesis
    by (auto simp: open_commands_def dispatchCommand_def handleExitCommand_def login_answered logout_answered)
next
  case False
  obtain r v where "requireLogin i w = Inr (r, v)" "served v" using requireLogin_answered [OF assms(1)] by blast
  with False assms(3) show ?thesis by (simp add: dispatch_gated dispatch_domain_def case_answered)
qed

lemma execute_answered:
  assumes "served w" "login_columns (xe_lib e)" "fetch_columns (xe_lib e)"
  shows "\<exists>r w'. executeCommand e i w = Inr (r, w') \<and> served w'"
proof (cases "parseCommand (ci_line i)")
  case Nil
  with assms(1) show ?thesis by (simp add: executeCommand_def)
next
  case (Cons cmd args)
  have "gets_answer (dispatchCommand e i cmd args (log_line ''INFO'' (command_line (ci_line i) (cl_context w)) w))"
    using assms by (intro dispatch_answered) simp_all
  with Cons show ?thesis by (auto simp: gets_answer_def executeCommand_def split: option.split)
qed

lemma enter_answered:
  assumes "served w" "login_columns (xe_lib e)" "fetch_columns (xe_lib e)"
  shows "\<exists>out w'. enter_line e i w = Inr (out, w') \<and> served w'"
  using execute_answered [of "w\<lparr>cl_history := cl_history w @ [ci_line i]\<rparr>" e i] assms
  by (auto simp: enter_line_def)

lemma lines_answered:
  assumes "login_columns (xe_lib e)" "fetch_columns (xe_lib e)"
  shows "served w \<Longrightarrow> \<exists>out w'. read_lines e is w = Inr (out, w') \<and> served w' \<and> \<not> cl_running w'"
proof (induction "is" arbitrary: w)
  case Nil
  then show ?case by simp
next
  case (Cons i "is")
  obtain out v where v: "enter_line e i w = Inr (out, v)" "served v"
    using enter_answered [OF Cons.prems assms] by blast
  from Cons.IH [OF v(2)] v show ?case by auto
qed

text \<open>C22 Every line is answered: as long as the mutexes are free and libpq delivers the columns the statements
  select, a session at the prompt comes to its end with exit code 0, for any input whatsoever, with the
  mutexes free; numbers that are none, unknown commands and statements that fail are answers like others.\<close>

theorem every_line_answered:
  assumes "wired (cl_system w)" "sm_initialized (cl_system w)" "free_mutexes w"
    and "login_columns (xe_lib e)" "fetch_columns (xe_lib e)"
  shows "\<exists>out w'. cli_start e inputs w = Inr (0, out, w') \<and> free_mutexes w' \<and> \<not> cl_running w'"
proof -
  have "served (w\<lparr>cl_running := True\<rparr>)" using assms(1-3) by (simp add: served_def free_mutexes_def)
  from lines_answered [OF assms(4,5) this, of inputs] assms(2) show ?thesis
    by (auto simp: cli_start_def served_def)
qed

theorem every_line_answered_witness:
  "\<exists>out w'. cli_start (demo_cli_env\<lparr>xe_lib := demo_lib\<lparr>PQexecParams := (\<lambda>c q ps. (TuplesOk [[''x'', ''SI'', ''3'']], c))\<rparr>\<rparr>)
     [typed login_text 1000, typed ''case view x'' 1001, typed ''nonsense'' 1002] (demo_cli demo_registry) = Inr (0, out, w')
   \<and> free_mutexes w'"
proof -
  let ?e = "demo_cli_env\<lparr>xe_lib := demo_lib\<lparr>PQexecParams := (\<lambda>c q ps. (TuplesOk [[''x'', ''SI'', ''3'']], c))\<rparr>\<rparr>"
  have "wired (cl_system (demo_cli demo_registry))" "sm_initialized (cl_system (demo_cli demo_registry))"
    by (simp_all add: demo_cli_def demo_manager_def wired_def system_init_def new_manager_def fill_def no_adapters_def Let_def)
  moreover have "free_mutexes (demo_cli demo_registry)" by (simp add: free_mutexes_def demo_cli_def demo_cli_socket_def)
  moreover have "login_columns (xe_lib ?e)" "fetch_columns (xe_lib ?e)"
    by (simp_all add: login_columns_def fetch_columns_def demo_cli_env_def demo_lib_def)
  ultimately show ?thesis using every_line_answered [of "demo_cli demo_registry" ?e] by blast
qed

end
