(* ===== verification/Main_Process.thy ===== *)
theory Main_Process
  imports Command_Answers Gateway
begin

text \<open>
  The process itself: \<open>Logger\<close> (\<open>src/common/logger.h\<close>), \<open>ApiGateway\<close> (\<open>src/api_gateway\<close>), and \<open>main.cpp\<close> with
  its orchestrator, from the arguments to the exit code. The surroundings, what the environment, \<open>fopen\<close>, the
  allocation and the system calls of the gateway answer and which lines are typed, are one record. The clock in
  front of a log line is left out. A null path given to \<open>fopen\<close> is undefined.
\<close>

section \<open>Logger\<close>

record logger =
  lg_open :: bool
  lg_lines :: "string list"

definition new_logger :: logger where
  "new_logger = \<lparr>lg_open = False, lg_lines = []\<rparr>"

definition writeLog :: "string \<Rightarrow> string \<Rightarrow> logger \<Rightarrow> logger" where
  "writeLog level message lg =
     (if lg_open lg then lg\<lparr>lg_lines := lg_lines lg @ [''['' @ level @ ''] '' @ message @ nl]\<rparr> else lg)"

definition logger_init :: "(string \<Rightarrow> bool) \<Rightarrow> cstr \<Rightarrow> logger \<Rightarrow> (bool \<times> logger) run" where
  "logger_init fopen path lg =
     (case path of
        None \<Rightarrow> Inl UndefinedBehaviour
      | Some p \<Rightarrow> Inr (fopen p, lg\<lparr>lg_open := fopen p\<rparr>))"

section \<open>ApiGateway\<close>

record api_gateway =
  ag_path :: string
  ag_impl :: "gateway option"

definition new_api_gateway :: "bool \<Rightarrow> string \<Rightarrow> api_gateway" where
  "new_api_gateway allocated path = \<lparr>ag_path = path, ag_impl = (if allocated then Some (gateway_init path) else None)\<rparr>"

definition api_start :: "start_calls \<Rightarrow> api_gateway \<Rightarrow> result_code \<times> api_gateway" where
  "api_start sys ag =
     (case ag_impl ag of
        None \<Rightarrow> (FILE_SYSTEM_ERROR, ag)
      | Some server \<Rightarrow> (case gateway_start sys server of (rc, server) \<Rightarrow> (rc, ag\<lparr>ag_impl := Some server\<rparr>)))"

definition api_stop :: "bool \<Rightarrow> api_gateway \<Rightarrow> api_gateway run" where
  "api_stop accept_ends ag =
     (case ag_impl ag of
        None \<Rightarrow> Inr ag
      | Some server \<Rightarrow>
          and_then (gateway_stop accept_ends server) (\<lambda>server. Inr (ag\<lparr>ag_impl := Some server\<rparr>)))"

definition api_isRunning :: "api_gateway \<Rightarrow> bool" where
  "api_isRunning ag = (case ag_impl ag of None \<Rightarrow> False | Some server \<Rightarrow> gs_running server)"

section \<open>The orchestrator\<close>

record orchestrator =
  or_config :: db_config
  or_gateway :: "api_gateway option"
  or_initialized :: bool

definition new_orchestrator :: "db_config \<Rightarrow> orchestrator" where
  "new_orchestrator config = \<lparr>or_config = config, or_gateway = None, or_initialized = False\<rparr>"

text \<open>The process: the singletons it has, the orchestrator of \<open>g_orchestrator\<close>, and the gateway that was
  destroyed last, which shows whether it was running.\<close>

record ('c, 'd) process =
  pr_manager :: system_manager
  pr_auth :: "('c unix_socket, 'c) auth_manager"
  pr_tables :: 'd
  pr_logger :: logger
  pr_orchestrator :: "orchestrator option"
  pr_destroyed :: "api_gateway option"
  pr_printed :: "printed list"

record ('c, 'd) surroundings =
  bt_getenv :: "string \<Rightarrow> cstr"
  bt_fopen :: "string \<Rightarrow> bool"
  bt_allocated :: bool
  bt_calls :: start_calls
  bt_accept_ends :: bool   \<comment> \<open>whether the accept thread ends once its socket is closed (\<open>Accept_Loop\<close>)\<close>
  bt_pq_error :: string    \<comment> \<open>\<open>PQerrorMessage\<close>\<close>
  bt_fresh :: "nat \<Rightarrow> nat"
  bt_cli :: "('c, 'd) cli_env"
  bt_inputs :: "cli_input list"

definition say :: "string \<Rightarrow> string \<Rightarrow> ('c, 'd) process \<Rightarrow> ('c, 'd) process" where
  "say level msg p = p\<lparr>pr_logger := writeLog level msg (pr_logger p)\<rparr>"

abbreviation info :: "string \<Rightarrow> ('c, 'd) process \<Rightarrow> ('c, 'd) process" where
  "info \<equiv> say ''INFO''"

abbreviation error :: "string \<Rightarrow> ('c, 'd) process \<Rightarrow> ('c, 'd) process" where
  "error \<equiv> say ''ERROR''"

text \<open>U+2713 in UTF-8\<close>

definition check_mark :: string where
  "check_mark = [char_of (226 :: nat), char_of (156 :: nat), char_of (147 :: nat)]"

definition validate ::
  "('c, 'd) surroundings \<Rightarrow> orchestrator \<Rightarrow> ('c, 'd) process \<Rightarrow> bool \<times> ('c, 'd) process" where
  "validate b orch p =
     (let lib = xe_lib (bt_cli b);
          p = info ''Validating system prerequisites...'' p;
          reached = (case PQconnectdb lib (c_str (toConnectionString (or_config orch))) of
                       None \<Rightarrow> False | Some c \<Rightarrow> PQstatus_ok lib c)
      in if \<not> reached then (False, error ''Database connection test failed'' p)
         else (True, info (check_mark @ '' Database connectivity verified'') p))"

definition API_SOCKET :: string where
  "API_SOCKET = ''/tmp/justiceflow.sock''"

text \<open>\<open>SystemManager::init\<close> succeeds always.\<close>

definition initialize ::
  "('c, 'd) surroundings \<Rightarrow> orchestrator \<Rightarrow> ('c, 'd) process \<Rightarrow> bool \<times> orchestrator \<times> ('c, 'd) process" where
  "initialize b orch p =
     (let p = info ''Initializing JusticeFlow system...'' p;
          p = info ''Phase 1: Initializing SystemManager...'' p
      in case system_init (bt_fresh b) (pr_manager p) of
           ((rc, u), sm) \<Rightarrow>
             let p = p\<lparr>pr_manager := sm\<rparr>
             in if rc \<noteq> OK then (False, orch, error ''SystemManager initialization failed'' p)
                else
                  let p = info (check_mark @ '' SystemManager initialized'') p;
                      p = info ''Phase 2: Initializing API Gateway...'' p
                  in case api_start (bt_calls b) (new_api_gateway (bt_allocated b) API_SOCKET) of
                       (api_rc, ag) \<Rightarrow>
                         let orch = orch\<lparr>or_gateway := Some ag\<rparr>
                         in if api_rc \<noteq> OK
                            then (False, orch, error (''API Gateway startup failed: code='' @ show_int (rc_value api_rc)) p)
                            else
                              (True, orch\<lparr>or_initialized := True\<rparr>,
                               info ''Phase 3: CLI interface ready''
                                 (info (check_mark @ '' API Gateway listening on '' @ API_SOCKET) p)))"

text \<open>The lines the interface logs go to the same logger.\<close>

definition log_all :: "(string \<times> string) list \<Rightarrow> ('c, 'd) process \<Rightarrow> ('c, 'd) process" where
  "log_all lines p = fold (\<lambda>(level, msg). say level msg) lines p"

definition run_cli ::
  "('c, 'd) surroundings \<Rightarrow> orchestrator \<Rightarrow> ('c, 'd) process \<Rightarrow> (int \<times> ('c, 'd) process) run" where
  "run_cli b orch p =
     (if \<not> or_initialized orch then Inr (1, error ''System not initialized'' p)
      else case open_cli (xe_lib (bt_cli b)) (or_config orch) (pr_manager p) (pr_auth p) (pr_tables p) of
             Inl f \<Rightarrow>
               if f = ThrowsException
               then Inr (1, error ''CLI execution exception: Failed to connect to database''
                              (error (''[CLI] Database connection failed: '' @ bt_pq_error b) p))
               else Inl f
           | Inr w \<Rightarrow>
               let p = log_all (cl_log w) p;
                   p = info ''Starting CLI REPL...'' p
               in and_then (cli_start (bt_cli b) (bt_inputs b) (w\<lparr>cl_log := []\<rparr>)) (\<lambda>(code, out, w).
                    Inr (code, (log_all (cl_log w) p)
                      \<lparr>pr_auth := cl_auth w, pr_tables := cl_tables w, pr_printed := pr_printed p @ out\<rparr>)))"

definition orch_shutdown ::
  "bool \<Rightarrow> orchestrator \<Rightarrow> ('c, 'd) process \<Rightarrow> (orchestrator \<times> ('c, 'd) process) run" where
  "orch_shutdown accept_ends orch p =
     (if \<not> or_initialized orch then Inr (orch, p)
      else
        let p = info ''Initiating graceful shutdown...'' p
        in and_then
             (case or_gateway orch of
                None \<Rightarrow> Inr (orch, p)
              | Some ag \<Rightarrow>
                  let p = info ''Stopping API Gateway...'' p
                  in and_then (api_stop accept_ends ag) (\<lambda>ag.
                       Inr (orch\<lparr>or_gateway := None\<rparr>, p\<lparr>pr_destroyed := Some ag\<rparr>)))
             (\<lambda>(orch, p).
               let p = p\<lparr>pr_manager := system_shutdown (pr_manager p)\<rparr>;
                   p = info (check_mark @ '' SystemManager shutdown complete'') p
               in Inr (orch\<lparr>or_initialized := False\<rparr>, info ''System shutdown complete'' p)))"

text \<open>The destructor: \<open>shutdown\<close>, then the gateway, if there is one, stops and goes.\<close>

definition destroy_orchestrator :: "bool \<Rightarrow> ('c, 'd) process \<Rightarrow> ('c, 'd) process run" where
  "destroy_orchestrator accept_ends p =
     (case pr_orchestrator p of
        None \<Rightarrow> Inr p
      | Some orch \<Rightarrow>
          and_then (orch_shutdown accept_ends orch p) (\<lambda>(orch, p).
            case or_gateway orch of
              None \<Rightarrow> Inr (p\<lparr>pr_orchestrator := None\<rparr>)
            | Some ag \<Rightarrow>
                and_then (api_stop accept_ends ag) (\<lambda>ag.
                  Inr (p\<lparr>pr_orchestrator := None, pr_destroyed := Some ag\<rparr>))))"

text \<open>\<open>handle_sigint\<close> and \<open>handle_sigterm\<close> shut down and exit with code 0; leaving the process, by them or by
  \<open>main\<close>, destroys \<open>g_orchestrator\<close>.\<close>

definition handle_signal :: "bool \<Rightarrow> string \<Rightarrow> ('c, 'd) process \<Rightarrow> (int \<times> ('c, 'd) process) run" where
  "handle_signal accept_ends name p =
     and_then
       (case pr_orchestrator p of
          None \<Rightarrow> Inr p
        | Some orch \<Rightarrow>
            and_then (orch_shutdown accept_ends orch
                        (info (''Received '' @ name @ '', shutting down gracefully...'') p))
              (\<lambda>(orch, p). Inr (p\<lparr>pr_orchestrator := Some orch\<rparr>)))
       (\<lambda>p. and_then (destroy_orchestrator accept_ends p) (\<lambda>p. Inr (0, p)))"

section \<open>main\<close>

record main_args =
  ma_config_path :: string
  ma_log_level :: string
  ma_show_version :: bool
  ma_show_help :: bool
  ma_complaints :: "printed list"

definition default_args :: main_args where
  "default_args = \<lparr>ma_config_path = ''/etc/justiceflow/config.yaml'', ma_log_level = ''INFO'',
     ma_show_version = False, ma_show_help = False, ma_complaints = []\<rparr>"

text \<open>An option that needs a value and is the last word is an unknown argument.\<close>

fun read_main_args :: "string list \<Rightarrow> main_args \<Rightarrow> main_args" where
  "read_main_args [] a = a"
| "read_main_args (arg # rest) a =
     (if arg = ''-h'' \<or> arg = ''--help'' then read_main_args rest (a\<lparr>ma_show_help := True\<rparr>)
      else if arg = ''-v'' \<or> arg = ''--version'' then read_main_args rest (a\<lparr>ma_show_version := True\<rparr>)
      else case rest of
             v # rest' \<Rightarrow>
               if arg = ''-c'' \<or> arg = ''--config'' then read_main_args rest' (a\<lparr>ma_config_path := v\<rparr>)
               else if arg = ''-l'' \<or> arg = ''--log-level'' then read_main_args rest' (a\<lparr>ma_log_level := v\<rparr>)
               else read_main_args rest
                      (a\<lparr>ma_show_help := True, ma_complaints := ma_complaints a @ [Err (''Unknown argument: '' @ arg @ nl)]\<rparr>)
           | [] \<Rightarrow> a\<lparr>ma_show_help := True, ma_complaints := ma_complaints a @ [Err (''Unknown argument: '' @ arg @ nl)]\<rparr>)"

definition parse_args :: "string list \<Rightarrow> main_args" where
  "parse_args argv = read_main_args (tl argv) default_args"

definition print_usage :: "string \<Rightarrow> printed" where
  "print_usage program_name = Err
     (''Usage: '' @ program_name @ '' [OPTIONS]'' @ nl @ nl
      @ ''Options:'' @ nl
      @ ''  -c, --config PATH       Path to config file'' @ nl
      @ ''  -l, --log-level LEVEL   Log level (DEBUG, INFO, WARN, ERROR)'' @ nl
      @ ''  -v, --version           Show version'' @ nl
      @ ''  -h, --help              Show this help'' @ nl)"

definition print_version :: printed where
  "print_version = Out (''JusticeFlow v1.0.0'' @ nl @ ''Build: 2026-05-08'' @ nl)"

definition LOG_FILE :: string where
  "LOG_FILE = ''/var/log/justiceflow.log''"

definition start_logger :: "('c, 'd) surroundings \<Rightarrow> ('c, 'd) process \<Rightarrow> ('c, 'd) process run" where
  "start_logger b p =
     and_then (logger_init (bt_fopen b) (Some LOG_FILE) (pr_logger p)) (\<lambda>(opened, lg).
       if opened then Inr (p\<lparr>pr_logger := lg\<rparr>)
       else and_then (logger_init (bt_fopen b) None lg) (\<lambda>(opened, lg). Inr (p\<lparr>pr_logger := lg\<rparr>)))"

definition banner :: string where
  "banner = replicate 40 CHR ''=''"

text \<open>Phases 8 and 9: the interface, then the end of the orchestrator.\<close>

definition run_and_stop ::
  "('c, 'd) surroundings \<Rightarrow> orchestrator \<Rightarrow> ('c, 'd) process \<Rightarrow> (int \<times> ('c, 'd) process) run" where
  "run_and_stop b orch p =
     (let p = info (check_mark @ '' All subsystems initialized and ready'') p
      in and_then (run_cli b orch (info ''Starting CLI interface...'' p)) (\<lambda>(code, p).
           and_then (destroy_orchestrator (bt_accept_ends b) (info ''Shutting down system...'' p)) (\<lambda>p.
             Inr (code, info banner (info ''JusticeFlow System Stopped'' (info banner p))))))"

text \<open>Phases 6 and 7: the database is reached, and the subsystems start.\<close>

definition check_and_start ::
  "('c, 'd) surroundings \<Rightarrow> orchestrator \<Rightarrow> ('c, 'd) process \<Rightarrow> (int \<times> ('c, 'd) process) run" where
  "check_and_start b orch p =
     (case validate b orch (info ''Validating prerequisites...'' p) of
        (valid, p) \<Rightarrow>
          if \<not> valid then Inr (1, error ''Prerequisite validation failed'' p)
          else
            let p = info (check_mark @ '' All prerequisites validated'') p
            in case initialize b orch (info ''Initializing subsystems...'' p) of
                 (initialized, orch, p) \<Rightarrow>
                   let p = p\<lparr>pr_orchestrator := Some orch\<rparr>
                   in if \<not> initialized then Inr (1, error ''System initialization failed'' p)
                      else run_and_stop b orch p)"

text \<open>Phases 3 to 5: the configuration, the orchestrator and the signal handlers. Every return but the last
  leaves the orchestrator to the end of the process.\<close>

definition configured_line :: "db_config \<Rightarrow> string" where
  "configured_line config = check_mark @ '' Database configured: host='' @ cf_host config @ '', db='' @ cf_dbname config
     @ '', user='' @ cf_user config"

definition main_phases ::
  "('c, 'd) surroundings \<Rightarrow> ('c, 'd) process \<Rightarrow> (int \<times> ('c, 'd) process) run" where
  "main_phases b p =
     (let p = info ''Loading database configuration...'' p
      in case loadFromEnvironment (bt_getenv b) default_config of
           (config_rc, config) \<Rightarrow>
             if config_rc \<noteq> OK then Inr (1, error ''Failed to load database configuration'' p)
             else
               let p = info (configured_line config) p;
                   p = info ''Creating system orchestrator...'' p;
                   orch = new_orchestrator config;
                   p = info ''Registering signal handlers...'' (p\<lparr>pr_orchestrator := Some orch\<rparr>)
               in check_and_start b orch p)"

definition jf_main ::
  "('c, 'd) surroundings \<Rightarrow> string list \<Rightarrow> ('c, 'd) process \<Rightarrow> (int \<times> ('c, 'd) process) run" where
  "jf_main b argv p =
     (let args = parse_args argv;
          p = p\<lparr>pr_printed := pr_printed p @ ma_complaints args\<rparr>
      in if ma_show_help args then Inr (0, p\<lparr>pr_printed := pr_printed p @ [print_usage (hd argv)]\<rparr>)
         else if ma_show_version args then Inr (0, p\<lparr>pr_printed := pr_printed p @ [print_version]\<rparr>)
         else and_then (start_logger b p) (\<lambda>p.
           and_then (main_phases b
             (info banner (info ''Version: 1.0.0'' (info ''JusticeFlow System Starting'' (info banner p)))))
           (\<lambda>(code, p). and_then (destroy_orchestrator (bt_accept_ends b) p) (\<lambda>p. Inr (code, p)))))"

section \<open>What the process leaves behind\<close>

lemma said [simp]:
  "pr_manager (say l m p) = pr_manager p" "pr_auth (say l m p) = pr_auth p" "pr_tables (say l m p) = pr_tables p"
  "pr_orchestrator (say l m p) = pr_orchestrator p" "pr_destroyed (say l m p) = pr_destroyed p"
  by (simp_all add: say_def)

lemma logged_all [simp]:
  "pr_manager (log_all ls p) = pr_manager p" "pr_orchestrator (log_all ls p) = pr_orchestrator p"
  "pr_destroyed (log_all ls p) = pr_destroyed p"
  by (induction ls arbitrary: p) (auto simp: log_all_def)

lemma validated:
  "pr_manager (snd (validate b orch p)) = pr_manager p" "pr_destroyed (snd (validate b orch p)) = pr_destroyed p"
  "pr_orchestrator (snd (validate b orch p)) = pr_orchestrator p" "pr_auth (snd (validate b orch p)) = pr_auth p"
  "pr_tables (snd (validate b orch p)) = pr_tables p"
  by (simp_all add: validate_def Let_def)

lemma cli_ran:
  "run_cli b orch p = Inr (code, q) \<Longrightarrow>
   pr_manager q = pr_manager p \<and> pr_orchestrator q = pr_orchestrator p \<and> pr_destroyed q = pr_destroyed p"
  by (auto simp: run_cli_def Let_def run_simps split: if_splits sum.splits)

definition silent :: "api_gateway \<Rightarrow> bool" where
  "silent ag \<longleftrightarrow> \<not> api_isRunning ag \<and> (\<forall>server. ag_impl ag = Some server \<longrightarrow> \<not> gs_file server)"

lemma started_gateway:
  assumes "api_start calls (new_api_gateway allocated path) = (rc, ag)"
  shows "if rc = OK then api_isRunning ag else silent ag"
  using assms
  by (auto simp: api_start_def new_api_gateway_def gateway_start_def gateway_init_def Let_def silent_def api_isRunning_def
      split: if_splits option.splits)

lemma stopped_gateway: "api_stop ends ag = Inr ag' \<Longrightarrow> api_isRunning ag \<or> silent ag \<Longrightarrow> silent ag'"
  by (auto simp: silent_def api_isRunning_def api_stop_def gateway_stop_def run_simps split: option.splits if_splits)

lemma stop_returns: "\<exists>ag'. api_stop True ag = Inr ag'"
  by (simp add: api_stop_def gateway_stop_def split: option.split)

lemma started_gateway_joins:
  assumes "api_start calls (new_api_gateway allocated path) = (OK, ag)"
  shows "api_stop False ag = Inl BlocksForever"
  using assms
  by (auto simp: api_start_def new_api_gateway_def gateway_start_def gateway_init_def api_stop_def gateway_stop_def Let_def
      split: if_splits option.splits)

text \<open>What holds of a process whenever \<open>main\<close> can be interrupted or return: the gateway of the orchestrator runs
  exactly when the orchestrator is initialised, and a gateway that is gone is silent.\<close>

definition orderly :: "orchestrator \<Rightarrow> bool" where
  "orderly orch \<longleftrightarrow> (if or_initialized orch then \<exists>ag. or_gateway orch = Some ag \<and> api_isRunning ag
     else \<forall>ag. or_gateway orch = Some ag \<longrightarrow> silent ag)"

lemma destroyed:
  assumes "destroy_orchestrator ends p = Inr q"
    and "pr_orchestrator p = Some orch" "orderly orch" "\<And>ag. pr_destroyed p = Some ag \<Longrightarrow> silent ag"
  shows "pr_orchestrator q = None" "pr_destroyed q = Some ag \<Longrightarrow> silent ag"
    "pr_manager q = (if or_initialized orch then system_shutdown (pr_manager p) else pr_manager p)"
  using assms stopped_gateway
  by (auto simp: destroy_orchestrator_def orch_shutdown_def orderly_def Let_def run_simps split: if_splits option.splits)

lemma destroy_nothing: "pr_orchestrator p = None \<Longrightarrow> destroy_orchestrator ends p = Inr p"
  by (simp add: destroy_orchestrator_def)

lemma destroy_returns: "\<exists>q. destroy_orchestrator True p = Inr q \<and> pr_orchestrator q = None"
proof (cases "pr_orchestrator p")
  case (Some orch)
  obtain r where s: "orch_shutdown True orch p = Inr r"
  proof (cases "or_gateway orch")
    case None
    then show ?thesis using that by (cases "or_initialized orch") (simp_all add: orch_shutdown_def Let_def)
  next
    case (Some ag)
    with stop_returns [of ag] that show ?thesis
      by (cases "or_initialized orch") (auto simp: orch_shutdown_def Let_def)
  qed
  obtain orch' p' where r: "r = (orch', p')" by (cases r)
  show ?thesis using stop_returns [of "the (or_gateway orch')"] Some
    by (auto simp: destroy_orchestrator_def s r split: option.split)
qed (simp add: destroy_nothing)

lemma destroy_waits:
  assumes "pr_orchestrator p = Some orch" "or_initialized orch" "or_gateway orch = Some ag"
    "api_stop False ag = Inl BlocksForever"
  shows "destroy_orchestrator False p = Inl BlocksForever"
  using assms by (simp add: destroy_orchestrator_def orch_shutdown_def Let_def)

lemma system_init_OK: "fst (system_init fresh sm) = (OK, ())"
  by (simp add: system_init_def success_def Let_def)

lemma initialize_result:
  assumes "initialize b orch p = (done, orch', p')" "or_gateway orch = None" "\<not> or_initialized orch"
  shows "orderly orch'" "or_initialized orch' = done" "pr_destroyed p' = pr_destroyed p"
    "sm_initialized (pr_manager p')" "pr_manager p' = snd (system_init (bt_fresh b) (pr_manager p))"
    "done \<longleftrightarrow> fst (api_start (bt_calls b) (new_api_gateway (bt_allocated b) API_SOCKET)) = OK"
    "or_config orch' = or_config orch" "pr_auth p' = pr_auth p" "pr_tables p' = pr_tables p"
    "done \<Longrightarrow> \<exists>ag. or_gateway orch' = Some ag \<and> api_stop False ag = Inl BlocksForever"
proof -
  obtain rc ag where ag: "api_start (bt_calls b) (new_api_gateway (bt_allocated b) API_SOCKET) = (rc, ag)" by force
  obtain sm where sm: "system_init (bt_fresh b) (pr_manager p) = ((OK, ()), sm)"
    using system_init_OK by (metis prod.collapse)
  have init: "sm_initialized sm" using sm by (auto simp: system_init_def Let_def split: if_splits)
  note facts = started_gateway [OF ag] started_gateway_joins [of _ _ _ ag] ag sm init
  from assms facts show "orderly orch'" "or_initialized orch' = done" "pr_destroyed p' = pr_destroyed p"
    "sm_initialized (pr_manager p')" "pr_manager p' = snd (system_init (bt_fresh b) (pr_manager p))"
    "done \<longleftrightarrow> fst (api_start (bt_calls b) (new_api_gateway (bt_allocated b) API_SOCKET)) = OK"
    "or_config orch' = or_config orch" "pr_auth p' = pr_auth p" "pr_tables p' = pr_tables p"
    "done \<Longrightarrow> \<exists>ag. or_gateway orch' = Some ag \<and> api_stop False ag = Inl BlocksForever"
    by (auto simp: initialize_def Let_def orderly_def split: if_splits)
qed

text \<open>What stands between the arguments and the gateway.\<close>

definition comes_up :: "('c, 'd) surroundings \<Rightarrow> string list \<Rightarrow> bool" where
  "comes_up b argv \<longleftrightarrow>
     \<not> ma_show_help (parse_args argv) \<and> \<not> ma_show_version (parse_args argv)
     \<and> fst (loadFromEnvironment (bt_getenv b) default_config) = OK
     \<and> (\<exists>c. PQconnectdb (xe_lib (bt_cli b)) (c_str (toConnectionString (snd (loadFromEnvironment (bt_getenv b) default_config)))) = Some c
          \<and> PQstatus_ok (xe_lib (bt_cli b)) c)"

definition gateway_starts :: "('c, 'd) surroundings \<Rightarrow> bool" where
  "gateway_starts b \<longleftrightarrow> fst (api_start (bt_calls b) (new_api_gateway (bt_allocated b) API_SOCKET)) = OK"

definition fresh_process :: "('c, 'd) process \<Rightarrow> bool" where
  "fresh_process p \<longleftrightarrow> pr_manager p = new_manager \<and> pr_orchestrator p = None \<and> pr_destroyed p = None"

lemma shut_down: "\<not> sm_initialized (system_shutdown sm)"
  by (simp add: system_shutdown_def)

definition released :: "('c, 'd) process \<Rightarrow> bool \<Rightarrow> bool" where
  "released q still_up \<longleftrightarrow> (\<forall>ends q'. destroy_orchestrator ends q = Inr q' \<longrightarrow>
     pr_orchestrator q' = None
     \<and> (\<forall>ag. pr_destroyed q' = Some ag \<longrightarrow> silent ag)
     \<and> (sm_initialized (pr_manager q') \<longleftrightarrow> still_up))"

lemma released_by:
  assumes "pr_orchestrator q = Some orch" "orderly orch" "pr_destroyed q = None"
  shows "released q (\<not> or_initialized orch \<and> sm_initialized (pr_manager q))"
proof -
  have none: "silent ag" if "pr_destroyed q = Some ag" for ag using that assms(3) by simp
  from destroyed [OF _ assms(1,2) none] show ?thesis
    by (fastforce simp: released_def shut_down)
qed

lemma run_released:
  assumes "run_and_stop b orch p = Inr (code, q)" "pr_orchestrator p = Some orch" "orderly orch"
    "or_initialized orch" "pr_destroyed p = None"
  shows "released q False"
proof -
  from assms(1) obtain p' p'' where
    r: "run_cli b orch (info ''Starting CLI interface...'' (info (check_mark @ '' All subsystems initialized and ready'') p)) = Inr (code, p')"
    and d: "destroy_orchestrator (bt_accept_ends b) (info ''Shutting down system...'' p') = Inr p''"
    and q: "q = info banner (info ''JusticeFlow System Stopped'' (info banner p''))"
    by (auto simp: run_and_stop_def Let_def run_simps)
  from cli_ran [OF r] assms(2,5) have p': "pr_orchestrator p' = Some orch" "pr_destroyed p' = None" by simp_all
  from released_by [of "info ''Shutting down system...'' p'" orch] p' assms(3,4)
  have "released (info ''Shutting down system...'' p') False" by simp
  with d have "pr_orchestrator p'' = None" "\<forall>ag. pr_destroyed p'' = Some ag \<longrightarrow> silent ag"
    "\<not> sm_initialized (pr_manager p'')"
    unfolding released_def by blast+
  then show ?thesis by (simp add: released_def q destroy_nothing)
qed

lemma validate_decides:
  "fst (validate b orch p) \<longleftrightarrow> (\<exists>c. PQconnectdb (xe_lib (bt_cli b)) (c_str (toConnectionString (or_config orch))) = Some c
     \<and> PQstatus_ok (xe_lib (bt_cli b)) c)"
  by (simp add: validate_def Let_def split: option.split)

lemma check_released:
  assumes "check_and_start b orch p = Inr (code, q)" "pr_orchestrator p = Some orch" "orderly orch"
    "or_gateway orch = None" "\<not> or_initialized orch" "pr_destroyed p = None" "pr_manager p = new_manager"
  shows "released q (fst (validate b orch p) \<and> \<not> gateway_starts b)"
proof -
  define p1 where "p1 = snd (validate b orch (info ''Validating prerequisites...'' p))"
  have v: "validate b orch (info ''Validating prerequisites...'' p) = (fst (validate b orch p), p1)"
    by (simp add: p1_def validate_decides prod_eq_iff)
  have p1: "pr_orchestrator p1 = Some orch" "pr_destroyed p1 = None" "pr_manager p1 = new_manager"
    by (simp_all add: p1_def validated assms)
  show ?thesis
  proof (cases "fst (validate b orch p)")
    case False
    with assms(1) have "q = error ''Prerequisite validation failed'' p1"
      by (simp add: check_and_start_def v)
    with released_by [of q orch] p1 assms(3) False show ?thesis by (simp add: new_manager_def)
  next
    case True
    define p2 where "p2 = info ''Initializing subsystems...'' (info (check_mark @ '' All prerequisites validated'') p1)"
    obtain dn orch' p3 where i: "initialize b orch p2 = (dn, orch', p3)" by (metis prod_cases3)
    note init = initialize_result [OF i assms(4,5)]
    have none: "pr_destroyed p3 = None" using init(3) p1 by (simp add: p2_def)
    show ?thesis
    proof (cases dn)
      case False
      with assms(1) True have "q = error ''System initialization failed'' (p3\<lparr>pr_orchestrator := Some orch'\<rparr>)"
        by (simp add: check_and_start_def v p2_def [symmetric] i Let_def)
      with released_by [of q orch'] none init False True show ?thesis by (simp add: gateway_starts_def)
    next
      case dn: True
      with assms(1) True have "run_and_stop b orch' (p3\<lparr>pr_orchestrator := Some orch'\<rparr>) = Inr (code, q)"
        by (simp add: check_and_start_def v p2_def [symmetric] i Let_def)
      from run_released [OF this] none init dn show ?thesis by (simp add: gateway_starts_def)
    qed
  qed
qed

lemma phases_result:
  assumes "main_phases b p = Inr (code, q)" "fresh_process p"
    and "\<not> ma_show_help (parse_args argv)" "\<not> ma_show_version (parse_args argv)"
  shows "released q (comes_up b argv \<and> \<not> gateway_starts b)"
proof -
  have fresh: "pr_manager p = new_manager" "pr_orchestrator p = None" "pr_destroyed p = None"
    using assms(2) by (simp_all add: fresh_process_def)
  obtain rc config where c: "loadFromEnvironment (bt_getenv b) default_config = (rc, config)" by force
  show ?thesis
  proof (cases "rc = OK")
    case False
    with assms(1) c have "q = error ''Failed to load database configuration'' (info ''Loading database configuration...'' p)"
      by (simp add: main_phases_def)
    with False c fresh show ?thesis
      by (simp add: released_def destroy_nothing new_manager_def comes_up_def)
  next
    case True
    let ?orch = "new_orchestrator config"
    define p1 where "p1 = info ''Registering signal handlers...'' ((info ''Creating system orchestrator...''
      (info (configured_line config) (info ''Loading database configuration...'' p)))\<lparr>pr_orchestrator := Some ?orch\<rparr>)"
    have p1: "pr_manager p1 = new_manager" "pr_orchestrator p1 = Some ?orch" "pr_destroyed p1 = None"
      by (simp_all add: p1_def fresh)
    have orch: "or_gateway ?orch = None" "\<not> or_initialized ?orch" "or_config ?orch = config" "orderly ?orch"
      by (simp_all add: new_orchestrator_def orderly_def)
    have "check_and_start b ?orch p1 = Inr (code, q)"
      using assms(1) c True by (simp add: main_phases_def Let_def p1_def)
    from check_released [OF this p1(2) orch(4,1,2) p1(3,1)] c True assms(3,4) orch(3) show ?thesis
      by (simp add: comes_up_def validate_decides)
  qed
qed

text \<open>C8 However the process ends by returning from \<open>main\<close>, its orchestrator is gone, and the gateway it had, if
  any, no longer runs and has left no socket file. The manager of the subsystems, too, is shut down, with one
  exception: when everything was in order but the gateway did not start, it is never shut down.\<close>

theorem main_releases:
  assumes "jf_main b argv p = Inr (code, q)" "fresh_process p"
  shows "pr_orchestrator q = None \<and> (\<forall>ag. pr_destroyed q = Some ag \<longrightarrow> silent ag)
    \<and> (sm_initialized (pr_manager q) \<longleftrightarrow> comes_up b argv \<and> \<not> gateway_starts b)"
proof (cases "ma_show_help (parse_args argv) \<or> ma_show_version (parse_args argv)")
  case True
  with assms show ?thesis
    by (auto simp: jf_main_def Let_def fresh_process_def comes_up_def new_manager_def split: if_splits)
next
  case False
  with assms(1) obtain p1 q1 where l: "start_logger b (p\<lparr>pr_printed := pr_printed p @ ma_complaints (parse_args argv)\<rparr>) = Inr p1"
    and m: "main_phases b (info banner (info ''Version: 1.0.0'' (info ''JusticeFlow System Starting'' (info banner p1)))) = Inr (code, q1)"
    and q: "destroy_orchestrator (bt_accept_ends b) q1 = Inr q"
    by (auto simp: jf_main_def Let_def run_simps)
  have "fresh_process p1" using l assms(2)
    by (auto simp: start_logger_def logger_init_def fresh_process_def split: if_splits)
  then have "fresh_process (info banner (info ''Version: 1.0.0'' (info ''JusticeFlow System Starting'' (info banner p1))))"
    by (simp add: fresh_process_def)
  from phases_result [OF m this, of argv] False have "released q1 (comes_up b argv \<and> \<not> gateway_starts b)" by simp
  with q show ?thesis unfolding released_def by blast
qed

definition demo_surroundings :: "start_calls \<Rightarrow> cli_input list \<Rightarrow> (unit, registry) surroundings" where
  "demo_surroundings calls inputs = \<lparr>bt_getenv = (\<lambda>name. None), bt_fopen = (\<lambda>path. True), bt_allocated = True, bt_calls = calls,
     bt_accept_ends = True,     bt_pq_error = [], bt_fresh = (\<lambda>i. i), bt_cli = demo_cli_env, bt_inputs = inputs\<rparr>"

definition demo_process :: "(unit, registry) process" where
  "demo_process = \<lparr>pr_manager = new_manager, pr_auth = cl_auth (demo_cli demo_registry), pr_tables = demo_registry,
     pr_logger = new_logger, pr_orchestrator = None, pr_destroyed = None, pr_printed = []\<rparr>"

definition no_socket :: start_calls where
  "no_socket = \<lparr>sys_socket = None, sys_bind = True, sys_listen = True, sys_pthread_create = True\<rparr>"

definition all_calls :: start_calls where
  "all_calls = \<lparr>sys_socket = Some 5, sys_bind = True, sys_listen = True, sys_pthread_create = True\<rparr>"

lemma fresh_demo: "fresh_process demo_process"
  by (simp add: fresh_process_def demo_process_def)

lemma main_without_args: "parse_args [program] = default_args"
  by (simp add: parse_args_def)

lemma demo_up: "comes_up (demo_surroundings calls inputs) [program]"
  by (simp add: comes_up_def main_without_args default_args_def demo_surroundings_def loadFromEnvironment_def default_config_def
      validateSecurityRules_def demo_cli_env_def demo_lib_def)

lemma demo_no_socket:
  "\<exists>q. jf_main (demo_surroundings no_socket []) [''justiceflow''] demo_process = Inr (1, q)"
proof -
  let ?b = "demo_surroundings no_socket [] :: (unit, registry) surroundings"
  have "\<exists>q. main_phases ?b p = Inr (1, q)" for p
  proof (cases "sm_initialized (pr_manager p)")
    case True
    then show ?thesis
      by (simp add: demo_surroundings_def main_phases_def loadFromEnvironment_def default_config_def validateSecurityRules_def
          check_and_start_def validate_def demo_cli_env_def demo_lib_def initialize_def system_init_def success_def
          api_start_def new_api_gateway_def gateway_start_def gateway_init_def no_socket_def Let_def)
  next
    case False
    then show ?thesis
      by (simp add: demo_surroundings_def main_phases_def loadFromEnvironment_def default_config_def validateSecurityRules_def
          check_and_start_def validate_def demo_cli_env_def demo_lib_def initialize_def system_init_def success_def
          api_start_def new_api_gateway_def gateway_start_def gateway_init_def no_socket_def Let_def)
  qed
  then obtain f where "\<And>p. main_phases ?b p = Inr (1, f p)" by metis
  moreover obtain g where "\<And>p :: (unit, registry) process. destroy_orchestrator True p = Inr (g p)"
    using destroy_returns by metis
  moreover have "bt_accept_ends ?b" "bt_fopen ?b LOG_FILE" by (simp_all add: demo_surroundings_def)
  ultimately show ?thesis
    by (simp add: jf_main_def main_without_args default_args_def start_logger_def logger_init_def Let_def)
qed

theorem main_releases_witness:
  "\<exists>q. jf_main (demo_surroundings no_socket []) [''justiceflow''] demo_process = Inr (1, q)
     \<and> pr_orchestrator q = None \<and> sm_initialized (pr_manager q)"
proof -
  obtain q where q: "jf_main (demo_surroundings no_socket []) [''justiceflow''] demo_process = Inr (1, q)"
    using demo_no_socket by blast
  have "\<not> gateway_starts (demo_surroundings no_socket [])"
    by (simp add: gateway_starts_def demo_surroundings_def api_start_def new_api_gateway_def gateway_start_def no_socket_def
        gateway_init_def)
  with main_releases [OF q fresh_demo] demo_up q show ?thesis by blast
qed

section \<open>The process comes to its end\<close>

lemma system_init_wired:
  assumes "wired sm"
  shows "wired (snd (system_init fresh sm))" "sm_initialized (snd (system_init fresh sm))"
proof -
  obtain r sm' where i: "system_init fresh sm = (r, sm')" by (cases "system_init fresh sm")
  then have "manager_step\<^sup>*\<^sup>* sm sm'" by (blast intro: manager_step.intros)
  from manager.steps_inv [OF this assms] i show "wired (snd (system_init fresh sm))" by simp
  show "sm_initialized (snd (system_init fresh sm))" by (simp add: system_init_def Let_def)
qed

lemma check_and_start_ends:
  assumes "wired (pr_manager q)" "\<not> us_held (am_ipc (pr_auth q))" "\<not> us_held (am_db_connection (pr_auth q))"
    and "gateway_starts b" "login_columns (xe_lib (bt_cli b))" "fetch_columns (xe_lib (bt_cli b))"
    and conn: "PQconnectdb (xe_lib (bt_cli b)) (c_str (toConnectionString config)) = Some conn" "PQstatus_ok (xe_lib (bt_cli b)) conn"
  shows "if bt_accept_ends b
    then \<exists>q'. check_and_start b (new_orchestrator config) q = Inr (0, q') \<and> pr_orchestrator q' = None
    else check_and_start b (new_orchestrator config) q = Inl BlocksForever"
proof -
  let ?orch = "new_orchestrator config"
  have orch: "or_gateway ?orch = None" "\<not> or_initialized ?orch" "or_config ?orch = config"
    by (simp_all add: new_orchestrator_def)
  have valid: "fst (validate b ?orch q)" for q by (simp add: validate_decides orch conn)
  define q1 where "q1 = info ''Initializing subsystems...'' (info (check_mark @ '' All prerequisites validated'')
    (snd (validate b ?orch (info ''Validating prerequisites...'' q))))"
  have q1: "pr_manager q1 = pr_manager q" "pr_auth q1 = pr_auth q" by (simp_all add: q1_def validated)
  obtain dn orch' q2 where i: "initialize b ?orch q1 = (dn, orch', q2)" by (metis prod_cases3)
  note init = initialize_result [OF i orch(1,2)]
  have dn: "dn" using init(6) assms(4) by (simp add: gateway_starts_def)
  have w: "wired (pr_manager q2)" "sm_initialized (pr_manager q2)" "pr_auth q2 = pr_auth q"
    using system_init_wired [OF assms(1)] init(5,8) q1 by simp_all
  define q3 where "q3 = info ''Starting CLI interface...'' (info (check_mark @ '' All subsystems initialized and ready'')
    (q2\<lparr>pr_orchestrator := Some orch'\<rparr>))"
  have q3: "pr_manager q3 = pr_manager q2" "pr_auth q3 = pr_auth q" by (simp_all add: q3_def w)
  obtain cli where cli: "open_cli (xe_lib (bt_cli b)) config (pr_manager q3) (pr_auth q3) (pr_tables q3) = Inr cli"
    "cl_system cli = pr_manager q3" "cl_auth cli = pr_auth q"
    by (simp add: open_cli_def conn q3)
  have "served (cli\<lparr>cl_log := [], cl_running := True\<rparr>)"
    using w cli q3 assms(2,3) by (simp add: served_def free_mutexes_def)
  from lines_answered [OF assms(5,6) this, of "bt_inputs b"] w(2) cli(2) q3(1)
  obtain out cli' where "cli_start (bt_cli b) (bt_inputs b) (cli\<lparr>cl_log := []\<rparr>) = Inr (0, out, cli')"
    by (auto simp: cli_start_def)
  with cli(1) init(2,7) dn orch(3) obtain q4 where q4: "run_cli b orch' q3 = Inr (0, q4)"
    by (simp add: run_cli_def Let_def)
  let ?last = "info ''Shutting down system...'' q4"
  have last: "pr_orchestrator ?last = Some orch'" using cli_ran [OF q4] by (simp add: q3_def)
  have "if bt_accept_ends b
    then \<exists>q'. run_and_stop b orch' (q2\<lparr>pr_orchestrator := Some orch'\<rparr>) = Inr (0, q') \<and> pr_orchestrator q' = None
    else run_and_stop b orch' (q2\<lparr>pr_orchestrator := Some orch'\<rparr>) = Inl BlocksForever"
    using q4 destroy_returns [of ?last] destroy_waits [OF last] init(2,10) dn
    by (auto simp: run_and_stop_def Let_def q3_def)
  with valid [of "info ''Validating prerequisites...'' q"] dn i show ?thesis
    by (cases "validate b ?orch (info ''Validating prerequisites...'' q)") (simp add: check_and_start_def Let_def q1_def)
qed

text \<open>C26 A start that finds everything in order, the log file, the configuration, the database and the gateway,
  serves the prompt to the end of the input, whatever is entered, and then exits with code 0 if the accept thread
  of the gateway ends once its socket is closed; if that thread stays in \<open>accept\<close>, as it does on Linux until
  another client connects (\<open>gateway_stops\<close>), the program waits for it and does not exit. Without its log file
  the program does not fall back to anything: it gives a null path to \<open>fopen\<close>.\<close>

theorem main_ends:
  assumes "fresh_process p" "comes_up b argv" "gateway_starts b"
    and "\<not> us_held (am_ipc (pr_auth p))" "\<not> us_held (am_db_connection (pr_auth p))"
    and "login_columns (xe_lib (bt_cli b))" "fetch_columns (xe_lib (bt_cli b))"
  shows "if \<not> bt_fopen b LOG_FILE then jf_main b argv p = Inl UndefinedBehaviour
    else if bt_accept_ends b then \<exists>q. jf_main b argv p = Inr (0, q)
    else jf_main b argv p = Inl BlocksForever"
proof (cases "bt_fopen b LOG_FILE")
  case False
  with assms(2) show ?thesis
    by (simp add: jf_main_def comes_up_def start_logger_def logger_init_def Let_def)
next
  case True
  obtain rc config where c: "loadFromEnvironment (bt_getenv b) default_config = (rc, config)" by force
  have ok: "rc = OK" using assms(2) c by (simp add: comes_up_def)
  obtain conn where conn: "PQconnectdb (xe_lib (bt_cli b)) (c_str (toConnectionString config)) = Some conn" "PQstatus_ok (xe_lib (bt_cli b)) conn"
    using assms(2) c by (auto simp: comes_up_def)
  define p1 where "p1 = p\<lparr>pr_printed := pr_printed p @ ma_complaints (parse_args argv), pr_logger := (pr_logger p)\<lparr>lg_open := True\<rparr>\<rparr>"
  have log: "start_logger b (p\<lparr>pr_printed := pr_printed p @ ma_complaints (parse_args argv)\<rparr>) = Inr p1"
    using True by (simp add: start_logger_def logger_init_def p1_def)
  let ?p2 = "info banner (info ''Version: 1.0.0'' (info ''JusticeFlow System Starting'' (info banner p1)))"
  have "if bt_accept_ends b then \<exists>q'. main_phases b ?p2 = Inr (0, q') \<and> pr_orchestrator q' = None
    else main_phases b ?p2 = Inl BlocksForever"
    unfolding main_phases_def Let_def c prod.case ok
    using assms(1,4,5) by (simp only: simp_thms if_False, intro check_and_start_ends [OF _ _ _ assms(3,6,7) conn])
      (simp_all add: p1_def fresh_process_def wired_def new_manager_def)
  with log True assms(2) show ?thesis
    by (auto simp: jf_main_def comes_up_def Let_def destroy_nothing split: if_splits)
qed

theorem main_ends_witness:
  "\<exists>q. jf_main (demo_surroundings all_calls [typed ''case list'' 5, typed ''exit'' 6]) [''justiceflow''] demo_process = Inr (0, q)"
proof -
  let ?b = "demo_surroundings all_calls [typed ''case list'' 5, typed ''exit'' 6]"
  have "gateway_starts ?b"
    by (simp add: gateway_starts_def demo_surroundings_def api_start_def new_api_gateway_def gateway_start_def all_calls_def
        gateway_init_def sun_path_size_def API_SOCKET_def Let_def)
  moreover have "\<not> us_held (am_ipc (pr_auth demo_process))" "\<not> us_held (am_db_connection (pr_auth demo_process))"
    by (simp_all add: demo_process_def demo_cli_def demo_cli_socket_def)
  moreover have "login_columns (xe_lib (bt_cli ?b))" "fetch_columns (xe_lib (bt_cli ?b))"
    by (simp_all add: login_columns_def fetch_columns_def demo_surroundings_def demo_cli_env_def demo_lib_def)
  moreover have "bt_fopen ?b LOG_FILE" "bt_accept_ends ?b" by (simp_all add: demo_surroundings_def)
  ultimately show ?thesis using main_ends [OF fresh_demo demo_up] by metis
qed

end
