(* ===== verification/Shared_Sessions.thy ===== *)
theory Shared_Sessions
  imports Auth
begin

text \<open>
  The read-write locks of \<open>src/os_layer/threading/src/sync.cpp\<close> and the session store they protect
  (\<open>src/system/shr_infra/auth/src/session_store.cpp\<close>), used by any number of threads at once. \<open>Auth\<close> takes the
  operations of the store one after the other; here each is what its thread does: wait for the lock, look or
  write, which takes time, and leave. A map that is being written cannot be read. A writer sends its statement to
  the database while it holds the lock; the connection is part of the state, and whatever else the process does
  with it may come in between. The theorem that the threads can be taken one after the other has one hypothesis,
  that no lock call fails, and a theorem shows why; its case in which no thread goes on is the one in which the
  mutex of the connection is left locked.
\<close>

section \<open>Read-write locks\<close>

record rwlock =
  rl_readers :: "nat list"
  rl_writer :: "nat option"

definition free_lock :: rwlock where
  "free_lock = \<lparr>rl_readers = [], rl_writer = None\<rparr>"

definition EDEADLK :: int where "EDEADLK = 35"
definition EINVAL :: int where "EINVAL = 22"

text \<open>\<open>pthread_rwlock_rdlock\<close> and \<open>pthread_rwlock_wrlock\<close>: a return code, or \<^const>\<open>None\<close> while the caller waits.\<close>

definition rdlock :: "nat \<Rightarrow> rwlock \<Rightarrow> (int \<times> rwlock) option" where
  "rdlock t lk =
     (case rl_writer lk of
        Some w \<Rightarrow> if w = t then Some (EDEADLK, lk) else None
      | None \<Rightarrow> Some (0, lk\<lparr>rl_readers := t # rl_readers lk\<rparr>))"

definition wrlock :: "nat \<Rightarrow> rwlock \<Rightarrow> (int \<times> rwlock) option" where
  "wrlock t lk =
     (case rl_writer lk of
        Some w \<Rightarrow> if w = t then Some (EDEADLK, lk) else None
      | None \<Rightarrow> if rl_readers lk = [] then Some (0, lk\<lparr>rl_writer := Some t\<rparr>) else None)"

definition rwunlock :: "nat \<Rightarrow> rwlock \<Rightarrow> rwlock" where
  "rwunlock t lk =
     (if rl_writer lk = Some t then lk\<lparr>rl_writer := None\<rparr> else lk\<lparr>rl_readers := remove1 t (rl_readers lk)\<rparr>)"

text \<open>The constructors: whether the lock was acquired, and what is logged.\<close>

definition read_guard :: "int \<Rightarrow> bool \<times> cstr" where
  "read_guard ret =
     (if ret = 0 then (True, None)
      else if ret = EDEADLK then (False, Some ''[Sync] EDEADLK: Read lock would cause deadlock'')
      else if ret = EINVAL then (False, Some ''[Sync] EINVAL: RWLock is invalid'')
      else (False, Some (in_buffer 128 (''[Sync] pthread_rwlock_rdlock failed with error code '' @ show_int ret))))"

definition write_guard :: "int \<Rightarrow> bool \<times> cstr" where
  "write_guard ret =
     (if ret = 0 then (True, None)
      else if ret = EDEADLK then (False, Some ''[Sync] EDEADLK: Write lock would cause deadlock'')
      else if ret = EINVAL then (False, Some ''[Sync] EINVAL: RWLock is invalid'')
      else (False, Some (in_buffer 128 (''[Sync] pthread_rwlock_wrlock failed with error code '' @ show_int ret))))"

definition leave_guard :: "nat \<Rightarrow> bool \<Rightarrow> rwlock \<Rightarrow> rwlock" where
  "leave_guard t lock_acquired lk = (if lock_acquired then rwunlock t lk else lk)"

lemma guards_acquired [simp]: "fst (read_guard ret) \<longleftrightarrow> ret = 0" "fst (write_guard ret) \<longleftrightarrow> ret = 0"
  by (simp_all add: read_guard_def write_guard_def EDEADLK_def EINVAL_def)

section \<open>The operations of the store\<close>

datatype store_read = Validate int string | CountActive

datatype store_write = Insert session_context | Refresh int string | Remove string

datatype store_op = Reading store_read | Writing store_write

datatype store_answer = Code result_code | Session result_code session_context | Count int

fun look :: "store_read \<Rightarrow> session_map \<Rightarrow> store_answer" where
  "look (Validate now token) m = (case store_validate now token m empty_session of (rc, s) \<Rightarrow> Session rc s)"
| "look CountActive m = Count (store_getActiveCount m)"

text \<open>What a writer does: the operations of the store as \<open>Auth\<close> has them, with the statement each sends.\<close>

fun write_op :: "'s query_fun \<Rightarrow> int \<Rightarrow> store_write \<Rightarrow> session_map \<Rightarrow> 's \<Rightarrow> (result_code \<times> session_map \<times> 's) run" where
  "write_op exec now (Insert s) m ipc = store_insert exec s m ipc"
| "write_op exec now (Refresh t token) m ipc = store_refresh exec t token m ipc"
| "write_op exec now (Remove token) m ipc = store_remove exec now token m ipc"

text \<open>The specification of a writer: what it answers and leaves in the map, in which the statement plays no
  part.\<close>

fun change :: "store_write \<Rightarrow> session_map \<Rightarrow> result_code \<times> session_map" where
  "change (Insert s) m = (OK, AList.update (sc_sessionToken s) s m)"
| "change (Refresh now token) m =
     (case map_of m token of
        None \<Rightarrow> (NOT_FOUND, m)
      | Some s \<Rightarrow> if sc_expiresAt s \<le> now then (SESSION_EXPIRED, m) else (OK, m))"
| "change (Remove token) m =
     (case map_of m token of None \<Rightarrow> (NOT_FOUND, m) | Some s \<Rightarrow> (OK, AList.delete token m))"

lemma change_is_write_op:
  "write_op exec now u m ipc = Inr (rc, m', ipc') \<Longrightarrow> change u m = (rc, m')"
  by (cases u) (auto simp: store_insert_def store_refresh_def store_remove_def Let_def run_simps split: option.splits if_splits)

lemma write_op_returns:
  assumes "\<not> us_held ipc"
  shows "\<exists>rc m' ipc'. write_op (executeQuery lib) now u m ipc = Inr (rc, m', ipc')"
proof -
  have "\<exists>rc rows us. executeQuery lib q ipc = Inr (rc, rows, us)" for q
    using ipc.exec_returns [OF assms] by blast
  then obtain rc rows us where "\<And>q. executeQuery lib q ipc = Inr (rc q, rows q, us q)" by metis
  then show ?thesis
    by (cases u) (auto simp: store_insert_def store_refresh_def store_remove_def Let_def split: option.split)
qed

fun run_op :: "store_op \<Rightarrow> session_map \<Rightarrow> store_answer \<times> session_map" where
  "run_op (Reading q) m = (look q m, m)"
| "run_op (Writing u) m = (case change u m of (rc, m') \<Rightarrow> (Code rc, m'))"

text \<open>One operation after the other, with the answers they gave.\<close>

fun replay :: "session_map \<Rightarrow> (nat \<times> store_op \<times> store_answer) list \<Rightarrow> session_map option" where
  "replay m [] = Some m"
| "replay m ((t, c, a) # es) = (case run_op c m of (b, m') \<Rightarrow> if a = b then replay m' es else None)"

lemma replay_snoc:
  "replay m0 es = Some m \<Longrightarrow> run_op c m = (a, m') \<Longrightarrow> replay m0 (es @ [(t, c, a)]) = Some m'"
  by (induction es arbitrary: m0) (auto split: if_splits prod.splits)

section \<open>Threads\<close>

text \<open>Where a thread is; the truth value is \<open>lock_acquired\<close> of its guard.\<close>

datatype place =
    Idle
  | Wants store_op
  | Reads store_read bool
  | Looks store_read session_map bool      \<comment> \<open>it has begun to look at the map it remembers\<close>
  | Writes store_write bool
  | Changes store_write session_map bool   \<comment> \<open>it has begun to write what the map was\<close>
  | LeavesRead bool
  | LeavesWrite bool

record 's shared_store =
  ss_lock :: rwlock
  ss_map :: "session_map option"           \<comment> \<open>nothing while it is being written\<close>
  ss_place :: "nat \<Rightarrow> place"
  ss_log :: "(nat \<times> store_op \<times> store_answer) list"
  ss_raced :: bool
  ss_ipc :: 's                             \<comment> \<open>the connection of the IPC manager\<close>

definition goes :: "nat \<Rightarrow> place \<Rightarrow> 's shared_store \<Rightarrow> 's shared_store" where
  "goes t p ss = ss\<lparr>ss_place := (ss_place ss)(t := p)\<rparr>"

text \<open>\<open>faulty\<close> says that a lock call may return any error; then the lock is as it was, and the thread goes on,
  since no operation asks its guard. A writer whose statement does not return stays where it is.\<close>

inductive store_step :: "'s query_fun \<Rightarrow> bool \<Rightarrow> nat \<Rightarrow> 's shared_store \<Rightarrow> 's shared_store \<Rightarrow> bool" for exec faulty t where
  step_call: "ss_place ss t = Idle \<Longrightarrow> store_step exec faulty t ss (goes t (Wants c) ss)"
| step_rdlock: "ss_place ss t = Wants (Reading q) \<Longrightarrow> rdlock t (ss_lock ss) = Some (ret, lk) \<Longrightarrow>
    store_step exec faulty t ss (goes t (Reads q (fst (read_guard ret))) (ss\<lparr>ss_lock := lk\<rparr>))"
| step_rdlock_fails: "ss_place ss t = Wants (Reading q) \<Longrightarrow> faulty \<Longrightarrow> ret \<noteq> 0 \<Longrightarrow>
    store_step exec faulty t ss (goes t (Reads q (fst (read_guard ret))) ss)"
| step_wrlock: "ss_place ss t = Wants (Writing u) \<Longrightarrow> wrlock t (ss_lock ss) = Some (ret, lk) \<Longrightarrow>
    store_step exec faulty t ss (goes t (Writes u (fst (write_guard ret))) (ss\<lparr>ss_lock := lk\<rparr>))"
| step_wrlock_fails: "ss_place ss t = Wants (Writing u) \<Longrightarrow> faulty \<Longrightarrow> ret \<noteq> 0 \<Longrightarrow>
    store_step exec faulty t ss (goes t (Writes u (fst (write_guard ret))) ss)"
| step_look: "ss_place ss t = Reads q g \<Longrightarrow> ss_map ss = Some m \<Longrightarrow>
    store_step exec faulty t ss (goes t (Looks q m g) ss)"
| step_look_race: "ss_place ss t = Reads q g \<Longrightarrow> ss_map ss = None \<Longrightarrow>
    store_step exec faulty t ss (goes t (LeavesRead g) (ss\<lparr>ss_raced := True\<rparr>))"
| step_looked: "ss_place ss t = Looks q m g \<Longrightarrow> ss_map ss = Some m \<Longrightarrow>
    store_step exec faulty t ss (goes t (LeavesRead g) (ss\<lparr>ss_log := ss_log ss @ [(t, Reading q, look q m)]\<rparr>))"
| step_looked_race: "ss_place ss t = Looks q m g \<Longrightarrow> ss_map ss \<noteq> Some m \<Longrightarrow>
    store_step exec faulty t ss (goes t (LeavesRead g) (ss\<lparr>ss_raced := True\<rparr>))"
| step_change: "ss_place ss t = Writes u g \<Longrightarrow> ss_map ss = Some m \<Longrightarrow>
    store_step exec faulty t ss (goes t (Changes u m g) (ss\<lparr>ss_map := None\<rparr>))"
| step_change_race: "ss_place ss t = Writes u g \<Longrightarrow> ss_map ss = None \<Longrightarrow>
    store_step exec faulty t ss (goes t (LeavesWrite g) (ss\<lparr>ss_raced := True\<rparr>))"
| step_changed: "ss_place ss t = Changes u m g \<Longrightarrow> write_op exec now u m (ss_ipc ss) = Inr (rc, m', ipc') \<Longrightarrow>
    store_step exec faulty t ss (goes t (LeavesWrite g)
      (ss\<lparr>ss_map := Some m', ss_log := ss_log ss @ [(t, Writing u, Code rc)], ss_ipc := ipc'\<rparr>))"
| step_leave_read: "ss_place ss t = LeavesRead g \<Longrightarrow>
    store_step exec faulty t ss (goes t Idle (ss\<lparr>ss_lock := leave_guard t g (ss_lock ss)\<rparr>))"
| step_leave_write: "ss_place ss t = LeavesWrite g \<Longrightarrow>
    store_step exec faulty t ss (goes t Idle (ss\<lparr>ss_lock := leave_guard t g (ss_lock ss)\<rparr>))"

text \<open>A step of a thread, or something else that happens to the connection.\<close>

definition any_step :: "'s query_fun \<Rightarrow> bool \<Rightarrow> 's shared_store \<Rightarrow> 's shared_store \<Rightarrow> bool" where
  "any_step exec faulty ss ss' \<longleftrightarrow> (\<exists>t. store_step exec faulty t ss ss') \<or> (\<exists>ipc. ss' = ss\<lparr>ss_ipc := ipc\<rparr>)"

definition idle_store :: "session_map \<Rightarrow> 's \<Rightarrow> 's shared_store" where
  "idle_store m ipc = \<lparr>ss_lock = free_lock, ss_map = Some m, ss_place = (\<lambda>t. Idle), ss_log = [], ss_raced = False,
     ss_ipc = ipc\<rparr>"

text \<open>The writer that cannot go on, because its statement does not return.\<close>

definition awaits_database :: "'s query_fun \<Rightarrow> 's shared_store \<Rightarrow> nat \<Rightarrow> bool" where
  "awaits_database exec ss t \<longleftrightarrow> (\<exists>u m g. ss_place ss t = Changes u m g
     \<and> (\<forall>now. \<exists>f. write_op exec now u m (ss_ipc ss) = Inl f))"

section \<open>One after the other\<close>

fun holds_read :: "place \<Rightarrow> bool" where
  "holds_read (Reads q g) \<longleftrightarrow> True"
| "holds_read (Looks q m g) \<longleftrightarrow> True"
| "holds_read (LeavesRead g) \<longleftrightarrow> True"
| "holds_read p \<longleftrightarrow> False"

fun holds_write :: "place \<Rightarrow> bool" where
  "holds_write (Writes u g) \<longleftrightarrow> True"
| "holds_write (Changes u m g) \<longleftrightarrow> True"
| "holds_write (LeavesWrite g) \<longleftrightarrow> True"
| "holds_write p \<longleftrightarrow> False"

fun guarded :: "place \<Rightarrow> bool" where
  "guarded (Reads q g) \<longleftrightarrow> g"
| "guarded (Looks q m g) \<longleftrightarrow> g"
| "guarded (LeavesRead g) \<longleftrightarrow> g"
| "guarded (Writes u g) \<longleftrightarrow> g"
| "guarded (Changes u m g) \<longleftrightarrow> g"
| "guarded (LeavesWrite g) \<longleftrightarrow> g"
| "guarded p \<longleftrightarrow> True"

text \<open>The lock knows exactly the threads that are inside, and a writer is alone.\<close>

definition lock_ok :: "'s shared_store \<Rightarrow> bool" where
  "lock_ok ss \<longleftrightarrow>
     (\<forall>t. guarded (ss_place ss t)) \<and> distinct (rl_readers (ss_lock ss))
     \<and> (\<forall>t. t \<in> set (rl_readers (ss_lock ss)) \<longleftrightarrow> holds_read (ss_place ss t))
     \<and> (\<forall>t. rl_writer (ss_lock ss) = Some t \<longleftrightarrow> holds_write (ss_place ss t))
     \<and> (rl_writer (ss_lock ss) \<noteq> None \<longrightarrow> rl_readers (ss_lock ss) = [])"

text \<open>The map is what the operations so far, one after the other, make of the first one; a thread that looks
  sees it, and a thread that changes it has it before it.\<close>

fun fits :: "session_map \<Rightarrow> place \<Rightarrow> bool" where
  "fits m (Looks q m' g) \<longleftrightarrow> m' = m"
| "fits m (Changes u m' g) \<longleftrightarrow> m' = m"
| "fits m p \<longleftrightarrow> True"

fun changing :: "place \<Rightarrow> bool" where
  "changing (Changes u m g) \<longleftrightarrow> True"
| "changing p \<longleftrightarrow> False"

definition map_ok :: "session_map \<Rightarrow> 's shared_store \<Rightarrow> bool" where
  "map_ok m0 ss \<longleftrightarrow>
     (\<exists>m. replay m0 (ss_log ss) = Some m \<and> (\<forall>t. fits m (ss_place ss t))
        \<and> ss_map ss = (if \<exists>t. changing (ss_place ss t) then None else Some m))"

definition store_inv :: "session_map \<Rightarrow> 's shared_store \<Rightarrow> bool" where
  "store_inv m0 ss \<longleftrightarrow> lock_ok ss \<and> map_ok m0 ss \<and> \<not> ss_raced ss"

lemma lock_ok_goes:
  assumes "lock_ok ss" "guarded p" "holds_read p = holds_read (ss_place ss t)" "holds_write p = holds_write (ss_place ss t)"
  shows "lock_ok (goes t p ss)"
  using assms by (auto simp: lock_ok_def goes_def)

lemma lock_ok_fields [simp]:
  "lock_ok (ss\<lparr>ss_map := m\<rparr>) = lock_ok ss" "lock_ok (ss\<lparr>ss_log := l\<rparr>) = lock_ok ss"
  "lock_ok (ss\<lparr>ss_raced := b\<rparr>) = lock_ok ss" "lock_ok (ss\<lparr>ss_ipc := i\<rparr>) = lock_ok ss"
  by (simp_all add: lock_ok_def)

lemma place_guarded: "lock_ok ss \<Longrightarrow> ss_place ss t = p \<Longrightarrow> guarded p"
  by (auto simp: lock_ok_def)

lemma alone:
  assumes "lock_ok ss" "holds_write (ss_place ss t)"
  shows "holds_write (ss_place ss t') \<Longrightarrow> t' = t" "\<not> holds_read (ss_place ss t')"
  using assms unfolding lock_ok_def by (metis option.inject, metis empty_iff list.set(1) option.distinct(1))

lemma lock_ok_step:
  assumes "store_step exec False t ss ss'" "lock_ok ss"
  shows "lock_ok ss'"
  using assms
proof cases
  case (step_rdlock q ret lk)
  with assms(2) show ?thesis
    by (auto simp: lock_ok_def goes_def rdlock_def split: option.splits if_splits)
next
  case (step_wrlock u ret lk)
  with assms(2) show ?thesis
    by (auto simp: lock_ok_def goes_def wrlock_def split: option.splits if_splits)
next
  case (step_leave_read g)
  with assms(2) have "g" "rl_writer (ss_lock ss) = None" "t \<in> set (rl_readers (ss_lock ss))" "distinct (rl_readers (ss_lock ss))"
    unfolding lock_ok_def by (metis guarded.simps(3) holds_read.simps(3) list.set(1) empty_iff)+
  with step_leave_read assms(2) show ?thesis
    by (auto simp: lock_ok_def goes_def leave_guard_def rwunlock_def)
next
  case (step_leave_write g)
  with assms(2) have "g" "rl_writer (ss_lock ss) = Some t" 
    unfolding lock_ok_def by (metis guarded.simps(6) holds_write.simps(3))+
  with step_leave_write assms(2) show ?thesis
    by (auto simp: lock_ok_def goes_def leave_guard_def rwunlock_def)
qed (use assms(2) in \<open>auto intro!: lock_ok_goes dest: place_guarded [OF assms(2)]\<close>)

text \<open>What the lock buys: while a thread changes the map no other is inside, and while one looks none changes it.\<close>

lemma changing_writes: "changing p \<Longrightarrow> holds_write p"
  by (cases p) auto

lemma only_changing:
  assumes "lock_ok ss" "holds_write (ss_place ss t)" "changing (ss_place ss t')"
  shows "t' = t"
  using alone(1) [OF assms(1,2)] changing_writes [OF assms(3)] .

lemma none_changing:
  assumes "lock_ok ss" "holds_read (ss_place ss t)"
  shows "\<not> changing (ss_place ss t')"
  using alone(2) [OF assms(1)] changing_writes assms(2) by blast

lemma map_ok_goes:
  assumes "map_ok m0 ss" "\<not> changing (ss_place ss t)" "\<not> changing p" "\<And>m. fits m p"
  shows "map_ok m0 (goes t p ss)"
proof -
  have "(\<exists>t'. changing (((ss_place ss)(t := p)) t')) \<longleftrightarrow> (\<exists>t'. changing (ss_place ss t'))"
    using assms(2,3) by (metis fun_upd_apply)
  moreover from assms(1) obtain m where "replay m0 (ss_log ss) = Some m" "\<forall>t. fits m (ss_place ss t)"
    "ss_map ss = (if \<exists>t. changing (ss_place ss t) then None else Some m)" by (auto simp: map_ok_def)
  ultimately show ?thesis using assms(4) unfolding map_ok_def goes_def by (intro exI [of _ m]) simp
qed

lemma map_ok_lock [simp]: "map_ok m0 (ss\<lparr>ss_lock := l\<rparr>) = map_ok m0 ss" "map_ok m0 (ss\<lparr>ss_ipc := i\<rparr>) = map_ok m0 ss"
  by (simp_all add: map_ok_def)

lemma goes_raced: "ss_raced (goes t p ss) = ss_raced ss"
  by (simp add: goes_def)

lemma store_inv_step:
  assumes "store_step exec False t ss ss'" "store_inv m0 ss"
  shows "store_inv m0 ss'"
proof -
  have lock: "lock_ok ss" and map: "map_ok m0 ss" and race: "\<not> ss_raced ss"
    using assms(2) by (simp_all add: store_inv_def)
  from map obtain m where m: "replay m0 (ss_log ss) = Some m" "\<And>t. fits m (ss_place ss t)"
    "ss_map ss = (if \<exists>t. changing (ss_place ss t) then None else Some m)"
    by (auto simp: map_ok_def)
  have "map_ok m0 ss' \<and> \<not> ss_raced ss'"
    using assms(1)
  proof cases
    case (step_look q g m')
    with none_changing [OF lock, of t] m race show ?thesis
      by (auto simp: map_ok_def goes_def)
  next
    case (step_look_race q g)
    with none_changing [OF lock, of t] m show ?thesis by (auto split: if_splits)
  next
    case (step_looked q m' g)
    with none_changing [OF lock, of t] m race replay_snoc [OF m(1), of "Reading q"] show ?thesis
      by (auto simp: map_ok_def goes_def)
  next
    case (step_looked_race q m' g)
    with none_changing [OF lock, of t] m(2) [of t] m(3) show ?thesis by auto
  next
    case (step_change u g m')
    then have "\<not> changing (ss_place ss t')" for t' using only_changing [OF lock, of t t'] by auto
    with m step_change race show ?thesis by (auto simp: map_ok_def goes_def)
  next
    case (step_change_race u g)
    then have "\<not> changing (ss_place ss t')" for t' using only_changing [OF lock, of t t'] by auto
    with m step_change_race show ?thesis by auto
  next
    case (step_changed u m' g now rc m'' ipc')
    then have other: "changing (ss_place ss t') \<Longrightarrow> t' = t" for t' using only_changing [OF lock, of t t'] by simp
    have reads: "\<not> holds_read (ss_place ss t')" for t' using alone(2) [OF lock, of t] step_changed by simp
    have "fits m1 (((ss_place ss)(t := LeavesWrite g)) t')" for m1 t'
      using other [of t'] reads [of t'] by (cases "ss_place ss t'") auto
    moreover have "\<not> changing (((ss_place ss)(t := LeavesWrite g)) t')" for t' using other [of t'] by auto
    moreover have "m' = m" using m(2) [of t] step_changed by simp
    ultimately show ?thesis
      using replay_snoc [OF m(1), of "Writing u" "Code rc" m''] change_is_write_op [OF step_changed(3)] step_changed race
      by (auto simp: map_ok_def goes_def)
  qed (use map race in \<open>auto intro!: map_ok_goes simp: goes_raced\<close>)
  with lock_ok_step [OF assms(1) lock] show ?thesis by (simp add: store_inv_def)
qed

interpretation threads: invariant_system "\<lambda>ss. ss = idle_store m0 ipc" "any_step exec False" "store_inv m0" for m0 ipc exec
proof unfold_locales
  fix ss assume "ss = idle_store m0 ipc"
  then show "store_inv m0 ss"
    by (simp add: store_inv_def lock_ok_def map_ok_def idle_store_def free_lock_def)
next
  fix ss ss' assume "store_inv m0 ss" "any_step exec False ss ss'"
  then show "store_inv m0 ss'" using store_inv_step [of exec _ ss ss' m0]
    unfolding any_step_def by (elim disjE exE) (blast, simp add: store_inv_def)
qed

text \<open>A thread that is inside can go on, unless its statement does not return, and one that waits waits for a
  thread that is inside.\<close>

lemma inside_goes_on:
  assumes "holds_read (ss_place ss t) \<or> holds_write (ss_place ss t)" "\<not> awaits_database exec ss t"
  shows "\<exists>ss'. store_step exec faulty t ss ss'"
proof (cases "ss_place ss t")
  case (Reads q g)
  then show ?thesis by (cases "ss_map ss") (blast intro: step_look step_look_race)+
next
  case (Looks q m g)
  then show ?thesis by (cases "ss_map ss = Some m") (blast intro: step_looked step_looked_race)+
next
  case (Writes u g)
  then show ?thesis by (cases "ss_map ss") (blast intro: step_change step_change_race)+
next
  case (Changes u m g)
  with assms(2) obtain now where "\<And>f. write_op exec now u m (ss_ipc ss) \<noteq> Inl f" by (auto simp: awaits_database_def)
  then obtain rc m' ipc' where "write_op exec now u m (ss_ipc ss) = Inr (rc, m', ipc')"
    by (cases "write_op exec now u m (ss_ipc ss)") auto
  with Changes show ?thesis by (blast intro: step_changed)
next
  case (LeavesRead g)
  then show ?thesis by (blast intro: step_leave_read)
next
  case (LeavesWrite g)
  then show ?thesis by (blast intro: step_leave_write)
qed (use assms in auto)

lemma nobody_goes_on:
  assumes "lock_ok ss" "awaits_database exec ss t" "store_step exec False t' ss ss'"
  shows "ss_place ss t' = Idle"
proof -
  from assms(2) obtain u m g where p: "ss_place ss t = Changes u m g"
    and stuck: "\<And>now rc m' ipc'. write_op exec now u m (ss_ipc ss) \<noteq> Inr (rc, m', ipc')"
    unfolding awaits_database_def by (metis Inl_Inr_False)
  have w: "rl_writer (ss_lock ss) = Some t" using assms(1) p unfolding lock_ok_def by (metis holds_write.simps(2))
  have r: "\<not> holds_read (ss_place ss t')" using alone(2) [OF assms(1), of t] p by simp
  have o: "holds_write (ss_place ss t') \<Longrightarrow> t' = t" using alone(1) [OF assms(1), of t] p by simp
  from assms(3) show ?thesis
    by cases (use w p r o stuck in \<open>auto simp: rdlock_def wrlock_def split: if_splits\<close>)
qed

lemma waiting_for_inside:
  assumes "lock_ok ss" "ss_place ss t = Wants c" "\<nexists>ss'. store_step exec faulty t ss ss'"
  shows "\<exists>t'. holds_read (ss_place ss t') \<or> holds_write (ss_place ss t')"
proof (cases "rl_writer (ss_lock ss)")
  case (Some w)
  then show ?thesis using assms(1) by (auto simp: lock_ok_def)
next
  case none: None
  show ?thesis
  proof (cases c)
    case (Reading q)
    obtain lk where "rdlock t (ss_lock ss) = Some (0, lk)" using none by (simp add: rdlock_def)
    with assms(2,3) Reading show ?thesis by (blast intro: step_rdlock)
  next
    case (Writing u)
    show ?thesis
    proof (cases "rl_readers (ss_lock ss)")
      case Nil
      then obtain lk where "wrlock t (ss_lock ss) = Some (0, lk)" using none by (simp add: wrlock_def)
      with assms(2,3) Writing show ?thesis by (blast intro: step_wrlock)
    next
      case (Cons r rs)
      then show ?thesis using assms(1) unfolding lock_ok_def by (metis list.set_intros(1))
    qed
  qed
qed

lemma someone_goes_on:
  assumes "lock_ok ss" "ss_place ss t \<noteq> Idle" "\<nexists>t. awaits_database exec ss t"
  shows "\<exists>t' ss'. ss_place ss t' \<noteq> Idle \<and> store_step exec False t' ss ss'"
proof (cases "holds_read (ss_place ss t) \<or> holds_write (ss_place ss t)")
  case True
  with inside_goes_on assms(2,3) show ?thesis by blast
next
  case False
  with assms(2) obtain c where c: "ss_place ss t = Wants c" by (cases "ss_place ss t") auto
  show ?thesis
  proof (cases "\<exists>ss'. store_step exec False t ss ss'")
    case True
    with assms(2) show ?thesis by blast
  next
    case False
    from waiting_for_inside [OF assms(1) c False] obtain t'
      where t': "holds_read (ss_place ss t') \<or> holds_write (ss_place ss t')" by blast
    then have "ss_place ss t' \<noteq> Idle" by auto
    with inside_goes_on [OF t'] assms(3) show ?thesis by blast
  qed
qed

text \<open>C9 Any number of threads may use the session store at once, whatever else happens to the connection
  meanwhile: as long as no lock call fails, no thread ever looks at a map another is writing, the answers given so
  far are those of the operations taken one after the other, in the order of the log, and the map is what they
  leave. While an operation is under way some thread can go on, except in one case: a writer, holding the lock, has
  sent a statement that does not return. Then the mutex of the connection is locked and, as long as it is
  (\<open>forensic_deadlocks\<close> shows how it is left so), no thread that has begun an operation goes on.\<close>

theorem sessions_linearizable:
  assumes "(any_step (executeQuery lib) False)\<^sup>*\<^sup>* (idle_store m0 ipc) ss"
  shows "\<not> ss_raced ss \<and> (\<exists>m. replay m0 (ss_log ss) = Some m \<and> (ss_map ss = None \<or> ss_map ss = Some m))
    \<and> ((\<exists>t. ss_place ss t \<noteq> Idle) \<longrightarrow>
         ((\<exists>t ss'. ss_place ss t \<noteq> Idle \<and> store_step (executeQuery lib) False t ss ss')
            \<longleftrightarrow> \<not> (\<exists>t. awaits_database (executeQuery lib) ss t)))
    \<and> ((\<exists>t. awaits_database (executeQuery lib) ss t) \<longrightarrow> us_held (ss_ipc ss))"
proof -
  have inv: "store_inv m0 ss" using threads.reachable_inv [OF refl assms] .
  then have ok: "lock_ok ss" and raced: "\<not> ss_raced ss"
    and m: "\<exists>m. replay m0 (ss_log ss) = Some m \<and> (ss_map ss = None \<or> ss_map ss = Some m)"
    by (auto simp: store_inv_def map_ok_def)
  have "us_held (ss_ipc ss)" if "awaits_database (executeQuery lib) ss t" for t
    using that write_op_returns [of "ss_ipc ss" lib] unfolding awaits_database_def by (metis Inl_Inr_False)
  with raced m someone_goes_on [OF ok, of _ "executeQuery lib"] nobody_goes_on [OF ok, of "executeQuery lib"]
  show ?thesis by blast
qed

text \<open>Thread 1 inserts a session; then somebody leaves the mutex of the connection locked.\<close>

definition inserting :: "'s \<Rightarrow> 's shared_store" where
  "inserting ipc = (idle_store [] ipc)\<lparr>ss_lock := free_lock\<lparr>rl_writer := Some 1\<rparr>, ss_map := None,
     ss_place := (\<lambda>t. Idle)(1 := Changes (Insert demo_session) [] True)\<rparr>"

lemma inserting_reached: "(any_step exec False)\<^sup>*\<^sup>* (idle_store [] ipc) (inserting ipc)"
proof -
  let ?u = "Insert demo_session"
  let ?s1 = "goes 1 (Wants (Writing ?u)) (idle_store [] ipc)"
  let ?s2 = "goes 1 (Writes ?u True) (?s1\<lparr>ss_lock := free_lock\<lparr>rl_writer := Some 1\<rparr>\<rparr>)"
  let ?s3 = "goes 1 (Changes ?u [] True) (?s2\<lparr>ss_map := None\<rparr>)"
  have "any_step exec False (idle_store [] ipc) ?s1"
    unfolding any_step_def by (rule disjI1, rule exI, rule step_call) (simp add: idle_store_def)
  moreover have "any_step exec False ?s1 ?s2"
    unfolding any_step_def using step_wrlock [of ?s1 1 ?u 0 "free_lock\<lparr>rl_writer := Some 1\<rparr>" exec False]
    by (intro disjI1 exI [of _ 1]) (simp add: goes_def idle_store_def wrlock_def free_lock_def)
  moreover have "any_step exec False ?s2 ?s3"
    unfolding any_step_def by (rule disjI1, rule exI, rule step_change) (simp_all add: goes_def idle_store_def)
  moreover have "?s3 = inserting ipc"
    by (simp add: inserting_def goes_def idle_store_def)
  ultimately show ?thesis by (metis rtranclp.simps)
qed

lemma locked_while_inserting:
  "(any_step exec False)\<^sup>*\<^sup>* (idle_store [] ipc) (inserting ipc')"
proof -
  have "any_step exec False (inserting ipc) (inserting ipc')"
    unfolding any_step_def by (intro disjI2 exI [of _ ipc']) (simp add: inserting_def idle_store_def)
  with inserting_reached [of exec ipc] show ?thesis by (metis rtranclp.rtrancl_into_rtrancl)
qed

definition free_socket :: "unit unix_socket" where
  "free_socket = \<lparr>us_held = False, us_conn = Some (), us_conn_string = []\<rparr>"

theorem sessions_linearizable_witness:
  "(\<exists>t ss'. ss_place (inserting free_socket) t \<noteq> Idle
      \<and> store_step (executeQuery demo_lib) False t (inserting free_socket) ss')
   \<and> (let locked = inserting (free_socket\<lparr>us_held := True\<rparr>) in
      \<nexists>t ss'. ss_place locked t \<noteq> Idle \<and> store_step (executeQuery demo_lib) False t locked ss')"
proof -
  let ?l = "inserting (free_socket\<lparr>us_held := True\<rparr>)"
  have p: "ss_place (inserting ipc) 1 = Changes (Insert demo_session) [] True" for ipc :: "unit unix_socket"
    by (simp add: inserting_def)
  have "\<not> us_held (ss_ipc (inserting free_socket))" by (simp add: inserting_def idle_store_def free_socket_def)
  moreover have "awaits_database (executeQuery demo_lib) ?l 1"
    unfolding awaits_database_def using p [of "free_socket\<lparr>us_held := True\<rparr>"]
    by (intro exI) (auto simp: store_insert_def executeQuery_def execute_def lock_defs inserting_def idle_store_def)
  moreover have "ss_place (inserting ipc) 1 \<noteq> Idle" for ipc :: "unit unix_socket" using p [of ipc] by simp
  ultimately show ?thesis
    using sessions_linearizable [OF locked_while_inserting [of "executeQuery demo_lib" free_socket free_socket]]
      sessions_linearizable [OF locked_while_inserting [of "executeQuery demo_lib" free_socket "free_socket\<lparr>us_held := True\<rparr>"]]
    unfolding Let_def by blast
qed

text \<open>The guards do not say whether they hold the lock, and nobody asks: one failed call is enough for a
  thread to read the map while another writes it.\<close>

theorem failed_lock_races:
  "\<exists>ss. (any_step exec True)\<^sup>*\<^sup>* (inserting ipc) ss \<and> ss_raced ss"
proof -
  let ?q = "Validate 0 ''t''"
  let ?s1 = "goes 2 (Wants (Reading ?q)) (inserting ipc)"
  let ?s2 = "goes 2 (Reads ?q (fst (read_guard 11))) ?s1"
  let ?s3 = "goes 2 (LeavesRead (fst (read_guard 11))) (?s2\<lparr>ss_raced := True\<rparr>)"
  have "any_step exec True (inserting ipc) ?s1"
    unfolding any_step_def by (rule disjI1, rule exI, rule step_call) (simp add: inserting_def)
  moreover have "any_step exec True ?s1 ?s2"
    unfolding any_step_def by (rule disjI1, rule exI, rule step_rdlock_fails) (simp_all add: goes_def)
  moreover have "any_step exec True ?s2 ?s3"
    unfolding any_step_def by (rule disjI1, rule exI, rule step_look_race) (simp_all add: goes_def inserting_def)
  moreover have "ss_raced ?s3" by (simp add: goes_def)
  ultimately show ?thesis by (meson converse_rtranclp_into_rtranclp r_into_rtranclp)
qed

end
