(* ===== verification/Observers.thy ===== *)
theory Observers
  imports Case_Facade
begin

text \<open>
  The patterns of subsystem 1 (\<open>src/system/subsystem1/src\<close>): \<open>EvidenceMgr\<close> with its array of observers,
  the closing strategies and \<open>CaseManager\<close>, which owns the strategy it is given. A pointer is a number or null.
  An observer's \<open>update\<close> is code outside; a notification is the list of its calls. Nothing in the program
  creates either manager.
\<close>

section \<open>EvidenceMgr\<close>

definition MAX_OBSERVERS :: nat where "MAX_OBSERVERS = 10"

record evidence_mgr =
  em_observers :: "nat option list"
  em_count :: nat

definition new_evidence_mgr :: evidence_mgr where
  "new_evidence_mgr = \<lparr>em_observers = replicate MAX_OBSERVERS None, em_count = 0\<rparr>"

definition attach :: "nat option \<Rightarrow> evidence_mgr \<Rightarrow> evidence_mgr" where
  "attach obs em =
     (if em_count em < MAX_OBSERVERS
      then em\<lparr>em_observers := (em_observers em)[em_count em := obs], em_count := em_count em + 1\<rparr>
      else em)"

text \<open>The inner loop moves the entries behind place \<open>j\<close> one place down.\<close>

function shift_down :: "nat \<Rightarrow> nat \<Rightarrow> 'a list \<Rightarrow> 'a list" where
  "shift_down j cnt xs = (if j < cnt - 1 then shift_down (j + 1) cnt (xs[j := xs ! (j + 1)]) else xs)"
  by pat_completeness auto

termination by (relation "measure (\<lambda>(j, cnt, xs). cnt - j)") auto

declare shift_down.simps [simp del]

function detach_from :: "nat \<Rightarrow> nat option \<Rightarrow> evidence_mgr \<Rightarrow> evidence_mgr" where
  "detach_from i obs em =
     (if em_count em \<le> i then em
      else if em_observers em ! i = obs
      then em\<lparr>em_observers := (shift_down i (em_count em) (em_observers em))[em_count em - 1 := None],
              em_count := em_count em - 1\<rparr>
      else detach_from (i + 1) obs em)"
  by pat_completeness auto

termination by (relation "measure (\<lambda>(i, obs, em). em_count em - i)") auto

declare detach_from.simps [simp del]

definition detach :: "nat option \<Rightarrow> evidence_mgr \<Rightarrow> evidence_mgr" where
  "detach obs em = detach_from 0 obs em"

text \<open>The observers that are called, in order; each is given the case and the evidence.\<close>

definition notify_all :: "int \<Rightarrow> int \<Rightarrow> evidence_mgr \<Rightarrow> (nat \<times> int \<times> int) list" where
  "notify_all case_id evidence_id em =
     concat (map (\<lambda>i. case em_observers em ! i of None \<Rightarrow> [] | Some obs \<Rightarrow> [(obs, case_id, evidence_id)])
       [0..<em_count em])"

definition add_evidence :: "int \<Rightarrow> int \<Rightarrow> cstr \<Rightarrow> evidence_mgr \<Rightarrow> (string \<times> (nat \<times> int \<times> int) list) run" where
  "add_evidence case_id evidence_id description em =
     (case description of
        None \<Rightarrow> Inl UndefinedBehaviour
      | Some d \<Rightarrow> Inr (''[S2: EvidenceMgr] Logging Evidence '' @ show_int evidence_id @ '' for Case '' @ show_int case_id
                   @ '': '' @ d, notify_all case_id evidence_id em))"

section \<open>The array is a bounded list\<close>

definition good_mgr :: "evidence_mgr \<Rightarrow> bool" where
  "good_mgr em \<longleftrightarrow> length (em_observers em) = MAX_OBSERVERS \<and> em_count em \<le> MAX_OBSERVERS
     \<and> drop (em_count em) (em_observers em) = replicate (MAX_OBSERVERS - em_count em) None"

definition attached :: "evidence_mgr \<Rightarrow> nat option list" where
  "attached em = take (em_count em) (em_observers em)"

text \<open>The specification: a list of at most ten observers; the first of its entries goes.\<close>

inductive observer_step :: "nat option list \<Rightarrow> nat option list \<Rightarrow> bool" where
  spec_attach: "length obs < MAX_OBSERVERS \<Longrightarrow> observer_step obs (obs @ [x])"
| spec_detach: "observer_step obs (remove1 x obs)"

inductive evidence_step :: "evidence_mgr \<Rightarrow> evidence_mgr \<Rightarrow> bool" where
  "evidence_step em (attach x em)"
| "evidence_step em (detach x em)"

lemma evidence_run:
  "evidence_step\<^sup>*\<^sup>* s em \<Longrightarrow> evidence_step\<^sup>*\<^sup>* s (attach x em)"
  "evidence_step\<^sup>*\<^sup>* s em \<Longrightarrow> evidence_step\<^sup>*\<^sup>* s (detach x em)"
  by (rule rtranclp.rtrancl_into_rtrancl, assumption, rule evidence_step.intros)+

lemma shift_down_is:
  "j < cnt \<Longrightarrow> cnt \<le> length xs \<Longrightarrow>
   shift_down j cnt xs = take j xs @ take (cnt - 1 - j) (drop (j + 1) xs) @ drop (cnt - 1) xs"
proof (induction j cnt xs rule: shift_down.induct)
  case (1 j cnt xs)
  show ?case
  proof (cases "j < cnt - 1")
    case False
    with 1(2) have "cnt = j + 1" by simp
    then show ?thesis by (simp add: shift_down.simps)
  next
    case True
    let ?ys = "xs[j := xs ! (j + 1)]"
    have "shift_down j cnt xs = take (j + 1) ?ys @ take (cnt - 1 - (j + 1)) (drop (j + 1 + 1) ?ys) @ drop (cnt - 1) ?ys"
      using 1(1) [OF True] 1(2,3) True by (simp add: shift_down.simps [of j cnt xs])
    moreover have "take (j + 1) ?ys = take j xs @ [xs ! (j + 1)]"
      using 1(2,3) by (simp add: take_Suc_conv_app_nth)
    moreover have "take (cnt - 1 - j) (drop (j + 1) xs) = xs ! (j + 1) # take (cnt - 1 - (j + 1)) (drop (j + 1 + 1) xs)"
      using 1(2,3) True by (simp add: Cons_nth_drop_Suc [symmetric] take_Cons' del: drop_drop)
    ultimately show ?thesis using True by simp
  qed
qed

lemma remove1_at:
  "i < length xs \<Longrightarrow> x \<notin> set (take i xs) \<Longrightarrow> xs ! i = x \<Longrightarrow> remove1 x xs = take i xs @ drop (i + 1) xs"
proof -
  assume a: "i < length xs" "x \<notin> set (take i xs)" "xs ! i = x"
  have "xs = take i xs @ x # drop (i + 1) xs" using a id_take_nth_drop by fastforce
  with a(2) show ?thesis by (metis remove1_append remove1.simps(2))
qed

text \<open>The entries before the counter are the list, those from it on are null.\<close>

lemma good_mgr_split:
  "good_mgr em \<longleftrightarrow> em_count em \<le> MAX_OBSERVERS
     \<and> em_observers em = attached em @ replicate (MAX_OBSERVERS - em_count em) None \<and> length (attached em) = em_count em"
  unfolding good_mgr_def attached_def
  by (metis append_take_drop_id append_eq_conv_conj diff_add_inverse le_add_diff_inverse length_append
      length_replicate length_take min.absorb2)

lemma split_eq:
  assumes "em_observers em = xs @ replicate (MAX_OBSERVERS - length xs) None" "em_count em = length xs" "length xs \<le> MAX_OBSERVERS"
  shows "good_mgr em" "attached em = xs"
  using assms by (simp_all add: good_mgr_def attached_def)

lemma attach_list:
  assumes "good_mgr em"
  shows "good_mgr (attach x em)"
    "attached (attach x em) = (if length (attached em) < MAX_OBSERVERS then attached em @ [x] else attached em)"
proof -
  note split = good_mgr_split [THEN iffD1, OF assms]
  have "good_mgr (attach x em) \<and> attached (attach x em)
      = (if length (attached em) < MAX_OBSERVERS then attached em @ [x] else attached em)"
  proof (cases "em_count em < MAX_OBSERVERS")
    case False
    with assms split show ?thesis by (simp add: attach_def)
  next
    case True
    then obtain k where k: "MAX_OBSERVERS - em_count em = Suc k" by (metis Suc_diff_Suc)
    have "(em_observers em)[em_count em := x] = attached em @ x # replicate k None"
      using split k by (metis list_update_length replicate_Suc)
    with True split k have "em_observers (attach x em) = (attached em @ [x]) @ replicate (MAX_OBSERVERS - length (attached em @ [x])) None"
      "em_count (attach x em) = length (attached em @ [x])" "length (attached em @ [x]) \<le> MAX_OBSERVERS"
      by (auto simp: attach_def)
    from split_eq [OF this] True split show ?thesis by simp
  qed
  then show "good_mgr (attach x em)"
    "attached (attach x em) = (if length (attached em) < MAX_OBSERVERS then attached em @ [x] else attached em)" by blast+
qed

lemma detach_from_list:
  assumes "good_mgr em" "x \<notin> set (take i (attached em))"
  shows "good_mgr (detach_from i x em) \<and> attached (detach_from i x em) = remove1 x (attached em)"
  using assms
proof (induction i x em rule: detach_from.induct)
  case (1 i x em)
  note split = good_mgr_split [THEN iffD1, OF 1(2)]
  have nth: "em_observers em ! i = attached em ! i" if "i < em_count em"
    using split that by (metis nth_append)
  consider "em_count em \<le> i" | "i < em_count em" "em_observers em ! i = x" | "i < em_count em" "em_observers em ! i \<noteq> x"
    by linarith
  then show ?case
  proof cases
    case 1
    with "1.prems" split show ?thesis by (subst (1 2) detach_from.simps) (simp add: remove1_idem)
  next
    case 2
    let ?xs = "remove1 x (attached em)"
    have mem: "x \<in> set (attached em)" using 2 nth split by (metis nth_mem)
    have len: "length ?xs = em_count em - 1" using mem split by (simp add: length_remove1)
    have xs: "?xs = take i (attached em) @ drop (i + 1) (attached em)"
      using remove1_at [of i "attached em" x] 2 nth split "1.prems"(2) by simp
    have "shift_down i (em_count em) (em_observers em)
        = ?xs @ drop (em_count em - 1) (em_observers em)"
    proof -
      have "em_count em \<le> length (em_observers em)" using "1.prems"(1) by (simp add: good_mgr_def)
      with 2(1) show ?thesis unfolding xs by (simp add: shift_down_is attached_def drop_take min_def)
    qed
    moreover have "drop (em_count em - 1) (em_observers em)
        = em_observers em ! (em_count em - 1) # replicate (MAX_OBSERVERS - em_count em) None"
      using 2(1) "1.prems"(1) by (subst Cons_nth_drop_Suc [symmetric]) (auto simp: good_mgr_def)
    moreover have "Suc (MAX_OBSERVERS - em_count em) = MAX_OBSERVERS - length ?xs" using len 2(1) split by (simp add: Suc_diff_le)
    ultimately have "em_observers (detach_from i x em) = ?xs @ replicate (MAX_OBSERVERS - length ?xs) None"
      using 2 len by (subst detach_from.simps) (simp add: list_update_append replicate_Suc [symmetric])
    moreover have "em_count (detach_from i x em) = length ?xs" using 2 len by (subst detach_from.simps) simp
    moreover have "length ?xs \<le> MAX_OBSERVERS" using len split by (metis diff_le_self le_trans)
    ultimately show ?thesis using split_eq by blast
  next
    case 3
    have "x \<notin> set (take (i + 1) (attached em))"
      using "1.prems"(2) 3 nth split by (simp add: take_Suc_conv_app_nth)
    with 1(1) 3 "1.prems"(1) show ?thesis by (subst (1 2) detach_from.simps) simp
  qed
qed

lemma detach_list: "good_mgr em \<Longrightarrow> good_mgr (detach x em)" "good_mgr em \<Longrightarrow> attached (detach x em) = remove1 x (attached em)"
  using detach_from_list [of em x 0] by (simp_all add: detach_def)

interpretation observer_run: simulation good_mgr evidence_step attached observer_step
proof unfold_locales
  fix em em' assume "good_mgr em" "evidence_step em em'"
  then show "good_mgr em'" by (auto elim!: evidence_step.cases simp: attach_list detach_list)
next
  fix em em' assume "good_mgr em" "evidence_step em em'"
  then show "observer_step\<^sup>=\<^sup>= (attached em) (attached em')"
    by (auto elim!: evidence_step.cases simp: attach_list detach_list intro: observer_step.intros)
qed

lemma calls_map:
  "concat (map (case_option [] (\<lambda>obs. [(obs, c, v)])) xs) = map (\<lambda>obs. (obs, c, v)) (List.map_filter id xs)"
  by (induction xs) (auto simp: List.map_filter_def split: option.splits)

lemma notify_attached:
  "good_mgr em \<Longrightarrow> notify_all c v em = map (\<lambda>obs. (obs, c, v)) (List.map_filter id (attached em))"
proof -
  assume "good_mgr em"
  then have split: "length (attached em) = em_count em" "\<And>i. i < em_count em \<Longrightarrow> em_observers em ! i = attached em ! i"
    using good_mgr_split by (auto simp: attached_def)
  have "notify_all c v em = concat (map (\<lambda>x. case x of None \<Rightarrow> [] | Some obs \<Rightarrow> [(obs, c, v)]) (attached em))"
    unfolding notify_all_def using split by (intro arg_cong [of _ _ concat] nth_equalityI) auto
  then show ?thesis by (simp add: calls_map)
qed

section \<open>The closing strategies and CaseManager\<close>

datatype strategy = ConstableStrategy | InspectorStrategy | SHOStrategy

text \<open>Whether a case of the type may be closed, and the error that is logged if not.\<close>

fun can_close_case :: "strategy \<Rightarrow> case_type \<Rightarrow> bool \<times> cstr" where
  "can_close_case ConstableStrategy type =
     (if type = THEFT \<or> type = VANDALISM \<or> type = PUBLIC_DISTURBANCE then (True, None)
      else (False, Some ''[S1: Strategy] DENIED: Constable rank insufficient to close this case level.''))"
| "can_close_case InspectorStrategy type =
     (if type = MURDER \<or> type = TERRORISM
      then (False, Some ''[S1: Strategy] DENIED: Inspector rank insufficient to close Capital/Federal cases.'')
      else (True, None))"
| "can_close_case SHOStrategy type = (True, None)"

definition can_escalate_case :: "strategy \<Rightarrow> bool" where
  "can_escalate_case s = True"

text \<open>The objects that are alive, by their addresses.\<close>

record s1_heap =
  sh_strategies :: "nat \<rightharpoonup> strategy"
  sh_cases :: "nat \<rightharpoonup> case_out"

record case_manager =
  active_strategy :: "nat option"
  current_case :: "nat option"

definition new_case_manager :: case_manager where
  "new_case_manager = \<lparr>active_strategy = None, current_case = None\<rparr>"

definition delete_strategy :: "nat option \<Rightarrow> s1_heap \<Rightarrow> s1_heap run" where
  "delete_strategy ptr h =
     (case ptr of
        None \<Rightarrow> Inr h
      | Some p \<Rightarrow> if sh_strategies h p = None then Inl UndefinedBehaviour
                  else Inr (h\<lparr>sh_strategies := (sh_strategies h)(p := None)\<rparr>))"

definition destroy_case_manager :: "case_manager \<Rightarrow> s1_heap \<Rightarrow> s1_heap run" where
  "destroy_case_manager cm h = delete_strategy (active_strategy cm) h"

definition load_case :: "nat option \<Rightarrow> case_manager \<Rightarrow> case_manager" where
  "load_case c cm = cm\<lparr>current_case := c\<rparr>"

definition set_authorization_strategy :: "nat option \<Rightarrow> case_manager \<Rightarrow> s1_heap \<Rightarrow> (case_manager \<times> s1_heap) run" where
  "set_authorization_strategy strategy cm h =
     and_then (delete_strategy (active_strategy cm) h) (\<lambda>h. Inr (cm\<lparr>active_strategy := strategy\<rparr>, h))"

definition attempt_case_closure :: "case_manager \<Rightarrow> s1_heap \<Rightarrow> (bool \<times> string \<times> s1_heap) run" where
  "attempt_case_closure cm h =
     (case (current_case cm, active_strategy cm) of
        (Some c, Some p) \<Rightarrow>
          (case (sh_cases h c, sh_strategies h p) of
             (Some k, Some s) \<Rightarrow>
               (case can_close_case s (co_case_type k) of
                  (True, msg) \<Rightarrow>
                    Inr (True, ''[S1: CaseManager] GRANTED: Case '' @ show_int (co_case_id k) @ '' successfully closed.'',
                      h\<lparr>sh_cases := (sh_cases h)(c \<mapsto> k\<lparr>co_case_status := CLOSED\<rparr>)\<rparr>)
                | (False, msg) \<Rightarrow> Inr (False, cell msg, h))
           | _ \<Rightarrow> Inl UndefinedBehaviour)
      | _ \<Rightarrow> Inr (False, ''[S1: CaseManager] Error: Context not fully initialized.'', h))"

text \<open>A client that gives the manager strategies it has just made, loads cases that exist, and closes.\<close>

inductive manager_step :: "case_manager \<times> s1_heap \<Rightarrow> case_manager \<times> s1_heap \<Rightarrow> bool" where
  give: "sh_strategies h p = None \<Longrightarrow>
    set_authorization_strategy (Some p) cm (h\<lparr>sh_strategies := (sh_strategies h)(p \<mapsto> s)\<rparr>) = Inr (cm', h') \<Longrightarrow>
    manager_step (cm, h) (cm', h')"
| load: "sh_cases h c \<noteq> None \<Longrightarrow> manager_step (cm, h) (load_case (Some c) cm, h)"
| close: "attempt_case_closure cm h = Inr (b, msg, h') \<Longrightarrow> manager_step (cm, h) (cm, h')"

section \<open>The manager owns its strategy\<close>

text \<open>Beside the strategies of the start only the manager's own is alive, the loaded case is alive, and a case of
  the start is as it was or closed.\<close>

definition owns_its_strategy :: "s1_heap \<Rightarrow> case_manager \<times> s1_heap \<Rightarrow> bool" where
  "owns_its_strategy h0 st \<longleftrightarrow> (case st of (cm, h) \<Rightarrow>
     (\<exists>h'. delete_strategy (active_strategy cm) h = Inr h' \<and> sh_strategies h' = sh_strategies h0)
     \<and> (\<forall>c. current_case cm = Some c \<longrightarrow> sh_cases h c \<noteq> None)
     \<and> (\<forall>c. sh_cases h c = sh_cases h0 c
           \<or> sh_cases h c = map_option (\<lambda>k. k\<lparr>co_case_status := CLOSED\<rparr>) (sh_cases h0 c)))"

lemma delete_strategy_keeps:
  "delete_strategy ptr h = Inr h' \<Longrightarrow> sh_cases h' = sh_cases h"
  "delete_strategy ptr h = Inr h' \<Longrightarrow>
   sh_strategies h' = (case ptr of None \<Rightarrow> sh_strategies h | Some p \<Rightarrow> (sh_strategies h)(p := None))"
  by (auto simp: delete_strategy_def split: option.splits if_splits)

lemma closure_effect:
  assumes "attempt_case_closure cm h = Inr (b, msg, h')"
  shows "sh_strategies h' = sh_strategies h"
    "sh_cases h' = (if b then (sh_cases h)(the (current_case cm) := map_option (\<lambda>k. k\<lparr>co_case_status := CLOSED\<rparr>) (sh_cases h (the (current_case cm)))) else sh_cases h)"
  using assms by (auto simp: attempt_case_closure_def split: option.splits prod.splits bool.splits)

lemma closing_owns:
  assumes "manager_step st st'" "owns_its_strategy h0 st"
  shows "owns_its_strategy h0 st'"
  using assms
proof (induction rule: manager_step.induct)
  case (give h p cm s cm' h')
  from give(2) obtain h1 where d: "delete_strategy (active_strategy cm) (h\<lparr>sh_strategies := (sh_strategies h)(p \<mapsto> s)\<rparr>) = Inr h1"
    and eq: "cm' = cm\<lparr>active_strategy := Some p\<rparr>" "h' = h1"
    by (auto simp: set_authorization_strategy_def run_simps)
  from give(3) obtain h2 where d2: "delete_strategy (active_strategy cm) h = Inr h2" "sh_strategies h2 = sh_strategies h0"
    by (auto simp: owns_its_strategy_def)
  have p: "active_strategy cm \<noteq> Some p" using d2(1) give(1) by (auto simp: delete_strategy_def)
  have "sh_strategies h1 = (sh_strategies h2)(p \<mapsto> s)" "sh_cases h1 = sh_cases h"
    using delete_strategy_keeps [OF d] delete_strategy_keeps [OF d2(1)] p by (auto split: option.splits)
  moreover have "sh_strategies h2 p = None"
    using delete_strategy_keeps(2) [OF d2(1)] give(1) by (auto split: option.splits)
  ultimately show ?case using give(3) d2(2) eq by (auto simp: owns_its_strategy_def delete_strategy_def)
next
  case (load h c cm)
  then show ?case by (simp add: owns_its_strategy_def load_case_def)
next
  case (close cm h b msg h')
  have "delete_strategy (active_strategy cm) h' = Inr (h2\<lparr>sh_cases := sh_cases h'\<rparr>)"
    if "delete_strategy (active_strategy cm) h = Inr h2" for h2
    using that closure_effect(1) [OF close(1)] by (auto simp: delete_strategy_def split: option.splits if_splits)
  moreover have pw: "sh_cases h' c = sh_cases h c \<or> sh_cases h' c = map_option (\<lambda>k. k\<lparr>co_case_status := CLOSED\<rparr>) (sh_cases h c)" for c
    using closure_effect(2) [OF close(1)] by auto
  have "sh_cases h c \<noteq> None \<Longrightarrow> sh_cases h' c \<noteq> None" for c
    using pw [of c] by auto
  moreover have "sh_cases h' c = sh_cases h0 c \<or> sh_cases h' c = map_option (\<lambda>k. k\<lparr>co_case_status := CLOSED\<rparr>) (sh_cases h0 c)" for c
  proof -
    have "sh_cases h c = sh_cases h0 c \<or> sh_cases h c = map_option (\<lambda>k. k\<lparr>co_case_status := CLOSED\<rparr>) (sh_cases h0 c)"
      using close(2) by (simp add: owns_its_strategy_def)
    with pw [of c] show ?thesis by (auto simp: option.map_comp comp_def)
  qed
  ultimately show ?case using close(2) unfolding owns_its_strategy_def by fastforce
qed

interpretation closing: invariant_system "\<lambda>st. st = (new_case_manager, h0)" manager_step "owns_its_strategy h0" for h0
  by unfold_locales (simp add: owns_its_strategy_def new_case_manager_def delete_strategy_def, rule closing_owns)

text \<open>C32 The array of observers with its counter is a list of at most ten observers, whatever is
  attached and detached: the list grows at its end until it is full, a removal takes the first of its entries, and
  a notification calls, in the order of the list, exactly the observers in it that are not null.\<close>

theorem observers_are_a_list:
  assumes "evidence_step\<^sup>*\<^sup>* new_evidence_mgr em"
  shows "observer_step\<^sup>*\<^sup>* [] (attached em) \<and> length (attached em) \<le> MAX_OBSERVERS
    \<and> attached (attach x em) = (if length (attached em) < MAX_OBSERVERS then attached em @ [x] else attached em)
    \<and> attached (detach x em) = remove1 x (attached em)
    \<and> notify_all c v em = map (\<lambda>obs. (obs, c, v)) (List.map_filter id (attached em))"
proof -
  have "good_mgr new_evidence_mgr" "attached new_evidence_mgr = []"
    by (simp_all add: good_mgr_def attached_def new_evidence_mgr_def)
  then have "good_mgr em" "observer_step\<^sup>*\<^sup>* [] (attached em)" using observer_run.runs [OF assms] by simp_all
  moreover from this have "length (attached em) \<le> MAX_OBSERVERS" by (simp add: good_mgr_def attached_def)
  ultimately show ?thesis using attach_list(2) detach_list(2) notify_attached by blast
qed

theorem observers_are_a_list_witness:
  "notify_all 7 8 (detach (Some 1) (attach (Some 2) (attach (Some 1) new_evidence_mgr))) = [(2, 7, 8)]"
proof -
  let ?em = "detach (Some 1) (attach (Some 2) (attach (Some 1) new_evidence_mgr))"
  have "evidence_step\<^sup>*\<^sup>* new_evidence_mgr ?em"
    by (intro evidence_run rtranclp.rtrancl_refl)
  from observers_are_a_list [OF this] have
    "notify_all 7 8 ?em = map (\<lambda>obs. (obs, 7, 8)) (List.map_filter id (attached ?em))" by blast
  moreover have "attached ?em = [Some 2]" by code_simp
  ultimately show ?thesis by (simp add: List.map_filter_def)
qed

text \<open>A client that gives the manager only strategies it has just made, and loads cases that exist, never
  meets a dead pointer: the next closure runs, a closed case differs in its status only and no case is lost, and
  when the manager goes exactly the strategies of the start are alive.\<close>

theorem manager_owns_strategy:
  assumes "manager_step\<^sup>*\<^sup>* (new_case_manager, h0) (cm, h)"
  shows "(\<exists>b msg h'. attempt_case_closure cm h = Inr (b, msg, h'))
    \<and> (\<exists>h'. destroy_case_manager cm h = Inr h' \<and> sh_strategies h' = sh_strategies h0)
    \<and> (\<forall>c. sh_cases h c = sh_cases h0 c
          \<or> sh_cases h c = map_option (\<lambda>k. k\<lparr>co_case_status := CLOSED\<rparr>) (sh_cases h0 c))"
proof -
  from closing.reachable_inv [OF refl assms] have "owns_its_strategy h0 (cm, h)" .
  moreover from this have "\<exists>b msg h'. attempt_case_closure cm h = Inr (b, msg, h')"
    by (auto simp: owns_its_strategy_def attempt_case_closure_def delete_strategy_def split: option.splits prod.splits bool.splits if_splits)
  ultimately show ?thesis by (auto simp: owns_its_strategy_def destroy_case_manager_def)
qed

definition one_case :: s1_heap where
  "one_case = \<lparr>sh_strategies = Map.empty,
     sh_cases = [0 \<mapsto> \<lparr>co_case_id = 7, co_fir_number = ''F'', co_station_id = 1, co_filed_by = 1, co_case_type = THEFT,
       co_case_status = REGISTERED, co_filed_at = 0, co_incident_address = []\<rparr>]\<rparr>"

theorem manager_owns_strategy_witness:
  "\<exists>b msg h'. attempt_case_closure (load_case (Some 0) new_case_manager) one_case = Inr (b, msg, h')"
proof -
  have "manager_step (new_case_manager, one_case) (load_case (Some 0) new_case_manager, one_case)"
    by (rule load) (simp add: one_case_def)
  then have "manager_step\<^sup>*\<^sup>* (new_case_manager, one_case) (load_case (Some 0) new_case_manager, one_case)" by blast
  from manager_owns_strategy [OF this] show ?thesis by blast
qed

text \<open>The manager deletes the strategy it has even when it is given the same one again.\<close>

theorem strategy_given_twice:
  "\<exists>cm h. set_authorization_strategy (Some p) \<lparr>active_strategy = Some p, current_case = Some c\<rparr>
        \<lparr>sh_strategies = [p \<mapsto> s], sh_cases = [c \<mapsto> k]\<rparr> = Inr (cm, h)
    \<and> attempt_case_closure cm h = Inl UndefinedBehaviour \<and> destroy_case_manager cm h = Inl UndefinedBehaviour"
  by (simp add: set_authorization_strategy_def delete_strategy_def attempt_case_closure_def destroy_case_manager_def)

text \<open>A higher rank may close whatever a lower one may; the trigger of the database that decides for
  \<open>SystemManager::closeCase\<close> asks the rank and not the type, so the two rules disagree both ways.\<close>

lemma strategies_ordered:
  "fst (can_close_case ConstableStrategy t) \<Longrightarrow> fst (can_close_case InspectorStrategy t)"
  "fst (can_close_case InspectorStrategy t) \<Longrightarrow> fst (can_close_case SHOStrategy t)"
  by (auto split: if_splits)

theorem closing_rules_disagree:
  assumes "map_of (rg_officers rg) constable = Some CONSTABLE" "map_of (rg_officers rg) inspector = Some INSPECTOR"
  shows "fst (can_close_case ConstableStrategy THEFT) \<and> \<not> may_close rg constable
    \<and> \<not> fst (can_close_case InspectorStrategy MURDER) \<and> may_close rg inspector"
  using assms by (simp add: may_close_def less_eq_officer_rank_def)

end
