(* ===== verification/Accept_Loop.thy ===== *)
theory Accept_Loop
  imports Gateway
begin

text \<open>
  \<open>DomainSocket::acceptLoop\<close> and \<open>DomainSocket::stop\<close> (\<open>os_layer/ipc/src/domain_socket.cpp\<close>) as the two threads
  they are. \<open>Gateway\<close> gives what a client's thread does and what \<open>stop\<close> leaves behind; here are the steps in
  between and whether \<open>stop\<close> ends. What the kernel does when a descriptor is closed under a call that blocks on
  it is a parameter: with \<open>wakes\<close> the call returns, without (as on Linux, \<open>close(2)\<close>) it goes on waiting.
\<close>

section \<open>The two threads\<close>

datatype acceptor =
    Tests            \<comment> \<open>before the condition of the loop\<close>
  | Calls int        \<comment> \<open>has read \<open>server_fd_\<close>, before \<open>accept\<close>\<close>
  | InAccept
  | AcceptFailed
  | Spawns int       \<comment> \<open>has a client, before \<open>pthread_create\<close>\<close>
  | LoopLeft

datatype stopper = NotStopped | FlagCleared | SocketClosed | Joined

text \<open>\<open>al_open\<close>: the listening descriptor, if it is open. \<open>al_done\<close>: the clients taken, and whether each got a
  thread or was closed.\<close>

record accept_state =
  al_gateway :: gateway
  al_open :: "int option"
  al_acceptor :: acceptor
  al_stopper :: stopper
  al_arrived :: "int list"
  al_pending :: "int list"
  al_done :: "(int \<times> bool) list"

definition at :: "acceptor \<Rightarrow> accept_state \<Rightarrow> accept_state" where
  "at p s = s\<lparr>al_acceptor := p\<rparr>"

text \<open>What the threads do themselves.\<close>

inductive accept_step :: "bool \<Rightarrow> accept_state \<Rightarrow> accept_state \<Rightarrow> bool" for wakes where
  acc_enter: "al_acceptor s = Tests \<Longrightarrow> gs_running (al_gateway s) \<Longrightarrow>
    accept_step wakes s (at (Calls (gs_server_fd (al_gateway s))) s)"
| acc_exit: "al_acceptor s = Tests \<Longrightarrow> \<not> gs_running (al_gateway s) \<Longrightarrow> accept_step wakes s (at LoopLeft s)"
| acc_call: "al_acceptor s = Calls fd \<Longrightarrow> al_open s = Some fd \<Longrightarrow> accept_step wakes s (at InAccept s)"
| acc_bad: "al_acceptor s = Calls fd \<Longrightarrow> al_open s \<noteq> Some fd \<Longrightarrow> accept_step wakes s (at AcceptFailed s)"
| acc_client: "al_acceptor s = InAccept \<Longrightarrow> al_pending s = c # cs \<Longrightarrow>
    accept_step wakes s (at (Spawns c) (s\<lparr>al_pending := cs\<rparr>))"
| acc_woken: "al_acceptor s = InAccept \<Longrightarrow> wakes \<Longrightarrow> al_open s = None \<Longrightarrow> accept_step wakes s (at AcceptFailed s)"
| acc_break: "al_acceptor s = AcceptFailed \<Longrightarrow> \<not> gs_running (al_gateway s) \<Longrightarrow> accept_step wakes s (at LoopLeft s)"
| acc_continue: "al_acceptor s = AcceptFailed \<Longrightarrow> gs_running (al_gateway s) \<Longrightarrow> accept_step wakes s (at Tests s)"
| acc_spawn: "al_acceptor s = Spawns c \<Longrightarrow>
    accept_step wakes s (at Tests (s\<lparr>al_done := al_done s @ [(c, created)]\<rparr>))"
| stop_flag: "al_stopper s = NotStopped \<Longrightarrow> gs_running (al_gateway s) \<Longrightarrow>
    accept_step wakes s (s\<lparr>al_gateway := (al_gateway s)\<lparr>gs_running := False\<rparr>, al_stopper := FlagCleared\<rparr>)"
| stop_close: "al_stopper s = FlagCleared \<Longrightarrow>
    accept_step wakes s (s\<lparr>al_gateway := (al_gateway s)\<lparr>gs_server_fd := -1\<rparr>, al_open := None, al_stopper := SocketClosed\<rparr>)"
| stop_join: "al_stopper s = SocketClosed \<Longrightarrow> al_acceptor s = LoopLeft \<Longrightarrow>
    accept_step wakes s (s\<lparr>al_gateway := (al_gateway s)\<lparr>gs_accept_thread := False, gs_file := False\<rparr>, al_stopper := Joined\<rparr>)"

text \<open>What comes from outside: a client connects; the call is interrupted or fails, for want of descriptors,
  say.\<close>

inductive outside_step :: "accept_state \<Rightarrow> accept_state \<Rightarrow> bool" where
  client_connects: "outside_step s (s\<lparr>al_arrived := al_arrived s @ [c], al_pending := al_pending s @ [c]\<rparr>)"
| accept_fails: "al_acceptor s = InAccept \<Longrightarrow> outside_step s (at AcceptFailed s)"

definition gateway_step :: "bool \<Rightarrow> accept_state \<Rightarrow> accept_state \<Rightarrow> bool" where
  "gateway_step wakes s t \<longleftrightarrow> accept_step wakes s t \<or> outside_step s t"

definition started :: "gateway \<Rightarrow> accept_state" where
  "started gs = \<lparr>al_gateway = gs, al_open = Some (gs_server_fd gs), al_acceptor = Tests, al_stopper = NotStopped,
     al_arrived = [], al_pending = [], al_done = []\<rparr>"

section \<open>No client is lost\<close>

fun in_hand :: "acceptor \<Rightarrow> int list" where
  "in_hand (Spawns c) = [c]"
| "in_hand a = []"

definition accept_inv :: "gateway \<Rightarrow> accept_state \<Rightarrow> bool" where
  "accept_inv gs s \<longleftrightarrow>
     al_arrived s = map fst (al_done s) @ in_hand (al_acceptor s) @ al_pending s
     \<and> (case al_stopper s of
          NotStopped \<Rightarrow> al_gateway s = gs \<and> al_open s = Some (gs_server_fd gs) \<and> al_acceptor s \<noteq> LoopLeft
            \<and> (\<forall>fd. al_acceptor s = Calls fd \<longrightarrow> fd = gs_server_fd gs)
        | FlagCleared \<Rightarrow> al_gateway s = gs\<lparr>gs_running := False\<rparr> \<and> al_open s = Some (gs_server_fd gs)
        | SocketClosed \<Rightarrow> al_gateway s = gs\<lparr>gs_running := False, gs_server_fd := -1\<rparr> \<and> al_open s = None
        | Joined \<Rightarrow> gateway_stop True gs = Inr (al_gateway s) \<and> al_open s = None \<and> al_acceptor s = LoopLeft)"

lemma accept_inv_step:
  assumes "gateway_step wakes s t" "accept_inv gs s" "gs_running gs" "0 \<le> gs_server_fd gs"
  shows "accept_inv gs t"
  using assms unfolding gateway_step_def
proof (elim disjE)
  assume "accept_step wakes s t"
  then show ?thesis using assms(2-)
    by cases (auto simp: accept_inv_def at_def gateway_stop_def split: stopper.splits)
next
  assume "outside_step s t"
  then show ?thesis using assms(2-) by cases (auto simp: accept_inv_def at_def split: stopper.splits)
qed

interpretation accepting: invariant_system "\<lambda>s. s = started gs" "gateway_step wakes"
  "\<lambda>s. gs_running gs \<longrightarrow> 0 \<le> gs_server_fd gs \<longrightarrow> accept_inv gs s" for gs wakes
proof unfold_locales
  fix s assume "s = started gs"
  then show "gs_running gs \<longrightarrow> 0 \<le> gs_server_fd gs \<longrightarrow> accept_inv gs s" by (simp add: accept_inv_def started_def)
qed (use accept_inv_step in blast)

section \<open>The waiting client is taken\<close>

text \<open>How many steps of its own the accept thread is away from taking a waiting client.\<close>

fun steps_to_take :: "acceptor \<Rightarrow> nat" where
  "steps_to_take InAccept = 0"
| "steps_to_take (Calls fd) = 1"
| "steps_to_take Tests = 2"
| "steps_to_take AcceptFailed = 3"
| "steps_to_take (Spawns c) = 3"
| "steps_to_take LoopLeft = 4"

definition takes :: "int \<Rightarrow> accept_state \<Rightarrow> accept_state \<Rightarrow> bool" where
  "takes c s t \<longleftrightarrow> al_pending s = c # al_pending t \<and> al_acceptor t = Spawns c"

lemma acceptor_moves:
  assumes "al_stopper s = NotStopped" "accept_inv gs s" "gs_running gs" "al_pending s = c # cs"
  shows "\<exists>t. accept_step wakes s t \<and> al_stopper t = NotStopped"
proof (cases "al_acceptor s")
  case Tests
  with acc_enter [of s wakes] assms show ?thesis by (auto simp: accept_inv_def at_def)
next
  case (Calls fd)
  with acc_call [of s fd wakes] acc_bad [of s fd wakes] assms show ?thesis
    by (cases "al_open s = Some fd") (auto simp: at_def)
next
  case InAccept
  with acc_client [of s c cs wakes] assms show ?thesis by (auto simp: at_def)
next
  case AcceptFailed
  with acc_continue [of s wakes] assms show ?thesis by (auto simp: accept_inv_def at_def)
next
  case (Spawns d)
  with acc_spawn [of s d wakes True] assms(1) show ?thesis by (auto simp: at_def)
next
  case LoopLeft
  with assms show ?thesis by (simp add: accept_inv_def)
qed

lemma acceptor_approaches:
  assumes "accept_step wakes s t" "al_stopper s = NotStopped" "al_stopper t = NotStopped"
    and "accept_inv gs s" "gs_running gs" "al_pending s = c # cs"
  shows "takes c s t \<or> (al_pending t = al_pending s \<and> steps_to_take (al_acceptor t) < steps_to_take (al_acceptor s))"
  using assms by cases (auto simp: takes_def at_def accept_inv_def)

section \<open>Whether stop ends\<close>

text \<open>How many steps are left once the socket is closed.\<close>

definition steps_left :: "accept_state \<Rightarrow> nat" where
  "steps_left s =
     (if al_stopper s = Joined then 0
      else case al_acceptor s of
             LoopLeft \<Rightarrow> 1 | Tests \<Rightarrow> 2 | AcceptFailed \<Rightarrow> 2 | Spawns c \<Rightarrow> 3 | InAccept \<Rightarrow> 4 | Calls fd \<Rightarrow> 5)"

lemma closing_step:
  assumes "accept_step wakes s t" "al_stopper s = SocketClosed" "\<not> gs_running (al_gateway s)" "al_open s = None"
  shows "steps_left t < steps_left s \<and> (al_stopper t = SocketClosed \<or> al_stopper t = Joined)"
  using assms by cases (auto simp: steps_left_def at_def)

lemma closing_moves:
  assumes "al_stopper s = SocketClosed" "\<not> gs_running (al_gateway s)" "al_open s = None"
  shows "(\<exists>t. accept_step wakes s t) \<longleftrightarrow> wakes \<or> al_acceptor s \<noteq> InAccept \<or> al_pending s \<noteq> []"
proof (cases "al_acceptor s")
  case Tests
  with acc_exit [of s wakes] assms show ?thesis by auto
next
  case (Calls fd)
  with acc_bad [of s fd wakes] assms show ?thesis by auto
next
  case InAccept
  with acc_client [of s _ _ wakes] acc_woken [of s wakes] assms show ?thesis
    by (cases "al_pending s") (auto elim: accept_step.cases)
next
  case AcceptFailed
  with acc_break [of s wakes] assms show ?thesis by auto
next
  case (Spawns c)
  with acc_spawn [of s c wakes True] show ?thesis by auto
next
  case LoopLeft
  with stop_join [of s wakes] assms show ?thesis by auto
qed

text \<open>C3 While \<open>stop\<close> has not begun, the accept thread stays in its loop, whatever calls fail or are
  interrupted, and each of its own steps takes the client that waits longest or brings it nearer to that, at most
  three steps away; such a step is always possible. A client it takes gets a thread or is closed; nobody is taken
  twice or out of order. Whoever still waits when \<open>stop\<close> clears the flag may be left waiting for good. When \<open>stop\<close> has
  closed the socket, the two threads have only a bounded number of steps left, and the last of them leaves the
  gateway as \<open>gateway_stop\<close> says; but a step is left only if closing wakes the accept call, the thread is not in it,
  or another client comes.\<close>

theorem gateway_stops:
  assumes "(gateway_step wakes)\<^sup>*\<^sup>* (started gs) s" "gs_running gs" "0 \<le> gs_server_fd gs"
  shows "al_arrived s = map fst (al_done s) @ in_hand (al_acceptor s) @ al_pending s
    \<and> (al_stopper s = NotStopped \<longrightarrow> al_acceptor s \<noteq> LoopLeft
         \<and> (\<forall>c cs. al_pending s = c # cs \<longrightarrow>
              (\<exists>t. accept_step wakes s t \<and> al_stopper t = NotStopped)
              \<and> (\<forall>t. accept_step wakes s t \<and> al_stopper t = NotStopped \<longrightarrow>
                   takes c s t \<or> (al_pending t = al_pending s
                     \<and> steps_to_take (al_acceptor t) < steps_to_take (al_acceptor s)))))
    \<and> (al_stopper s = Joined \<longrightarrow> gateway_stop True gs = Inr (al_gateway s)
         \<and> al_arrived s = map fst (al_done s) @ al_pending s)
    \<and> (al_stopper s = SocketClosed \<longrightarrow>
         (\<forall>t. accept_step wakes s t \<longrightarrow> steps_left t < steps_left s \<and> (al_stopper t = SocketClosed \<or> al_stopper t = Joined))
         \<and> ((\<exists>t. accept_step wakes s t) \<longleftrightarrow> wakes \<or> al_acceptor s \<noteq> InAccept \<or> al_pending s \<noteq> []))"
proof -
  from accepting.reachable_inv [OF refl assms(1)] assms(2,3) have inv: "accept_inv gs s" by blast
  then have arrived: "al_arrived s = map fst (al_done s) @ in_hand (al_acceptor s) @ al_pending s"
    and open_loop: "al_stopper s = NotStopped \<Longrightarrow> al_acceptor s \<noteq> LoopLeft"
    and joined: "al_stopper s = Joined \<Longrightarrow> gateway_stop True gs = Inr (al_gateway s) \<and> al_acceptor s = LoopLeft"
    and closed: "al_stopper s = SocketClosed \<Longrightarrow> \<not> gs_running (al_gateway s)" "al_stopper s = SocketClosed \<Longrightarrow> al_open s = None"
    by (simp_all add: accept_inv_def)
  show ?thesis
  proof (intro conjI impI allI)
    fix c cs assume "al_stopper s = NotStopped" "al_pending s = c # cs"
    then show "\<exists>t. accept_step wakes s t \<and> al_stopper t = NotStopped"
      by (rule acceptor_moves [OF _ inv assms(2)])
  next
    fix c cs t assume "al_stopper s = NotStopped" "al_pending s = c # cs" "accept_step wakes s t \<and> al_stopper t = NotStopped"
    then show "takes c s t \<or> (al_pending t = al_pending s \<and> steps_to_take (al_acceptor t) < steps_to_take (al_acceptor s))"
      using acceptor_approaches [OF _ _ _ inv assms(2)] by blast
  qed (use arrived open_loop joined closing_step [OF _ _ closed] closing_moves [OF _ closed] in auto)
qed

text \<open>Nobody has connected, the thread waits in accept, and \<open>stop\<close> has cleared the flag and closed the socket.\<close>

definition hung :: "gateway \<Rightarrow> accept_state" where
  "hung gs = \<lparr>al_gateway = gs\<lparr>gs_running := False, gs_server_fd := -1\<rparr>, al_open = None, al_acceptor = InAccept,
     al_stopper = SocketClosed, al_arrived = [], al_pending = [], al_done = []\<rparr>"

lemma hung_reached:
  assumes "gs_running gs"
  shows "(gateway_step wakes)\<^sup>*\<^sup>* (started gs) (hung gs)"
proof -
  let ?s1 = "at (Calls (gs_server_fd gs)) (started gs)"
  let ?s2 = "at InAccept ?s1"
  let ?s3 = "?s2\<lparr>al_gateway := gs\<lparr>gs_running := False\<rparr>, al_stopper := FlagCleared\<rparr>"
  have "gateway_step wakes (started gs) ?s1" unfolding gateway_step_def
    using acc_enter [of "started gs" wakes] assms by (simp add: started_def)
  moreover have "gateway_step wakes ?s1 ?s2" unfolding gateway_step_def
    using acc_call [of ?s1 "gs_server_fd gs" wakes] by (simp add: started_def at_def)
  moreover have "gateway_step wakes ?s2 ?s3" unfolding gateway_step_def
    using stop_flag [of ?s2 wakes] assms by (simp add: started_def at_def)
  moreover have "gateway_step wakes ?s3 (hung gs)" unfolding gateway_step_def
    using stop_close [of ?s3 wakes] by (simp add: started_def at_def hung_def)
  ultimately show ?thesis by (meson converse_rtranclp_into_rtranclp r_into_rtranclp)
qed

definition served_gateway :: gateway where
  "served_gateway = \<lparr>gs_path = ''/tmp/s'', gs_server_fd = 3, gs_running = True, gs_accept_thread = True, gs_file = True\<rparr>"

theorem gateway_stops_witness: "\<nexists>t. accept_step False (hung served_gateway) t"
proof -
  have "gs_running served_gateway" by (simp add: served_gateway_def)
  from gateway_stops [OF hung_reached [OF this]] show ?thesis
    by (simp add: served_gateway_def hung_def)
qed

text \<open>The first client that connects wakes the thread and so ends \<open>stop\<close>; until then the caller, which is the
  prompt that was left or a signal handler, waits in \<open>pthread_join\<close>.\<close>

theorem stop_waits_for_a_client:
  assumes "gs_running gs"
  shows "(gateway_step False)\<^sup>*\<^sup>* (started gs) (hung gs) \<and> (\<nexists>t. accept_step False (hung gs) t)
    \<and> (\<exists>s. (gateway_step False)\<^sup>*\<^sup>* (hung gs) s \<and> al_stopper s = Joined)"
proof -
  let ?s0 = "(hung gs)\<lparr>al_arrived := [7], al_pending := [7]\<rparr>"
  let ?s1 = "at (Spawns 7) (?s0\<lparr>al_pending := []\<rparr>)"
  let ?s2 = "at Tests (?s1\<lparr>al_done := [(7, True)]\<rparr>)"
  let ?s3 = "at LoopLeft ?s2"
  let ?s4 = "?s3\<lparr>al_gateway := (al_gateway ?s3)\<lparr>gs_accept_thread := False, gs_file := False\<rparr>, al_stopper := Joined\<rparr>"
  have "gateway_step False (hung gs) ?s0" unfolding gateway_step_def
    using client_connects [of "hung gs" 7] by (simp add: hung_def)
  moreover have "gateway_step False ?s0 ?s1" unfolding gateway_step_def
    using acc_client [of ?s0 7 "[]" False] by (simp add: hung_def)
  moreover have "gateway_step False ?s1 ?s2" unfolding gateway_step_def
    using acc_spawn [of ?s1 7 False True] by (simp add: hung_def at_def)
  moreover have "gateway_step False ?s2 ?s3" unfolding gateway_step_def
    using acc_exit [of ?s2 False] by (simp add: hung_def at_def)
  moreover have "gateway_step False ?s3 ?s4" unfolding gateway_step_def
    using stop_join [of ?s3 False] by (simp add: hung_def at_def)
  ultimately have "(gateway_step False)\<^sup>*\<^sup>* (hung gs) ?s4" by (meson converse_rtranclp_into_rtranclp r_into_rtranclp)
  moreover have "al_stopper ?s4 = Joined" by simp
  moreover have "\<nexists>t. accept_step False (hung gs) t"
    by (subst closing_moves) (simp_all add: hung_def)
  ultimately show ?thesis using hung_reached [OF assms] by blast
qed

end
