(* ===== verification/Daemon_Process.thy ===== *)
theory Daemon_Process
  imports Types_JF
begin

text \<open>
  \<open>Daemon::init\<close> (\<open>os_layer/scheduler/src/daemon.cpp\<close>): a process forks twice, leaves its session, its directory
  and its files, and writes its number to a file. A process is a record of what the calls change; the result is
  the end of the call in each of the processes that come of it. \<open>mlock_guard\<close> (\<open>os_layer/memory/src/mlock_guard.cpp\<close>)
  stands at the end. Nothing in the program calls \<open>Daemon::init\<close>.
\<close>

section \<open>Processes\<close>

text \<open>\<open>pr_files\<close>: the open descriptors with what they are open on; \<open>pr_terminal\<close>: has a controlling terminal.\<close>

record unix_process =
  up_pid :: int
  up_pgid :: int
  up_sid :: int
  up_terminal :: bool
  up_umask :: nat
  up_cwd :: string
  up_files :: "(nat \<times> string) list"

text \<open>What the kernel will answer: the numbers of the children, or no child; the limit of descriptors, or -1.\<close>

record daemon_calls =
  dc_fork1 :: "int option"
  dc_fork2 :: "int option"
  dc_chdir :: bool
  dc_open_max :: int
  dc_dev_null :: bool
  dc_fopen :: bool

datatype daemon_end = Exited | Returned result_code

definition forked :: "int \<Rightarrow> unix_process \<Rightarrow> unix_process" where
  "forked pid p = p\<lparr>up_pid := pid\<rparr>"

definition setsid :: "unix_process \<Rightarrow> unix_process option" where
  "setsid p =
     (if up_pid p = up_pgid p then None
      else Some (p\<lparr>up_sid := up_pid p, up_pgid := up_pid p, up_terminal := False\<rparr>))"

fun close_below :: "nat \<Rightarrow> (nat \<times> string) list \<Rightarrow> (nat \<times> string) list" where
  "close_below 0 fs = fs"
| "close_below (Suc n) fs = AList.delete n (close_below n fs)"

definition lowest_free :: "(nat \<times> string) list \<Rightarrow> nat" where
  "lowest_free fs = hd (filter (\<lambda>n. n \<notin> fst ` set fs) [0..<length fs + 1])"

definition dup2 :: "nat \<Rightarrow> nat \<Rightarrow> (nat \<times> string) list \<Rightarrow> (nat \<times> string) list" where
  "dup2 a b fs = (case map_of fs a of None \<Rightarrow> fs | Some f \<Rightarrow> AList.update b f fs)"

definition DEV_NULL :: string where "DEV_NULL = ''/dev/null''"

text \<open>The three standard descriptors on the null device.\<close>

definition null_standard :: "(nat \<times> string) list \<Rightarrow> (nat \<times> string) list" where
  "null_standard fs =
     (let fd_null = lowest_free fs;
          fs = dup2 fd_null 2 (dup2 fd_null 1 (dup2 fd_null 0 ((fd_null, DEV_NULL) # fs)))
      in if 2 < fd_null then AList.delete fd_null fs else fs)"

definition fd_limit :: "daemon_calls \<Rightarrow> nat" where
  "fd_limit sys = (if dc_open_max sys < 0 then 1024 else nat (dc_open_max sys))"

text \<open>What the second child does: its end, the process it is then, and what it wrote to the file.\<close>

definition daemon_body :: "daemon_calls \<Rightarrow> unix_process \<Rightarrow> unix_process \<times> daemon_end \<times> cstr" where
  "daemon_body sys p =
     (let p = p\<lparr>up_umask := 18\<rparr>   \<comment> \<open>0022\<close>
      in if \<not> dc_chdir sys then (p, Returned FILE_SYSTEM_ERROR, None)
      else
        let p = p\<lparr>up_cwd := ''/''\<rparr>;
            p = p\<lparr>up_files := close_below (fd_limit sys) (up_files p)\<rparr>
        in if \<not> dc_dev_null sys then (p, Returned FILE_SYSTEM_ERROR, None)
           else
             let p = p\<lparr>up_files := null_standard (up_files p)\<rparr>
             in if \<not> dc_fopen sys then (p, Returned FILE_SYSTEM_ERROR, None)
                else (p, Returned OK, Some (show_int (up_pid p) @ [CHR 0x0A])))"

definition daemon_init :: "daemon_calls \<Rightarrow> unix_process \<Rightarrow> (unix_process \<times> daemon_end \<times> cstr) list" where
  "daemon_init sys p =
     (case dc_fork1 sys of
        None \<Rightarrow> [(p, Returned FILE_SYSTEM_ERROR, None)]
      | Some pid1 \<Rightarrow>
          (p, Exited, None) #
          (case setsid (forked pid1 p) of
             None \<Rightarrow> [(forked pid1 p, Returned FILE_SYSTEM_ERROR, None)]
           | Some q \<Rightarrow>
               (case dc_fork2 sys of
                  None \<Rightarrow> [(q, Returned FILE_SYSTEM_ERROR, None)]
                | Some pid2 \<Rightarrow> [(q, Exited, None), daemon_body sys (forked pid2 q)])))"

section \<open>What is left of the process\<close>

lemma map_of_close_below: "map_of (close_below n fs) k = (if k < n then None else map_of fs k)"
  by (induction n) (auto simp: delete_conv')

lemma lowest_free_0: "map_of fs 0 = None \<Longrightarrow> lowest_free fs = 0"
  by (simp add: lowest_free_def upt_conv_Cons map_of_eq_None_iff del: upt_Suc)

lemma map_of_null_standard:
  assumes "map_of fs 0 = None"
  shows "map_of (null_standard fs) k = (if k < 3 then Some DEV_NULL else map_of fs k)"
  using assms by (auto simp: null_standard_def lowest_free_0 dup2_def update_conv')

lemma daemon_body_effect:
  assumes "daemon_body sys p = (q, Returned rc, w)" "0 < fd_limit sys"
  shows "rc = OK \<longleftrightarrow> dc_chdir sys \<and> dc_dev_null sys \<and> dc_fopen sys"
    "up_pid q = up_pid p" "up_sid q = up_sid p" "up_terminal q = up_terminal p" "up_umask q = 18"
    "rc = OK \<Longrightarrow> up_cwd q = ''/'' \<and> w = Some (show_int (up_pid p) @ [CHR 0x0A])
      \<and> map_of (up_files q) k = (if k < 3 then Some DEV_NULL else if k < fd_limit sys then None else map_of (up_files p) k)"
  using assms by (auto simp: daemon_body_def Let_def map_of_null_standard map_of_close_below split: if_splits)

lemma daemon_body_returns: "\<exists>q rc w. daemon_body sys p = (q, Returned rc, w)"
  by (simp add: daemon_body_def Let_def)

text \<open>Of the processes that come of \<open>init\<close> exactly one returns. If it returns OK, it is in a session of
  its own that it does not lead, so that it can get no terminal any more, its directory is the root, its umask
  0022, the file holds its number, and of its descriptors the three standard ones are on the null device, those
  from the limit on are as they were and there is no other.\<close>

theorem daemon_isolated:
  assumes "dc_fork1 sys = Some pid1" "pid1 \<noteq> up_pgid p" "dc_fork2 sys = Some pid2" "pid2 \<noteq> pid1" "0 < fd_limit sys"
  shows "\<exists>p1 q rc w. daemon_init sys p = [(p, Exited, None), (p1, Exited, None), (q, Returned rc, w)]
    \<and> (rc = OK \<longleftrightarrow> dc_chdir sys \<and> dc_dev_null sys \<and> dc_fopen sys)
    \<and> (rc = OK \<longrightarrow> up_pid q = pid2 \<and> up_sid q = pid1 \<and> up_sid q \<noteq> up_pid q \<and> \<not> up_terminal q
         \<and> up_cwd q = ''/'' \<and> up_umask q = 18 \<and> w = Some (show_int pid2 @ [CHR 0x0A])
         \<and> (\<forall>k. map_of (up_files q) k
              = (if k < 3 then Some DEV_NULL else if k < fd_limit sys then None else map_of (up_files p) k)))"
proof -
  let ?p1 = "p\<lparr>up_pid := pid1, up_sid := pid1, up_pgid := pid1, up_terminal := False\<rparr>"
  have s: "setsid (forked pid1 p) = Some ?p1" using assms(2) by (simp add: setsid_def forked_def)
  obtain q rc w where b: "daemon_body sys (forked pid2 ?p1) = (q, Returned rc, w)" using daemon_body_returns by metis
  note effect = daemon_body_effect [OF b assms(5)]
  have "daemon_init sys p = [(p, Exited, None), (?p1, Exited, None), (q, Returned rc, w)]"
    using assms(1,3) s b by (simp add: daemon_init_def)
  moreover have "rc = OK \<longrightarrow> up_pid q = pid2 \<and> up_sid q = pid1 \<and> up_sid q \<noteq> up_pid q \<and> \<not> up_terminal q
         \<and> up_cwd q = ''/'' \<and> up_umask q = 18 \<and> w = Some (show_int pid2 @ [CHR 0x0A])
         \<and> (\<forall>k. map_of (up_files q) k
              = (if k < 3 then Some DEV_NULL else if k < fd_limit sys then None else map_of (up_files p) k))"
    using effect(2-6) assms(4) by (auto simp: forked_def)
  ultimately show ?thesis using effect(1) by blast
qed

lemma one_returns: "length (filter (\<lambda>(q, e, w). e \<noteq> Exited) (daemon_init sys p)) = 1"
  by (simp add: daemon_init_def daemon_body_def Let_def split: option.splits)

definition login_shell :: unix_process where
  "login_shell = \<lparr>up_pid = 500, up_pgid = 500, up_sid = 400, up_terminal = True, up_umask = 2, up_cwd = ''/home'',
     up_files = [(0, ''tty''), (1, ''tty''), (2, ''tty''), (7, ''log''), (2000, ''core'')]\<rparr>"

definition willing_kernel :: daemon_calls where
  "willing_kernel = \<lparr>dc_fork1 = Some 501, dc_fork2 = Some 502, dc_chdir = True, dc_open_max = 1024, dc_dev_null = True,
     dc_fopen = True\<rparr>"

theorem daemon_isolated_witness:
  "\<exists>q w. (q, Returned OK, w) \<in> set (daemon_init willing_kernel login_shell) \<and> \<not> up_terminal q
    \<and> map_of (up_files q) 7 = None \<and> map_of (up_files q) 2000 = Some ''core''"
proof -
  have "dc_fork1 willing_kernel = Some 501" "501 \<noteq> up_pgid login_shell" "dc_fork2 willing_kernel = Some 502" "(502::int) \<noteq> 501"
    "fd_limit willing_kernel = 1024" "0 < fd_limit willing_kernel"
    by (simp_all add: willing_kernel_def login_shell_def fd_limit_def)
  from daemon_isolated [OF this(1-4,6)] this(5) show ?thesis
    by (fastforce simp: willing_kernel_def login_shell_def)
qed

section \<open>mlock_guard\<close>

text \<open>The bytes of the buffer and whether they are pinned; a failure of \<open>mlock\<close> is a warning only.\<close>

record pinned_buffer =
  pb_bytes :: "char list"
  pb_pinned :: bool

definition pin_buffer :: "bool \<Rightarrow> char list \<Rightarrow> pinned_buffer \<times> cstr" where
  "pin_buffer mlock_ok bytes =
     (\<lparr>pb_bytes = bytes, pb_pinned = mlock_ok\<rparr>,
      if mlock_ok then None else Some ''[Memory] Warning: mlock failed. Check RLIMIT_MEMLOCK limits.'')"

definition unpin_buffer :: "pinned_buffer \<Rightarrow> pinned_buffer" where
  "unpin_buffer b = b\<lparr>pb_bytes := replicate (length (pb_bytes b)) NUL, pb_pinned := False\<rparr>"

text \<open>Whatever was written to the buffer while it was pinned, and whether it could be pinned or not, nothing of it is
  left.\<close>

lemma unpinned_is_zero: "set (pb_bytes (unpin_buffer b)) \<subseteq> {NUL}" "length (pb_bytes (unpin_buffer b)) = length (pb_bytes b)"
  by (auto simp: unpin_buffer_def)

end
