(* ===== verification/Spec2Isabelle.thy ===== *)
theory Spec2Isabelle
  imports Auth Thread_Pool Worker Scheduler Enforcement Gateway Investigation System_Manager Forensic_Lab Audit_Manager Enforcement_Facade System_Facades Status_Table Db_Config Main_Process Shared_Sessions Observers Accept_Loop Daemon_Process
begin

text \<open>
  JusticeFlow is a police records server in C++: it offers a command line, a pool of worker threads for
  its clients and a gateway for a dashboard, and keeps arrests, warrants, bail, cases, investigations and
  forensic requests in PostgreSQL. This development models the program in layers and proves what each
  layer does. Source paths are relative to \<open>src/src\<close> of the repository, unless they begin with \<open>src/\<close>.

  \<^bold>\<open>How the parts interact.\<close> \<open>os_layer\<close> holds the process: the scheduler loop starts jobs and children, the
  thread pool hands connections to workers, each worker reads frames and sends queries over the one
  connection of the process, which a mutex guards, and the gateway answers the dashboard. \<open>system\<close>
  holds the law: \<open>AuthManager\<close> decides who a session is, three subsystems do the work, and
  \<open>SystemManager\<close> joins them behind facades. \<open>main.cpp\<close> starts the manager, the gateway and the command line
  of \<open>interface/cli.cpp\<close>, which calls the facades.

  \<^bold>\<open>Theories.\<close>
  \<^item> \<open>Prelude_JF\<close>: the result type of C++ code (\<open>run\<close>: a fault, that is an exception, an endless wait or
    undefined behaviour, or a value), C strings, decimal texts, finite maps as lists, and the locales
    \<open>invariant_system\<close> and \<open>simulation\<close>, which the step relations below interpret.
  \<^item> \<open>Types_JF\<close>, \<open>Case_Types\<close>, \<open>Cxx_Numbers\<close>, \<open>Calendar\<close>: enumerations and structures of
    \<open>common/constants.h\<close> and \<open>common/common.h\<close>, and what the code uses of the C and C++ libraries.
  \<^item> \<open>Db_Socket\<close>: \<open>UnixSocket\<close> and the database members of \<open>IpcManager\<close> (\<open>os_layer/ipc\<close>); libpq is a
    record of functions, a parameter. The locale \<open>query_service\<close> is what its clients rely on.
  \<^item> \<open>Db_Config\<close>: \<open>common/dbconfig.h\<close> and the connection texts made of it.
  \<^item> \<open>Auth\<close>: session store, duty cache, token generator and \<open>AuthManager\<close> (\<open>system/shr_infra/auth\<close>);
    \<open>Shared_Sessions\<close>: the read-write locks of \<open>sync.cpp\<close> and the session store under any number of threads.
  \<^item> \<open>Thread_Pool\<close>: ring buffer, pool, guards, session registry and connection gate
    (\<open>os_layer/threading\<close>); the threads are an inductive step relation over all interleavings.
  \<^item> \<open>Worker\<close>: frames, the binary result format and the request loop of a connection (\<open>worker.cpp\<close>).
  \<^item> \<open>Process_Mgmt\<close>, \<open>Scheduler\<close>: children, jobs, timer, signals and the drain at shutdown;
    \<open>Status_Table\<close>: FIFOs, shared memory and the observer that copies the messages of agents;
    \<open>Daemon_Process\<close>: \<open>Daemon::init\<close> and \<open>mlock_guard\<close>.
  \<^item> \<open>Json_Codec\<close>, \<open>Gateway\<close>, \<open>Accept_Loop\<close>: \<open>socket_request.cpp\<close> and \<open>domain_socket.cpp\<close>, the protocol, the
    handlers of the dashboard, and the accept thread against \<open>stop\<close>.
  \<^item> \<open>Enforcement_Db\<close>, \<open>Arrest\<close>, \<open>Warrant\<close>, \<open>Bail\<close>, \<open>Enforcement\<close>: the three managers of
    \<open>subsystem3/enforcement\<close>, their statements on tables, and all of them together as a system.
  \<^item> \<open>Forensic_Db\<close>, \<open>Forensic\<close>, \<open>Forensic_Lab\<close>: \<open>subsystem3/forensic\<close> behind \<open>Subsystem3\<close>, its statements
    and triggers, the mutex it takes, and the life of a request.
  \<^item> \<open>Audit_Log\<close>, \<open>Audit_Manager\<close>: \<open>subsystem3/audit\<close>, what its five statements select and the read-only
    connection they run on.
  \<^item> \<open>Memory\<close>, \<open>Investigation\<close>: \<open>MmapHandler\<close> and subsystem 2, its entities, controllers and facade.
  \<^item> \<open>Personnel\<close>, \<open>Observers\<close>: subsystem 1, duties and personnel up to their facades, and the patterns beside
    them, which nothing uses: observers of evidence, closing strategies, \<open>CaseManager\<close>.
  \<^item> \<open>Case_Db\<close>, \<open>Case_Facade\<close>, \<open>System_Manager\<close>, \<open>Enforcement_Facade\<close>, \<open>System_Facades\<close>: the facades, the
    adapters, the life cycle and the authentication of \<open>system/system.cpp\<close>.
  \<^item> \<open>Command_Args\<close>, \<open>Command_Line\<close>, \<open>Command_Gate\<close>, \<open>Command_Answers\<close>: \<open>interface/cli.cpp\<close>, its words, its
    handlers and loop, and what holds of a session at the prompt.
  \<^item> \<open>Main_Process\<close>: \<open>Logger\<close>, \<open>ApiGateway\<close> and \<open>main.cpp\<close>, from the arguments to the exit code.

  \<^bold>\<open>How a definition corresponds to the code.\<close> An operation is one function of the same name, with the state
  it changes as its last argument and the new state as its last result; a class is a record of its
  members. An out parameter is a result, and comes in as an argument where it keeps its value on failure.
  Return codes are the constructors of \<open>result_code\<close>. A text a program formats into a buffer is cut
  as \<open>snprintf\<close> cuts it. Machine integers are words where the code computes with them (frames, bytes of
  tokens, counters) and \<open>int\<close> where it only passes them on. \<open>now\<close> is \<open>time(nullptr)\<close>, one value
  for a call; where a call keeps the results of several readings (the submission of a charge sheet) each is a value
  of its own. What C code reads of a \<open>std::string\<close> ends at the first NUL (\<open>c_str\<close>).

  \<^bold>\<open>What is a parameter.\<close> The database: \<open>lib\<close> (libpq), \<open>exec\<close> (a query of the process), \<open>pq\<close> (a prepared
  statement on a connection). The managers are proved over any such function where a law of it is
  enough (the locales \<open>custody_backend\<close> and \<open>live_custody_backend\<close>), and over tables otherwise; there
  every statement may fail, as \<open>db_fails\<close>, \<open>rg_fails\<close> or \<open>fd_fails\<close> decides, and the tables
  have the columns the SQL texts name, since the schema of the repository differs from them. The
  kernel: files, children, mappings, FIFOs, shared memory and sockets are records of what it will answer, and
  whether closing a socket wakes a call that waits on it. How libpq reads a connection text (\<open>parse\<close>). The audit
  log is the one \<open>audit_query.h\<close> describes; who writes it is outside, and whether the schema of a server has the names
  the five statements use is a field of its session, the schema under \<open>src/db/schema\<close> having few of them. The shared segment is followed from
  one process. The texts of exceptions, the local time and what is typed at the prompt. Memory after it was
  freed: \<open>freed\<close> gives what a read of it yields, and the properties that assume the old value say so
  (\<open>reads_old\<close>).

  \<^bold>\<open>What may wait for ever.\<close> A read from a socket whose peer is connected and silent (\<open>Silence\<close> in \<open>Worker\<close>, shared
  by \<open>Gateway\<close>), a task of the pool (\<open>ends\<close> says which tasks return), a statement sent while the mutex of the
  connection is left locked (also inside the write lock of the session store), and the join of the accept thread
  (\<open>accept_ends\<close> in \<open>Gateway\<close> and \<open>Main_Process\<close>, explained by \<open>Accept_Loop\<close>): each is a branch of the model that
  gives \<open>BlocksForever\<close> or leaves the thread where it is, and the theorems on termination name it.

  \<^bold>\<open>What the lemmas show.\<close> Each component has its invariant and the lemma that every operation keeps it
  (sessions, queue, custody and warrant tables, case registry, request tables, file mappings, facades);
  the tables of arrests, warrants, cases, charge sheets and forensic requests refine small machines;
  the threads of the pool, of the session store and of the gateway are followed over all interleavings;
  the command line reaches the tables only behind a session; the codecs have their round trips; the
  handlers are decided on every branch; and where the code does not do what it means to, a theorem states what it does (the duty check that waits for its own mutex,
  the rank check that refuses every inspector, text read after it was freed, the lock that is never
  released, the shutdown that waits for one more client, statements injected through a report).

  \<^bold>\<open>Bounds and termination.\<close> Loops that read until a peer stops are given the peer's bytes as a list
  and recurse over it; the drain and the reaping loops have a measure and are proved to end; the queue
  holds \<open>QUEUE_CAPACITY\<close> entries and the gate \<open>DEFAULT_MAX_CONNECTIONS\<close> clients, as in the sources. No definition
  runs on fuel that a theorem does not bound.

  \<^bold>\<open>Not modelled.\<close> Constructors and destructors of the synchronisation primitives and of \<open>SharedMemory\<close>, and
  \<open>Fifo::destroy\<close>, which only make or release what the process holds; the mutex, the clock and the destructor of
  the logger; twenty-three handlers of \<open>cli.cpp\<close> that no command reaches, each a constant text; the members of
  \<open>Subsystem2\<close> that log and forward; the umbrella headers and two empty classes of the API gateway; structures
  of \<open>common.h\<close> that no operation uses; the Python agents, the dashboard, the SQL schema beyond what the
  statements of the code need, the data generator and the tests.
\<close>

end
